(* ===== verification/Prelude.thy ===== *)
theory Prelude
  imports Main "HOL-Library.Word" "HOL-Library.AList"
begin

text \<open>
  Shared vocabulary of the relayer development: machine integers with Rust's saturating
  operations, the two clocks, the standard library's hash map and ordered map as association
  lists, and the interfaces (locales) several components implement.

  \<^item> A \<^verbatim>\<open>HashMap\<close> is an association list with distinct keys. The list order stands for the
    iteration order, which Rust leaves unspecified: theorems quantify over all such lists.
  \<^item> A \<^verbatim>\<open>BTreeMap\<close> is an association list with strictly ascending keys.
  \<^item> \<^verbatim>\<open>Instant\<close> and \<^verbatim>\<open>Duration\<close> are natural numbers of nanoseconds;
    \<^verbatim>\<open>duration_since\<close> saturates at zero, which is subtraction on \<^typ>\<open>nat\<close>.
\<close>

section \<open>Collections of rewrite rules\<close>

named_theorems hm_simps \<open>lookups, sizes and key sets of the map operations\<close>
named_theorems pool_defs \<open>definitions of the vote pool that proofs unfold\<close>

section \<open>Names of the model's types\<close>

type_synonym u8 = "8 word"
type_synonym u32 = "32 word"
type_synonym u64 = "64 word"
type_synonym u256 = "256 word"
type_synonym b256 = "256 word"
type_synonym address = "160 word"
type_synonym bytes = "8 word list"
type_synonym instant = nat
type_synonym duration = nat
type_synonym ('k, 'v) hash_map = "('k \<times> 'v) list"
type_synonym ('k, 'v) btree_map = "('k \<times> 'v) list"

section \<open>Time\<close>

definition secs :: "nat \<Rightarrow> duration" where
  "secs n = n * 1000000000"

definition as_secs :: "duration \<Rightarrow> nat" where
  "as_secs d = d div 1000000000"

lemma as_secs_secs [simp]: "as_secs (secs n) = n"
  by (simp add: as_secs_def secs_def)

lemma secs_mono [simp]: "secs a \<le> secs b \<longleftrightarrow> a \<le> b"
  by (simp add: secs_def)

lemma secs_less [simp]: "secs a < secs b \<longleftrightarrow> a < b"
  by (simp add: secs_def)

lemma secs_0 [simp]: "secs 0 = 0"
  by (simp add: secs_def)

lemma secs_add: "secs (a + b) = secs a + secs b"
  by (simp add: secs_def algebra_simps)

section \<open>Saturating arithmetic on machine words\<close>

definition sat_add :: "'a::len word \<Rightarrow> 'a word \<Rightarrow> 'a word" where
  "sat_add a b = (if unat a + unat b < 2 ^ LENGTH('a) then a + b else - 1)"

definition sat_sub :: "'a::len word \<Rightarrow> 'a word \<Rightarrow> 'a word" where
  "sat_sub a b = (if a < b then 0 else a - b)"

definition sat_mul :: "'a::len word \<Rightarrow> 'a word \<Rightarrow> 'a word" where
  "sat_mul a b = (if unat a * unat b < 2 ^ LENGTH('a) then a * b else - 1)"

lemma unat_sat_add:
  "unat (sat_add a b) = min (unat a + unat b) (2 ^ LENGTH('a) - 1)" for a b :: "'a::len word"
proof (cases "unat a + unat b < 2 ^ LENGTH('a)")
  case True
  then show ?thesis by (simp add: sat_add_def unat_word_ariths)
next
  case False
  then show ?thesis by (simp add: sat_add_def unsigned_minus_1_eq_mask mask_eq_exp_minus_1)
qed

lemma unat_sat_sub: "unat (sat_sub a b) = unat a - unat b"
  by (simp add: sat_sub_def word_less_nat_alt unat_sub_if')

lemma unat_sat_mul:
  "unat (sat_mul a b) = min (unat a * unat b) (2 ^ LENGTH('a) - 1)" for a b :: "'a::len word"
proof (cases "unat a * unat b < 2 ^ LENGTH('a)")
  case True
  then show ?thesis by (simp add: sat_mul_def unat_word_ariths)
next
  case False
  then show ?thesis by (simp add: sat_mul_def unsigned_minus_1_eq_mask mask_eq_exp_minus_1)
qed

text \<open>\<^verbatim>\<open>U256::saturating_to::<u64>\<close>.\<close>

definition sat_to_u64 :: "256 word \<Rightarrow> 64 word" where
  "sat_to_u64 x = (if unat x < 2 ^ 64 then ucast x else - 1)"

lemma unat_sat_to_u64: "unat (sat_to_u64 x) = min (unat x) (2 ^ 64 - 1)"
  by (auto simp: sat_to_u64_def unsigned_ucast_eq take_bit_eq_mod unsigned_minus_1_eq_mask mask_eq_exp_minus_1)

lemmas unat_sat = unat_sat_add unat_sat_sub unat_sat_mul

lemma sat_add_ge: "a \<le> sat_add a b" for a :: "'a::len word"
proof -
  have "unat a < 2 ^ LENGTH('a)" by (rule unsigned_less)
  then have "unat a \<le> 2 ^ LENGTH('a) - 1" by linarith
  then show ?thesis by (simp add: word_le_nat_alt unat_sat_add)
qed

lemma sat_sub_le: "sat_sub a b \<le> a"
  by (simp add: word_le_nat_alt unat_sat_sub)

lemma unat_succ: "(x :: u64) < y \<Longrightarrow> unat (x + 1) = unat x + 1"
proof -
  assume "x < y"
  moreover have "unat y < 2 ^ LENGTH(64)" by (rule unsigned_less)
  ultimately show ?thesis by (simp add: unat_word_ariths word_less_nat_alt)
qed

lemma succ_le_less: "(x :: u64) < y \<Longrightarrow> x + 1 \<le> z \<longleftrightarrow> x < z"
  by (auto simp: unat_succ word_le_nat_alt word_less_nat_alt)

section \<open>Big-endian byte strings\<close>

definition be_nat :: "bytes \<Rightarrow> nat" where
  "be_nat bs = foldl (\<lambda>acc b. acc * 256 + unat b) 0 bs"

lemma be_nat_Nil [simp]: "be_nat [] = 0"
  by (simp add: be_nat_def)

lemma be_nat_snoc [simp]: "be_nat (bs @ [b]) = be_nat bs * 256 + unat b"
  by (simp add: be_nat_def)

lemma be_nat_zeros [simp]: "be_nat (replicate n 0) = 0"
  by (induction n) (simp_all add: replicate_append_same [symmetric])

lemma be_nat_bound: "be_nat bs < 256 ^ length bs"
proof (induction bs rule: rev_induct)
  case Nil
  then show ?case by simp
next
  case (snoc b bs)
  have "unat b < 256" using unsigned_less [of b] by simp
  with snoc have "be_nat bs * 256 + unat b < (be_nat bs + 1) * 256" by simp
  also have "\<dots> \<le> 256 ^ length bs * 256" using snoc by simp
  finally show ?case by simp
qed

section \<open>The map interface\<close>

text \<open>
  What a component relies on when it keeps a map: lookups after an insert or a removal, and
  that both keep the representation invariant.
\<close>

locale map_impl =
  fixes lookup :: "'m \<Rightarrow> 'k \<Rightarrow> 'v option"
    and insert :: "'k \<Rightarrow> 'v \<Rightarrow> 'm \<Rightarrow> 'm"
    and remove :: "'k \<Rightarrow> 'm \<Rightarrow> 'm"
    and invar :: "'m \<Rightarrow> bool"
  assumes lookup_insert: "invar m \<Longrightarrow> lookup (insert k v m) = (lookup m)(k \<mapsto> v)"
    and lookup_remove: "invar m \<Longrightarrow> lookup (remove k m) = (lookup m)(k := None)"
    and invar_insert: "invar m \<Longrightarrow> invar (insert k v m)"
    and invar_remove: "invar m \<Longrightarrow> invar (remove k m)"
begin

lemma insert_insert_lookup:
  "invar m \<Longrightarrow> lookup (insert k v (insert k w m)) = lookup (insert k v m)"
  by (simp add: lookup_insert invar_insert)

lemma remove_insert_lookup:
  "invar m \<Longrightarrow> lookup m k = None \<Longrightarrow> lookup (remove k (insert k v m)) = lookup m"
  by (auto simp: lookup_insert lookup_remove invar_insert)

lemma fold_insert:
  "invar m \<Longrightarrow> invar (fold (\<lambda>(k, v). insert k v) kvs m)
    \<and> lookup (fold (\<lambda>(k, v). insert k v) kvs m) = lookup m ++ map_of (rev kvs)"
  by (induction kvs arbitrary: m)
    (auto simp: lookup_insert invar_insert map_add_def fun_eq_iff split: option.splits)

end

subsection \<open>HashMap\<close>

abbreviation hm_get :: "('k, 'v) hash_map \<Rightarrow> 'k \<Rightarrow> 'v option" where
  "hm_get \<equiv> map_of"

abbreviation hm_keys :: "('k, 'v) hash_map \<Rightarrow> 'k list" where
  "hm_keys m \<equiv> map fst m"

abbreviation hm_insert :: "'k \<Rightarrow> 'v \<Rightarrow> ('k, 'v) hash_map \<Rightarrow> ('k, 'v) hash_map" where
  "hm_insert \<equiv> AList.update"

abbreviation hm_remove :: "'k \<Rightarrow> ('k, 'v) hash_map \<Rightarrow> ('k, 'v) hash_map" where
  "hm_remove \<equiv> AList.delete"

definition hm_ok :: "('k, 'v) hash_map \<Rightarrow> bool" where
  "hm_ok m \<longleftrightarrow> distinct (map fst m)"

text \<open>\<^verbatim>\<open>get_mut\<close> followed by a mutation; \<^verbatim>\<open>values_mut\<close>; \<^verbatim>\<open>retain\<close>.\<close>

definition hm_modify :: "'k \<Rightarrow> ('v \<Rightarrow> 'v) \<Rightarrow> ('k, 'v) hash_map \<Rightarrow> ('k, 'v) hash_map" where
  "hm_modify k f m = map (\<lambda>(a, b). (a, if a = k then f b else b)) m"

definition hm_map_values :: "('v \<Rightarrow> 'w) \<Rightarrow> ('k, 'v) hash_map \<Rightarrow> ('k, 'w) hash_map" where
  "hm_map_values f m = map (\<lambda>(a, b). (a, f b)) m"

definition hm_retain :: "('k \<Rightarrow> 'v \<Rightarrow> bool) \<Rightarrow> ('k, 'v) hash_map \<Rightarrow> ('k, 'v) hash_map" where
  "hm_retain P m = filter (\<lambda>(a, b). P a b) m"

interpretation hash: map_impl map_of AList.update AList.delete hm_ok
  by unfold_locales (auto simp: hm_ok_def update_conv' delete_conv' intro: distinct_update distinct_delete)

lemma hm_ok_Nil [simp]: "hm_ok []"
  by (simp add: hm_ok_def)

lemma hm_keys_modify [simp, hm_simps]: "map fst (hm_modify k f m) = map fst m"
  by (induction m) (auto simp: hm_modify_def)

lemma hm_length_modify [simp, hm_simps]: "length (hm_modify k f m) = length m"
  by (simp add: hm_modify_def)

lemma hm_ok_modify [simp, hm_simps]: "hm_ok (hm_modify k f m) = hm_ok m"
  by (simp add: hm_ok_def)

lemma hm_get_modify [hm_simps]:
  "map_of (hm_modify k f m) x = (if x = k then map_option f (map_of m k) else map_of m x)"
  by (induction m) (auto simp: hm_modify_def)

lemma hm_modify_modify: "hm_modify k f (hm_modify k g m) = hm_modify k (f \<circ> g) m"
  by (induction m) (auto simp: hm_modify_def)

lemma hm_modify_id: "map_of m k = None \<Longrightarrow> hm_modify k f m = m"
  by (induction m) (auto simp: hm_modify_def split: if_splits)

lemma hm_keys_map_values [simp, hm_simps]: "map fst (hm_map_values f m) = map fst m"
  by (induction m) (auto simp: hm_map_values_def)

lemma hm_get_map_values [hm_simps]: "map_of (hm_map_values f m) x = map_option f (map_of m x)"
  by (induction m) (auto simp: hm_map_values_def)

lemma hm_length_map_values [simp, hm_simps]: "length (hm_map_values f m) = length m"
  by (simp add: hm_map_values_def)

lemma hm_keys_retain: "map fst (hm_retain P m) = map fst (filter (\<lambda>(a, b). P a b) m)"
  by (simp add: hm_retain_def)

lemma hm_ok_retain [simp]: "hm_ok m \<Longrightarrow> hm_ok (hm_retain P m)"
  by (induction m) (auto simp: hm_ok_def hm_retain_def)

lemma hm_get_retain [hm_simps]:
  "hm_ok m \<Longrightarrow> map_of (hm_retain P m) x =
     (case map_of m x of None \<Rightarrow> None | Some v \<Rightarrow> if P x v then Some v else None)"
proof (induction m)
  case Nil
  then show ?case by (simp add: hm_retain_def)
next
  case (Cons p m)
  obtain a b where p: "p = (a, b)" by force
  from Cons.prems have ok: "hm_ok m" and fresh: "map_of m a = None"
    by (auto simp: hm_ok_def p map_of_eq_None_iff)
  from Cons.IH [OF ok] fresh show ?case
    by (auto simp: hm_retain_def p split: option.splits)
qed

lemma hm_length_retain: "length (hm_retain P m) \<le> length m"
  by (simp add: hm_retain_def)

lemma hm_get_in_set: "map_of m k = Some v \<Longrightarrow> (k, v) \<in> set m"
  by (rule map_of_SomeD)

lemma hm_get_iff: "hm_ok m \<Longrightarrow> map_of m k = Some v \<longleftrightarrow> (k, v) \<in> set m"
  by (simp add: hm_ok_def)

lemma hm_length_insert [hm_simps]:
  "length (AList.update k v m) = (if k \<in> fst ` set m then length m else Suc (length m))"
  by (induction m) auto

lemma hm_insert_fresh: "map_of m k = None \<Longrightarrow> AList.update k v m = m @ [(k, v)]"
  by (induction m) (auto split: if_splits)

lemma hm_keys_insert: "set (map fst (AList.update k v m)) = Set.insert k (set (map fst m))"
  using dom_update [of k v m] by (simp add: dom_map_of_conv_image_fst)

lemma hm_set_remove: "set (map fst (AList.delete k m)) = set (map fst m) - {k}"
  by (simp add: delete_keys)

lemma set_delete_sub: "set (AList.delete k m) = {e \<in> set m. fst e \<noteq> k}"
  by (auto simp: AList.delete_eq)

lemma length_delete_less: "k \<in> set (map fst m) \<Longrightarrow> length (AList.delete k m) < length m"
proof (induction m)
  case Nil
  then show ?case by simp
next
  case (Cons p m)
  then show ?case
    by (cases "fst p = k") (auto simp: less_Suc_eq_le length_delete_le)
qed

lemma hm_length_remove:
  "hm_ok m \<Longrightarrow> k \<in> set (map fst m) \<Longrightarrow> Suc (length (AList.delete k m)) = length m"
proof (induction m)
  case Nil
  then show ?case by simp
next
  case (Cons p m)
  show ?case
  proof (cases "fst p = k")
    case True
    with Cons.prems(1) have "k \<notin> set (map fst m)" by (auto simp: hm_ok_def)
    then have "AList.delete k m = m" by (simp add: delete_id)
    with True show ?thesis by simp
  next
    case False
    with Cons show ?thesis by (auto simp: hm_ok_def)
  qed
qed

subsection \<open>BTreeMap\<close>

fun bt_insert :: "'k::linorder \<Rightarrow> 'v \<Rightarrow> ('k, 'v) btree_map \<Rightarrow> ('k, 'v) btree_map" where
  "bt_insert k v [] = [(k, v)]"
| "bt_insert k v (e # m) =
     (if k = fst e then (k, v) # m
      else if k < fst e then (k, v) # e # m
      else e # bt_insert k v m)"

definition bt_ok :: "('k::linorder, 'v) btree_map \<Rightarrow> bool" where
  "bt_ok m \<longleftrightarrow> sorted_wrt (<) (map fst m)"

lemma bt_ok_Nil [simp]: "bt_ok []"
  by (simp add: bt_ok_def)

lemma bt_keys_insert: "fst ` set (bt_insert k v m) = Set.insert k (fst ` set m)"
  by (induction m) auto

lemma bt_ok_insert [simp]: "bt_ok m \<Longrightarrow> bt_ok (bt_insert k v m)"
proof (induction m)
  case Nil
  then show ?case by (simp add: bt_ok_def)
next
  case (Cons e m)
  have "\<forall>x \<in> fst ` set (bt_insert k v m). k > fst e \<longrightarrow> fst e < x"
    using Cons.prems by (auto simp: bt_keys_insert bt_ok_def)
  with Cons show ?case by (fastforce simp: bt_ok_def)
qed

lemma bt_distinct: "bt_ok m \<Longrightarrow> distinct (map fst m)"
  by (simp add: bt_ok_def strict_sorted_iff)

lemma bt_lookup_insert: "bt_ok m \<Longrightarrow> map_of (bt_insert k v m) = (map_of m)(k \<mapsto> v)"
proof (induction m)
  case Nil
  then show ?case by simp
next
  case (Cons e m)
  then show ?case by (cases e) (auto simp: bt_ok_def fun_eq_iff)
qed

lemma bt_ok_filter [simp]: "bt_ok m \<Longrightarrow> bt_ok (filter P m)"
  by (simp add: bt_ok_def sorted_wrt_map sorted_wrt_filter)

lemma bt_ok_delete [simp]: "bt_ok m \<Longrightarrow> bt_ok (AList.delete k m)"
  by (simp add: AList.delete_eq)

interpretation btree: map_impl map_of bt_insert AList.delete bt_ok
  by unfold_locales (auto simp: bt_lookup_insert delete_conv')

lemma bt_length_insert:
  "bt_ok m \<Longrightarrow> length (bt_insert k v m) = (if k \<in> fst ` set m then length m else Suc (length m))"
proof -
  assume ok: "bt_ok m"
  then have "distinct (map fst (bt_insert k v m))" and "distinct (map fst m)"
    by (auto intro: bt_distinct)
  then have "length (bt_insert k v m) = card (fst ` set (bt_insert k v m))"
    and "length m = card (fst ` set m)"
    by (metis distinct_card length_map list.set_map)+
  then show ?thesis by (simp add: bt_keys_insert card_insert_if)
qed

lemma bt_get_iff: "bt_ok m \<Longrightarrow> map_of m k = Some v \<longleftrightarrow> (k, v) \<in> set m"
  by (simp add: bt_distinct)

lemma bt_set_insert:
  "bt_ok m \<Longrightarrow> set (bt_insert k v m) = Set.insert (k, v) {e \<in> set m. fst e \<noteq> k}"
  by (auto simp flip: bt_get_iff bt_get_iff [OF bt_ok_insert] simp: bt_lookup_insert split: if_splits)

section \<open>Iterators and options\<close>

text \<open>\<^verbatim>\<open>Option::or\<close> and \<^verbatim>\<open>Option::is_none_or\<close>.\<close>

definition option_or :: "'a option \<Rightarrow> 'a option \<Rightarrow> 'a option" where
  "option_or a b = (case a of None \<Rightarrow> b | Some x \<Rightarrow> Some x)"

definition is_none_or :: "('a \<Rightarrow> bool) \<Rightarrow> 'a option \<Rightarrow> bool" where
  "is_none_or P x = (case x of None \<Rightarrow> True | Some v \<Rightarrow> P v)"

text \<open>\<^verbatim>\<open>Iterator::min_by_key\<close>: the first of the minimal elements.\<close>

fun min_by_key :: "('a \<Rightarrow> 'b::linorder) \<Rightarrow> 'a list \<Rightarrow> 'a option" where
  "min_by_key f [] = None"
| "min_by_key f (x # xs) =
     (case min_by_key f xs of None \<Rightarrow> Some x | Some y \<Rightarrow> Some (if f y < f x then y else x))"

lemma min_by_key_in: "min_by_key f xs = Some x \<Longrightarrow> x \<in> set xs"
  by (induction xs arbitrary: x) (auto split: option.splits if_splits)

lemma min_by_key_None [simp]: "min_by_key f xs = None \<longleftrightarrow> xs = []"
  by (cases xs) (auto split: option.splits)

lemma min_by_key_le: "min_by_key f xs = Some x \<Longrightarrow> y \<in> set xs \<Longrightarrow> f x \<le> f y"
  by (induction xs arbitrary: x) (fastforce split: option.splits if_splits)+

section \<open>Backoff schedules\<close>

text \<open>
  A retry schedule: the delay after the \<open>n\<close>-th failure never shrinks, stays between a floor and
  a cap, and reaches the cap after \<open>sat\<close> failures.
\<close>

locale backoff =
  fixes delay :: "nat \<Rightarrow> duration" and lo hi :: duration and sat :: nat
  assumes delay_mono: "a \<le> b \<Longrightarrow> delay a \<le> delay b"
    and delay_lo: "lo \<le> delay a"
    and delay_sat: "sat \<le> a \<Longrightarrow> delay a = hi"
begin

lemma delay_hi: "delay a \<le> hi"
  by (metis delay_mono delay_sat nat_le_linear)

lemma total_wait_ge: "n * lo \<le> (\<Sum>i<n. delay i)"
  using sum_mono [of "{..<n}" "\<lambda>_. lo" delay] by (simp add: delay_lo)

lemma total_wait_le: "(\<Sum>i<n. delay i) \<le> n * hi"
  using sum_mono [of "{..<n}" delay "\<lambda>_. hi"] by (simp add: delay_hi)

lemma rounds_within_window:
  assumes "(\<Sum>i<n. delay i) \<le> window"
  shows "n * lo \<le> window"
  using assms total_wait_ge [of n] by simp

end

text \<open>
  Doubling from a base up to a cap is such a schedule, whatever the shift at which the source
  stops doubling, provided the cap is reached there.
\<close>

definition doubling :: "duration \<Rightarrow> duration \<Rightarrow> nat \<Rightarrow> nat \<Rightarrow> duration" where
  "doubling base cap max_shift n = min (base * 2 ^ min n max_shift) cap"

lemma doubling_mono: "a \<le> b \<Longrightarrow> doubling base cap k a \<le> doubling base cap k b"
  by (simp add: doubling_def min.coboundedI1 mult_le_mono power_increasing min_le_iff_disj)

lemma doubling_lo: "base \<le> cap \<Longrightarrow> base \<le> doubling base cap k n"
  by (simp add: doubling_def)

lemma doubling_sat:
  assumes "cap \<le> base * 2 ^ s" and "s \<le> k" and "s \<le> n"
  shows "doubling base cap k n = cap"
proof -
  have "base * 2 ^ s \<le> base * 2 ^ min n k"
    using assms by (simp add: power_increasing)
  with assms(1) have "cap \<le> base * 2 ^ min n k" by (rule le_trans)
  then show ?thesis by (simp add: doubling_def min_absorb2)
qed

section \<open>Transition systems\<close>

inductive reach :: "('s \<Rightarrow> bool) \<Rightarrow> ('s \<Rightarrow> 'e \<Rightarrow> 's \<Rightarrow> bool) \<Rightarrow> 's \<Rightarrow> bool"
  for start :: "'s \<Rightarrow> bool" and trans :: "'s \<Rightarrow> 'e \<Rightarrow> 's \<Rightarrow> bool" where
  reach_start: "start s \<Longrightarrow> reach start trans s"
| reach_step: "reach start trans s \<Longrightarrow> trans s e t \<Longrightarrow> reach start trans t"

locale invariant_system =
  fixes start :: "'s \<Rightarrow> bool" and trans :: "'s \<Rightarrow> 'e \<Rightarrow> 's \<Rightarrow> bool" and inv :: "'s \<Rightarrow> bool"
  assumes start_inv: "start s \<Longrightarrow> inv s"
    and step_inv: "inv s \<Longrightarrow> trans s e t \<Longrightarrow> inv t"
begin

lemma reach_inv: "reach start trans s \<Longrightarrow> inv s"
  by (induction rule: reach.induct) (auto intro: start_inv step_inv)

lemma reach_step_both: "reach start trans s \<Longrightarrow> trans s e t \<Longrightarrow> inv s \<and> inv t"
  by (blast intro: reach_inv step_inv)

end

end
