(* ===== verification/Messages.thy ===== *)
theory Messages
  imports Prelude
begin

text \<open>
  The data the relayer's workers exchange over their channels: the indexed source message, the
  gossiped vote, the delivery job and its result, and the calls a worker makes on the metrics
  registry, which the model records in order.
\<close>

section \<open>Source messages and votes\<close>

record indexed_message =
  im_chain_key :: u64
  im_message_id :: b256
  im_emitter :: address
  im_outbox :: address
  im_sequence :: u64
  im_destination_chain_key :: b256
  im_creditcoin_chain_id :: u64
  im_payload :: bytes
  im_tx_hash :: b256
  im_block_height :: u64

record message_vote =
  mv_chain_key :: u64
  mv_message_id :: b256
  mv_signer :: address
  mv_signature :: bytes

record reobservation_request =
  ro_chain_key :: u64
  ro_message_id :: b256
  ro_tx_hash :: b256
  ro_block_height :: u64

record route_attestors =
  ra_chain_key :: u64
  ra_attestors :: "address list"
  ra_threshold :: nat

record vote_cache_config =
  vc_ttl_seconds :: nat
  vc_max_messages :: nat

record vote_bundle =
  vb_chain_key :: u64
  vb_message_id :: b256
  vb_threshold :: nat
  vb_signer_count :: nat
  vb_delivered :: bool
  vb_signers :: "address list"

section \<open>Delivery jobs\<close>

record delivery_job =
  dj_chain_key :: u64
  dj_message_id :: b256
  dj_emitter :: address
  dj_outbox :: address
  dj_sequence :: u64
  dj_payload :: bytes
  dj_votes_calldata :: bytes
  dj_signer_count :: nat
  dj_indexed_at :: instant
  dj_reconcile_only :: bool

datatype delivery_result_kind =
    Delivered
  | Terminal
  | Retryable
  | AwaitingVotes
  | AwaitingExecution "u64 option"

record delivery_result =
  dr_chain_key :: u64
  dr_message_id :: b256
  dr_outcome :: delivery_result_kind

section \<open>Metrics\<close>

datatype vote_outcome = Accept | Reject | Ignore | Dropped | Buffered

datatype metric =
    IncVote u64 vote_outcome
  | ObserveVotesPerMessage nat
  | ObserveTimeToThreshold duration
  | SetPoolMessagesPending nat
  | SetAttestorSetSize u64 nat
  | IncAttestorSetReload u64
  | IncDeliveryRetriesExceeded u64

section \<open>Third-party primitives\<close>

text \<open>
  Signature recovery (alloy's \<^verbatim>\<open>Signature::recover_address_from_prehash\<close>, with the parse of the
  raw bytes) and the ABI encoder are not part of the repository: they are the fields of this
  record, an argument of every definition that calls them.
\<close>

record primitives =
  ecrecover :: "b256 \<Rightarrow> bytes \<Rightarrow> address option"
  abi_encode_params :: "bytes list \<Rightarrow> bytes"

definition encode_votes :: "primitives \<Rightarrow> bytes list \<Rightarrow> bytes" where
  "encode_votes P signatures = abi_encode_params P signatures"

section \<open>Delays between execution retries\<close>

definition PENDING_RETRY_DELAYS :: "duration list" where
  "PENDING_RETRY_DELAYS = [secs 15, secs 60, secs 240]"

definition RETRY_DEFERRED_MARGIN :: duration where
  "RETRY_DEFERRED_MARGIN = secs 5"

definition MAX_RETRY_DEFERRED_WAIT :: duration where
  "MAX_RETRY_DEFERRED_WAIT = secs (6 * 3600)"

definition pending_retry_delay :: "nat \<Rightarrow> u64 option \<Rightarrow> u64 option \<Rightarrow> duration" where
  "pending_retry_delay attempt retry_after now =
     (let fixed = PENDING_RETRY_DELAYS ! min attempt (length PENDING_RETRY_DELAYS - 1) in
      case (retry_after, now) of
        (Some ts, Some n) \<Rightarrow>
          if n < ts
          then min (secs (unat (ts - n)) + RETRY_DEFERRED_MARGIN) MAX_RETRY_DEFERRED_WAIT
          else fixed
      | _ \<Rightarrow> fixed)"

lemma pending_fixed_cases:
  "PENDING_RETRY_DELAYS ! min attempt (length PENDING_RETRY_DELAYS - Suc 0) =
     (if attempt = 0 then secs 15 else if attempt = 1 then secs 60 else secs 240)"
proof -
  consider "attempt = 0" | "attempt = 1" | "2 \<le> attempt" by linarith
  then show ?thesis by cases (auto simp: PENDING_RETRY_DELAYS_def min_absorb2 numeral_2_eq_2)
qed

interpretation pending_fixed: backoff "\<lambda>n. pending_retry_delay n None None" "secs 15" "secs 240" 2
  by unfold_locales (auto simp: pending_retry_delay_def pending_fixed_cases Let_def)

lemma pending_retry_delay_bounds:
  "secs 5 \<le> pending_retry_delay a r n" "pending_retry_delay a r n \<le> secs (6 * 3600)"
  by (auto simp: pending_retry_delay_def pending_fixed_cases Let_def RETRY_DEFERRED_MARGIN_def
      MAX_RETRY_DEFERRED_WAIT_def split: option.splits)

end
