(* ===== verification/Pool.thy ===== *)
theory Pool
  imports Messages
begin

text \<open>
  The vote pool (\<^verbatim>\<open>message-relayer/src/pool/mod.rs\<close>): its state, and one function per operation of
  \<^verbatim>\<open>State\<close> and \<^verbatim>\<open>RouteState\<close>. An operation takes the state, returns the new state, the job it
  dispatches, and the calls it makes on the metrics registry. Every read of the monotonic clock
  inside one operation is the argument \<open>now\<close>.
\<close>

section \<open>Constants\<close>

definition calculate_threshold :: "nat \<Rightarrow> nat" where
  "calculate_threshold n = (2 * n) div 3 + 1"

definition REOBS_STALL_AFTER :: duration where "REOBS_STALL_AFTER = secs 60"
definition REOBS_REPEAT_EVERY :: duration where "REOBS_REPEAT_EVERY = secs 60"
definition WORKING_SET_RESIDENCE :: duration where "WORKING_SET_RESIDENCE = secs (5 * 60)"
definition DELIVERY_RETRY_BASE :: duration where "DELIVERY_RETRY_BASE = secs 30"
definition DELIVERY_RETRY_MAX :: duration where "DELIVERY_RETRY_MAX = secs (5 * 60)"
definition DELIVERY_MAX_DISPATCH_ATTEMPTS :: u32 where "DELIVERY_MAX_DISPATCH_ATTEMPTS = 5"
definition DELIVERY_CHANNEL_FULL_REQUEUE_DELAY :: duration where
  "DELIVERY_CHANNEL_FULL_REQUEUE_DELAY = secs 2"
definition PRUNE_TICK_INTERVAL :: duration where "PRUNE_TICK_INTERVAL = secs 30"

text \<open>The secp256k1 half order, big endian.\<close>

definition SECP256K1_HALF_ORDER_BE :: bytes where
  "SECP256K1_HALF_ORDER_BE =
     [0x7F, 0xFF, 0xFF, 0xFF, 0xFF, 0xFF, 0xFF, 0xFF, 0xFF, 0xFF, 0xFF, 0xFF, 0xFF, 0xFF, 0xFF, 0xFF,
      0x5D, 0x57, 0x6E, 0x73, 0x57, 0xA4, 0x50, 0x1D, 0xDF, 0xE9, 0x2F, 0x46, 0x68, 0x1B, 0x20, 0xA0]"

section \<open>Signature recovery\<close>

datatype recover_error = NonCanonicalV u8 | HighS | EcrecoverFailed

definition recover_signer :: "primitives \<Rightarrow> b256 \<Rightarrow> bytes \<Rightarrow> recover_error + address" where
  "recover_signer P hash raw =
     (let v = raw ! 64 in
      if v \<noteq> 27 \<and> v \<noteq> 28 then Inl (NonCanonicalV v)
      else let s = be_nat (take 32 (drop 32 raw)) in
      if be_nat SECP256K1_HALF_ORDER_BE < s then Inl HighS
      else case ecrecover P hash raw of None \<Rightarrow> Inl EcrecoverFailed | Some a \<Rightarrow> Inr a)"

section \<open>State\<close>

record message_slot =
  ms_indexed :: indexed_message
  ms_signers :: "(address, bytes) btree_map"
  ms_delivered :: bool
  ms_terminal :: bool
  ms_in_flight :: bool
  ms_last_reconciled_at :: "instant option"
  ms_execution_accepted :: bool
  ms_delivery_attempts :: u32
  ms_next_delivery_attempt_at :: "instant option"
  ms_inserted_at :: instant
  ms_last_reobs_request :: "instant option"

record early_votes =
  ev_signers :: "(address, bytes) btree_map"
  ev_first_seen :: instant

record route_state =
  rt_attestors :: "address list"
  rt_threshold :: nat
  rt_by_message :: "(b256, message_slot) hash_map"
  rt_order :: "b256 list"
  rt_cache_max :: nat
  rt_early_votes :: "(b256, early_votes) hash_map"

record pool_state =
  st_by_route :: "(u64, route_state) hash_map"
  st_cache :: vote_cache_config

definition resolved :: "message_slot \<Rightarrow> bool" where
  "resolved slot \<longleftrightarrow> ms_delivered slot \<or> ms_terminal slot"

definition new_slot :: "indexed_message \<Rightarrow> instant \<Rightarrow> message_slot" where
  "new_slot indexed now =
     \<lparr>ms_indexed = indexed, ms_signers = [], ms_delivered = False, ms_terminal = False,
      ms_in_flight = False, ms_last_reconciled_at = None, ms_execution_accepted = False,
      ms_delivery_attempts = 0, ms_next_delivery_attempt_at = None, ms_inserted_at = now,
      ms_last_reobs_request = None\<rparr>"

definition pool_new :: "route_attestors list \<Rightarrow> vote_cache_config \<Rightarrow> pool_state" where
  "pool_new routes cache =
     \<lparr>st_by_route = fold (\<lambda>r. hm_insert (ra_chain_key r)
        \<lparr>rt_attestors = ra_attestors r, rt_threshold = ra_threshold r, rt_by_message = [],
         rt_order = [], rt_cache_max = vc_max_messages cache, rt_early_votes = []\<rparr>) routes [],
      st_cache = cache\<rparr>"

definition total_pending :: "pool_state \<Rightarrow> nat" where
  "total_pending st = sum_list (map (\<lambda>(_, r). length (rt_by_message r)) (st_by_route st))"

definition put_route :: "u64 \<Rightarrow> route_state \<Rightarrow> pool_state \<Rightarrow> pool_state" where
  "put_route ck r st = st\<lparr>st_by_route := hm_modify ck (\<lambda>_. r) (st_by_route st)\<rparr>"

section \<open>Dispatch\<close>

definition has_quorum :: "route_state \<Rightarrow> message_slot \<Rightarrow> bool" where
  "has_quorum route slot \<longleftrightarrow> 0 < rt_threshold route \<and> rt_threshold route \<le> length (ms_signers slot)"

definition can_reconcile :: "message_slot \<Rightarrow> instant \<Rightarrow> bool \<Rightarrow> bool" where
  "can_reconcile slot now allow_probe \<longleftrightarrow>
     ms_execution_accepted slot \<or>
     allow_probe \<and> (case ms_last_reconciled_at slot of
        None \<Rightarrow> True | Some prev \<Rightarrow> DELIVERY_RETRY_MAX \<le> now - prev)"

definition make_job :: "primitives \<Rightarrow> u64 \<Rightarrow> route_state \<Rightarrow> message_slot \<Rightarrow> delivery_job" where
  "make_job P ck route slot =
     (let signatures = map snd (ms_signers slot) in
      \<lparr>dj_chain_key = ck, dj_message_id = im_message_id (ms_indexed slot),
       dj_emitter = im_emitter (ms_indexed slot), dj_outbox = im_outbox (ms_indexed slot),
       dj_sequence = im_sequence (ms_indexed slot), dj_payload = im_payload (ms_indexed slot),
       dj_votes_calldata = encode_votes P signatures, dj_signer_count = length signatures,
       dj_indexed_at = ms_inserted_at slot,
       dj_reconcile_only = (ms_execution_accepted slot \<or> \<not> has_quorum route slot)\<rparr>)"

definition mark_dispatched :: "message_slot \<Rightarrow> message_slot" where
  "mark_dispatched slot = slot\<lparr>ms_in_flight := True,
     ms_delivery_attempts := sat_add (ms_delivery_attempts slot) 1,
     ms_next_delivery_attempt_at := None\<rparr>"

definition dispatch_if_ready ::
  "primitives \<Rightarrow> u64 \<Rightarrow> b256 \<Rightarrow> route_state \<Rightarrow> bool \<Rightarrow> instant \<Rightarrow> bool
    \<Rightarrow> route_state \<times> delivery_job option \<times> metric list" where
  "dispatch_if_ready P ck hash route observe_threshold now allow_probe =
     (case hm_get (rt_by_message route) hash of
        None \<Rightarrow> (route, None, [])
      | Some slot \<Rightarrow>
          if ms_delivered slot \<or> ms_terminal slot \<or> ms_in_flight slot
             \<or> (\<not> has_quorum route slot \<and> \<not> can_reconcile slot now allow_probe)
          then (route, None, [])
          else if (case ms_next_delivery_attempt_at slot of None \<Rightarrow> False | Some nxt \<Rightarrow> now < nxt)
          then (route, None, [])
          else (route\<lparr>rt_by_message := hm_modify hash (\<lambda>_. mark_dispatched slot) (rt_by_message route)\<rparr>,
                Some (make_job P ck route slot),
                if observe_threshold
                then [ObserveVotesPerMessage (length (ms_signers slot)),
                      ObserveTimeToThreshold (now - ms_inserted_at slot)]
                else []))"

text \<open>Dispatching a list of messages of one route, collecting the jobs in order.\<close>

fun dispatch_each ::
  "primitives \<Rightarrow> u64 \<Rightarrow> bool \<Rightarrow> instant \<Rightarrow> bool \<Rightarrow> b256 list \<Rightarrow> route_state
    \<Rightarrow> route_state \<times> delivery_job list \<times> metric list" where
  "dispatch_each P ck obs now probe [] route = (route, [], [])"
| "dispatch_each P ck obs now probe (h # hs) route =
     (let (route1, job, ms1) = dispatch_if_ready P ck h route obs now probe;
          (route2, jobs, ms2) = dispatch_each P ck obs now probe hs route1
      in (route2, (case job of None \<Rightarrow> jobs | Some j \<Rightarrow> j # jobs), ms1 @ ms2))"

section \<open>Capacity\<close>

definition first_resolved :: "route_state \<Rightarrow> b256 option" where
  "first_resolved r =
     find (\<lambda>h. case hm_get (rt_by_message r) h of Some slot \<Rightarrow> resolved slot | None \<Rightarrow> False) (rt_order r)"

definition drop_message :: "b256 \<Rightarrow> route_state \<Rightarrow> route_state" where
  "drop_message victim r = r\<lparr>rt_order := filter (\<lambda>h. h \<noteq> victim) (rt_order r),
     rt_by_message := hm_remove victim (rt_by_message r)\<rparr>"

lemma first_resolved_key: "first_resolved r = Some v \<Longrightarrow> v \<in> set (map fst (rt_by_message r))"
  by (auto simp: first_resolved_def find_Some_iff split: option.splits
      dest!: map_of_SomeD intro: rev_image_eqI)

function make_room :: "route_state \<Rightarrow> route_state \<times> bool" where
  "make_room r =
     (if length (rt_by_message r) < rt_cache_max r then (r, True)
      else case first_resolved r of
             None \<Rightarrow> (r, False)
           | Some victim \<Rightarrow> make_room (drop_message victim r))"
  by pat_completeness auto
termination
proof (relation "measure (\<lambda>r. length (rt_by_message r))")
  fix r victim
  assume "first_resolved r = Some victim"
  then have "victim \<in> set (map fst (rt_by_message r))" by (rule first_resolved_key)
  then show "(drop_message victim r, r) \<in> measure (\<lambda>r. length (rt_by_message r))"
    using length_delete_less by (simp add: drop_message_def)
qed simp

declare make_room.simps [simp del]

definition can_index :: "pool_state \<Rightarrow> indexed_message \<Rightarrow> bool" where
  "can_index st indexed =
     (case hm_get (st_by_route st) (im_chain_key indexed) of
        None \<Rightarrow> True
      | Some route \<Rightarrow>
          im_message_id indexed \<in> set (hm_keys (rt_by_message route))
          \<or> length (rt_by_message route) < rt_cache_max route
          \<or> (\<exists>(_, slot) \<in> set (rt_by_message route). resolved slot))"

function evict_early_overflow :: "route_state \<Rightarrow> route_state" where
  "evict_early_overflow r =
     (if rt_cache_max r < length (rt_early_votes r)
      then case min_by_key (\<lambda>(_, v). ev_first_seen v) (rt_early_votes r) of
             None \<Rightarrow> r
           | Some (oldest, _) \<Rightarrow>
               evict_early_overflow (r\<lparr>rt_early_votes := hm_remove oldest (rt_early_votes r)\<rparr>)
      else r)"
  by pat_completeness auto
termination
proof (relation "measure (\<lambda>r. length (rt_early_votes r))")
  fix r p oldest v
  assume "min_by_key (\<lambda>(_, v). ev_first_seen v) (rt_early_votes r) = Some p" and p: "(oldest, v) = p"
  then have "oldest \<in> set (map fst (rt_early_votes r))"
    by (force dest: min_by_key_in)
  then show "(r\<lparr>rt_early_votes := hm_remove oldest (rt_early_votes r)\<rparr>, r)
      \<in> measure (\<lambda>r. length (rt_early_votes r))"
    using length_delete_less by simp
qed simp

declare evict_early_overflow.simps [simp del]

section \<open>Votes\<close>

text \<open>\<^verbatim>\<open>buffer_early_vote\<close>: a verified vote for a message the watcher has not indexed yet.\<close>

definition buffer_early_vote ::
  "primitives \<Rightarrow> u64 \<Rightarrow> b256 \<Rightarrow> message_vote \<Rightarrow> instant \<Rightarrow> route_state \<Rightarrow> route_state \<times> metric list" where
  "buffer_early_vote P ck hash vote now r =
     (let claimed = mv_signer vote in
      if claimed \<notin> set (rt_attestors r) then (r, [IncVote ck Reject])
      else case recover_signer P hash (mv_signature vote) of
             Inl _ \<Rightarrow> (r, [IncVote ck Reject])
           | Inr recovered \<Rightarrow>
               if recovered \<noteq> claimed then (r, [IncVote ck Reject])
               else let entry = (case hm_get (rt_early_votes r) hash of
                                   None \<Rightarrow> \<lparr>ev_signers = [], ev_first_seen = now\<rparr>
                                 | Some e \<Rightarrow> e);
                        entry' = entry\<lparr>ev_signers := bt_insert recovered (mv_signature vote) (ev_signers entry)\<rparr>
                    in (evict_early_overflow (r\<lparr>rt_early_votes := hm_insert hash entry' (rt_early_votes r)\<rparr>),
                        [IncVote ck Buffered]))"

text \<open>
  Adopting the buffered votes of a message that was just indexed: every signer is checked
  against the attestor set of this moment.
\<close>

fun adopt_votes ::
  "u64 \<Rightarrow> address list \<Rightarrow> (address \<times> bytes) list \<Rightarrow> (address, bytes) btree_map
    \<Rightarrow> (address, bytes) btree_map \<times> metric list" where
  "adopt_votes ck attestors [] sgs = (sgs, [])"
| "adopt_votes ck attestors ((signer, signature) # rest) sgs =
     (if signer \<in> set attestors
      then (let (sgs', ms) = adopt_votes ck attestors rest (bt_insert signer signature sgs)
            in (sgs', IncVote ck Accept # ms))
      else (let (sgs', ms) = adopt_votes ck attestors rest sgs
            in (sgs', IncVote ck Reject # ms)))"

definition insert_slot :: "indexed_message \<Rightarrow> instant \<Rightarrow> route_state \<Rightarrow> route_state" where
  "insert_slot indexed now r =
     r\<lparr>rt_by_message := hm_insert (im_message_id indexed) (new_slot indexed now) (rt_by_message r),
       rt_order := rt_order r @ [im_message_id indexed]\<rparr>"

definition adopt_early ::
  "primitives \<Rightarrow> u64 \<Rightarrow> b256 \<Rightarrow> instant \<Rightarrow> route_state \<Rightarrow> route_state \<times> delivery_job option \<times> metric list" where
  "adopt_early P ck hash now r =
     (case hm_get (rt_early_votes r) hash of
        None \<Rightarrow> (r, None, [])
      | Some early \<Rightarrow>
          let (sgs, ms1) = adopt_votes ck (rt_attestors r) (ev_signers early) [];
              r1 = r\<lparr>rt_early_votes := hm_remove hash (rt_early_votes r),
                     rt_by_message := hm_modify hash (\<lambda>slot. slot\<lparr>ms_signers := sgs\<rparr>) (rt_by_message r)\<rparr>;
              (r2, job, ms2) = dispatch_if_ready P ck hash r1 True now False
          in (r2, job, ms1 @ ms2))"

definition note_indexed ::
  "primitives \<Rightarrow> indexed_message \<Rightarrow> instant \<Rightarrow> pool_state
    \<Rightarrow> pool_state \<times> delivery_job option \<times> metric list" where
  "note_indexed P indexed now st =
     (let ck = im_chain_key indexed; hash = im_message_id indexed in
      case hm_get (st_by_route st) ck of
        None \<Rightarrow> (st, None, [])
      | Some route \<Rightarrow>
          if hash \<in> set (hm_keys (rt_by_message route)) then (st, None, [])
          else let (route1, ok) = make_room route in
          if \<not> ok then (put_route ck route1 st, None, [])
          else let (route3, job, ms) = adopt_early P ck hash now (insert_slot indexed now route1);
                   st' = put_route ck route3 st
               in (st', job, ms @ [SetPoolMessagesPending (total_pending st')]))"

definition note_vote ::
  "primitives \<Rightarrow> message_vote \<Rightarrow> instant \<Rightarrow> pool_state
    \<Rightarrow> pool_state \<times> delivery_job option \<times> metric list" where
  "note_vote P vote now st =
     (let ck = mv_chain_key vote; hash = mv_message_id vote in
      case hm_get (st_by_route st) ck of
        None \<Rightarrow> (st, None, [])
      | Some route \<Rightarrow>
          case hm_get (rt_by_message route) hash of
            None \<Rightarrow> (let (r, ms) = buffer_early_vote P ck hash vote now route
                     in (put_route ck r st, None, ms))
          | Some slot \<Rightarrow>
              if ms_delivered slot \<or> ms_terminal slot then (st, None, [IncVote ck Ignore])
              else let claimed = mv_signer vote in
              if claimed \<notin> set (rt_attestors route) then (st, None, [IncVote ck Reject])
              else case recover_signer P hash (mv_signature vote) of
                     Inl _ \<Rightarrow> (st, None, [IncVote ck Reject])
                   | Inr recovered \<Rightarrow>
                       if recovered \<noteq> claimed then (st, None, [IncVote ck Reject])
                       else if recovered \<in> fst ` set (ms_signers slot) then (st, None, [IncVote ck Ignore])
                       else let slot' = slot\<lparr>ms_signers := bt_insert recovered (mv_signature vote) (ms_signers slot)\<rparr>;
                                route' = route\<lparr>rt_by_message := hm_modify hash (\<lambda>_. slot') (rt_by_message route)\<rparr>
                            in if length (ms_signers slot') < rt_threshold route \<or> ms_in_flight slot
                               then (put_route ck route' st, None, [IncVote ck Accept])
                               else let (route'', job, ms) = dispatch_if_ready P ck hash route' True now False
                                    in (put_route ck route'' st, job,
                                        [IncVote ck Accept,
                                         ObserveVotesPerMessage (length (ms_signers slot')),
                                         ObserveTimeToThreshold (now - ms_inserted_at slot)] @ ms))"

section \<open>Pruning, results and retries\<close>

definition route_prune_expired :: "instant \<Rightarrow> duration \<Rightarrow> route_state \<Rightarrow> route_state" where
  "route_prune_expired now ttl r =
     (let kept = hm_retain (\<lambda>_ slot. \<not> (ms_delivered slot
                    \<or> ms_terminal slot \<and> ttl < now - ms_inserted_at slot)) (rt_by_message r)
      in r\<lparr>rt_by_message := kept,
           rt_order := filter (\<lambda>h. h \<in> set (hm_keys kept)) (rt_order r),
           rt_early_votes := hm_retain (\<lambda>_ votes. now - ev_first_seen votes \<le> ttl) (rt_early_votes r)\<rparr>)"

definition prune_expired :: "instant \<Rightarrow> pool_state \<Rightarrow> pool_state" where
  "prune_expired now st =
     st\<lparr>st_by_route := hm_map_values (route_prune_expired now (secs (vc_ttl_seconds (st_cache st))))
          (st_by_route st)\<rparr>"

definition delivery_retry_delay :: "u32 \<Rightarrow> duration" where
  "delivery_retry_delay attempts =
     (let shift = min (unat (sat_sub attempts 1)) 4 in
      secs (unat (min (sat_mul (of_nat (as_secs DELIVERY_RETRY_BASE)) (push_bit shift (1 :: u64)))
                      (of_nat (as_secs DELIVERY_RETRY_MAX)))))"

definition apply_result ::
  "delivery_result_kind \<Rightarrow> instant \<Rightarrow> u64 option \<Rightarrow> message_slot \<Rightarrow> message_slot" where
  "apply_result outcome now unix_now slot0 =
     (let slot = slot0\<lparr>ms_in_flight := False\<rparr> in
      case outcome of
        Delivered \<Rightarrow> slot\<lparr>ms_delivered := True\<rparr>
      | Terminal \<Rightarrow> slot\<lparr>ms_terminal := True\<rparr>
      | AwaitingVotes \<Rightarrow> slot\<lparr>ms_last_reconciled_at := Some now, ms_execution_accepted := False,
                          ms_next_delivery_attempt_at := None\<rparr>
      | AwaitingExecution retry_after \<Rightarrow>
          slot\<lparr>ms_last_reconciled_at := Some now, ms_execution_accepted := True,
               ms_next_delivery_attempt_at := Some (now + pending_retry_delay
                 (unat (sat_sub (ms_delivery_attempts slot) 1)) retry_after unix_now)\<rparr>
      | Retryable \<Rightarrow>
          slot\<lparr>ms_next_delivery_attempt_at := Some (now + delivery_retry_delay (ms_delivery_attempts slot))\<rparr>)"

definition note_delivery_result ::
  "delivery_result \<Rightarrow> instant \<Rightarrow> u64 option \<Rightarrow> pool_state
    \<Rightarrow> pool_state \<times> delivery_job option \<times> metric list" where
  "note_delivery_result result now unix_now st =
     (let ck = dr_chain_key result; hash = dr_message_id result in
      case hm_get (st_by_route st) ck of
        None \<Rightarrow> (st, None, [])
      | Some route \<Rightarrow>
          case hm_get (rt_by_message route) hash of
            None \<Rightarrow> (st, None, [])
          | Some slot \<Rightarrow>
              let st' = put_route ck (route\<lparr>rt_by_message :=
                          hm_modify hash (apply_result (dr_outcome result) now unix_now)
                            (rt_by_message route)\<rparr>) st
              in (st', None,
                  case dr_outcome result of
                    Delivered \<Rightarrow> [SetPoolMessagesPending (total_pending st')]
                  | Terminal \<Rightarrow> [SetPoolMessagesPending (total_pending st')]
                  | Retryable \<Rightarrow> if DELIVERY_MAX_DISPATCH_ATTEMPTS \<le> ms_delivery_attempts slot
                                then [IncDeliveryRetriesExceeded ck] else []
                  | _ \<Rightarrow> []))"

text \<open>\<^verbatim>\<open>collect_ready_deliveries\<close>: every message of every route, in the maps' iteration order.\<close>

fun collect_ready_routes ::
  "primitives \<Rightarrow> instant \<Rightarrow> (u64, route_state) hash_map
    \<Rightarrow> (u64, route_state) hash_map \<times> delivery_job list \<times> metric list" where
  "collect_ready_routes P now [] = ([], [], [])"
| "collect_ready_routes P now ((ck, route) # rs) =
     (let (route', jobs, ms) = dispatch_each P ck False now True (hm_keys (rt_by_message route)) route;
          (rs', jobs', ms') = collect_ready_routes P now rs
      in ((ck, route') # rs', jobs @ jobs', ms @ ms'))"

definition collect_ready_deliveries ::
  "primitives \<Rightarrow> instant \<Rightarrow> pool_state \<Rightarrow> pool_state \<times> delivery_job list \<times> metric list" where
  "collect_ready_deliveries P now st =
     (let (rs, jobs, ms) = collect_ready_routes P now (st_by_route st)
      in (st\<lparr>st_by_route := rs\<rparr>, jobs, ms))"

definition requeue_slot :: "instant \<Rightarrow> message_slot \<Rightarrow> message_slot" where
  "requeue_slot now slot = slot\<lparr>ms_in_flight := False,
     ms_delivery_attempts := sat_sub (ms_delivery_attempts slot) 1,
     ms_next_delivery_attempt_at := Some (now + DELIVERY_CHANNEL_FULL_REQUEUE_DELAY)\<rparr>"

definition requeue_delivery :: "u64 \<Rightarrow> b256 \<Rightarrow> instant \<Rightarrow> pool_state \<Rightarrow> pool_state" where
  "requeue_delivery ck hash now st =
     (case hm_get (st_by_route st) ck of
        None \<Rightarrow> st
      | Some route \<Rightarrow>
          put_route ck (route\<lparr>rt_by_message := hm_modify hash (requeue_slot now) (rt_by_message route)\<rparr>) st)"

section \<open>Attestor set reload\<close>

definition report_set_sizes :: "pool_state \<Rightarrow> metric list" where
  "report_set_sizes st =
     map (\<lambda>(ck, route). SetAttestorSetSize ck (length (rt_attestors route))) (st_by_route st)"

definition prune_signers :: "address list \<Rightarrow> message_slot \<Rightarrow> message_slot" where
  "prune_signers attestors slot =
     (if ms_delivered slot \<or> ms_terminal slot then slot
      else slot\<lparr>ms_signers := filter (\<lambda>(a, _). a \<in> set attestors) (ms_signers slot)\<rparr>)"

definition reload_ready :: "nat \<Rightarrow> message_slot \<Rightarrow> bool" where
  "reload_ready threshold slot \<longleftrightarrow>
     \<not> (ms_delivered slot \<or> ms_terminal slot)
     \<and> \<not> (ms_in_flight slot \<or> length (ms_signers slot) < threshold)"

definition apply_attestor_set ::
  "primitives \<Rightarrow> route_attestors \<Rightarrow> instant \<Rightarrow> pool_state
    \<Rightarrow> pool_state \<times> delivery_job list \<times> metric list" where
  "apply_attestor_set P upd now st =
     (let ck = ra_chain_key upd in
      case hm_get (st_by_route st) ck of
        None \<Rightarrow> (st, [], [])
      | Some route \<Rightarrow>
          let changed = (rt_attestors route \<noteq> ra_attestors upd \<or> rt_threshold route \<noteq> ra_threshold upd);
              route1 = route\<lparr>rt_attestors := ra_attestors upd, rt_threshold := ra_threshold upd\<rparr>;
              ms0 = [SetAttestorSetSize ck (length (ra_attestors upd))]
          in if \<not> changed then (put_route ck route1 st, [], ms0)
             else let slots = hm_map_values (prune_signers (ra_attestors upd)) (rt_by_message route1);
                      ready = map fst (filter (\<lambda>(_, slot). reload_ready (ra_threshold upd) slot) slots);
                      (route2, jobs, ms) =
                        dispatch_each P ck True now False ready (route1\<lparr>rt_by_message := slots\<rparr>)
                  in (put_route ck route2 st, jobs, ms0 @ [IncAttestorSetReload ck] @ ms))"

section \<open>Reobservation and queries\<close>

definition stalled :: "nat \<Rightarrow> instant \<Rightarrow> message_slot \<Rightarrow> bool" where
  "stalled threshold now slot \<longleftrightarrow>
     \<not> (ms_delivered slot \<or> ms_terminal slot \<or> ms_in_flight slot \<or> ms_execution_accepted slot
        \<or> threshold \<le> length (ms_signers slot))
     \<and> \<not> now - ms_inserted_at slot < REOBS_STALL_AFTER
     \<and> \<not> (case ms_last_reobs_request slot of None \<Rightarrow> False | Some t \<Rightarrow> now - t < REOBS_REPEAT_EVERY)"

definition mark_reobserved :: "nat \<Rightarrow> instant \<Rightarrow> message_slot \<Rightarrow> message_slot" where
  "mark_reobserved threshold now slot =
     (if stalled threshold now slot then slot\<lparr>ms_last_reobs_request := Some now\<rparr> else slot)"

definition reobs_request :: "u64 \<Rightarrow> message_slot \<Rightarrow> reobservation_request" where
  "reobs_request ck slot =
     \<lparr>ro_chain_key = ck, ro_message_id = im_message_id (ms_indexed slot),
      ro_tx_hash = im_tx_hash (ms_indexed slot), ro_block_height = im_block_height (ms_indexed slot)\<rparr>"

definition collect_stalled_reobservations ::
  "instant \<Rightarrow> pool_state \<Rightarrow> pool_state \<times> reobservation_request list" where
  "collect_stalled_reobservations now st =
     (st\<lparr>st_by_route := hm_map_values (\<lambda>route. route\<lparr>rt_by_message :=
           hm_map_values (mark_reobserved (rt_threshold route) now) (rt_by_message route)\<rparr>) (st_by_route st)\<rparr>,
      concat (map (\<lambda>(ck, route).
        map (\<lambda>(_, slot). reobs_request ck slot)
          (filter (\<lambda>(_, slot). stalled (rt_threshold route) now slot) (rt_by_message route)))
        (st_by_route st)))"

fun query_routes :: "b256 \<Rightarrow> (u64, route_state) hash_map \<Rightarrow> vote_bundle option" where
  "query_routes mid [] = None"
| "query_routes mid ((ck, route) # rs) =
     (case hm_get (rt_by_message route) mid of
        Some slot \<Rightarrow> Some \<lparr>vb_chain_key = ck, vb_message_id = im_message_id (ms_indexed slot),
          vb_threshold = rt_threshold route, vb_signer_count = length (ms_signers slot),
          vb_delivered = ms_delivered slot, vb_signers = map fst (ms_signers slot)\<rparr>
      | None \<Rightarrow> query_routes mid rs)"

definition query_bundle :: "b256 \<Rightarrow> pool_state \<Rightarrow> vote_bundle option" where
  "query_bundle mid st = query_routes mid (st_by_route st)"

end
