(* ===== verification/Pool_Invariant.thy ===== *)
theory Pool_Invariant
  imports Pool
begin

text \<open>
  The invariant of the vote pool and its preservation by every operation of \<open>Pool\<close>.

  \<^item> \<open>slot_ok\<close>: a slot is filed under its own message id and route, its signers are an ordered map
    whose every signature recovers (canonically) to its key, an unresolved slot counts only
    current attestors, and an in-flight slot is unresolved with no retry scheduled.
  \<^item> \<open>early_ok\<close>: buffered votes recover to their keys.
  \<^item> \<open>route_ok\<close>: the insertion order lists exactly the tracked messages, once each; both maps stay
    within the cache bound; no message is both tracked and buffered.
\<close>

section \<open>The invariant\<close>

definition votes_ok :: "primitives \<Rightarrow> b256 \<Rightarrow> (address, bytes) btree_map \<Rightarrow> bool" where
  "votes_ok P hash sgs \<longleftrightarrow>
     bt_ok sgs \<and> list_all (\<lambda>(a, s). recover_signer P hash s = Inr a) sgs"

definition slot_ok :: "primitives \<Rightarrow> u64 \<Rightarrow> address list \<Rightarrow> b256 \<Rightarrow> message_slot \<Rightarrow> bool" where
  "slot_ok P ck atts hash slot \<longleftrightarrow>
     im_message_id (ms_indexed slot) = hash \<and> im_chain_key (ms_indexed slot) = ck
     \<and> votes_ok P hash (ms_signers slot)
     \<and> (resolved slot \<or> list_all (\<lambda>(a, _). a \<in> set atts) (ms_signers slot))
     \<and> (ms_in_flight slot \<longrightarrow> \<not> resolved slot \<and> ms_next_delivery_attempt_at slot = None
          \<and> 0 < ms_delivery_attempts slot)"

definition route_ok :: "primitives \<Rightarrow> u64 \<Rightarrow> route_state \<Rightarrow> bool" where
  "route_ok P ck r \<longleftrightarrow>
     hm_ok (rt_by_message r) \<and> hm_ok (rt_early_votes r)
     \<and> distinct (rt_order r) \<and> set (rt_order r) = set (hm_keys (rt_by_message r))
     \<and> length (rt_by_message r) \<le> rt_cache_max r \<and> length (rt_early_votes r) \<le> rt_cache_max r
     \<and> list_all (\<lambda>(h, slot). slot_ok P ck (rt_attestors r) h slot) (rt_by_message r)
     \<and> list_all (\<lambda>(h, ev). votes_ok P h (ev_signers ev)) (rt_early_votes r)
     \<and> set (hm_keys (rt_early_votes r)) \<inter> set (hm_keys (rt_by_message r)) = {}"

definition pool_ok :: "primitives \<Rightarrow> pool_state \<Rightarrow> bool" where
  "pool_ok P st \<longleftrightarrow>
     hm_ok (st_by_route st) \<and> list_all (\<lambda>(ck, r). route_ok P ck r) (st_by_route st)"

lemma list_all_set: "list_all Q xs \<longleftrightarrow> (\<forall>x \<in> set xs. Q x)"
  by (simp add: list_all_iff)

section \<open>Building blocks\<close>

lemma set_hm_modify: "set (hm_modify k f m) = (\<lambda>(a, b). (a, if a = k then f b else b)) ` set m"
  by (simp add: hm_modify_def)

lemma set_hm_map_values: "set (hm_map_values f m) = (\<lambda>(a, b). (a, f b)) ` set m"
  by (simp add: hm_map_values_def)

lemma votes_ok_Nil [simp]: "votes_ok P h []"
  by (simp add: votes_ok_def)

lemma votes_ok_insert:
  "votes_ok P h sgs \<Longrightarrow> recover_signer P h s = Inr a \<Longrightarrow> votes_ok P h (bt_insert a s sgs)"
  by (auto simp: votes_ok_def list_all_set bt_set_insert)

lemma votes_ok_filter: "votes_ok P h sgs \<Longrightarrow> votes_ok P h (filter Q sgs)"
  by (auto simp: votes_ok_def list_all_set)

lemma route_ok_slotD:
  "route_ok P ck r \<Longrightarrow> map_of (rt_by_message r) h = Some s \<Longrightarrow> slot_ok P ck (rt_attestors r) h s"
  by (auto simp: route_ok_def list_all_set dest: map_of_SomeD)

lemma route_ok_earlyD:
  "route_ok P ck r \<Longrightarrow> map_of (rt_early_votes r) h = Some e \<Longrightarrow> votes_ok P h (ev_signers e)"
  by (auto simp: route_ok_def list_all_set dest: map_of_SomeD)

lemma route_ok_modify:
  assumes "route_ok P ck r"
    and "\<And>s. map_of (rt_by_message r) h = Some s \<Longrightarrow> slot_ok P ck (rt_attestors r) h (f s)"
  shows "route_ok P ck (r\<lparr>rt_by_message := hm_modify h f (rt_by_message r)\<rparr>)"
proof -
  have "slot_ok P ck (rt_attestors r) a (if a = h then f b else b)"
    if "(a, b) \<in> set (rt_by_message r)" for a b
  proof -
    from that assms(1) have *: "map_of (rt_by_message r) a = Some b"
      by (simp add: route_ok_def hm_get_iff)
    with assms show ?thesis by (auto dest: route_ok_slotD)
  qed
  with assms(1) show ?thesis
    by (auto simp: route_ok_def list_all_set set_hm_modify)
qed

lemma pool_ok_routeD:
  "pool_ok P st \<Longrightarrow> map_of (st_by_route st) ck = Some r \<Longrightarrow> route_ok P ck r"
  by (auto simp: pool_ok_def list_all_set dest: map_of_SomeD)

lemma pool_ok_put: "pool_ok P st \<Longrightarrow> route_ok P ck r \<Longrightarrow> pool_ok P (put_route ck r st)"
  by (auto simp: pool_ok_def put_route_def list_all_set set_hm_modify)

lemma get_put_route:
  "map_of (st_by_route (put_route ck r st)) ck' =
     (if ck' = ck then map_option (\<lambda>_. r) (map_of (st_by_route st) ck) else map_of (st_by_route st) ck')"
  by (simp add: put_route_def hm_get_modify)

section \<open>Dispatch\<close>

lemma slot_ok_dispatched:
  assumes "slot_ok P ck atts h slot" and "\<not> resolved slot"
  shows "slot_ok P ck atts h (mark_dispatched slot)"
proof -
  have "unat (sat_add (ms_delivery_attempts slot) 1) > 0"
    by (simp add: unat_sat)
  then show ?thesis
    using assms by (simp add: slot_ok_def mark_dispatched_def resolved_def word_less_nat_alt)
qed

lemma dispatch_cases:
  assumes "dispatch_if_ready P ck h r obs now probe = (r', job, ms)"
  obtains "r' = r" "job = None" "ms = []"
  | slot where "map_of (rt_by_message r) h = Some slot" "\<not> resolved slot" "\<not> ms_in_flight slot"
      "has_quorum r slot \<or> can_reconcile slot now probe"
      "\<forall>t. ms_next_delivery_attempt_at slot = Some t \<longrightarrow> t \<le> now"
      "job = Some (make_job P ck r slot)"
      "r' = r\<lparr>rt_by_message := hm_modify h (\<lambda>_. mark_dispatched slot) (rt_by_message r)\<rparr>"
  using assms
  by (fastforce simp: dispatch_if_ready_def resolved_def split: option.splits if_splits)

lemma dispatch_ok:
  assumes "route_ok P ck r" and "dispatch_if_ready P ck h r obs now probe = (r', job, ms)"
  shows "route_ok P ck r'"
  using assms(2)
proof (cases rule: dispatch_cases)
  case 1
  with assms(1) show ?thesis by simp
next
  case (2 slot)
  with assms(1) show ?thesis
    by (auto intro!: route_ok_modify slot_ok_dispatched dest: route_ok_slotD)
qed

lemma dispatch_frame:
  assumes "dispatch_if_ready P ck h r obs now probe = (r', job, ms)"
  shows "rt_attestors r' = rt_attestors r" "rt_threshold r' = rt_threshold r"
    "rt_cache_max r' = rt_cache_max r" "rt_order r' = rt_order r" "rt_early_votes r' = rt_early_votes r"
    "hm_keys (rt_by_message r') = hm_keys (rt_by_message r)"
  using assms by (cases rule: dispatch_cases; simp)+

lemma dispatch_each_ok:
  "route_ok P ck r \<Longrightarrow> dispatch_each P ck obs now probe hs r = (r', jobs, ms) \<Longrightarrow> route_ok P ck r'"
  by (induction hs arbitrary: r r' jobs ms) (fastforce split: prod.splits dest: dispatch_ok)+

lemma dispatch_each_frame:
  "dispatch_each P ck obs now probe hs r = (r', jobs, ms) \<Longrightarrow>
     rt_attestors r' = rt_attestors r \<and> rt_threshold r' = rt_threshold r
     \<and> rt_cache_max r' = rt_cache_max r \<and> hm_keys (rt_by_message r') = hm_keys (rt_by_message r)"
proof (induction hs arbitrary: r r' jobs ms)
  case Nil
  then show ?case by simp
next
  case (Cons h hs)
  then show ?case
    by (auto split: prod.splits simp: dispatch_frame)
qed

section \<open>Capacity\<close>

lemma drop_message_ok: "route_ok P ck r \<Longrightarrow> route_ok P ck (drop_message v r)"
  by (auto simp: route_ok_def drop_message_def list_all_set hash.invar_remove
      set_delete_sub intro: le_trans [OF length_delete_le])

lemma make_room_ok: "route_ok P ck r \<Longrightarrow> route_ok P ck (fst (make_room r))"
proof (induction r rule: make_room.induct)
  case (1 r)
  show ?case
    using "1.IH" "1.prems" drop_message_ok
    by (subst make_room.simps) (auto split: option.splits)
qed

lemma make_room_frame:
  "rt_attestors (fst (make_room r)) = rt_attestors r \<and> rt_threshold (fst (make_room r)) = rt_threshold r
   \<and> rt_cache_max (fst (make_room r)) = rt_cache_max r
   \<and> rt_early_votes (fst (make_room r)) = rt_early_votes r"
proof (induction r rule: make_room.induct)
  case (1 r)
  then show ?case
    by (subst (1 2 3 4) make_room.simps) (auto split: option.splits simp: drop_message_def)
qed

lemma make_room_space:
  "snd (make_room r) \<Longrightarrow> length (rt_by_message (fst (make_room r))) < rt_cache_max r"
proof (induction r rule: make_room.induct)
  case (1 r)
  then show ?case
    by (subst make_room.simps, subst (asm) make_room.simps)
      (auto split: option.splits if_splits simp: drop_message_def)
qed

lemma make_room_subset: "set (rt_by_message (fst (make_room r))) \<subseteq> set (rt_by_message r)"
proof (induction r rule: make_room.induct)
  case (1 r)
  have "set (rt_by_message (drop_message v r)) \<subseteq> set (rt_by_message r)" for v
    by (auto simp: drop_message_def set_delete_sub)
  with 1 show ?case
    by (subst make_room.simps) (auto split: option.splits)
qed

text \<open>Making room only ever drops resolved messages.\<close>

lemma make_room_keeps:
  assumes "hm_ok (rt_by_message r)" and "map_of (rt_by_message r) h = Some s" and "\<not> resolved s"
  shows "map_of (rt_by_message (fst (make_room r))) h = Some s"
  using assms
proof (induction r rule: make_room.induct)
  case (1 r)
  show ?case
  proof (cases "\<not> length (rt_by_message r) < rt_cache_max r \<and> (\<exists>v. first_resolved r = Some v)")
    case False
    with "1.prems" show ?thesis by (subst make_room.simps) (auto split: option.splits)
  next
    case True
    then obtain v where v: "first_resolved r = Some v" by blast
    then have "v \<noteq> h"
      using "1.prems" by (auto simp: first_resolved_def find_Some_iff)
    then have "map_of (rt_by_message (drop_message v r)) h = Some s"
      and "hm_ok (rt_by_message (drop_message v r))"
      using "1.prems" by (auto simp: drop_message_def delete_conv' hash.invar_remove)
    with "1.IH" [OF _ v] True v "1.prems"(3) show ?thesis
      by (subst make_room.simps) simp
  qed
qed

lemma evict_early_frame:
  "rt_attestors (evict_early_overflow r) = rt_attestors r
   \<and> rt_threshold (evict_early_overflow r) = rt_threshold r
   \<and> rt_by_message (evict_early_overflow r) = rt_by_message r
   \<and> rt_order (evict_early_overflow r) = rt_order r
   \<and> rt_cache_max (evict_early_overflow r) = rt_cache_max r"
proof (induction r rule: evict_early_overflow.induct)
  case (1 r)
  then show ?case
    by (subst (1 2 3 4 5) evict_early_overflow.simps) (auto split: option.splits)
qed

lemma evict_early_bound: "length (rt_early_votes (evict_early_overflow r)) \<le> rt_cache_max r"
proof (induction r rule: evict_early_overflow.induct)
  case (1 r)
  then show ?case
    by (subst evict_early_overflow.simps) (auto split: option.splits)
qed

lemma evict_early_sub:
  "set (rt_early_votes (evict_early_overflow r)) \<subseteq> set (rt_early_votes r)"
proof (induction r rule: evict_early_overflow.induct)
  case (1 r)
  have del: "set (AList.delete v (rt_early_votes r)) \<subseteq> set (rt_early_votes r)" for v
    by (auto simp: set_delete_sub)
  show ?case
  proof (cases "rt_cache_max r < length (rt_early_votes r)")
    case True
    then have "rt_early_votes r \<noteq> []" by auto
    then obtain v b where m: "min_by_key (\<lambda>(_, v). ev_first_seen v) (rt_early_votes r) = Some (v, b)"
      by (cases "min_by_key (\<lambda>(_, v). ev_first_seen v) (rt_early_votes r)") auto
    have "evict_early_overflow r = evict_early_overflow (r\<lparr>rt_early_votes := hm_remove v (rt_early_votes r)\<rparr>)"
      by (subst evict_early_overflow.simps) (simp add: True m)
    with "1.IH" [OF True m refl] del [of v] show ?thesis by simp
  next
    case False
    then show ?thesis by (subst evict_early_overflow.simps) simp
  qed
qed

lemma evict_early_hm_ok:
  "hm_ok (rt_early_votes r) \<Longrightarrow> hm_ok (rt_early_votes (evict_early_overflow r))"
proof (induction r rule: evict_early_overflow.induct)
  case (1 r)
  then show ?case
    by (subst evict_early_overflow.simps) (auto split: option.splits simp: hash.invar_remove)
qed

section \<open>Every operation keeps the invariant\<close>

lemma route_ok_early:
  assumes "route_ok P ck r" and "hm_ok ev" and "length ev \<le> rt_cache_max r"
    and "list_all (\<lambda>(h, e). votes_ok P h (ev_signers e)) ev"
    and "fst ` set ev \<inter> fst ` set (rt_by_message r) = {}"
  shows "route_ok P ck (r\<lparr>rt_early_votes := ev\<rparr>)"
  using assms by (simp add: route_ok_def)

lemma buffer_early_vote_ok:
  assumes "route_ok P ck r" and "map_of (rt_by_message r) h = None"
  shows "route_ok P ck (fst (buffer_early_vote P ck h vote now r))"
proof (cases "recover_signer P h (mv_signature vote) = Inr (mv_signer vote) \<and> mv_signer vote \<in> set (rt_attestors r)")
  case False
  with assms(1) show ?thesis by (auto simp: buffer_early_vote_def Let_def split: sum.splits)
next
  case True
  define entry where "entry = (case map_of (rt_early_votes r) h of
      None \<Rightarrow> \<lparr>ev_signers = [], ev_first_seen = now\<rparr> | Some e \<Rightarrow> e)"
  define entry' where
    "entry' = entry\<lparr>ev_signers := bt_insert (mv_signer vote) (mv_signature vote) (ev_signers entry)\<rparr>"
  define r1 where "r1 = r\<lparr>rt_early_votes := AList.update h entry' (rt_early_votes r)\<rparr>"
  from True have res: "fst (buffer_early_vote P ck h vote now r) = evict_early_overflow r1"
    by (simp add: buffer_early_vote_def r1_def entry'_def entry_def Let_def)
  have "votes_ok P h (ev_signers entry)"
    using assms(1) by (auto simp: entry_def split: option.splits dest: route_ok_earlyD)
  with True have e': "votes_ok P h (ev_signers entry')"
    by (simp add: entry'_def votes_ok_insert)
  have keys: "fst ` set (rt_early_votes r1) = Set.insert h (fst ` set (rt_early_votes r))"
    using hm_keys_insert [of h entry' "rt_early_votes r"] by (simp add: r1_def)
  have ok1: "hm_ok (rt_early_votes r1)"
    using assms(1) by (simp add: r1_def route_ok_def hash.invar_insert)
  have votes1: "votes_ok P a (ev_signers b)" if "(a, b) \<in> set (rt_early_votes r1)" for a b
  proof -
    from that ok1 have "map_of (rt_early_votes r1) a = Some b" by (simp add: hm_get_iff)
    then show ?thesis
      using e' assms(1) by (auto simp: r1_def update_conv' split: if_splits dest: route_ok_earlyD)
  qed
  have sub: "fst ` set (rt_early_votes (evict_early_overflow r1)) \<subseteq> Set.insert h (fst ` set (rt_early_votes r))"
    using evict_early_sub [of r1] keys by blast
  have len: "length (rt_early_votes (evict_early_overflow r1)) \<le> rt_cache_max r"
    using evict_early_bound [of r1] by (simp add: r1_def)
  have votes: "list_all (\<lambda>(h, ev). votes_ok P h (ev_signers ev)) (rt_early_votes (evict_early_overflow r1))"
    using votes1 evict_early_sub [of r1] by (auto simp: list_all_set)
  have "h \<notin> fst ` set (rt_by_message r)"
    using assms(2) by (simp add: map_of_eq_None_iff)
  with sub assms(1) have disj:
    "fst ` set (rt_early_votes (evict_early_overflow r1)) \<inter> fst ` set (rt_by_message r) = {}"
    by (simp add: route_ok_def) blast
  have "evict_early_overflow r1 = r\<lparr>rt_early_votes := rt_early_votes (evict_early_overflow r1)\<rparr>"
    using evict_early_frame [of r1] by (simp add: r1_def)
  then show ?thesis
    using route_ok_early [OF assms(1) evict_early_hm_ok [OF ok1] len votes] disj unfolding res
    by simp
qed

lemma adopt_votes_ok:
  assumes "votes_ok P h sgs" and "list_all (\<lambda>(a, _). a \<in> set atts) sgs"
    and "list_all (\<lambda>(a, s). recover_signer P h s = Inr a) evs"
    and "adopt_votes ck atts evs sgs = (sgs', ms)"
  shows "votes_ok P h sgs' \<and> list_all (\<lambda>(a, _). a \<in> set atts) sgs'"
  using assms
proof (induction evs arbitrary: sgs sgs' ms)
  case Nil
  then show ?case by simp
next
  case (Cons e evs)
  obtain a s where e: "e = (a, s)" by force
  have ins: "list_all (\<lambda>(a, _). a \<in> set atts) (bt_insert a s sgs)" if "a \<in> set atts"
    using Cons.prems(1,2) that by (auto simp: list_all_set votes_ok_def bt_set_insert)
  from Cons.prems(3) have s: "recover_signer P h s = Inr a"
    and evs: "list_all (\<lambda>(a, s). recover_signer P h s = Inr a) evs"
    by (simp_all add: e)
  show ?case
  proof (cases "a \<in> set atts")
    case True
    obtain ms1 where "adopt_votes ck atts evs (bt_insert a s sgs) = (sgs', ms1)"
      using Cons.prems(4) True by (auto simp: e split: prod.splits)
    from Cons.IH [OF votes_ok_insert [OF Cons.prems(1) s] ins [OF True] evs this] show ?thesis .
  next
    case False
    obtain ms1 where "adopt_votes ck atts evs sgs = (sgs', ms1)"
      using Cons.prems(4) False by (auto simp: e split: prod.splits)
    from Cons.IH [OF Cons.prems(1,2) evs this] show ?thesis .
  qed
qed

lemma new_slot_ok:
  "im_message_id indexed = h \<Longrightarrow> im_chain_key indexed = ck \<Longrightarrow> slot_ok P ck atts h (new_slot indexed now)"
  by (simp add: slot_ok_def new_slot_def)

text \<open>
  The slot right after indexing: the adopted buffered votes, filtered by the attestor set of
  this moment.
\<close>

definition indexed_slot :: "u64 \<Rightarrow> indexed_message \<Rightarrow> instant \<Rightarrow> route_state \<Rightarrow> message_slot" where
  "indexed_slot ck indexed now r =
     (new_slot indexed now)\<lparr>ms_signers :=
        (case map_of (rt_early_votes r) (im_message_id indexed) of
           None \<Rightarrow> [] | Some e \<Rightarrow> fst (adopt_votes ck (rt_attestors r) (ev_signers e) []))\<rparr>"

lemma indexed_slot_ok:
  assumes "route_ok P (im_chain_key indexed) r"
  shows "slot_ok P (im_chain_key indexed) (rt_attestors r) (im_message_id indexed)
    (indexed_slot (im_chain_key indexed) indexed now r)"
proof -
  let ?h = "im_message_id indexed" and ?ck = "im_chain_key indexed"
  have "votes_ok P ?h (fst (adopt_votes ?ck (rt_attestors r) (ev_signers e) []))
      \<and> list_all (\<lambda>(a, _). a \<in> set (rt_attestors r)) (fst (adopt_votes ?ck (rt_attestors r) (ev_signers e) []))"
    if "map_of (rt_early_votes r) ?h = Some e" for e
  proof -
    have "list_all (\<lambda>(a, s). recover_signer P ?h s = Inr a) (ev_signers e)"
      using route_ok_earlyD [OF assms that] by (simp add: votes_ok_def)
    from adopt_votes_ok [OF votes_ok_Nil _ this] show ?thesis
      by (cases "adopt_votes ?ck (rt_attestors r) (ev_signers e) []") simp
  qed
  then show ?thesis
    by (auto simp: slot_ok_def indexed_slot_def new_slot_def resolved_def split: option.splits)
qed

lemma new_slot_no_signers: "(new_slot indexed now)\<lparr>ms_signers := []\<rparr> = new_slot indexed now"
  by (simp add: new_slot_def)

definition indexed_route :: "u64 \<Rightarrow> indexed_message \<Rightarrow> instant \<Rightarrow> route_state \<Rightarrow> route_state" where
  "indexed_route ck indexed now r =
     r\<lparr>rt_order := rt_order r @ [im_message_id indexed],
       rt_early_votes := hm_remove (im_message_id indexed) (rt_early_votes r),
       rt_by_message := rt_by_message r @ [(im_message_id indexed, indexed_slot ck indexed now r)]\<rparr>"

lemma indexed_route_ok:
  assumes "route_ok P (im_chain_key indexed) r" and "im_message_id indexed \<notin> set (hm_keys (rt_by_message r))"
    and "length (rt_by_message r) < rt_cache_max r"
  shows "route_ok P (im_chain_key indexed) (indexed_route (im_chain_key indexed) indexed now r)"
  using assms indexed_slot_ok [OF assms(1)]
  by (auto simp: route_ok_def indexed_route_def list_all_set hm_ok_def distinct_delete set_delete_sub
      intro: le_trans [OF length_delete_le])

lemma hm_modify_append_fresh:
  "k \<notin> fst ` set m \<Longrightarrow> hm_modify k f (m @ [(k, v)]) = m @ [(k, f v)]"
  by (force simp: hm_modify_def intro!: map_idI)

text \<open>Indexing adopts the buffered votes and then tries to dispatch, only when some were buffered.\<close>

lemma adopt_early_insert:
  assumes "im_message_id indexed \<notin> set (hm_keys (rt_by_message r))"
  shows "adopt_early P ck (im_message_id indexed) now (insert_slot indexed now r) =
    (case map_of (rt_early_votes r) (im_message_id indexed) of
       None \<Rightarrow> (indexed_route ck indexed now r, None, [])
     | Some e \<Rightarrow>
         let (r', job, ms) = dispatch_if_ready P ck (im_message_id indexed)
               (indexed_route ck indexed now r) True now False
         in (r', job, snd (adopt_votes ck (rt_attestors r) (ev_signers e) []) @ ms))"
proof -
  let ?h = "im_message_id indexed"
  have fresh: "AList.update ?h (new_slot indexed now) (rt_by_message r)
      = rt_by_message r @ [(?h, new_slot indexed now)]"
    using assms by (intro hm_insert_fresh) (simp add: map_of_eq_None_iff)
  show ?thesis
  proof (cases "map_of (rt_early_votes r) ?h")
    case None
    then have "AList.delete ?h (rt_early_votes r) = rt_early_votes r"
      by (simp add: delete_id map_of_eq_None_iff)
    with None show ?thesis
      by (simp add: adopt_early_def insert_slot_def indexed_route_def indexed_slot_def fresh
          new_slot_no_signers)
  next
    case (Some e)
    have "adopt_early P ck ?h now (insert_slot indexed now r) =
      (let (r', job, ms) = dispatch_if_ready P ck ?h (indexed_route ck indexed now r) True now False
       in (r', job, snd (adopt_votes ck (rt_attestors r) (ev_signers e) []) @ ms))"
      using assms Some
      by (simp add: adopt_early_def insert_slot_def indexed_route_def indexed_slot_def fresh
          hm_modify_append_fresh split: prod.splits)
    with Some show ?thesis by simp
  qed
qed

lemma note_indexed_cases:
  fixes indexed
  defines "ck \<equiv> im_chain_key indexed" and "h \<equiv> im_message_id indexed"
  assumes "note_indexed P indexed now st = (st', job, ms)"
  obtains "st' = st" "job = None"
      "\<forall>r. map_of (st_by_route st) ck = Some r \<longrightarrow> h \<in> set (hm_keys (rt_by_message r))"
  | r where "map_of (st_by_route st) ck = Some r" "h \<notin> set (hm_keys (rt_by_message r))"
      "\<not> snd (make_room r)" "st' = put_route ck (fst (make_room r)) st" "job = None"
  | r r' where "map_of (st_by_route st) ck = Some r" "h \<notin> set (hm_keys (rt_by_message r))"
      "snd (make_room r)" "st' = put_route ck r' st"
      "r' = indexed_route ck indexed now (fst (make_room r)) \<and> job = None
       \<or> (\<exists>ms'. dispatch_if_ready P ck h (indexed_route ck indexed now (fst (make_room r))) True now False
          = (r', job, ms'))"
proof (cases "map_of (st_by_route st) ck")
  case None
  with assms that(1) show ?thesis by (simp add: note_indexed_def Let_def)
next
  case (Some r)
  show ?thesis
  proof (cases "h \<in> set (hm_keys (rt_by_message r)) \<or> \<not> snd (make_room r)")
    case True
    with assms Some that(1,2) show ?thesis
      by (auto simp: note_indexed_def Let_def split: prod.splits if_splits)
  next
    case False
    then have "h \<notin> set (hm_keys (rt_by_message (fst (make_room r))))"
      using make_room_subset [of r] by auto
    note eq = adopt_early_insert [OF this [unfolded h_def], of P ck now]
    obtain r' ms' where res: "adopt_early P ck h now (insert_slot indexed now (fst (make_room r))) = (r', job, ms')"
        "st' = put_route ck r' st"
      using assms Some False by (auto simp: note_indexed_def Let_def split: prod.splits)
    with eq False Some show ?thesis
      by (intro that(3) [of r r'])
        (auto simp: h_def Let_def split: option.splits prod.splits)
  qed
qed

lemma note_indexed_ok:
  assumes "pool_ok P st" and "note_indexed P indexed now st = (st', job, ms)"
  shows "pool_ok P st'"
  using assms(2)
proof (cases rule: note_indexed_cases)
  case 1
  with assms(1) show ?thesis by simp
next
  case (2 r)
  with assms(1) show ?thesis
    by (auto intro!: pool_ok_put make_room_ok dest: pool_ok_routeD)
next
  case (3 r r')
  let ?r = "fst (make_room r)"
  have "route_ok P (im_chain_key indexed) ?r"
    using 3 assms(1) by (auto intro!: make_room_ok dest: pool_ok_routeD)
  moreover have "im_message_id indexed \<notin> set (hm_keys (rt_by_message ?r))"
    using 3 make_room_subset [of r] by auto
  moreover have "length (rt_by_message ?r) < rt_cache_max ?r"
    using 3 make_room_space [of r] make_room_frame [of r] by simp
  ultimately have "route_ok P (im_chain_key indexed) (indexed_route (im_chain_key indexed) indexed now ?r)"
    by (rule indexed_route_ok)
  with 3 have "route_ok P (im_chain_key indexed) r'"
    by (auto dest: dispatch_ok)
  with assms(1) 3 show ?thesis by (auto intro: pool_ok_put)
qed

definition accept_vote :: "message_vote \<Rightarrow> message_slot \<Rightarrow> message_slot" where
  "accept_vote vote slot =
     slot\<lparr>ms_signers := bt_insert (mv_signer vote) (mv_signature vote) (ms_signers slot)\<rparr>"

definition accept_route :: "message_vote \<Rightarrow> message_slot \<Rightarrow> route_state \<Rightarrow> route_state" where
  "accept_route vote slot r =
     r\<lparr>rt_by_message := hm_modify (mv_message_id vote) (\<lambda>_. accept_vote vote slot) (rt_by_message r)\<rparr>"

lemma note_vote_cases:
  fixes vote
  defines "ck \<equiv> mv_chain_key vote" and "h \<equiv> mv_message_id vote" and "a \<equiv> mv_signer vote"
  assumes "note_vote P vote now st = (st', job, ms)"
  obtains "st' = st" "job = None"
  | r where "map_of (st_by_route st) ck = Some r" "map_of (rt_by_message r) h = None"
      "st' = put_route ck (fst (buffer_early_vote P ck h vote now r)) st" "job = None"
  | r slot r' where "map_of (st_by_route st) ck = Some r" "map_of (rt_by_message r) h = Some slot"
      "\<not> resolved slot" "a \<in> set (rt_attestors r)" "recover_signer P h (mv_signature vote) = Inr a"
      "a \<notin> fst ` set (ms_signers slot)" "st' = put_route ck r' st"
      "r' = accept_route vote slot r \<and> job = None
       \<or> (\<exists>ms'. dispatch_if_ready P ck h (accept_route vote slot r) True now False = (r', job, ms'))"
proof (cases "map_of (st_by_route st) ck")
  case None
  with assms that(1) show ?thesis by (simp add: note_vote_def Let_def)
next
  case (Some r)
  show ?thesis
  proof (cases "map_of (rt_by_message r) h")
    case None
    with assms Some that(2) show ?thesis
      by (auto simp: note_vote_def Let_def split: prod.splits)
  next
    case slot: (Some slot)
    show ?thesis
    proof (cases "\<not> resolved slot \<and> a \<in> set (rt_attestors r)
        \<and> recover_signer P h (mv_signature vote) = Inr a \<and> a \<notin> fst ` set (ms_signers slot)")
      case False
      with assms Some slot that(1) show ?thesis
        by (auto simp: note_vote_def Let_def resolved_def split: if_splits sum.splits)
    next
      case True
      with assms Some slot that(3) show ?thesis
        by (fastforce simp: note_vote_def Let_def resolved_def accept_route_def accept_vote_def
            split: if_splits prod.splits)
    qed
  qed
qed

lemma accept_vote_ok:
  assumes "slot_ok P ck atts h slot" and "\<not> resolved slot" and "mv_signer vote \<in> set atts"
    and "recover_signer P h (mv_signature vote) = Inr (mv_signer vote)"
  shows "slot_ok P ck atts h (accept_vote vote slot)"
proof -
  have "votes_ok P h (ms_signers (accept_vote vote slot))"
    using assms by (simp add: slot_ok_def accept_vote_def votes_ok_insert)
  moreover have "list_all (\<lambda>(a, _). a \<in> set atts) (ms_signers (accept_vote vote slot))"
    using assms by (auto simp: slot_ok_def accept_vote_def list_all_set votes_ok_def bt_set_insert)
  ultimately show ?thesis
    using assms by (simp add: slot_ok_def accept_vote_def resolved_def)
qed

lemma accept_route_ok:
  assumes "route_ok P ck r" and "map_of (rt_by_message r) (mv_message_id vote) = Some slot"
    and "\<not> resolved slot" and "mv_signer vote \<in> set (rt_attestors r)"
    and "recover_signer P (mv_message_id vote) (mv_signature vote) = Inr (mv_signer vote)"
  shows "route_ok P ck (accept_route vote slot r)"
  unfolding accept_route_def using assms
  by (auto intro!: route_ok_modify accept_vote_ok dest: route_ok_slotD)

lemma note_vote_ok:
  assumes "pool_ok P st" and "note_vote P vote now st = (st', job, ms)"
  shows "pool_ok P st'"
  using assms(2)
proof (cases rule: note_vote_cases)
  case 1
  with assms(1) show ?thesis by simp
next
  case (2 r)
  with assms(1) show ?thesis
    by (auto intro!: pool_ok_put buffer_early_vote_ok dest: pool_ok_routeD)
next
  case (3 r slot r')
  with assms(1) have "route_ok P (mv_chain_key vote) (accept_route vote slot r)"
    by (auto intro!: accept_route_ok dest: pool_ok_routeD)
  with 3 have "route_ok P (mv_chain_key vote) r'"
    by (auto dest: dispatch_ok)
  with assms(1) 3 show ?thesis by (auto intro: pool_ok_put)
qed

lemma set_hm_retain: "set (hm_retain Q m) = {(a, b). (a, b) \<in> set m \<and> Q a b}"
  by (auto simp: hm_retain_def)

lemma route_prune_expired_ok: "route_ok P ck r \<Longrightarrow> route_ok P ck (route_prune_expired now ttl r)"
  by (auto simp: route_ok_def route_prune_expired_def Let_def list_all_set set_hm_retain
      intro: le_trans [OF hm_length_retain] rev_image_eqI)

lemma pool_ok_map_routes:
  "pool_ok P st \<Longrightarrow> (\<And>ck r. route_ok P ck r \<Longrightarrow> route_ok P ck (f r)) \<Longrightarrow>
     pool_ok P (st\<lparr>st_by_route := hm_map_values f (st_by_route st)\<rparr>)"
  by (auto simp: pool_ok_def hm_ok_def list_all_set set_hm_map_values)

lemma prune_expired_ok: "pool_ok P st \<Longrightarrow> pool_ok P (prune_expired now st)"
  unfolding prune_expired_def by (intro pool_ok_map_routes route_prune_expired_ok)

lemma slot_ok_idle:
  "slot_ok P ck atts h slot \<Longrightarrow> ms_indexed s = ms_indexed slot \<Longrightarrow> ms_signers s = ms_signers slot \<Longrightarrow>
   (resolved slot \<Longrightarrow> resolved s) \<Longrightarrow> \<not> ms_in_flight s \<Longrightarrow> slot_ok P ck atts h s"
  by (auto simp: slot_ok_def)

lemma apply_result_ok:
  "slot_ok P ck atts h slot \<Longrightarrow> slot_ok P ck atts h (apply_result outcome now unix_now slot)"
  by (erule slot_ok_idle) (auto simp: apply_result_def resolved_def Let_def split: delivery_result_kind.splits)

lemma note_delivery_result_ok:
  assumes "pool_ok P st" and "note_delivery_result res now unix_now st = (st', job, ms)"
  shows "pool_ok P st'"
  using assms
  by (auto simp: note_delivery_result_def Let_def split: option.splits
      intro!: pool_ok_put route_ok_modify apply_result_ok dest: pool_ok_routeD route_ok_slotD)

lemma requeue_delivery_ok: "pool_ok P st \<Longrightarrow> pool_ok P (requeue_delivery ck h now st)"
  by (auto simp: requeue_delivery_def requeue_slot_def resolved_def split: option.splits
      intro!: pool_ok_put route_ok_modify slot_ok_idle [OF route_ok_slotD] dest: pool_ok_routeD)

lemma collect_ready_routes_ok:
  "list_all (\<lambda>(ck, r). route_ok P ck r) rs \<Longrightarrow> collect_ready_routes P now rs = (rs', jobs, ms) \<Longrightarrow>
     list_all (\<lambda>(ck, r). route_ok P ck r) rs' \<and> map fst rs' = map fst rs"
  by (induction rs arbitrary: rs' jobs ms)
    (auto split: prod.splits simp: dispatch_each_ok)

lemma collect_ready_deliveries_ok:
  "pool_ok P st \<Longrightarrow> collect_ready_deliveries P now st = (st', jobs, ms) \<Longrightarrow> pool_ok P st'"
  by (auto simp: pool_ok_def collect_ready_deliveries_def hm_ok_def split: prod.splits
      dest: collect_ready_routes_ok)

lemma prune_signers_ok: "slot_ok P ck atts h slot \<Longrightarrow> slot_ok P ck atts' h (prune_signers atts' slot)"
  by (auto simp: slot_ok_def prune_signers_def resolved_def votes_ok_def list_all_set)

definition reload_route :: "route_attestors \<Rightarrow> route_state \<Rightarrow> route_state" where
  "reload_route upd r = r\<lparr>rt_attestors := ra_attestors upd, rt_threshold := ra_threshold upd,
     rt_by_message := hm_map_values (prune_signers (ra_attestors upd)) (rt_by_message r)\<rparr>"

lemma reload_route_ok: "route_ok P ck r \<Longrightarrow> route_ok P ck (reload_route upd r)"
  by (auto simp: route_ok_def reload_route_def list_all_set set_hm_map_values hm_ok_def
      intro: prune_signers_ok)

lemma apply_attestor_set_cases:
  fixes upd
  defines "ck \<equiv> ra_chain_key upd"
  assumes "apply_attestor_set P upd now st = (st', jobs, ms)"
  obtains "st' = st" "jobs = []"
  | r where "map_of (st_by_route st) ck = Some r" "rt_attestors r = ra_attestors upd"
      "rt_threshold r = ra_threshold upd" "st' = put_route ck r st" "jobs = []"
  | r hs r' ms' where "map_of (st_by_route st) ck = Some r" "st' = put_route ck r' st"
      "dispatch_each P ck True now False hs (reload_route upd r) = (r', jobs, ms')"
      "hs = map fst (filter (\<lambda>(_, s). reload_ready (ra_threshold upd) s) (rt_by_message (reload_route upd r)))"
proof (cases "map_of (st_by_route st) ck")
  case None
  with assms that(1) show ?thesis by (simp add: apply_attestor_set_def Let_def)
next
  case (Some r)
  show ?thesis
  proof (cases "rt_attestors r = ra_attestors upd \<and> rt_threshold r = ra_threshold upd")
    case True
    then have eq: "r\<lparr>rt_attestors := ra_attestors upd, rt_threshold := ra_threshold upd\<rparr> = r"
      by (cases r) auto
    from True assms Some show ?thesis
      by (intro that(2) [of r]) (auto simp: apply_attestor_set_def Let_def eq)
  next
    case False
    let ?hs = "map fst (filter (\<lambda>(_, s). reload_ready (ra_threshold upd) s) (rt_by_message (reload_route upd r)))"
    obtain r' ms' where "dispatch_each P ck True now False ?hs (reload_route upd r) = (r', jobs, ms')"
        "st' = put_route ck r' st"
      using False assms Some
      by (auto simp: apply_attestor_set_def Let_def reload_route_def split: prod.splits)
    with Some show ?thesis by (intro that(3)) auto
  qed
qed

lemma apply_attestor_set_ok:
  assumes "pool_ok P st" and "apply_attestor_set P upd now st = (st', jobs, ms)"
  shows "pool_ok P st'"
  using assms(2)
proof (cases rule: apply_attestor_set_cases)
  case 1
  with assms(1) show ?thesis by simp
next
  case (2 r)
  with assms(1) show ?thesis by (auto intro!: pool_ok_put dest: pool_ok_routeD)
next
  case (3 r hs r' ms')
  with assms(1) have "route_ok P (ra_chain_key upd) (reload_route upd r)"
    by (auto intro!: reload_route_ok dest: pool_ok_routeD)
  with 3 assms(1) show ?thesis by (auto intro!: pool_ok_put dest: dispatch_each_ok)
qed

lemma mark_reobserved_ok: "slot_ok P ck atts h slot \<Longrightarrow> slot_ok P ck atts h (mark_reobserved thr now slot)"
  by (simp add: slot_ok_def mark_reobserved_def resolved_def)

lemma collect_stalled_ok: "pool_ok P st \<Longrightarrow> pool_ok P (fst (collect_stalled_reobservations now st))"
proof -
  have "route_ok P ck (r\<lparr>rt_by_message := hm_map_values (mark_reobserved (rt_threshold r) now) (rt_by_message r)\<rparr>)"
    if "route_ok P ck r" for ck r
    using that
    by (auto simp: route_ok_def list_all_set set_hm_map_values hm_ok_def intro: mark_reobserved_ok)
  then show "pool_ok P st \<Longrightarrow> ?thesis"
    by (simp add: collect_stalled_reobservations_def pool_ok_map_routes)
qed

lemma fold_hm_insert_ok:
  "pool_ok P (\<lparr>st_by_route = m, st_cache = c\<rparr>) \<Longrightarrow> (\<And>x. x \<in> set xs \<Longrightarrow> route_ok P (f x) (g x)) \<Longrightarrow>
     pool_ok P (\<lparr>st_by_route = fold (\<lambda>x. hm_insert (f x) (g x)) xs m, st_cache = c\<rparr>)"
proof (induction xs arbitrary: m)
  case Nil
  then show ?case by simp
next
  case (Cons x xs)
  have ok: "hm_ok (AList.update (f x) (g x) m)"
    using Cons.prems(1) by (simp add: pool_ok_def hash.invar_insert)
  have "route_ok P a b" if "(a, b) \<in> set (AList.update (f x) (g x) m)" for a b
  proof -
    from that ok have "map_of (AList.update (f x) (g x) m) a = Some b" by (simp add: hm_get_iff)
    then show ?thesis
      using Cons.prems by (auto simp: update_conv' pool_ok_def list_all_set split: if_splits dest: map_of_SomeD)
  qed
  with ok have "pool_ok P (\<lparr>st_by_route = AList.update (f x) (g x) m, st_cache = c\<rparr>)"
    by (auto simp: pool_ok_def list_all_set)
  with Cons show ?case by simp
qed

lemma pool_new_ok: "pool_ok P (pool_new routes cache)"
  unfolding pool_new_def by (rule fold_hm_insert_ok) (simp_all add: pool_ok_def route_ok_def)

lemmas pool_ops_ok = pool_new_ok note_indexed_ok note_vote_ok note_delivery_result_ok requeue_delivery_ok
  apply_attestor_set_ok collect_ready_deliveries_ok prune_expired_ok collect_stalled_ok

end
