(* ===== verification/Pool_Dispatch.thy ===== *)
theory Pool_Dispatch
  imports Pool_Invariant
begin

text \<open>
  What the pool hands to the delivery workers. The specification is a quorum certificate: the
  signatures in a job come from distinct attestors of the route's current set, and, unless the
  job only reconciles, there are at least as many as the route's threshold. The second part
  tracks which messages are in flight: an operation launches a message at most once, and only
  when no delivery of it is outstanding.
\<close>

section \<open>Certificates\<close>

definition certified :: "primitives \<Rightarrow> address list \<Rightarrow> nat \<Rightarrow> delivery_job \<Rightarrow> bool" where
  "certified P atts thr j \<longleftrightarrow>
     (\<exists>sgs. dj_votes_calldata j = encode_votes P (map snd sgs) \<and> dj_signer_count j = length sgs
        \<and> distinct (map fst sgs)
        \<and> (\<forall>(a, s) \<in> set sgs. a \<in> set atts \<and> recover_signer P (dj_message_id j) s = Inr a)
        \<and> (dj_reconcile_only j \<or> 0 < thr \<and> thr \<le> length sgs))"

definition job_of :: "indexed_message \<Rightarrow> delivery_job \<Rightarrow> bool" where
  "job_of im j \<longleftrightarrow> dj_chain_key j = im_chain_key im \<and> dj_message_id j = im_message_id im
     \<and> dj_emitter j = im_emitter im \<and> dj_outbox j = im_outbox im
     \<and> dj_sequence j = im_sequence im \<and> dj_payload j = im_payload im"

definition rbacked :: "primitives \<Rightarrow> route_state \<Rightarrow> delivery_job \<Rightarrow> bool" where
  "rbacked P r j \<longleftrightarrow> certified P (rt_attestors r) (rt_threshold r) j
     \<and> (\<exists>slot. map_of (rt_by_message r) (dj_message_id j) = Some slot \<and> job_of (ms_indexed slot) j)"

definition rflying :: "route_state \<Rightarrow> b256 set" where
  "rflying r = {h. \<exists>s. map_of (rt_by_message r) h = Some s \<and> ms_in_flight s}"

lemma rflying_map_values:
  "rt_by_message r' = hm_map_values f (rt_by_message r) \<Longrightarrow> (\<And>s. ms_in_flight (f s) = ms_in_flight s) \<Longrightarrow>
     rflying r' = rflying r"
  by (auto simp: rflying_def hm_get_map_values)

definition rlaunches :: "primitives \<Rightarrow> u64 \<Rightarrow> route_state \<Rightarrow> route_state \<Rightarrow> delivery_job list \<Rightarrow> bool" where
  "rlaunches P ck r r' jobs \<longleftrightarrow>
     rflying r' = rflying r \<union> set (map dj_message_id jobs)
     \<and> distinct (map dj_message_id jobs) \<and> rflying r \<inter> set (map dj_message_id jobs) = {}
     \<and> (\<forall>j \<in> set jobs. dj_chain_key j = ck \<and> rbacked P r' j)"

definition keeps_routes :: "route_state \<Rightarrow> route_state \<Rightarrow> bool" where
  "keeps_routes r r' \<longleftrightarrow> rt_attestors r' = rt_attestors r \<and> rt_threshold r' = rt_threshold r
     \<and> (\<forall>h s. map_of (rt_by_message r) h = Some s \<longrightarrow> ms_in_flight s \<longrightarrow>
          (\<exists>s'. map_of (rt_by_message r') h = Some s' \<and> ms_indexed s' = ms_indexed s))"

lemma rbacked_keeps:
  "rbacked P r j \<Longrightarrow> keeps_routes r r' \<Longrightarrow> dj_message_id j \<in> rflying r \<Longrightarrow> rbacked P r' j"
  by (fastforce simp: rbacked_def keeps_routes_def rflying_def)

lemma rlaunches_Nil [simp]: "rlaunches P ck r r' [] \<longleftrightarrow> rflying r' = rflying r"
  by (auto simp: rlaunches_def)

lemma rlaunches_trans:
  assumes "rlaunches P ck r r1 js" and "rlaunches P ck r1 r2 js'" and "keeps_routes r1 r2"
  shows "rlaunches P ck r r2 (js @ js')"
proof -
  have "rbacked P r2 j" if "j \<in> set js" for j
    using that assms rbacked_keeps [of P r1 j r2] by (auto simp: rlaunches_def)
  with assms show ?thesis by (auto simp: rlaunches_def)
qed

section \<open>One dispatch\<close>

lemma make_job_certified:
  assumes "slot_ok P ck (rt_attestors r) h slot" and "\<not> resolved slot"
  shows "certified P (rt_attestors r) (rt_threshold r) (make_job P ck r slot)"
    and "job_of (ms_indexed slot) (make_job P ck r slot)"
    and "dj_message_id (make_job P ck r slot) = h" and "dj_chain_key (make_job P ck r slot) = ck"
proof -
  have "distinct (map fst (ms_signers slot))"
    using assms(1) by (simp add: slot_ok_def votes_ok_def bt_distinct)
  moreover have "\<forall>(a, s) \<in> set (ms_signers slot). a \<in> set (rt_attestors r)
      \<and> recover_signer P h s = Inr a"
    using assms by (auto simp: slot_ok_def votes_ok_def list_all_set)
  ultimately show "certified P (rt_attestors r) (rt_threshold r) (make_job P ck r slot)"
    using assms(1) unfolding certified_def
    by (intro exI [of _ "ms_signers slot"])
      (auto simp: make_job_def Let_def has_quorum_def slot_ok_def)
qed (use assms in \<open>simp_all add: make_job_def job_of_def Let_def slot_ok_def\<close>)

lemma dispatch_launches:
  assumes "route_ok P ck r" and "dispatch_if_ready P ck h r obs now probe = (r', job, ms)"
  shows "rlaunches P ck r r' (case job of None \<Rightarrow> [] | Some j \<Rightarrow> [j])" and "keeps_routes r r'"
proof -
  have "rlaunches P ck r r' (case job of None \<Rightarrow> [] | Some j \<Rightarrow> [j]) \<and> keeps_routes r r'"
    using assms(2)
  proof (cases rule: dispatch_cases)
    case 1
    then show ?thesis by (auto simp: keeps_routes_def)
  next
    case (2 slot)
    note cert = make_job_certified [OF route_ok_slotD [OF assms(1) 2(1)] 2(2)]
    have "rflying r' = Set.insert h (rflying r)" "h \<notin> rflying r" "keeps_routes r r'"
      using 2 by (auto simp: rflying_def keeps_routes_def hm_get_modify mark_dispatched_def split: if_splits)
    moreover have "rbacked P r' (make_job P ck r slot)"
      using cert 2(1) by (simp add: rbacked_def 2(7) hm_get_modify mark_dispatched_def)
    ultimately show ?thesis using 2(6) cert by (simp add: rlaunches_def)
  qed
  then show "rlaunches P ck r r' (case job of None \<Rightarrow> [] | Some j \<Rightarrow> [j])" and "keeps_routes r r'"
    by simp_all
qed

lemma keeps_routes_refl [simp]: "keeps_routes r r"
  by (simp add: keeps_routes_def)

lemma keeps_routes_trans:
  assumes "keeps_routes r r1" and "keeps_routes r1 r2" and "rflying r \<subseteq> rflying r1"
  shows "keeps_routes r r2"
proof -
  have "\<exists>s'. map_of (rt_by_message r2) h = Some s' \<and> ms_indexed s' = ms_indexed s"
    if "map_of (rt_by_message r) h = Some s" "ms_in_flight s" for h s
  proof -
    obtain s1 where s1: "map_of (rt_by_message r1) h = Some s1" "ms_indexed s1 = ms_indexed s"
      using assms(1) \<open>map_of _ _ = _\<close> \<open>ms_in_flight s\<close> by (auto simp: keeps_routes_def)
    moreover have "h \<in> rflying r1" using assms(3) \<open>map_of _ _ = Some s\<close> \<open>ms_in_flight s\<close>
      by (auto simp: rflying_def)
    ultimately have "ms_in_flight s1" by (simp add: rflying_def)
    with assms(2) s1(1) obtain s2 where "map_of (rt_by_message r2) h = Some s2" "ms_indexed s2 = ms_indexed s1"
      unfolding keeps_routes_def by blast
    with s1(2) show ?thesis by simp
  qed
  with assms(1,2) show ?thesis by (simp add: keeps_routes_def)
qed

lemma dispatch_each_launches:
  "route_ok P ck r \<Longrightarrow> dispatch_each P ck obs now probe hs r = (r', jobs, ms) \<Longrightarrow>
     rlaunches P ck r r' jobs \<and> keeps_routes r r'"
proof (induction hs arbitrary: r r' jobs ms)
  case Nil
  then show ?case by simp
next
  case (Cons h hs)
  from Cons.prems(2) obtain r1 job ms1 jobs2 ms2 where
    d: "dispatch_if_ready P ck h r obs now probe = (r1, job, ms1)"
    and e: "dispatch_each P ck obs now probe hs r1 = (r', jobs2, ms2)"
    and jobs: "jobs = (case job of None \<Rightarrow> [] | Some j \<Rightarrow> [j]) @ jobs2"
    by (auto split: prod.splits option.splits)
  note one = dispatch_launches [OF Cons.prems(1) d]
  note rest = Cons.IH [OF dispatch_ok [OF Cons.prems(1) d] e]
  have "rflying r \<subseteq> rflying r1" using one(1) by (auto simp: rlaunches_def)
  with one rest show ?case
    unfolding jobs by (blast intro: rlaunches_trans keeps_routes_trans)
qed

section \<open>The whole pool\<close>

definition flying :: "pool_state \<Rightarrow> (u64 \<times> b256) set" where
  "flying st = {(ck, h). \<exists>r. map_of (st_by_route st) ck = Some r \<and> h \<in> rflying r}"

definition job_key :: "delivery_job \<Rightarrow> u64 \<times> b256" where
  "job_key j = (dj_chain_key j, dj_message_id j)"

definition backed :: "primitives \<Rightarrow> pool_state \<Rightarrow> delivery_job \<Rightarrow> bool" where
  "backed P st j \<longleftrightarrow> (\<exists>r. map_of (st_by_route st) (dj_chain_key j) = Some r \<and> rbacked P r j)"

definition launches :: "primitives \<Rightarrow> pool_state \<Rightarrow> pool_state \<Rightarrow> delivery_job list \<Rightarrow> bool" where
  "launches P st st' jobs \<longleftrightarrow>
     flying st' = flying st \<union> set (map job_key jobs)
     \<and> distinct (map job_key jobs) \<and> flying st \<inter> set (map job_key jobs) = {}
     \<and> (\<forall>j \<in> set jobs. backed P st' j)"

lemma launches_Nil [simp]: "launches P st st' [] \<longleftrightarrow> flying st' = flying st"
  by (auto simp: launches_def)

lemma flying_put:
  "map_of (st_by_route st) ck = Some r \<Longrightarrow>
     flying (put_route ck r' st) = {(c, h) \<in> flying st. c \<noteq> ck} \<union> Pair ck ` rflying r'"
  by (auto simp: flying_def get_put_route split: if_splits)

lemma flying_put_same:
  "map_of (st_by_route st) ck = Some r \<Longrightarrow> rflying r' = rflying r \<Longrightarrow> flying (put_route ck r' st) = flying st"
  by (auto simp: flying_def get_put_route split: if_splits)

lemma launches_put:
  assumes "map_of (st_by_route st) ck = Some r" and "rlaunches P ck r r' jobs"
  shows "launches P st (put_route ck r' st) jobs"
proof -
  have keys: "map job_key jobs = map (Pair ck) (map dj_message_id jobs)"
    using assms(2) by (auto simp: rlaunches_def job_key_def)
  have "distinct (map job_key jobs)"
    unfolding keys using assms(2) by (simp add: rlaunches_def distinct_map inj_on_def)
  moreover have "flying (put_route ck r' st) = flying st \<union> set (map job_key jobs)"
    unfolding keys flying_put [OF assms(1)] using assms by (auto simp: rlaunches_def flying_def)
  moreover have "flying st \<inter> set (map job_key jobs) = {}"
    unfolding keys using assms by (auto simp: rlaunches_def flying_def)
  moreover have "backed P (put_route ck r' st) j" if "j \<in> set jobs" for j
    using that assms by (auto simp: rlaunches_def backed_def get_put_route)
  ultimately show ?thesis by (simp add: launches_def)
qed

definition keeps_pool :: "pool_state \<Rightarrow> pool_state \<Rightarrow> bool" where
  "keeps_pool st st' \<longleftrightarrow>
     (\<forall>ck r. map_of (st_by_route st) ck = Some r \<longrightarrow>
        (\<exists>r'. map_of (st_by_route st') ck = Some r' \<and> keeps_routes r r'))"

lemma keeps_pool_refl [simp]: "keeps_pool st st"
  by (simp add: keeps_pool_def)

lemma keeps_pool_put:
  "map_of (st_by_route st) ck = Some r \<Longrightarrow> keeps_routes r r' \<Longrightarrow> keeps_pool st (put_route ck r' st)"
  by (auto simp: keeps_pool_def get_put_route)

lemma backed_keeps:
  "backed P st j \<Longrightarrow> keeps_pool st st' \<Longrightarrow> job_key j \<in> flying st \<Longrightarrow> backed P st' j"
  by (fastforce simp: backed_def keeps_pool_def flying_def job_key_def intro: rbacked_keeps)

lemma launches_trans:
  assumes "launches P st s1 js" and "launches P s1 s2 js'" and "keeps_pool s1 s2"
  shows "launches P st s2 (js @ js')"
proof -
  have "backed P s2 j" if "j \<in> set js" for j
    using that assms by (auto simp: launches_def intro: backed_keeps [of P s1])
  with assms show ?thesis by (auto simp: launches_def)
qed

section \<open>Each operation\<close>

lemma make_room_flying:
  assumes "route_ok P ck r"
  shows "rflying (fst (make_room r)) = rflying r" and "keeps_routes r (fst (make_room r))"
proof -
  have ok: "hm_ok (rt_by_message r)" "hm_ok (rt_by_message (fst (make_room r)))"
    using assms make_room_ok [OF assms] by (simp_all add: route_ok_def)
  have keep: "map_of (rt_by_message (fst (make_room r))) h = Some s"
    if "map_of (rt_by_message r) h = Some s" "ms_in_flight s" for h s
    using make_room_keeps [OF ok(1) that(1)] route_ok_slotD [OF assms that(1)] that(2)
    by (simp add: slot_ok_def)
  have "map_of (rt_by_message r) h = Some s" if "map_of (rt_by_message (fst (make_room r))) h = Some s" for h s
    using that make_room_subset [of r] ok by (auto simp: hm_get_iff)
  with keep show "rflying (fst (make_room r)) = rflying r" unfolding rflying_def by blast
  from keep make_room_frame [of r] show "keeps_routes r (fst (make_room r))"
    unfolding keeps_routes_def by blast
qed

lemma indexed_route_flying:
  assumes "im_message_id indexed \<notin> set (hm_keys (rt_by_message r))"
  shows "rflying (indexed_route ck indexed now r) = rflying r" and "keeps_routes r (indexed_route ck indexed now r)"
proof -
  have none: "map_of (rt_by_message r) (im_message_id indexed) = None"
    using assms by (simp add: map_of_eq_None_iff)
  show "rflying (indexed_route ck indexed now r) = rflying r"
    using none by (auto simp: rflying_def indexed_route_def indexed_slot_def new_slot_def map_add_def
        split: option.splits if_splits)
  show "keeps_routes r (indexed_route ck indexed now r)"
    using none by (auto simp: keeps_routes_def indexed_route_def map_add_def split: option.splits)
qed

lemma rlaunches_from: "rflying r = rflying r0 \<Longrightarrow> rlaunches P ck r r' js \<Longrightarrow> rlaunches P ck r0 r' js"
  by (simp add: rlaunches_def)

lemma note_indexed_launches:
  assumes "pool_ok P st" and "note_indexed P indexed now st = (st', job, ms)"
  shows "launches P st st' (case job of None \<Rightarrow> [] | Some j \<Rightarrow> [j]) \<and> keeps_pool st st'"
  using assms(2)
proof (cases rule: note_indexed_cases)
  case 1
  then show ?thesis by simp
next
  case (2 r)
  note mr = make_room_flying [OF pool_ok_routeD [OF assms(1) 2(1)]]
  from flying_put_same [OF 2(1) mr(1)] keeps_pool_put [OF 2(1) mr(2)] 2(4,5) show ?thesis by simp
next
  case (3 r r')
  let ?ck = "im_chain_key indexed" and ?r1 = "fst (make_room r)"
  let ?r2 = "indexed_route ?ck indexed now ?r1"
  have ok: "route_ok P ?ck r" using pool_ok_routeD [OF assms(1) 3(1)] .
  have fresh: "im_message_id indexed \<notin> set (hm_keys (rt_by_message ?r1))"
    using 3(2) make_room_subset [of r] by auto
  note mr = make_room_flying [OF ok] and ir = indexed_route_flying [OF fresh, of ?ck now]
  have ok2: "route_ok P ?ck ?r2"
    using indexed_route_ok [OF make_room_ok [OF ok] fresh] make_room_space [OF 3(3)] make_room_frame [of r]
    by simp
  have fl: "rflying ?r2 = rflying r" using mr(1) ir(1) by simp
  have kp: "keeps_routes r ?r2" using keeps_routes_trans [OF mr(2) ir(2)] mr(1) by simp
  have "rlaunches P ?ck r r' (case job of None \<Rightarrow> [] | Some j \<Rightarrow> [j]) \<and> keeps_routes r r'"
    using 3(5)
  proof (elim disjE exE conjE)
    fix ms'
    assume d: "dispatch_if_ready P ?ck (im_message_id indexed) ?r2 True now False = (r', job, ms')"
    note l = dispatch_launches [OF ok2 d]
    show ?thesis
      using rlaunches_from [OF fl l(1)] keeps_routes_trans [OF kp l(2)] fl by simp
  qed (use fl kp in simp)
  with 3(1,4) show ?thesis by (auto intro: launches_put keeps_pool_put)
qed

lemma note_vote_launches:
  assumes "pool_ok P st" and "note_vote P vote now st = (st', job, ms)"
  shows "launches P st st' (case job of None \<Rightarrow> [] | Some j \<Rightarrow> [j])"
  using assms(2)
proof (cases rule: note_vote_cases)
  case 1
  then show ?thesis by simp
next
  case (2 r)
  have "rt_by_message (fst (buffer_early_vote P ck h vote now r)) = rt_by_message r" for ck h
    by (auto simp: buffer_early_vote_def Let_def evict_early_frame split: sum.splits)
  with 2 show ?thesis by (simp add: flying_put_same rflying_def)
next
  case (3 r slot r')
  let ?ck = "mv_chain_key vote" and ?r1 = "accept_route vote slot r"
  have ok: "route_ok P ?ck ?r1"
    using accept_route_ok [OF pool_ok_routeD [OF assms(1) 3(1)] 3(2,3,4,5)] .
  have fl: "rflying ?r1 = rflying r"
    using 3(2) by (auto simp: rflying_def accept_route_def accept_vote_def hm_get_modify)
  have "rlaunches P ?ck r r' (case job of None \<Rightarrow> [] | Some j \<Rightarrow> [j])"
    using 3(8) fl dispatch_launches(1) [OF ok] rlaunches_from [OF fl] by fastforce
  with 3 show ?thesis by (auto intro: launches_put)
qed

lemma apply_attestor_set_launches:
  assumes "pool_ok P st" and "apply_attestor_set P upd now st = (st', jobs, ms)"
  shows "launches P st st' jobs"
  using assms(2)
proof (cases rule: apply_attestor_set_cases)
  case 1
  then show ?thesis by simp
next
  case (2 r)
  then show ?thesis by (simp add: flying_put_same)
next
  case (3 r hs r' ms')
  have ok: "route_ok P (ra_chain_key upd) (reload_route upd r)"
    using reload_route_ok pool_ok_routeD [OF assms(1) 3(1)] .
  have fl: "rflying (reload_route upd r) = rflying r"
    by (auto simp: rflying_map_values reload_route_def prune_signers_def)
  show ?thesis
    using dispatch_each_launches [OF ok 3(3)] rlaunches_from [OF fl] 3(1,2) by (auto intro: launches_put)
qed

section \<open>The retry tick\<close>

definition routes_state :: "(u64, route_state) hash_map \<Rightarrow> pool_state" where
  "routes_state rs = \<lparr>st_by_route = rs, st_cache = undefined\<rparr>"

lemma launches_routes: "launches P st st' jobs \<longleftrightarrow>
    launches P (routes_state (st_by_route st)) (routes_state (st_by_route st')) jobs"
  by (simp add: launches_def flying_def backed_def routes_state_def)

lemma collect_ready_routes_launches:
  "hm_ok rs \<Longrightarrow> list_all (\<lambda>(ck, r). route_ok P ck r) rs \<Longrightarrow> collect_ready_routes P now rs = (rs', jobs, ms) \<Longrightarrow>
     launches P (routes_state rs) (routes_state rs') jobs \<and> map fst rs' = map fst rs"
proof (induction rs arbitrary: rs' jobs ms)
  case Nil
  then show ?case by simp
next
  case (Cons p rs)
  obtain ck r where p: "p = (ck, r)" by fastforce
  from Cons.prems(3) obtain r' js ms1 rs2 js2 ms2 where
    d: "dispatch_each P ck False now True (hm_keys (rt_by_message r)) r = (r', js, ms1)"
    and e: "collect_ready_routes P now rs = (rs2, js2, ms2)"
    and res: "rs' = (ck, r') # rs2" "jobs = js @ js2"
    by (auto simp: p split: prod.splits)
  have fresh: "ck \<notin> fst ` set rs" and ok: "hm_ok rs" using Cons.prems(1) by (auto simp: p hm_ok_def)
  have rest: "launches P (routes_state rs) (routes_state rs2) js2" "map fst rs2 = map fst rs"
    using Cons.IH [OF ok _ e] Cons.prems(2) by auto
  have keys2: "fst ` set rs2 = fst ` set rs" using rest(2) by (metis list.set_map)
  have one: "rlaunches P ck r r' js"
    using dispatch_each_launches [OF _ d] Cons.prems(2) by (simp add: p)
  have nck: "fst (job_key j) \<noteq> ck" if j2: "j \<in> set js2" for j
  proof -
    obtain x where "map_of rs2 (dj_chain_key j) = Some x"
      using rest(1) j2 by (auto simp: launches_def backed_def routes_state_def)
    then have "dj_chain_key j \<in> fst ` set rs" using keys2 by (force dest: map_of_SomeD)
    with fresh show ?thesis by (auto simp: job_key_def)
  qed
  have ckj: "job_key j = (ck, dj_message_id j)" if "j \<in> set js" for j
    using that one by (simp add: rlaunches_def job_key_def)
  have fl: "flying (routes_state ((ck, x) # ys)) = Pair ck ` rflying x \<union> flying (routes_state ys)"
    if "ck \<notin> fst ` set ys" for x ys
    using that by (auto simp: flying_def routes_state_def map_of_eq_None_iff [symmetric] split: if_splits)
  have keys: "set (map job_key js) = Pair ck ` set (map dj_message_id js)"
    using ckj by (force simp: image_iff)
  have nfly: "flying (routes_state ys) \<inter> Pair ck ` X = {}" if "ck \<notin> fst ` set ys" for X ys
    using that by (auto simp: flying_def routes_state_def map_of_eq_None_iff [symmetric])
  have "flying (routes_state rs') = flying (routes_state (p # rs)) \<union> set (map job_key jobs)"
    using one rest(1) fl [OF fresh, of r] fl [of rs2 r'] fresh keys
    by (simp add: launches_def rlaunches_def res p keys2 image_Un Un_ac)
  moreover have "distinct (map job_key jobs)"
  proof -
    have "distinct (map job_key js)"
      using one ckj by (auto simp: rlaunches_def distinct_map inj_on_def)
    moreover have "set (map job_key js) \<inter> set (map job_key js2) = {}"
      unfolding keys by (auto dest!: nck dest: arg_cong [where f = fst])
    ultimately show ?thesis using rest(1) by (simp add: launches_def res)
  qed
  moreover have "flying (routes_state (p # rs)) \<inter> set (map job_key jobs) = {}"
  proof -
    have "Pair ck ` rflying r \<inter> set (map job_key js) = {}" unfolding keys using one by (auto simp: rlaunches_def)
    moreover have "Pair ck ` rflying r \<inter> set (map job_key js2) = {}"
      by (auto dest!: nck dest: arg_cong [where f = fst])
    moreover have "flying (routes_state rs) \<inter> set (map job_key js) = {}" unfolding keys by (rule nfly [OF fresh])
    ultimately show ?thesis
      using rest(1) by (simp add: launches_def res p fl [OF fresh] Int_Un_distrib Int_Un_distrib2)
  qed
  moreover have "backed P (routes_state rs') j" if "j \<in> set js2" for j
    using rest(1) that nck [OF that] by (auto simp: launches_def backed_def routes_state_def res job_key_def)
  moreover have "backed P (routes_state rs') j" if "j \<in> set js" for j
    using one that by (auto simp: rlaunches_def backed_def routes_state_def res)
  ultimately have "launches P (routes_state (p # rs)) (routes_state rs') jobs"
    unfolding launches_def by (auto simp: res(2))
  with rest(2) show ?case by (simp add: res p)
qed

lemma collect_ready_deliveries_launches:
  assumes "pool_ok P st" and "collect_ready_deliveries P now st = (st', jobs, ms)"
  shows "launches P st st' jobs"
  using assms collect_ready_routes_launches [of "st_by_route st" P now]
  by (subst launches_routes) (auto simp: pool_ok_def collect_ready_deliveries_def split: prod.splits)

section \<open>Operations that launch nothing\<close>

lemma prune_expired_flying:
  assumes "pool_ok P st"
  shows "flying (prune_expired now st) = flying st"
proof -
  have "rflying (route_prune_expired now ttl r) = rflying r" if "map_of (st_by_route st) ck = Some r" for ck r ttl
  proof -
    have ok: "route_ok P ck r" using pool_ok_routeD [OF assms that] .
    then have "hm_ok (rt_by_message r)" by (simp add: route_ok_def)
    with route_ok_slotD [OF ok] show ?thesis
      by (fastforce simp: rflying_def route_prune_expired_def Let_def hm_get_retain slot_ok_def resolved_def
          split: option.splits if_splits)
  qed
  then show ?thesis
    by (simp add: flying_def prune_expired_def hm_get_map_values) blast
qed

lemma collect_stalled_flying: "flying (fst (collect_stalled_reobservations now st)) = flying st"
proof -
  have "rflying (r\<lparr>rt_by_message := hm_map_values (mark_reobserved thr now) (rt_by_message r)\<rparr>) = rflying r" for thr r
    by (rule rflying_map_values [where f = "mark_reobserved thr now"]) (simp_all add: mark_reobserved_def)
  then show ?thesis
    by (simp add: flying_def collect_stalled_reobservations_def hm_get_map_values) blast
qed

lemma note_delivery_result_flying:
  assumes "note_delivery_result res now unix_now st = (st', job, ms)"
  shows "flying st' = flying st - {(dr_chain_key res, dr_message_id res)}" and "job = None"
proof -
  have "\<not> ms_in_flight (apply_result oc now unix_now s)" for oc s
    by (simp add: apply_result_def Let_def split: delivery_result_kind.split)
  then show "flying st' = flying st - {(dr_chain_key res, dr_message_id res)}"
    using assms
    by (auto simp: note_delivery_result_def Let_def flying_def rflying_def get_put_route hm_get_modify
        split: option.splits if_splits)
  show "job = None" using assms by (auto simp: note_delivery_result_def Let_def split: option.splits)
qed

lemma requeue_delivery_flying: "flying (requeue_delivery ck h now st) = flying st - {(ck, h)}"
  by (auto simp: requeue_delivery_def requeue_slot_def flying_def rflying_def get_put_route hm_get_modify
      split: option.splits if_splits)

lemmas pool_launches = note_indexed_launches note_vote_launches apply_attestor_set_launches
  collect_ready_deliveries_launches
lemmas pool_flying = prune_expired_flying collect_stalled_flying note_delivery_result_flying requeue_delivery_flying

end
