(* ===== verification/Checkpoint.thy ===== *)
theory Checkpoint
  imports Prelude
begin

text \<open>
  Persistent block cursors (\<^verbatim>\<open>message-relayer/src/checkpoint.rs\<close>). The file system the store
  writes to is a map from file names to contents; a fault says at which stage an atomic write
  fails. The JSON codec (serde) is an argument: rendering the map and parsing it back.
\<close>

section \<open>Atomic file replacement\<close>

type_synonym 'f files = "('f, bytes) hash_map"

text \<open>
  Where \<^verbatim>\<open>write_atomic\<close> stops: it cannot create the directory or the temporary file, a write or
  fsync fails with some partial content already in the temporary file, the rename fails, or
  nothing fails. A failed fsync of the directory is only logged, so it is no fault.
\<close>

datatype write_fault = CreateFails | WriteFails bytes | RenameFails | NoFault

fun write_atomic :: "write_fault \<Rightarrow> 'f \<Rightarrow> 'f \<Rightarrow> bytes \<Rightarrow> 'f files \<Rightarrow> 'f files \<times> bool" where
  "write_atomic CreateFails tmp path bytes fs = (fs, False)"
| "write_atomic (WriteFails partial) tmp path bytes fs = (hm_insert tmp partial fs, False)"
| "write_atomic RenameFails tmp path bytes fs = (hm_insert tmp bytes fs, False)"
| "write_atomic NoFault tmp path bytes fs = (hm_insert path bytes (hm_remove tmp fs), True)"

lemma write_atomic_ok [simp]: "snd (write_atomic f tmp path bs fs) \<longleftrightarrow> f = NoFault"
  by (cases f) auto

lemma write_atomic_lookup:
  assumes "path \<noteq> tmp"
  shows "map_of (fst (write_atomic f tmp path bs fs)) path = (if f = NoFault then Some bs else map_of fs path)"
  using assms by (cases f) (auto simp: update_conv')

lemma write_atomic_frame:
  assumes "q \<noteq> tmp" and "q \<noteq> path"
  shows "map_of (fst (write_atomic f tmp path bs fs)) q = map_of fs q"
  using assms by (cases f) (auto simp: update_conv' delete_conv')

lemma write_atomic_hm_ok: "hm_ok fs \<Longrightarrow> hm_ok (fst (write_atomic f tmp path bs fs))"
  by (cases f) (auto simp: hash.invar_insert hash.invar_remove)

section \<open>The checkpoint store\<close>

record entry =
  ce_block :: u64
  ce_outbox :: "string option"
  ce_durable_work :: bool

definition default_entry :: entry where
  "default_entry = \<lparr>ce_block = 0, ce_outbox = None, ce_durable_work = False\<rparr>"

datatype raw_entry = Legacy u64 | Full u64 "string option" bool

fun entry_from :: "raw_entry \<Rightarrow> entry" where
  "entry_from (Legacy block) = default_entry\<lparr>ce_block := block\<rparr>"
| "entry_from (Full block outbox durable_work) =
     \<lparr>ce_block = block, ce_outbox = outbox, ce_durable_work = durable_work\<rparr>"

text \<open>The two files of the store: the checkpoint and its temporary sibling.\<close>

datatype cp_file = CpFile | CpTemp

record cp_codec =
  cp_render :: "(string, entry) hash_map \<Rightarrow> bytes option"
  cp_parse :: "bytes \<Rightarrow> (string, raw_entry) hash_map option"

record checkpoint_store =
  cs_inner :: "(string, entry) hash_map"
  cs_files :: "cp_file files"

datatype load_error = EmptyFile | ParseError | ReadError

definition is_blank :: "bytes \<Rightarrow> bool" where
  "is_blank text = list_all (\<lambda>b. b \<in> {9, 10, 11, 12, 13, 32}) text"

text \<open>\<open>readable\<close> is false when reading the present file fails for another reason than absence.\<close>

definition cp_load :: "cp_codec \<Rightarrow> bool \<Rightarrow> cp_file files \<Rightarrow> load_error + checkpoint_store" where
  "cp_load C readable fs =
     (case hm_get fs CpFile of
        None \<Rightarrow> Inr \<lparr>cs_inner = [], cs_files = fs\<rparr>
      | Some text \<Rightarrow>
          if \<not> readable then Inl ReadError
          else if is_blank text then Inl EmptyFile
          else case cp_parse C text of
                 None \<Rightarrow> Inl ParseError
               | Some raw \<Rightarrow> Inr \<lparr>cs_inner = hm_map_values entry_from raw, cs_files = fs\<rparr>)"

definition cp_get :: "string \<Rightarrow> checkpoint_store \<Rightarrow> u64 option" where
  "cp_get key cs = map_option ce_block (hm_get (cs_inner cs) key)"

definition cp_get_outbox :: "string \<Rightarrow> checkpoint_store \<Rightarrow> string option" where
  "cp_get_outbox key cs = Option.bind (hm_get (cs_inner cs) key) ce_outbox"

definition has_durable_work :: "string \<Rightarrow> checkpoint_store \<Rightarrow> bool" where
  "has_durable_work key cs = (case hm_get (cs_inner cs) key of None \<Rightarrow> False | Some e \<Rightarrow> ce_durable_work e)"

definition cp_persist ::
  "cp_codec \<Rightarrow> write_fault \<Rightarrow> (string, entry) hash_map \<Rightarrow> cp_file files \<Rightarrow> cp_file files \<times> bool" where
  "cp_persist C fault entries fs =
     (case cp_render C entries of
        None \<Rightarrow> (fs, False)
      | Some text \<Rightarrow> write_atomic fault CpTemp CpFile text fs)"

definition persist_entry ::
  "cp_codec \<Rightarrow> write_fault \<Rightarrow> string \<Rightarrow> entry \<Rightarrow> checkpoint_store \<Rightarrow> checkpoint_store \<times> bool" where
  "persist_entry C fault key e cs =
     (let previous = hm_get (cs_inner cs) key;
          entries = hm_insert key e (cs_inner cs);
          (fs, ok) = cp_persist C fault entries (cs_files cs)
      in if ok then (\<lparr>cs_inner = entries, cs_files = fs\<rparr>, True)
         else (\<lparr>cs_inner = (case previous of Some p \<Rightarrow> hm_insert key p entries
                            | None \<Rightarrow> hm_remove key entries), cs_files = fs\<rparr>, False))"

definition cp_set :: "cp_codec \<Rightarrow> write_fault \<Rightarrow> string \<Rightarrow> u64 \<Rightarrow> checkpoint_store \<Rightarrow> checkpoint_store \<times> bool" where
  "cp_set C fault key block cs =
     persist_entry C fault key
       ((case hm_get (cs_inner cs) key of None \<Rightarrow> default_entry | Some e \<Rightarrow> e)\<lparr>ce_block := block\<rparr>) cs"

definition set_with_outbox ::
  "cp_codec \<Rightarrow> write_fault \<Rightarrow> string \<Rightarrow> u64 \<Rightarrow> string \<Rightarrow> checkpoint_store \<Rightarrow> checkpoint_store \<times> bool" where
  "set_with_outbox C fault key block outbox cs =
     persist_entry C fault key \<lparr>ce_block = block, ce_outbox = Some outbox, ce_durable_work = False\<rparr> cs"

definition set_journaled ::
  "cp_codec \<Rightarrow> write_fault \<Rightarrow> string \<Rightarrow> u64 \<Rightarrow> string option \<Rightarrow> checkpoint_store \<Rightarrow> checkpoint_store \<times> bool" where
  "set_journaled C fault key block outbox cs =
     persist_entry C fault key \<lparr>ce_block = block, ce_outbox = outbox, ce_durable_work = True\<rparr> cs"

definition set_with_work ::
  "cp_codec \<Rightarrow> write_fault \<Rightarrow> string \<Rightarrow> u64 \<Rightarrow> string \<Rightarrow> checkpoint_store \<Rightarrow> checkpoint_store \<times> bool" where
  "set_with_work C fault key block outbox cs = set_journaled C fault key block (Some outbox) cs"

section \<open>Correctness\<close>

text \<open>
  What the JSON codec promises: rendering a map of entries and parsing it back gives the same
  map (as a map: JSON objects do not keep the hash map's order), and a rendered map is never
  blank text.
\<close>

definition codec_ok :: "cp_codec \<Rightarrow> bool" where
  "codec_ok C \<longleftrightarrow> (\<forall>m text. cp_render C m = Some text \<longrightarrow>
     \<not> is_blank text \<and> (\<exists>raw. cp_parse C text = Some raw \<and> map_of (hm_map_values entry_from raw) = map_of m))"

text \<open>The file holds the map in memory, or nothing has been recorded yet.\<close>

definition cs_synced :: "cp_codec \<Rightarrow> checkpoint_store \<Rightarrow> bool" where
  "cs_synced C cs \<longleftrightarrow>
     (case map_of (cs_files cs) CpFile of
        None \<Rightarrow> cs_inner cs = []
      | Some text \<Rightarrow> \<exists>m. cp_render C m = Some text \<and> map_of m = map_of (cs_inner cs))"

lemma persist_entry_ok_iff:
  "snd (persist_entry C fault key e cs) \<longleftrightarrow>
     fault = NoFault \<and> cp_render C (hm_insert key e (cs_inner cs)) \<noteq> None"
  by (auto simp: persist_entry_def cp_persist_def Let_def split: option.splits prod.splits
      dest: arg_cong [where f = snd])

text \<open>A failed save restores the map in memory and leaves the checkpoint file as it was.\<close>

lemma alist_update_remove: "map_of m k = None \<Longrightarrow> AList.delete k (AList.update k w m) = m"
  by (induction m) (auto split: if_splits simp: delete_id map_of_eq_None_iff)

lemma persist_entry_failed:
  assumes "\<not> snd (persist_entry C fault key e cs)"
  shows "cs_inner (fst (persist_entry C fault key e cs)) = cs_inner cs"
    and "map_of (cs_files (fst (persist_entry C fault key e cs))) CpFile = map_of (cs_files cs) CpFile"
proof -
  show "cs_inner (fst (persist_entry C fault key e cs)) = cs_inner cs"
    using assms
    by (auto simp: persist_entry_def Let_def update_triv alist_update_remove
        split: option.splits prod.splits if_splits)
  have "map_of (fst (cp_persist C fault m fs)) CpFile = map_of fs CpFile"
    if "\<not> snd (cp_persist C fault m fs)" for m fs
    using that write_atomic_lookup [of CpFile CpTemp fault _ fs]
    by (auto simp: cp_persist_def split: option.splits)
  then show "map_of (cs_files (fst (persist_entry C fault key e cs))) CpFile = map_of (cs_files cs) CpFile"
    using assms by (auto simp: persist_entry_def Let_def split: prod.splits if_splits)
      (metis fst_conv snd_conv)+
qed

lemma persist_entry_saved:
  assumes "snd (persist_entry C fault key e cs)"
  shows "cs_inner (fst (persist_entry C fault key e cs)) = hm_insert key e (cs_inner cs)"
    and "map_of (cs_files (fst (persist_entry C fault key e cs))) CpFile =
      cp_render C (hm_insert key e (cs_inner cs))"
  using assms
  by (cases fault; auto simp: persist_entry_def cp_persist_def Let_def update_conv'
      split: option.splits prod.splits if_splits)+

lemma persist_entry_synced:
  assumes "cs_synced C cs"
  shows "cs_synced C (fst (persist_entry C fault key e cs))"
proof (cases "snd (persist_entry C fault key e cs)")
  case True
  then obtain t where "cp_render C (hm_insert key e (cs_inner cs)) = Some t"
    by (auto simp: persist_entry_ok_iff)
  with persist_entry_saved [OF True] show ?thesis
    by (auto simp: cs_synced_def)
next
  case False
  with persist_entry_failed [OF False] assms show ?thesis
    by (simp add: cs_synced_def split: option.splits)
qed

text \<open>Loading what is on disk gives back every cursor, as a map.\<close>

lemma load_synced:
  assumes "codec_ok C" and "cs_synced C cs"
  shows "\<exists>cs'. cp_load C True (cs_files cs) = Inr cs' \<and> map_of (cs_inner cs') = map_of (cs_inner cs)"
proof (cases "map_of (cs_files cs) CpFile")
  case None
  with assms(2) show ?thesis by (simp add: cp_load_def cs_synced_def)
next
  case (Some t)
  with assms(2) obtain m where "cp_render C m = Some t" and m: "map_of m = map_of (cs_inner cs)"
    by (auto simp: cs_synced_def)
  with assms(1) obtain raw where "\<not> is_blank t" "cp_parse C t = Some raw"
    "map_of (hm_map_values entry_from raw) = map_of m"
    unfolding codec_ok_def by blast
  with Some m show ?thesis by (simp add: cp_load_def)
qed

lemma cp_lookups_cong:
  assumes "map_of (cs_inner a) = map_of (cs_inner b)"
  shows "cp_get k a = cp_get k b" "cp_get_outbox k a = cp_get_outbox k b"
    "has_durable_work k a = has_durable_work k b"
  by (simp_all add: cp_get_def cp_get_outbox_def has_durable_work_def assms)

lemma persist_entry_lookup:
  assumes "persist_entry K fault key e cs = (cs', ok)"
  shows "map_of (cs_inner cs') k = (if k = key \<and> ok then Some e else map_of (cs_inner cs) k)"
proof (cases ok)
  case True
  then have "snd (persist_entry K fault key e cs)" using assms by simp
  from persist_entry_saved [OF this] assms True show ?thesis by (simp add: update_conv')
next
  case False
  then have "\<not> snd (persist_entry K fault key e cs)" using assms by simp
  from persist_entry_failed(1) [OF this] assms False show ?thesis by simp
qed

lemma load_keeps:
  assumes "codec_ok K" and "cs_synced K cs" and "cp_load K readable (cs_files cs) = Inr cs'"
  shows "map_of (cs_inner cs') = map_of (cs_inner cs)" and "cs_synced K cs'" and "cs_files cs' = cs_files cs"
proof -
  have r: "cp_load K True (cs_files cs) = Inr cs'" using assms(3) by (auto simp: cp_load_def split: option.splits if_splits)
  from load_synced [OF assms(1,2)] r show same: "map_of (cs_inner cs') = map_of (cs_inner cs)" by auto
  from assms(3) show files: "cs_files cs' = cs_files cs" by (auto simp: cp_load_def split: option.splits if_splits)
  show "cs_synced K cs'"
  proof (cases "map_of (cs_files cs) CpFile")
    case None
    with assms(3) show ?thesis by (auto simp: cp_load_def cs_synced_def)
  next
    case (Some t)
    with assms(2) same files show ?thesis by (simp add: cs_synced_def)
  qed
qed

end
