(* ===== verification/Work.thy ===== *)
theory Work
  imports Messages Checkpoint
begin

text \<open>
  Durable unfinished work (\<^verbatim>\<open>message-relayer/src/work.rs\<close>): one directory per route, one file per
  message, a cursor per route that walks the directory in windows of ascending message ids, and
  the \<^verbatim>\<open>failed/\<close> sidecar with the retry budget of failed messages. All operations take the same
  lock, so a directory does not change while a call walks it. I/O faults are arguments; the JSON
  codec (serde) is the record \<open>work_codec\<close>.
\<close>

section \<open>Files and cursors\<close>

text \<open>
  A directory entry: a record \<^verbatim>\<open><id>.json\<close>, another name with the \<^verbatim>\<open>json\<close> extension, or an entry
  without it (a temporary file, the \<^verbatim>\<open>failed\<close> directory).
\<close>

datatype file_name = RecordFile b256 | BadRecordName string | OtherFile string | TempFile b256

fun is_record :: "file_name \<Rightarrow> bool" where
  "is_record (RecordFile _) = True"
| "is_record (BadRecordName _) = True"
| "is_record (OtherFile _) = False"
| "is_record (TempFile _) = False"

record failed_retry_state =
  fr_attempts :: u32
  fr_next_attempt_at :: u64
  fr_gave_up_at :: "u64 option"

record work_codec =
  enc_message :: "indexed_message \<Rightarrow> bytes"
  dec_message :: "bytes \<Rightarrow> indexed_message option"
  enc_failed :: "failed_retry_state \<Rightarrow> bytes"
  dec_failed :: "bytes \<Rightarrow> failed_retry_state option"

record route_cursor =
  rc_live_records :: nat
  rc_after :: "b256 option"
  rc_window :: "b256 list"
  rc_lap_end :: "b256 option"

record work_store =
  ws_dirs :: "(u64, file_name files) hash_map"
  ws_failed :: "(u64 \<times> b256) files"
  ws_readers :: "(u64, route_cursor) hash_map"

definition WINDOW_SIZE :: nat where "WINDOW_SIZE = 4096"
definition MAX_EXAMINED_PER_CALL :: nat where "MAX_EXAMINED_PER_CALL = 4096"

definition for_checkpoint :: work_store where
  "for_checkpoint = \<lparr>ws_dirs = [], ws_failed = [], ws_readers = []\<rparr>"

text \<open>The faults of one call.\<close>

record io_faults =
  io_dir_ok :: bool           \<comment> \<open>\<^verbatim>\<open>create_dir_durable\<close>\<close>
  io_exists_ok :: bool        \<comment> \<open>\<^verbatim>\<open>try_exists\<close>\<close>
  io_write :: write_fault     \<comment> \<open>\<^verbatim>\<open>write_atomic\<close>\<close>
  io_sync_ok :: bool          \<comment> \<open>\<^verbatim>\<open>sync_directory\<close>\<close>
  io_read_dir_ok :: bool      \<comment> \<open>\<^verbatim>\<open>read_dir\<close>\<close>
  io_read_ok :: "b256 \<Rightarrow> bool" \<comment> \<open>\<^verbatim>\<open>read\<close> of a present record\<close>
  io_remove_ok :: bool        \<comment> \<open>\<^verbatim>\<open>remove_file\<close> of a present file\<close>

definition no_faults :: io_faults where
  "no_faults = \<lparr>io_dir_ok = True, io_exists_ok = True, io_write = NoFault, io_sync_ok = True,
     io_read_dir_ok = True, io_read_ok = (\<lambda>_. True), io_remove_ok = True\<rparr>"

datatype work_error = DirMissing | IoError | BadRecordId | DecodeError | IdentityMismatch

section \<open>The cursor\<close>

definition cursor_new :: "file_name files \<Rightarrow> route_cursor" where
  "cursor_new dir = \<lparr>rc_live_records = length (filter (\<lambda>(n, _). is_record n) dir),
     rc_after = None, rc_window = [], rc_lap_end = None\<rparr>"

text \<open>
  One pass over the directory with a bounded max-heap. The heap is its sorted list of ids:
  pushing inserts, popping drops the largest.
\<close>

definition heap_push :: "b256 \<Rightarrow> b256 list \<Rightarrow> b256 list" where
  "heap_push i heap =
     (let pushed = insort i heap in
      if WINDOW_SIZE < length pushed then butlast pushed else pushed)"

definition max_opt :: "b256 option \<Rightarrow> b256 \<Rightarrow> b256 option" where
  "max_opt largest i = Some (case largest of None \<Rightarrow> i | Some l \<Rightarrow> max l i)"

definition skips :: "route_cursor \<Rightarrow> b256 \<Rightarrow> bool" where
  "skips c i \<longleftrightarrow>
     (case rc_after c of None \<Rightarrow> False | Some a \<Rightarrow> i \<le> a)
     \<or> (rc_after c \<noteq> None \<and> (case rc_lap_end c of None \<Rightarrow> False | Some e \<Rightarrow> e < i))"

fun refill_scan ::
  "route_cursor \<Rightarrow> (file_name \<times> bytes) list \<Rightarrow> b256 option \<Rightarrow> b256 list
    \<Rightarrow> work_error + b256 option \<times> b256 list" where
  "refill_scan c [] largest smallest = Inr (largest, smallest)"
| "refill_scan c ((name, _) # rest) largest smallest =
     (case name of
        OtherFile _ \<Rightarrow> refill_scan c rest largest smallest
      | TempFile _ \<Rightarrow> refill_scan c rest largest smallest
      | BadRecordName _ \<Rightarrow> Inl BadRecordId
      | RecordFile i \<Rightarrow>
          refill_scan c rest (max_opt largest i) (if skips c i then smallest else heap_push i smallest))"

definition cursor_refill :: "bool \<Rightarrow> file_name files \<Rightarrow> route_cursor \<Rightarrow> work_error + route_cursor" where
  "cursor_refill read_dir_ok dir c =
     (if \<not> read_dir_ok then Inl IoError
      else case refill_scan c dir None [] of
             Inl e \<Rightarrow> Inl e
           | Inr (largest, smallest) \<Rightarrow>
               Inr (c\<lparr>rc_lap_end := (if rc_after c = None then largest else rc_lap_end c),
                      rc_window := smallest\<rparr>))"

section \<open>Operations\<close>

definition prepare_route :: "io_faults \<Rightarrow> u64 \<Rightarrow> bool \<Rightarrow> work_store \<Rightarrow> work_store \<times> (work_error + unit)" where
  "prepare_route io ck resuming ws =
     (if resuming
      then (ws, if hm_get (ws_dirs ws) ck \<noteq> None then Inr () else Inl DirMissing)
      else if \<not> io_dir_ok io then (ws, Inl IoError)
      else (ws\<lparr>ws_dirs := (if hm_get (ws_dirs ws) ck = None then hm_insert ck [] (ws_dirs ws) else ws_dirs ws)\<rparr>,
            Inr ()))"

definition dir_of :: "u64 \<Rightarrow> work_store \<Rightarrow> file_name files" where
  "dir_of ck ws = (case hm_get (ws_dirs ws) ck of None \<Rightarrow> [] | Some d \<Rightarrow> d)"

definition work_record ::
  "work_codec \<Rightarrow> io_faults \<Rightarrow> indexed_message \<Rightarrow> work_store \<Rightarrow> work_store \<times> (work_error + unit)" where
  "work_record C io msg ws =
     (let ck = im_chain_key msg; mid = im_message_id msg in
      if \<not> io_dir_ok io then (ws, Inl IoError)
      else let dir = dir_of ck ws; ws1 = ws\<lparr>ws_dirs := hm_insert ck dir (ws_dirs ws)\<rparr> in
      if \<not> io_exists_ok io then (ws1, Inl IoError)
      else let existed = (hm_get dir (RecordFile mid) \<noteq> None);
               (dir', ok) = write_atomic (io_write io) (TempFile mid) (RecordFile mid) (enc_message C msg) dir;
               ws2 = ws1\<lparr>ws_dirs := hm_insert ck dir' (ws_dirs ws1)\<rparr>
           in if \<not> ok then (ws2, Inl IoError)
              else let ws3 = (if existed then ws2
                              else ws2\<lparr>ws_readers := hm_modify ck
                                     (\<lambda>c. c\<lparr>rc_live_records := rc_live_records c + 1\<rparr>) (ws_readers ws2)\<rparr>)
                   in (ws3, if io_sync_ok io then Inr () else Inl IoError))"

definition work_complete :: "io_faults \<Rightarrow> u64 \<Rightarrow> b256 \<Rightarrow> work_store \<Rightarrow> work_store \<times> (work_error + unit)" where
  "work_complete io ck mid ws =
     (case hm_get (dir_of ck ws) (RecordFile mid) of
        None \<Rightarrow> (ws, Inr ())
      | Some _ \<Rightarrow>
          if \<not> io_remove_ok io then (ws, Inl IoError)
          else (ws\<lparr>ws_dirs := hm_modify ck (hm_remove (RecordFile mid)) (ws_dirs ws),
                   ws_readers := hm_modify ck
                     (\<lambda>c. c\<lparr>rc_live_records := rc_live_records c - 1\<rparr>) (ws_readers ws)\<rparr>,
                if io_sync_ok io then Inr () else Inl IoError))"

text \<open>
  The walk of \<^verbatim>\<open>pending\<close>. Each iteration either examines one id or, once per call, starts the next
  lap, so the loop stops.
\<close>

record walk =
  wk_cursor :: route_cursor
  wk_loaded :: "b256 list"
  wk_wrapped :: bool
  wk_examined :: nat
  wk_messages :: "indexed_message list"

text \<open>What follows the choice of an id: read, decode, check the identity, keep.\<close>

definition read_record ::
  "work_codec \<Rightarrow> io_faults \<Rightarrow> u64 \<Rightarrow> file_name files \<Rightarrow> b256 \<Rightarrow> work_error + indexed_message option" where
  "read_record C io ck dir i =
     (case hm_get dir (RecordFile i) of
        None \<Rightarrow> Inr None
      | Some bs \<Rightarrow>
          if \<not> io_read_ok io i then Inl IoError
          else case dec_message C bs of
                 None \<Rightarrow> Inl DecodeError
               | Some m \<Rightarrow>
                   if im_chain_key m = ck \<and> im_message_id m = i then Inr (Some m)
                   else Inl IdentityMismatch)"

text \<open>Taking the next id off the window.\<close>

definition popped :: "route_cursor \<Rightarrow> route_cursor" where
  "popped c = c\<lparr>rc_window := tl (rc_window c), rc_after := Some (hd (rc_window c))\<rparr>"

datatype ('e, 's) loop_step = Break 's | Fail 'e 's | Continue 's

definition examine ::
  "work_codec \<Rightarrow> io_faults \<Rightarrow> u64 \<Rightarrow> file_name files \<Rightarrow> nat \<Rightarrow> b256 option \<Rightarrow> walk
    \<Rightarrow> (work_error, walk) loop_step" where
  "examine C io ck dir limit start w =
     (let i = hd (rc_window (wk_cursor w)) in
      if wk_wrapped w \<and> (case start of None \<Rightarrow> False | Some s \<Rightarrow> s < i) then Break w
      else let w1 = w\<lparr>wk_cursor := popped (wk_cursor w), wk_examined := wk_examined w + 1\<rparr>
           in if i \<in> set (wk_loaded w) then Continue w1
              else case read_record C io ck dir i of
                     Inl e \<Rightarrow> Fail e w1
                   | Inr None \<Rightarrow> Continue w1
                   | Inr (Some m) \<Rightarrow>
                       let w2 = w1\<lparr>wk_loaded := i # wk_loaded w, wk_messages := wk_messages w @ [m]\<rparr>
                       in if length (wk_messages w2) = limit then Break w2 else Continue w2)"

definition walk_step ::
  "work_codec \<Rightarrow> io_faults \<Rightarrow> u64 \<Rightarrow> file_name files \<Rightarrow> nat \<Rightarrow> b256 option \<Rightarrow> walk
    \<Rightarrow> (work_error, walk) loop_step" where
  "walk_step C io ck dir limit start w =
     (if rc_window (wk_cursor w) \<noteq> [] then examine C io ck dir limit start w
      else if rc_live_records (wk_cursor w) = 0
      then Break (w\<lparr>wk_cursor := (wk_cursor w)\<lparr>rc_after := None\<rparr>\<rparr>)
      else case cursor_refill (io_read_dir_ok io) dir (wk_cursor w) of
             Inl e \<Rightarrow> Fail e w
           | Inr c \<Rightarrow>
               if rc_window c = []
               then let w1 = w\<lparr>wk_cursor := c\<lparr>rc_after := None\<rparr>\<rparr>
                    in if wk_wrapped w \<or> start = None then Break w1
                       else Continue (w1\<lparr>wk_wrapped := True\<rparr>)
               else examine C io ck dir limit start (w\<lparr>wk_cursor := c\<rparr>))"

lemma examine_measure:
  "examine C io ck dir limit start w = Continue w' \<Longrightarrow>
     wk_examined w' = wk_examined w + 1 \<and> wk_wrapped w' = wk_wrapped w"
  by (auto simp: examine_def Let_def split: if_splits sum.splits option.splits)

lemma walk_step_measure:
  "walk_step C io ck dir limit start w = Continue w' \<Longrightarrow>
     wk_examined w' = wk_examined w + 1 \<and> wk_wrapped w' = wk_wrapped w
     \<or> wk_examined w' = wk_examined w \<and> \<not> wk_wrapped w \<and> wk_wrapped w'"
  by (auto simp: walk_step_def Let_def split: if_splits sum.splits dest: examine_measure)

function pending_walk ::
  "work_codec \<Rightarrow> io_faults \<Rightarrow> u64 \<Rightarrow> file_name files \<Rightarrow> nat \<Rightarrow> b256 option \<Rightarrow> walk
    \<Rightarrow> walk \<times> (work_error + unit)" where
  "pending_walk C io ck dir limit start w =
     (if wk_examined w < MAX_EXAMINED_PER_CALL
      then case walk_step C io ck dir limit start w of
             Break w' \<Rightarrow> (w', Inr ())
           | Fail e w' \<Rightarrow> (w', Inl e)
           | Continue w' \<Rightarrow> pending_walk C io ck dir limit start w'
      else (w, Inr ()))"
  by pat_completeness auto
termination
proof (relation "measure (\<lambda>(_, _, _, _, _, _, w).
      2 * (MAX_EXAMINED_PER_CALL - wk_examined w) + (if wk_wrapped w then 0 else 1))")
  fix C io ck dir limit start w w'
  assume "wk_examined w < MAX_EXAMINED_PER_CALL"
    and "walk_step C io ck dir limit start w = Continue w'"
  then show "((C, io, ck, dir, limit, start, w'), C, io, ck, dir, limit, start, w)
      \<in> measure (\<lambda>(_, _, _, _, _, _, w).
          2 * (MAX_EXAMINED_PER_CALL - wk_examined w) + (if wk_wrapped w then 0 else 1))"
    using walk_step_measure by fastforce
qed simp

declare pending_walk.simps [simp del]

definition work_pending ::
  "work_codec \<Rightarrow> io_faults \<Rightarrow> u64 \<Rightarrow> b256 list \<Rightarrow> nat \<Rightarrow> work_store
    \<Rightarrow> work_store \<times> (work_error + indexed_message list)" where
  "work_pending C io ck loaded limit ws =
     (if limit = 0 then (ws, Inr [])
      else case (case hm_get (ws_readers ws) ck of
                   Some c \<Rightarrow> Inr (Some c)
                 | None \<Rightarrow> (case hm_get (ws_dirs ws) ck of
                              None \<Rightarrow> Inr None
                            | Some d \<Rightarrow> if io_read_dir_ok io then Inr (Some (cursor_new d)) else Inl IoError)) of
        Inl e \<Rightarrow> (ws, Inl e)
      | Inr None \<Rightarrow> (ws, Inr [])
      | Inr (Some c) \<Rightarrow>
          let (w, res) = pending_walk C io ck (dir_of ck ws) limit (rc_after c)
                \<lparr>wk_cursor = c, wk_loaded = loaded, wk_wrapped = False, wk_examined = 0, wk_messages = []\<rparr>;
              ws' = ws\<lparr>ws_readers := hm_insert ck (wk_cursor w) (ws_readers ws)\<rparr>
          in (ws', case res of Inl e \<Rightarrow> Inl e | Inr _ \<Rightarrow> Inr (wk_messages w)))"

section \<open>The retry sidecar\<close>

text \<open>A single readability flag and write fault per call; the directory is created on demand.\<close>

definition failed_retry ::
  "work_codec \<Rightarrow> bool \<Rightarrow> u64 \<Rightarrow> b256 \<Rightarrow> work_store \<Rightarrow> work_error + failed_retry_state option" where
  "failed_retry C readable ck mid ws =
     (case hm_get (ws_failed ws) (ck, mid) of
        None \<Rightarrow> if readable then Inr None else Inl IoError
      | Some bs \<Rightarrow>
          if \<not> readable then Inl IoError
          else case dec_failed C bs of None \<Rightarrow> Inl DecodeError | Some s \<Rightarrow> Inr (Some s))"

definition put_failed_retry ::
  "work_codec \<Rightarrow> io_faults \<Rightarrow> u64 \<Rightarrow> b256 \<Rightarrow> failed_retry_state \<Rightarrow> work_store \<Rightarrow> work_store \<times> (work_error + unit)" where
  "put_failed_retry C io ck mid state ws =
     (if \<not> io_dir_ok io \<or> \<not> io_exists_ok io then (ws, Inl IoError)
      else if io_write io \<noteq> NoFault then (ws, Inl IoError)
      else let existed = (hm_get (ws_failed ws) (ck, mid) \<noteq> None);
               ws' = ws\<lparr>ws_failed := hm_insert (ck, mid) (enc_failed C state) (ws_failed ws)\<rparr>
           in (ws', if existed \<or> io_sync_ok io then Inr () else Inl IoError))"

definition forget_failed_retry :: "io_faults \<Rightarrow> u64 \<Rightarrow> b256 \<Rightarrow> work_store \<Rightarrow> work_store \<times> (work_error + unit)" where
  "forget_failed_retry io ck mid ws =
     (case hm_get (ws_failed ws) (ck, mid) of
        None \<Rightarrow> (ws, Inr ())
      | Some _ \<Rightarrow>
          if \<not> io_remove_ok io then (ws, Inl IoError)
          else (ws\<lparr>ws_failed := hm_remove (ck, mid) (ws_failed ws)\<rparr>,
                if io_sync_ok io then Inr () else Inl IoError))"

end
