(* ===== verification/Work_Correct.thy ===== *)
theory Work_Correct
  imports Work "HOL-Library.Multiset"
begin

text \<open>
  Correctness of the durable work store: the bounded heap pass computes the smallest ids beyond
  the cursor, the cursor's invariant, what a call of \<^verbatim>\<open>pending\<close> may return, and that a call which
  runs into neither of its bounds offers every record its lap owes.
\<close>

section \<open>The bounded heap is a prefix of the sorted ids\<close>

lemma take_insort_take: "sorted ys \<Longrightarrow> take n (insort i (take n ys)) = take n (insort i ys)"
proof (induction ys arbitrary: n)
  case Nil
  then show ?case by simp
next
  case (Cons y ys)
  then show ?case by (cases n) (auto simp: take_Cons')
qed

lemma heap_push_take:
  assumes "sorted ys"
  shows "heap_push i (take WINDOW_SIZE ys) = take WINDOW_SIZE (insort i ys)"
proof -
  let ?p = "insort i (take WINDOW_SIZE ys)"
  have "length ?p \<le> Suc WINDOW_SIZE" by simp
  then have "heap_push i (take WINDOW_SIZE ys) = take WINDOW_SIZE ?p"
    by (auto simp: heap_push_def Let_def butlast_conv_take)
  with take_insort_take [OF assms] show ?thesis by simp
qed

fun record_ids :: "file_name files \<Rightarrow> b256 list" where
  "record_ids [] = []"
| "record_ids ((RecordFile i, _) # fs) = i # record_ids fs"
| "record_ids (_ # fs) = record_ids fs"

definition names_ok :: "file_name files \<Rightarrow> bool" where
  "names_ok dir \<longleftrightarrow> hm_ok dir \<and> list_all (\<lambda>(n, _). case n of BadRecordName _ \<Rightarrow> False | _ \<Rightarrow> True) dir"

lemma record_ids_iff: "i \<in> set (record_ids dir) \<longleftrightarrow> RecordFile i \<in> fst ` set dir"
  by (induction dir rule: record_ids.induct) auto

lemma distinct_record_ids: "hm_ok dir \<Longrightarrow> distinct (record_ids dir)"
  by (induction dir rule: record_ids.induct) (auto simp: hm_ok_def record_ids_iff)

lemma refill_scan_eq:
  assumes "list_all (\<lambda>(n, _). case n of BadRecordName _ \<Rightarrow> False | _ \<Rightarrow> True) dir"
  shows "refill_scan c dir l (take WINDOW_SIZE (sort xs)) =
    Inr (fold (\<lambda>i l. max_opt l i) (record_ids dir) l,
         take WINDOW_SIZE (sort (rev (filter (\<lambda>i. \<not> skips c i) (record_ids dir)) @ xs)))"
  using assms
proof (induction dir arbitrary: l xs rule: record_ids.induct)
  case 1
  then show ?case by simp
next
  case (2 i b fs)
  have "heap_push i (take WINDOW_SIZE (sort xs)) = take WINDOW_SIZE (sort (i # xs))"
    by (simp add: heap_push_take)
  with 2 show ?case by (simp del: sort_key_simps)
qed simp_all

lemma fold_max_opt:
  "fold (\<lambda>i l. max_opt l i) xs None = (if xs = [] then None else Some (Max (set xs)))"
proof -
  have acc: "fold (\<lambda>i l. max_opt l i) ys (Some a) = Some (Max (Set.insert a (set ys)))" for a ys
  proof (induction ys arbitrary: a)
    case Nil
    then show ?case by simp
  next
    case (Cons y ys)
    then show ?case
      by (cases "ys = []") (auto simp: max_opt_def max.assoc max.commute max.left_commute)
  qed
  have "max_opt None x = Some x" for x by (simp add: max_opt_def)
  with acc show ?thesis by (cases xs) simp_all
qed

definition owed_ids :: "file_name files \<Rightarrow> route_cursor \<Rightarrow> b256 list" where
  "owed_ids dir c = sort (filter (\<lambda>i. \<not> skips c i) (record_ids dir))"

text \<open>The one-pass refill equals its specification: sort what the lap still owes, take a window.\<close>

lemma cursor_refill_eq:
  assumes "names_ok dir"
  shows "cursor_refill True dir c = Inr (c\<lparr>
     rc_lap_end := (if rc_after c = None
        then (if record_ids dir = [] then None else Some (Max (set (record_ids dir)))) else rc_lap_end c),
     rc_window := take WINDOW_SIZE (owed_ids dir c)\<rparr>)"
proof -
  have "sort (rev (filter (\<lambda>i. \<not> skips c i) (record_ids dir))) = owed_ids dir c"
    unfolding owed_ids_def by (rule properties_for_sort) simp_all
  with refill_scan_eq [of dir c None "[]"] assms show ?thesis
    by (simp add: cursor_refill_def names_ok_def fold_max_opt)
qed

lemma sorted_owed: "names_ok dir \<Longrightarrow> sorted_wrt (<) (owed_ids dir c)"
  by (simp add: owed_ids_def names_ok_def strict_sorted_iff distinct_record_ids)

section \<open>The cursor invariant\<close>

definition cursor_ok :: "route_cursor \<Rightarrow> bool" where
  "cursor_ok c \<longleftrightarrow> sorted_wrt (<) (rc_window c)
     \<and> (\<forall>i \<in> set (rc_window c). (\<forall>a. rc_after c = Some a \<longrightarrow> a < i) \<and> (\<exists>e. rc_lap_end c = Some e \<and> i \<le> e))
     \<and> (rc_after c \<noteq> None \<longrightarrow> rc_lap_end c \<noteq> None)"

lemma sorted_take: "sorted_wrt R xs \<Longrightarrow> sorted_wrt R (take n xs)"
  by (metis append_take_drop_id sorted_wrt_append)

lemma cursor_refill_ok:
  assumes "names_ok dir" and "cursor_ok c" and "cursor_refill b dir c = Inr c'"
  shows "cursor_ok c'"
proof -
  from assms(3) have b: "b" by (simp add: cursor_refill_def split: if_splits)
  have *: "\<not> skips c i \<and> i \<in> set (record_ids dir)" if "i \<in> set (take WINDOW_SIZE (owed_ids dir c))" for i
    using in_set_takeD [OF that] by (simp add: owed_ids_def)
  have "sorted_wrt (<) (take WINDOW_SIZE (owed_ids dir c))"
    by (intro sorted_take sorted_owed assms(1))
  with * assms b show ?thesis
    by (fastforce simp: cursor_refill_eq cursor_ok_def skips_def split: option.splits if_splits
        intro: Max_ge)
qed

section \<open>What a walk has returned so far\<close>

definition walk_ok ::
  "work_codec \<Rightarrow> u64 \<Rightarrow> file_name files \<Rightarrow> b256 list \<Rightarrow> walk \<Rightarrow> bool" where
  "walk_ok C ck dir loaded w \<longleftrightarrow>
     wk_loaded w = rev (map im_message_id (wk_messages w)) @ loaded
     \<and> distinct (map im_message_id (wk_messages w))
     \<and> set (map im_message_id (wk_messages w)) \<inter> set loaded = {}
     \<and> (\<forall>m \<in> set (wk_messages w). im_chain_key m = ck
          \<and> (\<exists>bs. map_of dir (RecordFile (im_message_id m)) = Some bs \<and> dec_message C bs = Some m))"

lemma examine_walk_ok:
  assumes "walk_ok C ck dir loaded w" and "length (wk_messages w) < limit"
  shows "case examine C io ck dir limit start w of
      Break w' \<Rightarrow> walk_ok C ck dir loaded w' \<and> length (wk_messages w') \<le> limit
    | Fail e w' \<Rightarrow> walk_ok C ck dir loaded w'
    | Continue w' \<Rightarrow> walk_ok C ck dir loaded w' \<and> length (wk_messages w') < limit"
  using assms
  by (auto simp: examine_def Let_def read_record_def walk_ok_def split: sum.splits option.splits if_splits)

lemma walk_step_walk_ok:
  assumes "walk_ok C ck dir loaded w" and "length (wk_messages w) < limit"
  shows "case walk_step C io ck dir limit start w of
      Break w' \<Rightarrow> walk_ok C ck dir loaded w' \<and> length (wk_messages w') \<le> limit
    | Fail e w' \<Rightarrow> walk_ok C ck dir loaded w'
    | Continue w' \<Rightarrow> walk_ok C ck dir loaded w' \<and> length (wk_messages w') < limit"
proof -
  have frame: "walk_ok C ck dir loaded (w\<lparr>wk_cursor := c, wk_wrapped := b\<rparr>) \<and> walk_ok C ck dir loaded (w\<lparr>wk_cursor := c\<rparr>)" for c b
    using assms(1) by (simp add: walk_ok_def)
  show ?thesis
  proof (cases "rc_window (wk_cursor w) \<noteq> [] \<or> rc_live_records (wk_cursor w) = 0")
    case True
    with examine_walk_ok [OF assms, of io start] assms frame show ?thesis by (auto simp: walk_step_def)
  next
    case False
    show ?thesis
    proof (cases "cursor_refill (io_read_dir_ok io) dir (wk_cursor w)")
      case (Inl e)
      with False assms show ?thesis by (simp add: walk_step_def)
    next
      case (Inr c)
      with False examine_walk_ok [of C ck dir loaded "w\<lparr>wk_cursor := c\<rparr>" limit io start] assms frame
      show ?thesis by (auto simp: walk_step_def Let_def)
    qed
  qed
qed

lemma pending_walk_ok:
  assumes "walk_ok C ck dir loaded w" and "length (wk_messages w) < limit"
    and "pending_walk C io ck dir limit start w = (w', res)"
  shows "walk_ok C ck dir loaded w' \<and> (res = Inr () \<longrightarrow> length (wk_messages w') \<le> limit)"
  using assms
proof (induction C io ck dir limit start w rule: pending_walk.induct)
  case (1 C io ck dir limit start w)
  note step = walk_step_walk_ok [OF "1.prems"(1,2), of io start]
  show ?case
  proof (cases "wk_examined w < MAX_EXAMINED_PER_CALL")
    case False
    with "1.prems" show ?thesis by (subst (asm) pending_walk.simps) auto
  next
    case True
    show ?thesis
    proof (cases "walk_step C io ck dir limit start w")
      case (Continue w1)
      with step True "1.prems"(3) have "pending_walk C io ck dir limit start w1 = (w', res)"
        by (simp add: pending_walk.simps [of C io ck dir limit start w])
      with "1.IH" [OF True Continue] step Continue show ?thesis by simp
    qed (use step True "1.prems"(3) in \<open>auto simp: pending_walk.simps [of C io ck dir limit start w]\<close>)
  qed
qed

section \<open>A lap is offered completely\<close>

text \<open>An id is ahead of the cursor when the window holds it or ends before it.\<close>

definition ahead :: "route_cursor \<Rightarrow> b256 \<Rightarrow> bool" where
  "ahead c x \<longleftrightarrow> (\<forall>a. rc_after c = Some a \<longrightarrow> a < x)
     \<and> (x \<in> set (rc_window c) \<or> (\<forall>i \<in> set (rc_window c). i < x))"

definition in_lap :: "route_cursor \<Rightarrow> b256 \<Rightarrow> bool" where
  "in_lap c x \<longleftrightarrow> rc_after c = None \<and> rc_window c = [] \<or> (\<exists>e. rc_lap_end c = Some e \<and> x \<le> e)"

lemma sorted_take_ahead:
  assumes "sorted_wrt (<) ys" and "x \<in> set ys"
  shows "x \<in> set (take n ys) \<or> (\<forall>i \<in> set (take n ys). i < (x :: 'a::linorder))"
proof -
  from assms(2) have "x \<in> set (take n ys) \<or> x \<in> set (drop n ys)"
    by (metis Un_iff append_take_drop_id set_append)
  moreover from assms(1) have "\<forall>i \<in> set (take n ys). \<forall>j \<in> set (drop n ys). i < j"
    by (metis append_take_drop_id sorted_wrt_append)
  ultimately show ?thesis by blast
qed

lemma refill_ahead:
  assumes "names_ok dir" and "x \<in> set (record_ids dir)" and "rc_window c = []"
    and "ahead c x" and "in_lap c x" and "cursor_refill b dir c = Inr c'"
  shows "ahead c' x \<and> in_lap c' x \<and> rc_window c' \<noteq> []"
proof -
  from assms(6) have b: "b" by (simp add: cursor_refill_def split: if_splits)
  have "\<not> skips c x"
    using assms(4,5) by (auto simp: skips_def ahead_def in_lap_def split: option.splits)
  with assms(2) have x: "x \<in> set (owed_ids dir c)" by (simp add: owed_ids_def)
  then have ne: "take WINDOW_SIZE (owed_ids dir c) \<noteq> []" by (auto simp: WINDOW_SIZE_def)
  from sorted_take_ahead [OF sorted_owed [OF assms(1)] x, of WINDOW_SIZE] ne assms b show ?thesis
    by (auto simp: cursor_refill_eq ahead_def in_lap_def split: if_splits)
qed

text \<open>
  The walk's promise for one record \<open>x\<close>: it is already loaded, or it is still ahead in the lap.
  A record at or before the call's starting point is owed by the second lap only; any other by
  the first.
\<close>

definition tracks :: "b256 option \<Rightarrow> b256 \<Rightarrow> walk \<Rightarrow> bool" where
  "tracks start x w \<longleftrightarrow>
     x \<in> set (wk_loaded w)
     \<or> (if \<exists>s. start = Some s \<and> x \<le> s
        then wk_wrapped w \<longrightarrow> ahead (wk_cursor w) x \<and> in_lap (wk_cursor w) x
        else \<not> wk_wrapped w \<and> ahead (wk_cursor w) x \<and> in_lap (wk_cursor w) x)"

lemma popped_ok: "cursor_ok c \<Longrightarrow> rc_window c \<noteq> [] \<Longrightarrow> cursor_ok (popped c)"
  by (cases "rc_window c") (auto simp: cursor_ok_def popped_def)

lemma popped_ahead:
  assumes "cursor_ok c" and "rc_window c \<noteq> []" and "ahead c x" and "in_lap c x" and "x \<noteq> hd (rc_window c)"
  shows "ahead (popped c) x \<and> in_lap (popped c) x"
proof -
  obtain i ws where w: "rc_window c = i # ws" using assms(2) by (cases "rc_window c") auto
  with assms show ?thesis by (auto simp: cursor_ok_def ahead_def in_lap_def popped_def)
qed

lemma ahead_hd: "cursor_ok c \<Longrightarrow> rc_window c \<noteq> [] \<Longrightarrow> ahead c x \<Longrightarrow> hd (rc_window c) \<le> x"
  by (cases "rc_window c") (auto simp: ahead_def cursor_ok_def)

lemma examine_tracks:
  assumes "cursor_ok (wk_cursor w)" and "rc_window (wk_cursor w) \<noteq> []" and "tracks start x w"
    and "x \<in> set (record_ids dir)" and "length (wk_messages w) < limit"
  shows "case examine C io ck dir limit start w of
      Break w' \<Rightarrow> length (wk_messages w') < limit \<longrightarrow> x \<in> set (wk_loaded w')
    | Fail e w' \<Rightarrow> True
    | Continue w' \<Rightarrow> cursor_ok (wk_cursor w') \<and> tracks start x w' \<and> length (wk_messages w') < limit
        \<and> rc_live_records (wk_cursor w') = rc_live_records (wk_cursor w)"
proof -
  let ?c = "wk_cursor w" and ?i = "hd (rc_window (wk_cursor w))"
  have present: "map_of dir (RecordFile x) \<noteq> None"
    using assms(4) by (simp add: record_ids_iff map_of_eq_None_iff)
  have late: "x \<in> set (wk_loaded w)" if "wk_wrapped w" "start = Some s" "s < ?i" for s
  proof (rule ccontr)
    assume "x \<notin> set (wk_loaded w)"
    with assms(3) that have xs: "x \<le> s" and "ahead ?c x" by (auto simp: tracks_def split: if_splits)
    with assms(1,2) have "?i \<le> x" by (intro ahead_hd)
    with xs that(3) show False by simp
  qed
  have step: "tracks start x w'"
    if "set (wk_loaded w) \<subseteq> set (wk_loaded w')" "wk_wrapped w' = wk_wrapped w" "wk_cursor w' = popped ?c"
      "x = ?i \<Longrightarrow> x \<in> set (wk_loaded w')" for w'
    using assms(1,2,3) that popped_ahead [of ?c x] by (auto simp: tracks_def split: if_splits)
  show ?thesis
  proof (cases "wk_wrapped w \<and> (case start of None \<Rightarrow> False | Some s \<Rightarrow> s < ?i)")
    case True
    then show ?thesis using late by (auto simp: examine_def split: option.splits)
  next
    case False
    define w1 where "w1 = w\<lparr>wk_cursor := popped ?c, wk_examined := wk_examined w + 1\<rparr>"
    have w1: "examine C io ck dir limit start w =
        (if ?i \<in> set (wk_loaded w) then Continue w1
         else case read_record C io ck dir ?i of
                Inl e \<Rightarrow> Fail e w1
              | Inr None \<Rightarrow> Continue w1
              | Inr (Some m) \<Rightarrow>
                  let w2 = w1\<lparr>wk_loaded := ?i # wk_loaded w, wk_messages := wk_messages w @ [m]\<rparr>
                  in if length (wk_messages w2) = limit then Break w2 else Continue w2)"
      unfolding examine_def w1_def Let_def by (simp only: False if_False)
    have ok1: "cursor_ok (popped ?c)" "rc_live_records (popped ?c) = rc_live_records ?c"
      using popped_ok [OF assms(1,2)] by (simp_all add: popped_def)
    have t1: "tracks start x w1" if "x = ?i \<Longrightarrow> x \<in> set (wk_loaded w)"
      by (rule step) (use that in \<open>simp_all add: w1_def\<close>)
    have t2: "tracks start x (w1\<lparr>wk_loaded := ?i # wk_loaded w, wk_messages := ms\<rparr>)" for ms
      by (rule step) (auto simp: w1_def)
    have none: "x \<noteq> ?i" if "read_record C io ck dir ?i = Inr None"
      using that present by (auto simp: read_record_def split: option.splits if_splits)
    show ?thesis
      unfolding w1 using t1 t2 none ok1 assms(5)
      by (auto simp: w1_def Let_def split: sum.splits option.splits)
  qed
qed

lemma walk_step_tracks:
  assumes "cursor_ok (wk_cursor w)" and "tracks start x w" and "names_ok dir"
    and "x \<in> set (record_ids dir)" and "length (wk_messages w) < limit"
    and "rc_live_records (wk_cursor w) \<noteq> 0"
  shows "case walk_step C io ck dir limit start w of
      Break w' \<Rightarrow> length (wk_messages w') < limit \<longrightarrow> x \<in> set (wk_loaded w')
    | Fail e w' \<Rightarrow> True
    | Continue w' \<Rightarrow> cursor_ok (wk_cursor w') \<and> tracks start x w' \<and> length (wk_messages w') < limit
        \<and> rc_live_records (wk_cursor w') = rc_live_records (wk_cursor w)"
proof (cases "rc_window (wk_cursor w) = []")
  case False
  with examine_tracks [OF assms(1) False assms(2,4,5), of C io ck] show ?thesis
    by (simp add: walk_step_def)
next
  case True
  show ?thesis
  proof (cases "cursor_refill (io_read_dir_ok io) dir (wk_cursor w)")
    case (Inl e)
    with True assms(6) show ?thesis by (simp add: walk_step_def)
  next
    case (Inr c)
    let ?w = "w\<lparr>wk_cursor := c\<rparr>"
    have c: "cursor_ok c" using cursor_refill_ok [OF assms(3,1) Inr] .
    have live: "rc_live_records c = rc_live_records (wk_cursor w)"
      using Inr by (auto simp: cursor_refill_def split: if_splits sum.splits)
    note refill = refill_ahead [OF assms(3,4) True _ _ Inr]
    show ?thesis
    proof (cases "rc_window c = []")
      case False
      have "tracks start x ?w"
        using assms(2) refill by (auto simp: tracks_def split: if_splits)
      from examine_tracks [OF _ _ this assms(4), of limit C io ck] c False live Inr True assms(5,6)
      show ?thesis by (simp add: walk_step_def split: loop_step.splits)
    next
      case wnil: True
      with assms(2) refill have "x \<in> set (wk_loaded w) \<or> (\<exists>s. start = Some s \<and> x \<le> s) \<and> \<not> wk_wrapped w"
        by (auto simp: tracks_def split: if_splits)
      moreover have "cursor_ok (c\<lparr>rc_after := None\<rparr>)"
        using wnil by (simp add: cursor_ok_def)
      ultimately show ?thesis
        using wnil Inr True assms(5,6) live
        by (auto simp: walk_step_def Let_def tracks_def ahead_def in_lap_def)
    qed
  qed
qed

lemma pending_walk_tracks:
  assumes "cursor_ok (wk_cursor w)" and "tracks start x w" and "names_ok dir"
    and "x \<in> set (record_ids dir)" and "length (wk_messages w) < limit"
    and "rc_live_records (wk_cursor w) \<noteq> 0"
    and "pending_walk C io ck dir limit start w = (w', Inr ())"
    and "length (wk_messages w') < limit" and "wk_examined w' < MAX_EXAMINED_PER_CALL"
  shows "x \<in> set (wk_loaded w')"
  using assms
proof (induction C io ck dir limit start w rule: pending_walk.induct)
  case (1 C io ck dir limit start w)
  note step = walk_step_tracks [OF "1.prems"(1-6), of C io ck]
  note unfold = pending_walk.simps [of C io ck dir limit start w]
  show ?case
  proof (cases "wk_examined w < MAX_EXAMINED_PER_CALL")
    case False
    with "1.prems"(7,9) show ?thesis by (simp add: unfold)
  next
    case True
    show ?thesis
    proof (cases "walk_step C io ck dir limit start w")
      case (Continue w1)
      with True "1.prems"(7) have "pending_walk C io ck dir limit start w1 = (w', Inr ())"
        by (simp add: unfold)
      with "1.IH" [OF True Continue] step Continue "1.prems" show ?thesis by simp
    qed (use step True "1.prems"(7,8) in \<open>auto simp: unfold\<close>)
  qed
qed

section \<open>The store's invariant\<close>

text \<open>
  Directories hold no stray \<^verbatim>\<open>json\<close> names, every cursor is well formed, and its count of live
  records is exact.
\<close>

definition store_ok :: "work_store \<Rightarrow> bool" where
  "store_ok ws \<longleftrightarrow> hm_ok (ws_dirs ws) \<and> hm_ok (ws_readers ws) \<and> hm_ok (ws_failed ws)
     \<and> (\<forall>ck. names_ok (dir_of ck ws))
     \<and> (\<forall>ck c. map_of (ws_readers ws) ck = Some c \<longrightarrow>
          cursor_ok c \<and> rc_live_records c = length (record_ids (dir_of ck ws)))"

definition contents :: "u64 \<Rightarrow> work_store \<Rightarrow> b256 set" where
  "contents ck ws = set (record_ids (dir_of ck ws))"

lemma length_record_ids: "hm_ok d \<Longrightarrow> length (record_ids d) = card {i. RecordFile i \<in> fst ` set d}"
proof -
  assume ok: "hm_ok d"
  have "set (record_ids d) = {i. RecordFile i \<in> fst ` set d}" by (simp add: set_eq_iff record_ids_iff)
  then show ?thesis by (metis distinct_card distinct_record_ids ok)
qed

lemma finite_record_ids: "finite {i. RecordFile i \<in> fst ` set d}" for d :: "file_name files"
proof -
  have "set (record_ids d) = {i. RecordFile i \<in> fst ` set d}" by (simp add: set_eq_iff record_ids_iff)
  then show ?thesis by (metis finite_set)
qed

lemma count_records: "names_ok d \<Longrightarrow> length (filter (\<lambda>(n, _). is_record n) d) = length (record_ids d)"
proof -
  assume "names_ok d"
  then have "list_all (\<lambda>(n, _). case n of BadRecordName _ \<Rightarrow> False | _ \<Rightarrow> True) d"
    by (simp add: names_ok_def)
  then show ?thesis by (induction d rule: record_ids.induct) auto
qed

lemma keys_write_atomic:
  "fst ` set (fst (write_atomic f (TempFile i) (RecordFile i) bs d)) \<subseteq>
     Set.insert (TempFile i) (Set.insert (RecordFile i) (fst ` set d))"
  using hm_keys_insert [of "RecordFile i" bs "AList.delete (TempFile i) d"]
  by (cases f) (auto simp: hm_keys_insert [simplified] set_delete_sub)

lemma records_write_atomic:
  "{j. RecordFile j \<in> fst ` set (fst (write_atomic f (TempFile i) (RecordFile i) bs d))} =
     (if f = NoFault then Set.insert i {j. RecordFile j \<in> fst ` set d} else {j. RecordFile j \<in> fst ` set d})"
proof -
  have eq: "RecordFile j \<in> fst ` set m \<longleftrightarrow> map_of m (RecordFile j) \<noteq> None" for j and m :: "file_name files"
    by (simp add: map_of_eq_None_iff)
  show ?thesis by (cases f) (auto simp: eq update_conv' delete_conv' simp del: not_None_eq)
qed

lemma names_ok_write_atomic: "names_ok d \<Longrightarrow> names_ok (fst (write_atomic f (TempFile i) (RecordFile i) bs d))"
proof -
  have iff: "names_ok m \<longleftrightarrow> hm_ok m \<and> (\<forall>s. BadRecordName s \<notin> fst ` set m)" for m :: "file_name files"
    by (force simp: names_ok_def list_all_iff split: file_name.splits)
  assume "names_ok d"
  with keys_write_atomic [of f i bs d] show ?thesis
    unfolding iff by (auto simp: write_atomic_hm_ok)
qed

lemma names_ok_delete: "names_ok d \<Longrightarrow> names_ok (AList.delete n d)"
  by (auto simp: names_ok_def hash.invar_remove list_all_iff set_delete_sub)

lemma dir_of_insert:
  "dir_of ck (ws\<lparr>ws_dirs := hm_insert ck' d (ws_dirs ws)\<rparr>) = (if ck = ck' then d else dir_of ck ws)"
  by (simp add: dir_of_def update_conv')

lemma dir_of_frame [simp]: "dir_of ck (ws\<lparr>ws_readers := r\<rparr>) = dir_of ck ws" "dir_of ck (ws\<lparr>ws_failed := f\<rparr>) = dir_of ck ws"
  by (simp_all add: dir_of_def)

lemma work_record_cases:
  fixes msg
  defines "ck \<equiv> im_chain_key msg" and "mid \<equiv> im_message_id msg"
  assumes "work_record C io msg ws = (ws', res)"
  obtains "ws' = ws" "res = Inl IoError"
  | "ws' = ws\<lparr>ws_dirs := hm_insert ck (dir_of ck ws) (ws_dirs ws)\<rparr>" "res = Inl IoError"
  | d where "d = fst (write_atomic (io_write io) (TempFile mid) (RecordFile mid) (enc_message C msg) (dir_of ck ws))"
      "io_write io \<noteq> NoFault" "ws' = ws\<lparr>ws_dirs := hm_insert ck d (ws_dirs ws)\<rparr>" "res = Inl IoError"
  | d where "d = fst (write_atomic NoFault (TempFile mid) (RecordFile mid) (enc_message C msg) (dir_of ck ws))"
      "ws' = ws\<lparr>ws_dirs := hm_insert ck d (ws_dirs ws), ws_readers :=
         (if map_of (dir_of ck ws) (RecordFile mid) \<noteq> None then ws_readers ws
          else hm_modify ck (\<lambda>c. c\<lparr>rc_live_records := rc_live_records c + 1\<rparr>) (ws_readers ws))\<rparr>"
proof -
  consider "\<not> io_dir_ok io" | "io_dir_ok io" "\<not> io_exists_ok io"
    | "io_dir_ok io" "io_exists_ok io" "io_write io \<noteq> NoFault"
    | "io_dir_ok io" "io_exists_ok io" "io_write io = NoFault" by blast
  then show ?thesis
  proof cases
    case 1
    with assms show ?thesis by (intro that(1)) (simp_all add: work_record_def)
  next
    case 2
    with assms show ?thesis by (intro that(2)) (simp_all add: work_record_def Let_def)
  next
    case 4
    with assms show ?thesis
      by (intro that(4) [OF refl]) (simp add: work_record_def Let_def split: if_splits)
  next
    case 3
    with assms have "ws' = ws\<lparr>ws_dirs := hm_insert ck (fst (write_atomic (io_write io) (TempFile mid)
        (RecordFile mid) (enc_message C msg) (dir_of ck ws))) (ws_dirs ws)\<rparr>" "res = Inl IoError"
      by (auto simp: work_record_def Let_def split: prod.splits if_splits dest!: arg_cong [where f = snd])
    with 3 show ?thesis by (intro that(3) [OF refl]) simp_all
  qed
qed

lemma contents_iff: "i \<in> contents ck ws \<longleftrightarrow> map_of (dir_of ck ws) (RecordFile i) \<noteq> None"
  by (simp add: contents_def record_ids_iff map_of_eq_None_iff)

lemma length_contents: "store_ok ws \<Longrightarrow> length (record_ids (dir_of ck ws)) = card (contents ck ws)"
  by (simp add: contents_def store_ok_def names_ok_def distinct_card distinct_record_ids)

lemma store_okI:
  assumes "hm_ok (ws_dirs ws)" "hm_ok (ws_readers ws)" "hm_ok (ws_failed ws)"
    and "\<And>ck. names_ok (dir_of ck ws)"
    and "\<And>ck c. map_of (ws_readers ws) ck = Some c \<Longrightarrow> cursor_ok c \<and> rc_live_records c = card (contents ck ws)"
  shows "store_ok ws"
  using assms
  by (simp add: store_ok_def contents_def names_ok_def distinct_card distinct_record_ids)

lemma store_ok_readerD:
  "store_ok ws \<Longrightarrow> map_of (ws_readers ws) ck = Some c \<Longrightarrow> cursor_ok c \<and> rc_live_records c = card (contents ck ws)"
  by (simp add: length_contents [symmetric]) (simp add: store_ok_def)

lemma contents_insert:
  "contents ck (ws\<lparr>ws_dirs := hm_insert ck' d (ws_dirs ws)\<rparr>) =
     (if ck = ck' then {i. RecordFile i \<in> fst ` set d} else contents ck ws)"
  by (simp add: contents_def dir_of_insert record_ids_iff set_eq_iff)

lemma contents_frame [simp]:
  "contents ck (ws\<lparr>ws_readers := r\<rparr>) = contents ck ws" "contents ck (ws\<lparr>ws_failed := f\<rparr>) = contents ck ws"
  by (simp_all add: contents_def)

lemma contents_as_set: "{i. RecordFile i \<in> fst ` set (dir_of ck ws)} = contents ck ws"
  by (simp add: contents_def set_eq_iff record_ids_iff)

lemma finite_contents [simp]: "finite (contents ck ws)"
  by (simp add: contents_def)

text \<open>Recording a message adds its id; a failed record adds nothing it did not report.\<close>

lemma work_record_contents:
  assumes "work_record C io msg ws = (ws', res)"
  shows "contents ck ws' = contents ck ws \<or>
      contents ck ws' = (if ck = im_chain_key msg then Set.insert (im_message_id msg) (contents ck ws) else contents ck ws)"
    and "res = Inr () \<Longrightarrow>
      contents ck ws' = (if ck = im_chain_key msg then Set.insert (im_message_id msg) (contents ck ws) else contents ck ws)"
proof -
  note set_simps = contents_insert records_write_atomic contents_as_set
  show "contents ck ws' = contents ck ws \<or>
      contents ck ws' = (if ck = im_chain_key msg then Set.insert (im_message_id msg) (contents ck ws) else contents ck ws)"
    using assms by (cases rule: work_record_cases) (auto simp: set_simps simp del: write_atomic.simps)
  show "contents ck ws' = (if ck = im_chain_key msg then Set.insert (im_message_id msg) (contents ck ws) else contents ck ws)"
    if "res = Inr ()"
    using assms that by (cases rule: work_record_cases) (auto simp: set_simps simp del: write_atomic.simps)
qed

lemma work_record_store_ok:
  assumes "store_ok ws" and "work_record C io msg ws = (ws', res)"
  shows "store_ok ws'"
  using assms(2)
proof (cases rule: work_record_cases)
  case 1
  with assms(1) show ?thesis by simp
next
  case 2
  then show ?thesis
    using assms(1) store_ok_readerD [OF assms(1)]
    by (intro store_okI) (auto simp: store_ok_def hash.invar_insert dir_of_insert contents_insert contents_as_set)
next
  case (3 d)
  have "names_ok d" unfolding 3 by (intro names_ok_write_atomic) (use assms(1) in \<open>simp add: store_ok_def\<close>)
  moreover have "{i. RecordFile i \<in> fst ` set d} = contents (im_chain_key msg) ws"
    using 3 by (simp add: records_write_atomic contents_as_set)
  ultimately show ?thesis
    using assms(1) store_ok_readerD [OF assms(1)] 3(3)
    by (intro store_okI) (auto simp: store_ok_def hash.invar_insert dir_of_insert contents_insert)
next
  case (4 d)
  have d: "names_ok d" unfolding 4 by (intro names_ok_write_atomic) (use assms(1) in \<open>simp add: store_ok_def\<close>)
  have recs: "{i. RecordFile i \<in> fst ` set d} = Set.insert (im_message_id msg) (contents (im_chain_key msg) ws)"
    unfolding 4 records_write_atomic by (simp add: contents_as_set)
  have "cursor_ok (c\<lparr>rc_live_records := n\<rparr>) = cursor_ok c" for c n by (simp add: cursor_ok_def)
  with d recs show ?thesis
    using assms(1) store_ok_readerD [OF assms(1)] 4(2) contents_iff [of "im_message_id msg" "im_chain_key msg" ws]
    by (intro store_okI)
      (auto simp: store_ok_def hash.invar_insert dir_of_insert contents_insert hm_get_modify card_insert_if
        split: if_splits)
qed

text \<open>Completing a message removes its id, and nothing else.\<close>

lemma dir_of_modify:
  "dir_of ck (ws\<lparr>ws_dirs := hm_modify ck' f (ws_dirs ws)\<rparr>) =
     (if ck = ck' \<and> map_of (ws_dirs ws) ck' \<noteq> None then f (dir_of ck ws) else dir_of ck ws)"
  by (auto simp: dir_of_def hm_get_modify split: option.splits)

lemma work_complete_cases:
  assumes "work_complete io ck mid ws = (ws', res)"
  obtains "ws' = ws" "mid \<notin> contents ck ws" "res = Inr ()"
  | "ws' = ws" "res = Inl IoError"
  | "mid \<in> contents ck ws" "ws' = ws\<lparr>ws_dirs := hm_modify ck (hm_remove (RecordFile mid)) (ws_dirs ws),
       ws_readers := hm_modify ck (\<lambda>c. c\<lparr>rc_live_records := rc_live_records c - 1\<rparr>) (ws_readers ws)\<rparr>"
proof (cases "map_of (dir_of ck ws) (RecordFile mid)")
  case None
  with assms show ?thesis by (intro that(1)) (simp_all add: work_complete_def contents_iff)
next
  case (Some b)
  show ?thesis
  proof (cases "io_remove_ok io")
    case True
    with assms Some show ?thesis by (intro that(3)) (simp_all add: work_complete_def contents_iff)
  next
    case False
    with assms Some show ?thesis by (intro that(2)) (simp_all add: work_complete_def)
  qed
qed

lemma contents_dir: "mid \<in> contents ck ws \<Longrightarrow> map_of (ws_dirs ws) ck \<noteq> None"
  by (auto simp: contents_def dir_of_def split: option.splits)

lemma contents_removed:
  assumes "mid \<in> contents ck ws"
  shows "contents ck' (ws\<lparr>ws_dirs := hm_modify ck (hm_remove (RecordFile mid)) (ws_dirs ws)\<rparr>) =
    (if ck' = ck then contents ck ws - {mid} else contents ck' ws)"
  using contents_dir [OF assms]
  by (auto simp: contents_iff dir_of_modify delete_conv' split: if_splits)

lemma work_complete_contents:
  assumes "work_complete io ck mid ws = (ws', res)"
  shows "contents ck' ws' = contents ck' ws \<or> contents ck' ws' = (if ck' = ck then contents ck ws - {mid} else contents ck' ws)"
    and "res = Inr () \<Longrightarrow> contents ck' ws' = (if ck' = ck then contents ck ws - {mid} else contents ck' ws)"
  using assms by (cases rule: work_complete_cases; auto simp: contents_removed)+

lemma work_complete_store_ok:
  assumes "store_ok ws" and "work_complete io ck mid ws = (ws', res)"
  shows "store_ok ws'"
  using assms(2)
proof (cases rule: work_complete_cases)
  case 3
  have "cursor_ok (c\<lparr>rc_live_records := n\<rparr>) = cursor_ok c" for c n by (simp add: cursor_ok_def)
  with 3 show ?thesis
    using assms(1) store_ok_readerD [OF assms(1)]
    by (intro store_okI)
      (auto simp: store_ok_def dir_of_modify names_ok_delete contents_removed hm_get_modify split: if_splits)
qed (use assms(1) in simp_all)

section \<open>Reading the backlog\<close>

lemma walk_step_cursor_ok:
  assumes "names_ok dir" and "cursor_ok (wk_cursor w)"
  shows "case walk_step C io ck dir limit start w of
      Break w' \<Rightarrow> cursor_ok (wk_cursor w') \<and> rc_live_records (wk_cursor w') = rc_live_records (wk_cursor w)
    | Fail e w' \<Rightarrow> cursor_ok (wk_cursor w') \<and> rc_live_records (wk_cursor w') = rc_live_records (wk_cursor w)
    | Continue w' \<Rightarrow> cursor_ok (wk_cursor w') \<and> rc_live_records (wk_cursor w') = rc_live_records (wk_cursor w)"
proof -
  have ex: "case examine C io ck dir limit start v of
      Break w' \<Rightarrow> cursor_ok (wk_cursor w') \<and> rc_live_records (wk_cursor w') = rc_live_records (wk_cursor v)
    | Fail e w' \<Rightarrow> cursor_ok (wk_cursor w') \<and> rc_live_records (wk_cursor w') = rc_live_records (wk_cursor v)
    | Continue w' \<Rightarrow> cursor_ok (wk_cursor w') \<and> rc_live_records (wk_cursor w') = rc_live_records (wk_cursor v)"
    if "cursor_ok (wk_cursor v)" "rc_window (wk_cursor v) \<noteq> []" for v
    using that popped_ok [OF that]
    by (auto simp: examine_def Let_def popped_def split: sum.splits option.splits)
  show ?thesis
  proof (cases "rc_window (wk_cursor w) = []")
    case False
    with ex [OF assms(2)] show ?thesis by (simp add: walk_step_def)
  next
    case True
    with assms(2) have none: "cursor_ok ((wk_cursor w)\<lparr>rc_after := None\<rparr>)" by (simp add: cursor_ok_def)
    show ?thesis
    proof (cases "cursor_refill (io_read_dir_ok io) dir (wk_cursor w)")
      case (Inl e)
      with True assms none show ?thesis by (simp add: walk_step_def)
    next
      case (Inr c)
      then have "cursor_ok c" and live: "rc_live_records c = rc_live_records (wk_cursor w)"
        using cursor_refill_ok [OF assms Inr] by (auto simp: cursor_refill_def split: if_splits sum.splits)
      with True Inr none ex [of "w\<lparr>wk_cursor := c\<rparr>"] show ?thesis
        by (auto simp: walk_step_def Let_def cursor_ok_def split: loop_step.splits)
    qed
  qed
qed

lemma pending_walk_cursor_ok:
  assumes "names_ok dir" and "cursor_ok (wk_cursor w)" and "pending_walk C io ck dir limit start w = (w', res)"
  shows "cursor_ok (wk_cursor w') \<and> rc_live_records (wk_cursor w') = rc_live_records (wk_cursor w)"
  using assms
proof (induction C io ck dir limit start w rule: pending_walk.induct)
  case (1 C io ck dir limit start w)
  note step = walk_step_cursor_ok [OF "1.prems"(1,2), of C io ck limit start]
  note unfold = pending_walk.simps [of C io ck dir limit start w]
  show ?case
  proof (cases "wk_examined w < MAX_EXAMINED_PER_CALL")
    case False
    with "1.prems" show ?thesis by (simp add: unfold)
  next
    case True
    show ?thesis
    proof (cases "walk_step C io ck dir limit start w")
      case (Continue w1)
      with True "1.prems"(3) have "pending_walk C io ck dir limit start w1 = (w', res)"
        by (simp add: unfold)
      with "1.IH" [OF True Continue] step Continue "1.prems" show ?thesis by simp
    qed (use step True "1.prems"(3) in \<open>auto simp: unfold\<close>)
  qed
qed

definition start_walk :: "route_cursor \<Rightarrow> b256 list \<Rightarrow> walk" where
  "start_walk c loaded =
     \<lparr>wk_cursor = c, wk_loaded = loaded, wk_wrapped = False, wk_examined = 0, wk_messages = []\<rparr>"

lemma start_walk_ok [simp]: "walk_ok C ck dir loaded (start_walk c loaded)"
  by (simp add: walk_ok_def start_walk_def)

lemma work_pending_cases:
  assumes "work_pending C io ck loaded limit ws = (ws', res)"
  obtains "ws' = ws" "\<forall>ms. res = Inr ms \<longrightarrow> ms = []"
  | c w r where "0 < limit"
      "map_of (ws_readers ws) ck = Some c \<or> map_of (ws_readers ws) ck = None \<and> c = cursor_new (dir_of ck ws)"
      "pending_walk C io ck (dir_of ck ws) limit (rc_after c) (start_walk c loaded) = (w, r)"
      "ws' = ws\<lparr>ws_readers := hm_insert ck (wk_cursor w) (ws_readers ws)\<rparr>"
      "res = (case r of Inl e \<Rightarrow> Inl e | Inr _ \<Rightarrow> Inr (wk_messages w))"
proof (cases "limit = 0")
  case True
  with assms show ?thesis by (intro that(1)) (auto simp: work_pending_def)
next
  case False
  define c0 where "c0 = (case map_of (ws_readers ws) ck of
      Some c \<Rightarrow> Inr (Some c)
    | None \<Rightarrow> (case map_of (ws_dirs ws) ck of
                 None \<Rightarrow> Inr None
               | Some d \<Rightarrow> if io_read_dir_ok io then Inr (Some (cursor_new d)) else Inl IoError))"
  have eq: "work_pending C io ck loaded limit ws = (case c0 of
        Inl e \<Rightarrow> (ws, Inl e) | Inr None \<Rightarrow> (ws, Inr [])
      | Inr (Some c) \<Rightarrow>
          let (w, res) = pending_walk C io ck (dir_of ck ws) limit (rc_after c) (start_walk c loaded)
          in (ws\<lparr>ws_readers := hm_insert ck (wk_cursor w) (ws_readers ws)\<rparr>,
              case res of Inl e \<Rightarrow> Inl e | Inr _ \<Rightarrow> Inr (wk_messages w)))"
    unfolding work_pending_def c0_def start_walk_def Let_def by (simp only: False if_False)
  show ?thesis
  proof (cases "\<exists>c. c0 = Inr (Some c)")
    case no: False
    then have "work_pending C io ck loaded limit ws = (ws, case c0 of Inl e \<Rightarrow> Inl e | _ \<Rightarrow> Inr [])"
      unfolding eq by (auto split: sum.splits option.splits)
    with assms show ?thesis by (intro that(1)) (auto split: sum.splits)
  next
    case True
    then obtain c where c: "c0 = Inr (Some c)" by blast
    obtain w r where w: "pending_walk C io ck (dir_of ck ws) limit (rc_after c) (start_walk c loaded) = (w, r)"
      by force
    have "map_of (ws_readers ws) ck = Some c \<or> map_of (ws_readers ws) ck = None \<and> c = cursor_new (dir_of ck ws)"
      using c by (auto simp: c0_def dir_of_def split: option.splits if_splits)
    with False w c eq assms show ?thesis by (intro that(2)) auto
  qed
qed

lemma cursor_new_ok: "names_ok d \<Longrightarrow> cursor_ok (cursor_new d) \<and> rc_live_records (cursor_new d) = length (record_ids d)"
  by (simp add: cursor_new_def cursor_ok_def count_records)

lemma work_pending_store_ok:
  assumes "store_ok ws" and "work_pending C io ck loaded limit ws = (ws', res)"
  shows "store_ok ws'" and "contents ck' ws' = contents ck' ws"
proof -
  have "store_ok ws' \<and> contents ck' ws' = contents ck' ws"
    using assms(2)
  proof (cases rule: work_pending_cases)
    case 1
    with assms(1) show ?thesis by simp
  next
    case (2 c w r)
    have names: "names_ok (dir_of ck ws)" using assms(1) by (simp add: store_ok_def)
    have "cursor_ok c \<and> rc_live_records c = card (contents ck ws)"
      using 2(2) store_ok_readerD [OF assms(1)] cursor_new_ok [OF names] length_contents [OF assms(1)] by auto
    with pending_walk_cursor_ok [OF names _ 2(3)]
    have "cursor_ok (wk_cursor w) \<and> rc_live_records (wk_cursor w) = card (contents ck ws)"
      by (simp add: start_walk_def)
    with assms(1) store_ok_readerD [OF assms(1)] 2(4) show ?thesis
      by (intro conjI store_okI) (auto simp: store_ok_def hash.invar_insert update_conv' split: if_splits)
  qed
  then show "store_ok ws'" and "contents ck' ws' = contents ck' ws" by simp_all
qed

lemma work_pending_sound:
  assumes "work_pending C io ck loaded limit ws = (ws', Inr msgs)"
  shows "length msgs \<le> limit" and "distinct (map im_message_id msgs)"
    and "set (map im_message_id msgs) \<inter> set loaded = {}"
    and "\<And>m. m \<in> set msgs \<Longrightarrow> im_chain_key m = ck \<and> im_message_id m \<in> contents ck ws
      \<and> (\<exists>bs. map_of (dir_of ck ws) (RecordFile (im_message_id m)) = Some bs \<and> dec_message C bs = Some m)"
proof -
  have "length msgs \<le> limit \<and> (msgs = [] \<or> (\<exists>w. walk_ok C ck (dir_of ck ws) loaded w \<and> wk_messages w = msgs))"
    using assms
  proof (cases rule: work_pending_cases)
    case (2 c w r)
    with pending_walk_ok [OF start_walk_ok _ 2(3)]
    show ?thesis by (auto simp: start_walk_def split: sum.splits)
  qed simp
  then show "length msgs \<le> limit" "distinct (map im_message_id msgs)"
    "set (map im_message_id msgs) \<inter> set loaded = {}"
    "\<And>m. m \<in> set msgs \<Longrightarrow> im_chain_key m = ck \<and> im_message_id m \<in> contents ck ws
      \<and> (\<exists>bs. map_of (dir_of ck ws) (RecordFile (im_message_id m)) = Some bs \<and> dec_message C bs = Some m)"
    by (auto simp: walk_ok_def contents_iff)
qed

text \<open>A restart keeps the files and forgets the cursors.\<close>

definition work_restart :: "work_store \<Rightarrow> work_store" where
  "work_restart ws = ws\<lparr>ws_readers := []\<rparr>"

lemma work_restart_ok: "store_ok ws \<Longrightarrow> store_ok (work_restart ws)"
  by (auto simp: work_restart_def store_ok_def)

section \<open>The interface the pool relies on\<close>

text \<open>
  A durable backlog: which ids it holds, and what recording, completing and reading do to it.
\<close>

locale durable_backlog =
  fixes held :: "u64 \<Rightarrow> 's \<Rightarrow> b256 set"
    and rec :: "'io \<Rightarrow> indexed_message \<Rightarrow> 's \<Rightarrow> 's \<times> ('e + unit)"
    and complete :: "'io \<Rightarrow> u64 \<Rightarrow> b256 \<Rightarrow> 's \<Rightarrow> 's \<times> ('e + unit)"
    and pend :: "'io \<Rightarrow> u64 \<Rightarrow> b256 list \<Rightarrow> nat \<Rightarrow> 's \<Rightarrow> 's \<times> ('e + indexed_message list)"
    and valid :: "'s \<Rightarrow> bool"
  assumes rec_held: "valid s \<Longrightarrow> rec io m s = (t, Inr ()) \<Longrightarrow>
      held ck t = (if ck = im_chain_key m then Set.insert (im_message_id m) (held ck s) else held ck s)"
    and rec_keeps: "valid s \<Longrightarrow> rec io m s = (t, r) \<Longrightarrow> valid t \<and> held ck s \<subseteq> held ck t"
    and complete_held: "valid s \<Longrightarrow> complete io ck' mid s = (t, r) \<Longrightarrow>
      valid t \<and> held ck t \<subseteq> held ck s \<and> held ck s \<subseteq> (if ck = ck' then Set.insert mid (held ck t) else held ck t)"
    and pend_frame: "valid s \<Longrightarrow> pend io ck' loaded n s = (t, r') \<Longrightarrow> valid t \<and> held ck t = held ck s"
    and pend_sound: "valid s \<Longrightarrow> pend io ck' loaded n s = (t, Inr ms) \<Longrightarrow>
      length ms \<le> n \<and> distinct (map im_message_id ms)
      \<and> (\<forall>m \<in> set ms. im_chain_key m = ck' \<and> im_message_id m \<in> held ck' s - set loaded)"
begin

text \<open>Recording a list of messages, stopping at the first failure.\<close>

fun rec_all :: "(b256 \<Rightarrow> 'io) \<Rightarrow> indexed_message list \<Rightarrow> 's \<Rightarrow> 's \<times> ('e + unit)" where
  "rec_all io [] s = (s, Inr ())"
| "rec_all io (m # ms) s =
     (case rec (io (im_message_id m)) m s of (t, Inl e) \<Rightarrow> (t, Inl e) | (t, Inr _) \<Rightarrow> rec_all io ms t)"

lemma rec_all_keeps: "valid s \<Longrightarrow> rec_all io ms s = (t, r) \<Longrightarrow> valid t \<and> held ck s \<subseteq> held ck t"
  by (induction ms arbitrary: s)
    (auto split: prod.splits sum.splits dest: rec_keeps, (meson rec_keeps subsetD)+)

lemma rec_all_held:
  "valid s \<Longrightarrow> rec_all io ms s = (t, Inr ()) \<Longrightarrow> m \<in> set ms \<Longrightarrow> im_message_id m \<in> held (im_chain_key m) t"
proof (induction ms arbitrary: s)
  case Nil
  then show ?case by simp
next
  case (Cons x ms)
  from Cons.prems(2) obtain u where u: "rec (io (im_message_id x)) x s = (u, Inr ())" and rest: "rec_all io ms u = (t, Inr ())"
    by (auto split: prod.splits sum.splits)
  have ok: "valid u" using rec_keeps [OF Cons.prems(1) u] by simp
  show ?case
  proof (cases "m = x")
    case True
    with rec_held [OF Cons.prems(1) u] have "im_message_id m \<in> held (im_chain_key m) u" by simp
    with rec_all_keeps [OF ok rest] show ?thesis by blast
  next
    case False
    with Cons.IH [OF ok rest] Cons.prems(3) show ?thesis by simp
  qed
qed

end

interpretation work: durable_backlog contents "work_record C" work_complete "work_pending C" store_ok for C
proof unfold_locales
  fix s io ck' loaded n t and ms :: "indexed_message list"
  assume "work_pending C io ck' loaded n s = (t, Inr ms)"
  from work_pending_sound [OF this]
  show "length ms \<le> n \<and> distinct (map im_message_id ms)
      \<and> (\<forall>m \<in> set ms. im_chain_key m = ck' \<and> im_message_id m \<in> contents ck' s - set loaded)"
    by auto
next
  fix s t :: work_store and io ck ck' mid r
  assume "store_ok s" and c: "work_complete io ck' mid s = (t, r)"
  then show "store_ok t \<and> contents ck t \<subseteq> contents ck s
      \<and> contents ck s \<subseteq> (if ck = ck' then Set.insert mid (contents ck t) else contents ck t)"
    using work_complete_store_ok [OF _ c] work_complete_contents(1) [OF c, of ck] by (auto split: if_splits)
next
  fix s t :: work_store and io m r ck
  assume "store_ok s" and c: "work_record C io m s = (t, r)"
  then show "store_ok t \<and> contents ck s \<subseteq> contents ck t"
    using work_record_store_ok [OF _ c] work_record_contents(1) [OF c, of ck] by (auto split: if_splits)
qed (simp_all add: work_record_contents(2) work_pending_store_ok)

end
