(* ===== verification/Failed_Retry.thy ===== *)
theory Failed_Retry
  imports Work_Correct
begin

text \<open>
  The bounded \<^verbatim>\<open>retryFailedMessage\<close> budget (\<^verbatim>\<open>delivery/failed_retry.rs\<close>, \<^verbatim>\<open>FailedRetryPolicy\<close> of
  \<^verbatim>\<open>config.rs\<close>): per-route bookkeeping kept in memory and written through to the sidecar of the
  work store, and the proof that no message is ever retried more often than its budget allows.
\<close>

section \<open>Policy\<close>

record failed_retry_policy =
  fp_max_attempts :: u32
  fp_initial_backoff_secs :: u64
  fp_max_backoff_secs :: u64

definition default_failed_retry_policy :: failed_retry_policy where
  "default_failed_retry_policy =
     \<lparr>fp_max_attempts = 5, fp_initial_backoff_secs = 60, fp_max_backoff_secs = 4 * 3600\<rparr>"

datatype policy_error = ZeroInitialBackoff | InitialAboveMax

definition policy_validate :: "failed_retry_policy \<Rightarrow> policy_error + unit" where
  "policy_validate p =
     (if fp_initial_backoff_secs p = 0 then Inl ZeroInitialBackoff
      else if fp_max_backoff_secs p < fp_initial_backoff_secs p then Inl InitialAboveMax
      else Inr ())"

definition checked_shl1 :: "u32 \<Rightarrow> u64 option" where
  "checked_shl1 n = (if unat n < 64 then Some (push_bit (unat n) 1) else None)"

definition policy_backoff :: "failed_retry_policy \<Rightarrow> u32 \<Rightarrow> u64" where
  "policy_backoff p attempts =
     (let factor = (case checked_shl1 attempts of Some f \<Rightarrow> f | None \<Rightarrow> - 1)
      in min (sat_mul (fp_initial_backoff_secs p) factor) (fp_max_backoff_secs p))"

section \<open>Bookkeeping\<close>

datatype gate = Proceed | Wait u64 | GiveUp failed_retry_state

record failed_retries =
  fl_chain_key :: u64
  fl_work :: bool
  fl_memory :: "(b256, failed_retry_state) hash_map"

definition failed_retries_new :: "u64 \<Rightarrow> bool \<Rightarrow> failed_retries" where
  "failed_retries_new ck work = \<lparr>fl_chain_key = ck, fl_work = work, fl_memory = []\<rparr>"

definition default_retry_state :: failed_retry_state where
  "default_retry_state = \<lparr>fr_attempts = 0, fr_next_attempt_at = 0, fr_gave_up_at = None\<rparr>"

definition stricter :: "failed_retry_state \<Rightarrow> failed_retry_state \<Rightarrow> failed_retry_state" where
  "stricter a b =
     \<lparr>fr_attempts = max (fr_attempts a) (fr_attempts b),
      fr_next_attempt_at = max (fr_next_attempt_at a) (fr_next_attempt_at b),
      fr_gave_up_at = option_or (fr_gave_up_at a) (fr_gave_up_at b)\<rparr>"

text \<open>Memory and disk of a running worker, and the outcome of the call's disk operations.\<close>

type_synonym ledger = "failed_retries \<times> work_store"

definition ledger_get ::
  "work_codec \<Rightarrow> bool \<Rightarrow> b256 \<Rightarrow> ledger \<Rightarrow> ledger \<times> (unit + failed_retry_state option)" where
  "ledger_get C readable mid L =
     (let (fr, ws) = L;
          memory = hm_get (fl_memory fr) mid;
          cache = (\<lambda>merged. case merged of
             None \<Rightarrow> L
           | Some s \<Rightarrow> (fr\<lparr>fl_memory := hm_insert mid s (fl_memory fr)\<rparr>, ws))
      in case (if fl_work fr then failed_retry C readable (fl_chain_key fr) mid ws else Inr None) of
           Inl _ \<Rightarrow> (L, case memory of Some s \<Rightarrow> Inr (Some s) | None \<Rightarrow> Inl ())
         | Inr disk \<Rightarrow>
             let merged = (case (memory, disk) of
                   (Some a, Some b) \<Rightarrow> Some (stricter a b)
                 | (a, b) \<Rightarrow> option_or a b)
             in (cache merged, Inr merged))"

definition ledger_put :: "work_codec \<Rightarrow> io_faults \<Rightarrow> b256 \<Rightarrow> failed_retry_state \<Rightarrow> ledger \<Rightarrow> ledger" where
  "ledger_put C io mid state L =
     (let (fr, ws) = L;
          fr' = fr\<lparr>fl_memory := hm_insert mid state (fl_memory fr)\<rparr>
      in (fr', if fl_work fr then fst (put_failed_retry C io (fl_chain_key fr) mid state ws) else ws))"

definition ledger_forget :: "io_faults \<Rightarrow> b256 \<Rightarrow> ledger \<Rightarrow> ledger" where
  "ledger_forget io mid L =
     (let (fr, ws) = L
      in (fr\<lparr>fl_memory := hm_remove mid (fl_memory fr)\<rparr>,
          if fl_work fr then fst (forget_failed_retry io (fl_chain_key fr) mid ws) else ws))"

definition ledger_start ::
  "work_codec \<Rightarrow> bool \<Rightarrow> io_faults \<Rightarrow> b256 \<Rightarrow> failed_retry_policy \<Rightarrow> u64 \<Rightarrow> ledger \<Rightarrow> ledger \<times> failed_retry_state" where
  "ledger_start C readable io mid policy now L =
     (let state = \<lparr>fr_attempts = 0, fr_next_attempt_at = sat_add now (policy_backoff policy 0),
                   fr_gave_up_at = None\<rparr>;
          (L1, res) = ledger_get C readable mid L
      in case res of
           Inr (Some existing) \<Rightarrow> (L1, existing)
         | Inr None \<Rightarrow> (ledger_put C io mid state L1, state)
         | Inl _ \<Rightarrow> (L1, state))"

definition ledger_gate ::
  "work_codec \<Rightarrow> bool \<Rightarrow> b256 \<Rightarrow> failed_retry_policy \<Rightarrow> u64 \<Rightarrow> ledger \<Rightarrow> ledger \<times> gate" where
  "ledger_gate C readable mid policy now L =
     (let (L1, res) = ledger_get C readable mid L in
      case res of
        Inl _ \<Rightarrow> (L1, Wait (sat_add now (policy_backoff policy 0)))
      | Inr opt \<Rightarrow>
          let state = (case opt of None \<Rightarrow> default_retry_state | Some s \<Rightarrow> s) in
          (L1, if fr_gave_up_at state \<noteq> None \<or> fp_max_attempts policy \<le> fr_attempts state then GiveUp state
               else if now < fr_next_attempt_at state then Wait (fr_next_attempt_at state)
               else Proceed))"

definition record_attempt ::
  "work_codec \<Rightarrow> bool \<Rightarrow> io_faults \<Rightarrow> b256 \<Rightarrow> failed_retry_policy \<Rightarrow> u64 \<Rightarrow> ledger \<Rightarrow> ledger \<times> failed_retry_state" where
  "record_attempt C readable io mid policy now L =
     (let (L1, res) = ledger_get C readable mid L;
          previous = (case res of Inr (Some s) \<Rightarrow> s | _ \<Rightarrow> default_retry_state);
          attempts = sat_add (fr_attempts previous) 1;
          state = \<lparr>fr_attempts = attempts, fr_next_attempt_at = sat_add now (policy_backoff policy attempts),
                   fr_gave_up_at = None\<rparr>
      in (ledger_put C io mid state L1, state))"

definition ledger_give_up ::
  "work_codec \<Rightarrow> io_faults \<Rightarrow> b256 \<Rightarrow> failed_retry_state \<Rightarrow> u64 \<Rightarrow> ledger \<Rightarrow> ledger \<times> failed_retry_state" where
  "ledger_give_up C io mid state now L =
     (let state' = state\<lparr>fr_gave_up_at := Some (case fr_gave_up_at state of None \<Rightarrow> now | Some t \<Rightarrow> t)\<rparr>
      in (ledger_put C io mid state' L, state'))"

section \<open>The backoff schedule\<close>

lemma unat_pow2_u64: "n < 64 \<Longrightarrow> unat (2 ^ n :: u64) = 2 ^ n"
proof -
  assume "n < 64"
  then have "(2 :: nat) ^ n < 2 ^ 64" by (rule power_strict_increasing) simp
  then have "unat (of_nat (2 ^ n) :: u64) = 2 ^ n" by (simp add: unsigned_of_nat take_bit_eq_mod del: of_nat_power)
  then show ?thesis by simp
qed

lemma policy_backoff_nat:
  "unat (policy_backoff p a) =
     min (unat (fp_initial_backoff_secs p) * 2 ^ min (unat a) 64) (unat (fp_max_backoff_secs p))"
proof -
  have bound: "unat (fp_max_backoff_secs p) \<le> 2 ^ 64 - 1"
    using unsigned_less [of "fp_max_backoff_secs p", where 'a = nat] by simp
  have min_unat: "unat (min x y) = min (unat x) (unat y)" for x y :: u64
    by (simp add: min_def word_le_nat_alt)
  show ?thesis
  proof (cases "unat a < 64")
    case True
    with bound show ?thesis
      by (simp add: policy_backoff_def checked_shl1_def min_unat unat_sat unat_pow2_u64)
  next
    case False
    then have min64: "min (unat a) 64 = 64" by simp
    show ?thesis
    proof (cases "fp_initial_backoff_secs p = 0")
      case True
      with False show ?thesis
        by (simp add: policy_backoff_def checked_shl1_def min_unat unat_sat)
    next
      case nz: False
      then have "1 \<le> unat (fp_initial_backoff_secs p)"
        by (simp add: Suc_le_eq unat_gt_0)
      then have "(2 ^ 64 - 1 :: nat) \<le> unat (fp_initial_backoff_secs p) * (2 ^ 64 - 1)"
        and "(2 ^ 64 :: nat) \<le> unat (fp_initial_backoff_secs p) * 2 ^ 64"
        by simp_all
      moreover have "unat (- 1 :: u64) = 2 ^ 64 - 1"
        by (simp add: unsigned_minus_1_eq_mask mask_eq_exp_minus_1)
      ultimately show ?thesis
        using False bound min64
        by (simp add: policy_backoff_def checked_shl1_def min_unat unat_sat min_absorb2)
    qed
  qed
qed

lemma policy_backoff_doubling:
  "unat (policy_backoff p a) =
     doubling (unat (fp_initial_backoff_secs p)) (unat (fp_max_backoff_secs p)) 64 (unat a)"
  by (simp add: policy_backoff_nat doubling_def)

section \<open>The sidecar's contract\<close>

text \<open>
  What the bookkeeping relies on: a successful write is what is stored, a failed one leaves
  either the old or the new entry, and other messages are untouched.
\<close>

locale retry_sidecar =
  fixes stored :: "b256 \<Rightarrow> 's \<Rightarrow> bytes option"
    and enc :: "failed_retry_state \<Rightarrow> bytes"
    and wr :: "'io \<Rightarrow> b256 \<Rightarrow> failed_retry_state \<Rightarrow> 's \<Rightarrow> 's \<times> ('e + unit)"
  assumes wr_ok: "wr io m st s = (t, Inr ()) \<Longrightarrow> stored m t = Some (enc st)"
    and wr_any: "wr io m st s = (t, r) \<Longrightarrow> stored m t = Some (enc st) \<or> stored m t = stored m s"
    and wr_frame: "m' \<noteq> m \<Longrightarrow> wr io m st s = (t, r) \<Longrightarrow> stored m' t = stored m' s"
begin

lemma wr_Some: "wr io m st s = (t, r) \<Longrightarrow> stored m s \<noteq> None \<Longrightarrow> stored m t \<noteq> None"
  using wr_any by fastforce

end

definition sidecar_entry :: "u64 \<Rightarrow> b256 \<Rightarrow> work_store \<Rightarrow> bytes option" where
  "sidecar_entry ck mid ws = hm_get (ws_failed ws) (ck, mid)"

interpretation sidecar: retry_sidecar "sidecar_entry ck" "enc_failed C" "\<lambda>io. put_failed_retry C io ck" for C ck
  by unfold_locales
    (auto simp: sidecar_entry_def put_failed_retry_def Let_def update_conv' split: if_splits)

section \<open>Reads never fall below memory\<close>

definition mem_attempts :: "b256 \<Rightarrow> ledger \<Rightarrow> nat" where
  "mem_attempts mid L = (case hm_get (fl_memory (fst L)) mid of None \<Rightarrow> 0 | Some s \<Rightarrow> unat (fr_attempts s))"

lemma stricter_attempts [simp]:
  "unat (fr_attempts (stricter a b)) = max (unat (fr_attempts a)) (unat (fr_attempts b))"
  by (simp add: stricter_def max_def word_le_nat_alt)

lemma ledger_get_frame:
  assumes "ledger_get C readable mid L = (L', res)"
  shows "snd L' = snd L" "fl_chain_key (fst L') = fl_chain_key (fst L)" "fl_work (fst L') = fl_work (fst L)"
  using assms
  by (auto simp: ledger_get_def Let_def split: prod.splits sum.splits option.splits if_splits)

lemma ledger_get_attempts:
  assumes "ledger_get C readable mid L = (L', res)"
  shows "mem_attempts mid L \<le> mem_attempts mid L'"
    and "res = Inr (Some s) \<Longrightarrow> mem_attempts mid L' = unat (fr_attempts s)"
    and "res = Inr None \<Longrightarrow> mem_attempts mid L' = 0"
    and "res = Inl () \<Longrightarrow> mem_attempts mid L' = 0 \<and> L' = L"
  using assms
  by (auto simp: ledger_get_def Let_def mem_attempts_def update_conv' option_or_def
      split: prod.splits sum.splits option.splits if_splits)

lemma ledger_put_attempts:
  "mem_attempts mid' (ledger_put C io mid st L) =
     (if mid' = mid then unat (fr_attempts st) else mem_attempts mid' L)"
  by (simp add: ledger_put_def Let_def mem_attempts_def update_conv' split: prod.splits)

section \<open>What a call changes\<close>

definition same_entry :: "b256 \<Rightarrow> ledger \<Rightarrow> ledger \<Rightarrow> bool" where
  "same_entry mid L L' \<longleftrightarrow> hm_get (fl_memory (fst L')) mid = hm_get (fl_memory (fst L)) mid
     \<and> fl_work (fst L') = fl_work (fst L) \<and> fl_chain_key (fst L') = fl_chain_key (fst L)
     \<and> sidecar_entry (fl_chain_key (fst L)) mid (snd L') = sidecar_entry (fl_chain_key (fst L)) mid (snd L)"

lemma same_entry_trans: "same_entry mid L L1 \<Longrightarrow> same_entry mid L1 L2 \<Longrightarrow> same_entry mid L L2"
  by (simp add: same_entry_def)

lemma ledger_get_other:
  "mid' \<noteq> mid \<Longrightarrow> same_entry mid L (fst (ledger_get C r mid' L))"
  by (auto simp: ledger_get_def Let_def same_entry_def update_conv' split: prod.splits sum.splits option.splits)

lemma ledger_put_other:
  "mid' \<noteq> mid \<Longrightarrow> same_entry mid L (ledger_put C io mid' st L)"
  by (auto simp: ledger_put_def Let_def same_entry_def sidecar_entry_def put_failed_retry_def update_conv'
      split: prod.splits)

lemma ledger_forget_other:
  "mid' \<noteq> mid \<Longrightarrow> same_entry mid L (ledger_forget io mid' L)"
  by (auto simp: ledger_forget_def Let_def same_entry_def sidecar_entry_def forget_failed_retry_def delete_conv'
      split: prod.splits option.splits)

lemma ledger_gate_fst: "fst (ledger_gate C r mid p now L) = fst (ledger_get C r mid L)"
  by (simp add: ledger_gate_def Let_def split: prod.splits sum.splits)

lemma ledger_ops_other:
  assumes "mid' \<noteq> mid"
  shows "same_entry mid L (fst (ledger_gate C r mid' p now L))"
    and "same_entry mid L (fst (ledger_start C r io mid' p now L))"
    and "same_entry mid L (fst (record_attempt C r io mid' p now L))"
    and "same_entry mid L (fst (ledger_give_up C io mid' st now L))"
proof -
  obtain L1 res where get: "ledger_get C r mid' L = (L1, res)"
    by (cases "ledger_get C r mid' L") blast
  have L1: "same_entry mid L L1" using ledger_get_other [OF assms, of L C r] get by simp
  note put = same_entry_trans [OF L1 ledger_put_other [OF assms]]
  show "same_entry mid L (fst (ledger_gate C r mid' p now L))" by (simp add: ledger_gate_fst get L1)
  show "same_entry mid L (fst (ledger_start C r io mid' p now L))"
    by (auto simp: ledger_start_def Let_def get L1 put split: sum.splits option.splits)
  show "same_entry mid L (fst (record_attempt C r io mid' p now L))"
    by (simp add: record_attempt_def Let_def get put)
  show "same_entry mid L (fst (ledger_give_up C io mid' st now L))"
    by (simp add: ledger_give_up_def Let_def ledger_put_other [OF assms])
qed

section \<open>Counting attempts\<close>

lemma gate_attempts:
  assumes "ledger_gate C r mid p now L = (L1, g)"
  shows "mem_attempts mid L \<le> mem_attempts mid L1"
    and "g = Proceed \<Longrightarrow> mem_attempts mid L1 < unat (fp_max_attempts p)"
    and "g = GiveUp st \<Longrightarrow> mem_attempts mid L1 = unat (fr_attempts st)"
proof -
  obtain L1' res where get: "ledger_get C r mid L = (L1', res)"
    by (cases "ledger_get C r mid L") blast
  with assms have L1: "L1 = L1'"
    by (auto simp: ledger_gate_def Let_def split: sum.splits)
  note att = ledger_get_attempts [OF get]
  show "mem_attempts mid L \<le> mem_attempts mid L1" using att(1) L1 by simp
  show "mem_attempts mid L1 < unat (fp_max_attempts p)" if "g = Proceed"
    using assms get that att L1
    by (auto simp: ledger_gate_def Let_def default_retry_state_def word_le_nat_alt not_le
        split: sum.splits option.splits if_splits)
  show "mem_attempts mid L1 = unat (fr_attempts st)" if "g = GiveUp st"
    using assms get that att L1
    by (auto simp: ledger_gate_def Let_def default_retry_state_def
        split: sum.splits option.splits if_splits)
qed

lemma record_attempt_counts:
  assumes "mem_attempts mid L < unat (fp_max_attempts p)"
  shows "mem_attempts mid L < mem_attempts mid (fst (record_attempt C r io mid p now L))"
    and "mem_attempts mid (fst (record_attempt C r io mid p now L)) =
      Suc (mem_attempts mid (fst (ledger_get C r mid L)))
      \<or> mem_attempts mid (fst (record_attempt C r io mid p now L)) = 2 ^ 32 - 1"
proof -
  obtain L1 res where get: "ledger_get C r mid L = (L1, res)"
    by (cases "ledger_get C r mid L") blast
  define prev where "prev = (case res of Inr (Some s) \<Rightarrow> s | _ \<Rightarrow> default_retry_state)"
  have prev: "mem_attempts mid L1 = unat (fr_attempts prev)"
    using ledger_get_attempts [OF get]
    by (auto simp: prev_def default_retry_state_def split: sum.splits option.splits)
  have "mem_attempts mid (fst (record_attempt C r io mid p now L)) = unat (sat_add (fr_attempts prev) 1)"
    by (simp add: record_attempt_def Let_def get ledger_put_attempts prev_def split: prod.splits)
  then have res: "mem_attempts mid (fst (record_attempt C r io mid p now L)) =
      min (Suc (mem_attempts mid L1)) (2 ^ 32 - 1)"
    by (simp add: unat_sat prev)
  have "unat (fp_max_attempts p) \<le> 2 ^ 32 - 1"
    using unsigned_less [of "fp_max_attempts p", where 'a = nat] by simp
  with res assms ledger_get_attempts(1) [OF get]
  show "mem_attempts mid L < mem_attempts mid (fst (record_attempt C r io mid p now L))" by simp
  show "mem_attempts mid (fst (record_attempt C r io mid p now L)) = Suc (mem_attempts mid (fst (ledger_get C r mid L)))
      \<or> mem_attempts mid (fst (record_attempt C r io mid p now L)) = 2 ^ 32 - 1"
    using res get by auto
qed

lemma record_attempt_state:
  "mem_attempts mid (fst (record_attempt C r io mid p now L)) = unat (fr_attempts (snd (record_attempt C r io mid p now L)))"
  by (simp add: record_attempt_def Let_def ledger_put_attempts split: prod.splits)

lemma ledger_start_attempts:
  "mem_attempts mid L \<le> mem_attempts mid (fst (ledger_start C r io mid p now L))"
  "mem_attempts mid (fst (ledger_start C r io mid p now L)) = unat (fr_attempts (snd (ledger_start C r io mid p now L)))"
proof -
  obtain L1 res where get: "ledger_get C r mid L = (L1, res)"
    by (cases "ledger_get C r mid L") blast
  note att = ledger_get_attempts [OF get]
  show "mem_attempts mid L \<le> mem_attempts mid (fst (ledger_start C r io mid p now L))"
    "mem_attempts mid (fst (ledger_start C r io mid p now L)) = unat (fr_attempts (snd (ledger_start C r io mid p now L)))"
    using att by (auto simp: ledger_start_def Let_def get ledger_put_attempts split: sum.splits option.splits)
qed

section \<open>Counting on disk\<close>

text \<open>
  With persistence on and writes that reach the file (a failing directory sync included), the
  sidecar carries the count across any number of restarts; unreadable entries only ever wait.
\<close>

definition writes :: "io_faults \<Rightarrow> bool" where
  "writes io \<longleftrightarrow> io_dir_ok io \<and> io_exists_ok io \<and> io_write io = NoFault"

definition failed_codec_ok :: "work_codec \<Rightarrow> bool" where
  "failed_codec_ok C \<longleftrightarrow> (\<forall>s. dec_failed C (enc_failed C s) = Some s)"

definition durable :: "work_codec \<Rightarrow> b256 \<Rightarrow> ledger \<Rightarrow> nat \<Rightarrow> bool" where
  "durable C mid L n \<longleftrightarrow> fl_work (fst L)
     \<and> (\<forall>s. hm_get (fl_memory (fst L)) mid = Some s \<longrightarrow> n \<le> unat (fr_attempts s))
     \<and> (n = 0 \<or> (\<exists>bs s. sidecar_entry (fl_chain_key (fst L)) mid (snd L) = Some bs
          \<and> dec_failed C bs = Some s \<and> n \<le> unat (fr_attempts s)))"

lemma ledger_get_durable:
  assumes "durable C mid L n" and "ledger_get C readable mid L = (L1, res)"
  shows "durable C mid L1 n"
    and "\<And>s. res = Inr (Some s) \<Longrightarrow> n \<le> unat (fr_attempts s)"
    and "res = Inr None \<Longrightarrow> n = 0"
    and "res \<noteq> Inr None \<Longrightarrow> (\<exists>s. res = Inr (Some s) \<and> hm_get (fl_memory (fst L1)) mid = Some s) \<or> res = Inl ()"
  using assms
  by (auto simp: durable_def ledger_get_def Let_def failed_retry_def sidecar_entry_def option_or_def update_conv'
      split: prod.splits sum.splits option.splits if_splits)

lemma ledger_put_durable:
  assumes "failed_codec_ok C" and "writes io" and "fl_work (fst L)" and "n \<le> unat (fr_attempts st)"
  shows "durable C mid (ledger_put C io mid st L) n"
  using assms
  by (auto simp: durable_def ledger_put_def Let_def writes_def put_failed_retry_def sidecar_entry_def
      update_conv' failed_codec_ok_def split: prod.splits)

lemma durable_work: "durable C mid L n \<Longrightarrow> fl_work (fst L)"
  by (simp add: durable_def)

lemma ledger_give_up_durable:
  assumes "failed_codec_ok C" and "writes io" and "fl_work (fst L)" and "n \<le> unat (fr_attempts st)"
  shows "durable C mid (fst (ledger_give_up C io mid st now L)) n"
  unfolding ledger_give_up_def Let_def fst_conv by (rule ledger_put_durable) (use assms in simp_all)

lemma record_attempt_durable:
  assumes "failed_codec_ok C" and "writes io" and "durable C mid L n" and "n < 2 ^ 32 - 1"
    and "hm_get (fl_memory (fst L)) mid \<noteq> None \<or> n = 0"
  shows "durable C mid (fst (record_attempt C r io mid p now L)) (Suc n)"
    and "Suc n \<le> unat (fr_attempts (snd (record_attempt C r io mid p now L)))"
proof -
  obtain L1 res where get: "ledger_get C r mid L = (L1, res)"
    by (cases "ledger_get C r mid L") blast
  note dur = ledger_get_durable [OF assms(3) get]
  define prev where "prev = (case res of Inr (Some s) \<Rightarrow> s | _ \<Rightarrow> default_retry_state)"
  have "res \<noteq> Inl () \<or> n = 0"
    using assms(5) get by (auto simp: ledger_get_def Let_def split: prod.splits sum.splits option.splits if_splits)
  then have "n \<le> unat (fr_attempts prev)"
    using dur by (auto simp: prev_def split: sum.splits option.splits)
  then have ge: "Suc n \<le> unat (sat_add (fr_attempts prev) 1)"
    using assms(4) by (simp add: unat_sat)
  have eq: "record_attempt C r io mid p now L =
      (let st = \<lparr>fr_attempts = sat_add (fr_attempts prev) 1,
                 fr_next_attempt_at = sat_add now (policy_backoff p (sat_add (fr_attempts prev) 1)),
                 fr_gave_up_at = None\<rparr>
       in (ledger_put C io mid st L1, st))"
    by (simp add: record_attempt_def get Let_def prev_def)
  show "durable C mid (fst (record_attempt C r io mid p now L)) (Suc n)"
    unfolding eq Let_def fst_conv
    by (rule ledger_put_durable) (use assms(1,2) dur(1) ge in \<open>simp_all add: durable_work\<close>)
  show "Suc n \<le> unat (fr_attempts (snd (record_attempt C r io mid p now L)))"
    using ge by (simp add: eq Let_def)
qed

section \<open>The budget as a contract\<close>

text \<open>
  What the worker relies on: \<open>counts L n\<close> says that the ledger remembers the \<open>n\<close> broadcasts spent
  on the message. Passing the gate leaves room for one more, counting one keeps the count, and
  nothing but forgetting the message itself loses it.
\<close>

locale attempt_budget =
  fixes C :: work_codec and p :: failed_retry_policy and mid :: b256
    and counts :: "ledger \<Rightarrow> nat \<Rightarrow> bool" and io_ok :: "io_faults \<Rightarrow> bool"
  assumes counts_max: "counts L n \<Longrightarrow> n \<le> unat (fp_max_attempts p)"
    and counts_other: "counts L n \<Longrightarrow> same_entry mid L L' \<Longrightarrow> counts L' n"
    and counts_gate: "counts L n \<Longrightarrow> ledger_gate C r mid p now L = (L1, g) \<Longrightarrow>
      counts L1 n \<and> (\<forall>st. g = GiveUp st \<longrightarrow> n \<le> unat (fr_attempts st))"
    and counts_attempt: "counts L n \<Longrightarrow> ledger_gate C r mid p now L = (L1, Proceed) \<Longrightarrow> io_ok io \<Longrightarrow>
      record_attempt C r' io mid p now' L1 = (L2, st) \<Longrightarrow> counts L2 (Suc n) \<and> Suc n \<le> unat (fr_attempts st)"
    and counts_start: "counts L n \<Longrightarrow> io_ok io \<Longrightarrow> ledger_start C r io mid p now L = (L1, st) \<Longrightarrow>
      counts L1 n \<and> (fp_max_attempts p \<le> fr_attempts st \<longrightarrow> n \<le> unat (fr_attempts st))"
    and counts_give_up: "counts L n \<Longrightarrow> io_ok io \<Longrightarrow> n \<le> unat (fr_attempts st) \<Longrightarrow>
      counts (fst (ledger_give_up C io mid st now L)) n"
begin

lemma gate_keeps:
  "counts L n \<Longrightarrow> ledger_gate C r mid' p now L = (L1, g) \<Longrightarrow>
     counts L1 n \<and> (\<forall>st. mid' = mid \<longrightarrow> g = GiveUp st \<longrightarrow> n \<le> unat (fr_attempts st))"
  using counts_gate counts_other ledger_ops_other(1) by (metis fst_conv)

lemma start_keeps:
  "counts L n \<Longrightarrow> io_ok io \<Longrightarrow> ledger_start C r io mid' p now L = (L1, st) \<Longrightarrow>
     counts L1 n \<and> (mid' = mid \<longrightarrow> fp_max_attempts p \<le> fr_attempts st \<longrightarrow> n \<le> unat (fr_attempts st))"
  using counts_start counts_other ledger_ops_other(2) by (metis fst_conv)

lemma give_up_keeps:
  "counts L n \<Longrightarrow> io_ok io \<Longrightarrow> (mid' = mid \<Longrightarrow> n \<le> unat (fr_attempts st)) \<Longrightarrow>
     counts (fst (ledger_give_up C io mid' st now L)) n"
  using counts_give_up counts_other ledger_ops_other(4) by metis

lemma forget_keeps: "counts L n \<Longrightarrow> mid' \<noteq> mid \<Longrightarrow> counts (ledger_forget io mid' L) n"
  using counts_other ledger_forget_other by metis

end

text \<open>Within one process the memory carries the count, whatever the disk does.\<close>

definition remembers :: "failed_retry_policy \<Rightarrow> b256 \<Rightarrow> ledger \<Rightarrow> nat \<Rightarrow> bool" where
  "remembers p mid L n \<longleftrightarrow> n \<le> mem_attempts mid L \<and> n \<le> unat (fp_max_attempts p)"

interpretation in_process: attempt_budget C p mid "remembers p mid" "\<lambda>_. True" for C p mid
proof
  fix L L' L1 L2 :: ledger and n r r' now now' io st g
  show "remembers p mid L n \<Longrightarrow> n \<le> unat (fp_max_attempts p)" by (simp add: remembers_def)
  show "remembers p mid L n \<Longrightarrow> same_entry mid L L' \<Longrightarrow> remembers p mid L' n"
    by (simp add: remembers_def same_entry_def mem_attempts_def)
  show "remembers p mid L1 n \<and> (\<forall>st. g = GiveUp st \<longrightarrow> n \<le> unat (fr_attempts st))"
    if "remembers p mid L n" "ledger_gate C r mid p now L = (L1, g)"
    using that gate_attempts [OF that(2)] by (auto simp: remembers_def)
  show "remembers p mid L2 (Suc n) \<and> Suc n \<le> unat (fr_attempts st)"
    if "remembers p mid L n" "ledger_gate C r mid p now L = (L1, Proceed)"
      "record_attempt C r' io mid p now' L1 = (L2, st)"
  proof -
    note g = gate_attempts(1,2) [OF that(2)]
    have lt: "mem_attempts mid L1 < unat (fp_max_attempts p)" using g(2) by simp
    have "mem_attempts mid L1 < mem_attempts mid L2" "mem_attempts mid L2 = unat (fr_attempts st)"
      using record_attempt_counts(1) [OF lt, of C r' io now'] record_attempt_state [of mid C r' io p now' L1] that(3)
      by simp_all
    with that(1) g(1) lt show ?thesis by (simp add: remembers_def)
  qed
  show "remembers p mid L1 n \<and> (fp_max_attempts p \<le> fr_attempts st \<longrightarrow> n \<le> unat (fr_attempts st))"
    if "remembers p mid L n" "ledger_start C r io mid p now L = (L1, st)"
    using that ledger_start_attempts(1) [of mid L C r io p now] ledger_start_attempts(2) [of mid C r io p now L]
    by (simp add: remembers_def)
  show "remembers p mid (fst (ledger_give_up C io mid st now L)) n"
    if "remembers p mid L n" "n \<le> unat (fr_attempts st)"
    using that by (simp add: remembers_def ledger_give_up_def ledger_put_attempts Let_def)
qed

text \<open>With a sidecar that can be written, the disk carries it too.\<close>

definition persists :: "work_codec \<Rightarrow> failed_retry_policy \<Rightarrow> b256 \<Rightarrow> ledger \<Rightarrow> nat \<Rightarrow> bool" where
  "persists C p mid L n \<longleftrightarrow> failed_codec_ok C \<and> durable C mid L n \<and> n \<le> unat (fp_max_attempts p)"

lemma persists_attempt:
  assumes "persists C p mid L n" and gate: "ledger_gate C r mid p now L = (L1, Proceed)" and "writes io"
    and rec: "record_attempt C r' io mid p now' L1 = (L2, st)"
  shows "persists C p mid L2 (Suc n) \<and> Suc n \<le> unat (fr_attempts st)"
proof -
  obtain res where get: "ledger_get C r mid L = (L1, res)"
    using gate ledger_gate_fst [of C r mid p now L] by (cases "ledger_get C r mid L") auto
  have C: "failed_codec_ok C" and d: "durable C mid L n" using assms(1) by (simp_all add: persists_def)
  note dur = ledger_get_durable [OF d get]
  have "res \<noteq> Inl ()" using gate get by (auto simp: ledger_gate_def)
  with dur have mem: "hm_get (fl_memory (fst L1)) mid \<noteq> None \<or> n = 0" by auto
  have "n \<le> mem_attempts mid L1" using mem dur(1) by (auto simp: durable_def mem_attempts_def)
  with gate_attempts(2) [OF gate refl] have lt: "n < unat (fp_max_attempts p)" by simp
  moreover have "unat (fp_max_attempts p) \<le> 2 ^ 32 - 1"
    using unsigned_less [of "fp_max_attempts p", where 'a = nat] by simp
  ultimately show ?thesis
    using record_attempt_durable [OF C assms(3) dur(1) _ mem, of r' p now'] rec C by (simp add: persists_def)
qed

lemma persists_gate:
  assumes "persists C p mid L n" and gate: "ledger_gate C r mid p now L = (L1, g)"
  shows "persists C p mid L1 n \<and> (\<forall>st. g = GiveUp st \<longrightarrow> n \<le> unat (fr_attempts st))"
proof -
  obtain res where get: "ledger_get C r mid L = (L1, res)"
    using gate ledger_gate_fst [of C r mid p now L] by (cases "ledger_get C r mid L") auto
  have "durable C mid L n" using assms(1) by (simp add: persists_def)
  note dur = ledger_get_durable [OF this get]
  have "res = Inr (Some st) \<or> n = 0" if "g = GiveUp st" for st
    using gate get that dur(3) by (auto simp: ledger_gate_def Let_def split: sum.splits option.splits if_splits)
  with dur(1,2) assms(1) show ?thesis by (fastforce simp: persists_def)
qed

lemma persists_start:
  assumes "persists C p mid L n" and "writes io" and start: "ledger_start C r io mid p now L = (L1, st)"
  shows "persists C p mid L1 n \<and> (fp_max_attempts p \<le> fr_attempts st \<longrightarrow> n \<le> unat (fr_attempts st))"
proof -
  obtain L2 res where get: "ledger_get C r mid L = (L2, res)"
    by (cases "ledger_get C r mid L") blast
  have C: "failed_codec_ok C" and d: "durable C mid L n" and max: "n \<le> unat (fp_max_attempts p)"
    using assms(1) by (simp_all add: persists_def)
  note dur = ledger_get_durable [OF d get]
  have "durable C mid L1 n"
    using start get dur C assms(2)
    by (auto simp: ledger_start_def Let_def durable_work intro: ledger_put_durable split: sum.splits option.splits)
  moreover have "n \<le> unat (fr_attempts st)" if "fp_max_attempts p \<le> fr_attempts st"
    using max that by (meson le_trans word_le_nat_alt)
  ultimately show ?thesis using C max by (simp add: persists_def)
qed

interpretation across_restarts: attempt_budget C p mid "persists C p mid" writes for C p mid
proof
  fix L L' L1 L2 :: ledger and n r r' now now' io st g
  show "persists C p mid L n \<Longrightarrow> n \<le> unat (fp_max_attempts p)" by (simp add: persists_def)
  show "persists C p mid L n \<Longrightarrow> same_entry mid L L' \<Longrightarrow> persists C p mid L' n"
    by (simp add: persists_def durable_def same_entry_def)
  show "persists C p mid L1 n \<and> (\<forall>st. g = GiveUp st \<longrightarrow> n \<le> unat (fr_attempts st))"
    if "persists C p mid L n" "ledger_gate C r mid p now L = (L1, g)"
    using that by (rule persists_gate)
  show "persists C p mid L2 (Suc n) \<and> Suc n \<le> unat (fr_attempts st)"
    if "persists C p mid L n" "ledger_gate C r mid p now L = (L1, Proceed)" "writes io"
      "record_attempt C r' io mid p now' L1 = (L2, st)"
    using that by (rule persists_attempt)
  show "persists C p mid L1 n \<and> (fp_max_attempts p \<le> fr_attempts st \<longrightarrow> n \<le> unat (fr_attempts st))"
    if "persists C p mid L n" "writes io" "ledger_start C r io mid p now L = (L1, st)"
    using that by (rule persists_start)
  show "persists C p mid (fst (ledger_give_up C io mid st now L)) n"
    if "persists C p mid L n" "writes io" "n \<le> unat (fr_attempts st)"
    using that by (auto simp: persists_def durable_work intro: ledger_give_up_durable)
qed

text \<open>A restart loses the memory; the sidecar stays.\<close>

definition ledger_restart :: "ledger \<Rightarrow> ledger" where
  "ledger_restart L = (failed_retries_new (fl_chain_key (fst L)) (fl_work (fst L)), snd L)"

lemma persists_restart: "persists C p mid L n \<Longrightarrow> persists C p mid (ledger_restart L) n"
  by (auto simp: persists_def durable_def ledger_restart_def failed_retries_new_def)

end
