(* ===== verification/Pool_Run.thy ===== *)
theory Pool_Run
  imports Pool_Dispatch Failed_Retry
begin

text \<open>
  The pool task (\<^verbatim>\<open>run\<close> of \<^verbatim>\<open>pool/mod.rs\<close>): refilling the bounded working set from the durable
  backlog, handing jobs to the delivery channels, and one iteration of the select loop. The
  loop is then a transition system together with its environment, which returns a delivery
  result only for a job that was sent.
\<close>

section \<open>Refill\<close>

datatype refill_error = IndexPanic | WorkFailed work_error

text \<open>\<open>None\<close> is the panic of indexing \<^verbatim>\<open>by_message\<close> with an id that has no slot.\<close>

definition rotates :: "instant \<Rightarrow> message_slot \<Rightarrow> bool" where
  "rotates now slot \<longleftrightarrow> \<not> ms_in_flight slot \<and> \<not> ms_delivered slot \<and> \<not> ms_terminal slot
     \<and> WORKING_SET_RESIDENCE \<le> now - ms_inserted_at slot"

fun rotation_candidates ::
  "instant \<Rightarrow> (b256, message_slot) hash_map \<Rightarrow> nat \<Rightarrow> b256 list \<Rightarrow> b256 list option" where
  "rotation_candidates now slots 0 order = Some []"
| "rotation_candidates now slots (Suc n) [] = Some []"
| "rotation_candidates now slots (Suc n) (h # hs) =
     (case hm_get slots h of
        None \<Rightarrow> None
      | Some slot \<Rightarrow>
          if rotates now slot then map_option (\<lambda>rest. h # rest) (rotation_candidates now slots n hs)
          else rotation_candidates now slots (Suc n) hs)"

fun record_each ::
  "work_codec \<Rightarrow> (b256 \<Rightarrow> io_faults) \<Rightarrow> (b256, message_slot) hash_map \<Rightarrow> b256 list \<Rightarrow> work_store
    \<Rightarrow> work_store \<times> (refill_error + unit)" where
  "record_each C io slots [] ws = (ws, Inr ())"
| "record_each C io slots (h # hs) ws =
     (case hm_get slots h of
        None \<Rightarrow> (ws, Inl IndexPanic)
      | Some slot \<Rightarrow>
          (case work_record C (io (im_message_id (ms_indexed slot))) (ms_indexed slot) ws of
             (ws', Inl e) \<Rightarrow> (ws', Inl (WorkFailed e))
           | (ws', Inr _) \<Rightarrow> record_each C io slots hs ws'))"

fun index_all ::
  "primitives \<Rightarrow> instant \<Rightarrow> indexed_message list \<Rightarrow> pool_state \<Rightarrow> pool_state \<times> delivery_job list \<times> metric list" where
  "index_all P now [] st = (st, [], [])"
| "index_all P now (m # msgs) st =
     (let (st1, job, ms1) = note_indexed P m now st;
          (st2, jobs, ms2) = index_all P now msgs st1
      in (st2, (case job of None \<Rightarrow> [] | Some j \<Rightarrow> [j]) @ jobs, ms1 @ ms2))"

record refill_faults =
  rf_pending :: "u64 \<Rightarrow> io_faults"
  rf_record :: "b256 \<Rightarrow> io_faults"

definition refill_route ::
  "primitives \<Rightarrow> work_codec \<Rightarrow> refill_faults \<Rightarrow> instant \<Rightarrow> u64 \<Rightarrow> pool_state \<Rightarrow> work_store
    \<Rightarrow> pool_state \<times> work_store \<times> (refill_error + delivery_job list) \<times> metric list" where
  "refill_route P C fx now ck st ws =
     (case hm_get (st_by_route st) ck of
        None \<Rightarrow> (st, ws, Inl IndexPanic, [])
      | Some route \<Rightarrow>
          let slots = rt_by_message route;
              capacity = rt_cache_max route - length slots
          in case rotation_candidates now slots (max (rt_cache_max route div 4) 1) (rt_order route) of
               None \<Rightarrow> (st, ws, Inl IndexPanic, [])
             | Some candidates \<Rightarrow>
                 (case work_pending C (rf_pending fx ck) ck (hm_keys slots) (capacity + length candidates) ws of
                    (ws1, Inl e) \<Rightarrow> (st, ws1, Inl (WorkFailed e), [])
                  | (ws1, Inr pending) \<Rightarrow>
                      let victims = take (length pending - capacity) candidates in
                      (case record_each C (rf_record fx) slots victims ws1 of
                         (ws2, Inl e) \<Rightarrow> (st, ws2, Inl e, [])
                       | (ws2, Inr _) \<Rightarrow>
                           let st1 = put_route ck (fold drop_message victims route) st;
                               (st2, jobs, ms) = index_all P now pending st1
                           in (st2, ws2, Inr jobs, ms))))"

fun refill_routes ::
  "primitives \<Rightarrow> work_codec \<Rightarrow> refill_faults \<Rightarrow> instant \<Rightarrow> u64 list \<Rightarrow> pool_state \<Rightarrow> work_store
    \<Rightarrow> pool_state \<times> work_store \<times> (refill_error + delivery_job list) \<times> metric list" where
  "refill_routes P C fx now [] st ws = (st, ws, Inr [], [])"
| "refill_routes P C fx now (ck # cks) st ws =
     (case refill_route P C fx now ck st ws of
        (st1, ws1, Inl e, ms1) \<Rightarrow> (st1, ws1, Inl e, ms1)
      | (st1, ws1, Inr jobs, ms1) \<Rightarrow>
          (case refill_routes P C fx now cks st1 ws1 of
             (st2, ws2, Inl e, ms2) \<Rightarrow> (st2, ws2, Inl e, ms1 @ ms2)
           | (st2, ws2, Inr jobs', ms2) \<Rightarrow> (st2, ws2, Inr (jobs @ jobs'), ms1 @ ms2)))"

definition refill ::
  "primitives \<Rightarrow> work_codec \<Rightarrow> refill_faults \<Rightarrow> instant \<Rightarrow> pool_state \<Rightarrow> work_store
    \<Rightarrow> pool_state \<times> work_store \<times> (refill_error + delivery_job list) \<times> metric list" where
  "refill P C fx now st ws = refill_routes P C fx now (hm_keys (st_by_route st)) st ws"

section \<open>Handing jobs over\<close>

datatype try_send = SendOk | SendFull | SendClosed

type_synonym delivery_txs = "(u64, delivery_job \<Rightarrow> try_send) hash_map"

definition dispatch_delivery_job :: "delivery_txs \<Rightarrow> delivery_job \<Rightarrow> (u64 \<times> b256) + unit" where
  "dispatch_delivery_job txs job =
     (case hm_get txs (dj_chain_key job) of
        None \<Rightarrow> Inl (dj_chain_key job, dj_message_id job)
      | Some tx \<Rightarrow>
          (case tx job of
             SendOk \<Rightarrow> Inr ()
           | SendFull \<Rightarrow> Inl (dj_chain_key job, dj_message_id job)
           | SendClosed \<Rightarrow> Inl (dj_chain_key job, dj_message_id job)))"

text \<open>Dispatching each job in order; the second component lists the jobs that were sent.\<close>

fun send_jobs :: "delivery_txs \<Rightarrow> instant \<Rightarrow> delivery_job list \<Rightarrow> pool_state \<Rightarrow> pool_state \<times> delivery_job list" where
  "send_jobs txs now [] st = (st, [])"
| "send_jobs txs now (j # js) st =
     (case dispatch_delivery_job txs j of
        Inr _ \<Rightarrow> (let (st', sent) = send_jobs txs now js st in (st', j # sent))
      | Inl (ck, mh) \<Rightarrow> send_jobs txs now js (requeue_delivery ck mh now st))"

section \<open>The select loop\<close>

record pool_loop =
  lp_state :: pool_state
  lp_deferred :: "indexed_message option"
  lp_work :: "work_store option"
  lp_set_updates_open :: bool
  lp_query_open :: bool

text \<open>An arm of the select, with what its channel yields; \<open>None\<close> is a closed channel.\<close>

datatype loop_event =
    Cancelled
  | SetUpdate "route_attestors option"
  | Indexed "indexed_message option"
  | Vote "message_vote option"
  | Result "delivery_result option"
  | Query "b256 option"
  | PruneTick

text \<open>What one iteration reads from its surroundings: the clocks, the channels, the disk.\<close>

record loop_env =
  le_now :: instant           \<comment> \<open>in the operation of the arm\<close>
  le_later :: instant         \<comment> \<open>after it: reobservation scan, ready deliveries, requeues\<close>
  le_unix_now :: "u64 option"
  le_txs :: delivery_txs
  le_complete :: io_faults
  le_refill :: refill_faults

datatype loop_next = Continue_Loop | Return_Ok | Return_Err refill_error

record loop_output =
  lo_sent :: "delivery_job list"
  lo_reobs :: "reobservation_request list"
  lo_reply :: "vote_bundle option option"
  lo_metrics :: "metric list"

definition no_output :: loop_output where
  "no_output = \<lparr>lo_sent = [], lo_reobs = [], lo_reply = None, lo_metrics = []\<rparr>"

definition pool_start :: "route_attestors list \<Rightarrow> vote_cache_config \<Rightarrow> work_store option \<Rightarrow> pool_loop" where
  "pool_start routes cache work =
     \<lparr>lp_state = pool_new routes cache, lp_deferred = None, lp_work = work,
      lp_set_updates_open = True, lp_query_open = True\<rparr>"

text \<open>Send an operation's jobs, requeueing those the channel refuses.\<close>

definition finish :: "loop_env \<Rightarrow> pool_loop \<Rightarrow> pool_state \<times> delivery_job list \<times> metric list \<Rightarrow> pool_loop \<times> loop_output" where
  "finish env s res =
     (case res of (st, jobs, ms) \<Rightarrow>
        let (st', sent) = send_jobs (le_txs env) (le_later env) jobs st
        in (s\<lparr>lp_state := st'\<rparr>, no_output\<lparr>lo_sent := sent, lo_metrics := ms\<rparr>))"

definition single :: "pool_state \<times> delivery_job option \<times> metric list \<Rightarrow> pool_state \<times> delivery_job list \<times> metric list" where
  "single res = (case res of (st, job, ms) \<Rightarrow> (st, case job of None \<Rightarrow> [] | Some j \<Rightarrow> [j], ms))"

text \<open>The head of the loop: a deferred message that fits now is indexed.\<close>

definition admit_deferred :: "primitives \<Rightarrow> loop_env \<Rightarrow> pool_loop \<Rightarrow> pool_loop \<times> loop_output" where
  "admit_deferred P env s =
     (case lp_deferred s of
        Some indexed \<Rightarrow>
          if can_index (lp_state s) indexed
          then finish env (s\<lparr>lp_deferred := None\<rparr>) (single (note_indexed P indexed (le_now env) (lp_state s)))
          else (s, no_output)
      | None \<Rightarrow> (s, no_output))"

definition enabled :: "pool_loop \<Rightarrow> loop_event \<Rightarrow> bool" where
  "enabled s ev =
     (case ev of
        SetUpdate _ \<Rightarrow> lp_set_updates_open s
      | Indexed _ \<Rightarrow> lp_deferred s = None
      | Query _ \<Rightarrow> lp_query_open s
      | _ \<Rightarrow> True)"

definition refill_backlog ::
  "primitives \<Rightarrow> work_codec \<Rightarrow> loop_env \<Rightarrow> pool_state \<Rightarrow> work_store option
    \<Rightarrow> pool_state \<times> work_store option \<times> (refill_error + delivery_job list) \<times> metric list" where
  "refill_backlog P C env st work =
     (case work of
        None \<Rightarrow> (st, None, Inr [], [])
      | Some ws \<Rightarrow> (let (st', ws', res, ms) = refill P C (le_refill env) (le_now env) st ws
                   in (st', Some ws', res, ms)))"

definition prune_arm ::
  "primitives \<Rightarrow> work_codec \<Rightarrow> loop_env \<Rightarrow> pool_loop \<Rightarrow> pool_loop \<times> loop_output \<times> loop_next" where
  "prune_arm P C env s =
     (let st1 = prune_expired (le_now env) (lp_state s);
          ms1 = [SetPoolMessagesPending (total_pending st1)];
          (st2, work, res, ms2) = refill_backlog P C env st1 (lp_work s)
      in case res of
           Inl e \<Rightarrow> (s\<lparr>lp_state := st2, lp_work := work\<rparr>, no_output\<lparr>lo_metrics := ms1 @ ms2\<rparr>, Return_Err e)
         | Inr jobs \<Rightarrow>
             let (st3, sent) = send_jobs (le_txs env) (le_later env) jobs st2;
                 (st4, reqs) = collect_stalled_reobservations (le_later env) st3;
                 (st5, ready, ms3) = collect_ready_deliveries P (le_later env) st4;
                 (st6, sent') = send_jobs (le_txs env) (le_later env) ready st5
             in (s\<lparr>lp_state := st6, lp_work := work\<rparr>,
                 no_output\<lparr>lo_sent := sent @ sent', lo_reobs := reqs, lo_metrics := ms1 @ ms2 @ ms3\<rparr>,
                 Continue_Loop))"

definition result_arm ::
  "loop_env \<Rightarrow> delivery_result \<Rightarrow> pool_loop \<Rightarrow> pool_loop \<times> loop_output \<times> loop_next" where
  "result_arm env result s =
     (let (work, res) =
        (case (dr_outcome result = Delivered \<or> dr_outcome result = Terminal, lp_work s) of
           (True, Some ws) \<Rightarrow>
             (let (ws', r) = work_complete (le_complete env) (dr_chain_key result) (dr_message_id result) ws
              in (Some ws', r))
         | (_, work) \<Rightarrow> (work, Inr ()))
      in case res of
           Inl e \<Rightarrow> (s\<lparr>lp_work := work\<rparr>, no_output, Return_Err (WorkFailed e))
         | Inr _ \<Rightarrow>
             let (s', out) = finish env (s\<lparr>lp_work := work\<rparr>)
                   (single (note_delivery_result result (le_now env) (le_unix_now env) (lp_state s)))
             in (s', out, Continue_Loop))"

definition select_arm ::
  "primitives \<Rightarrow> work_codec \<Rightarrow> loop_env \<Rightarrow> loop_event \<Rightarrow> pool_loop \<Rightarrow> pool_loop \<times> loop_output \<times> loop_next" where
  "select_arm P C env ev s =
     (case ev of
        Cancelled \<Rightarrow> (s, no_output, Return_Ok)
      | SetUpdate None \<Rightarrow> (s\<lparr>lp_set_updates_open := False\<rparr>, no_output, Continue_Loop)
      | SetUpdate (Some upd) \<Rightarrow>
          (let (s', out) = finish env s (apply_attestor_set P upd (le_now env) (lp_state s)) in (s', out, Continue_Loop))
      | Indexed None \<Rightarrow> (s, no_output, Return_Ok)
      | Indexed (Some indexed) \<Rightarrow>
          if \<not> can_index (lp_state s) indexed
          then (if lp_work s = None then s\<lparr>lp_deferred := Some indexed\<rparr> else s, no_output, Continue_Loop)
          else (let (s', out) = finish env s (single (note_indexed P indexed (le_now env) (lp_state s)))
                in (s', out, Continue_Loop))
      | Vote None \<Rightarrow> (s, no_output, Return_Ok)
      | Vote (Some vote) \<Rightarrow>
          (let (s', out) = finish env s (single (note_vote P vote (le_now env) (lp_state s))) in (s', out, Continue_Loop))
      | Result None \<Rightarrow> (s, no_output, Continue_Loop)
      | Result (Some result) \<Rightarrow> result_arm env result s
      | Query None \<Rightarrow> (s\<lparr>lp_query_open := False\<rparr>, no_output, Continue_Loop)
      | Query (Some mid) \<Rightarrow> (s, no_output\<lparr>lo_reply := Some (query_bundle mid (lp_state s))\<rparr>, Continue_Loop)
      | PruneTick \<Rightarrow> prune_arm P C env s)"

definition join_output :: "loop_output \<Rightarrow> loop_output \<Rightarrow> loop_output" where
  "join_output a b =
     \<lparr>lo_sent = lo_sent a @ lo_sent b, lo_reobs = lo_reobs a @ lo_reobs b,
      lo_reply = lo_reply b, lo_metrics = lo_metrics a @ lo_metrics b\<rparr>"

text \<open>The head of the loop and the arm that fires read their surroundings at different times.\<close>

definition loop_iter ::
  "primitives \<Rightarrow> work_codec \<Rightarrow> loop_env \<Rightarrow> loop_env \<Rightarrow> loop_event \<Rightarrow> pool_loop
    \<Rightarrow> pool_loop \<times> loop_output \<times> loop_next" where
  "loop_iter P C env0 env ev s =
     (let (s1, out1) = admit_deferred P env0 s;
          (s2, out2, nxt) = select_arm P C env ev s1
      in (s2, join_output out1 out2, nxt))"

end
