(* ===== verification/Pool_Loop.thy ===== *)
theory Pool_Loop
  imports Pool_Run
begin

text \<open>
  The pool task as a transition system: the invariant of its reachable states, the exact
  correspondence between in-flight slots and outstanding deliveries, and that no unfinished
  message is ever dropped from both memory and disk.
\<close>

section \<open>What later steps leave alone\<close>

definition route_shape :: "route_state \<Rightarrow> address list \<times> nat \<times> (b256 \<Rightarrow> indexed_message option)" where
  "route_shape r = (rt_attestors r, rt_threshold r, \<lambda>h. map_option ms_indexed (map_of (rt_by_message r) h))"

definition pool_shape where
  "pool_shape st = (\<lambda>ck. map_option route_shape (map_of (st_by_route st) ck))"

lemma rbacked_shape:
  assumes "route_shape r' = route_shape r"
  shows "rbacked P r' j = rbacked P r j"
proof -
  have "map_option ms_indexed (map_of (rt_by_message r') h) = map_option ms_indexed (map_of (rt_by_message r) h)" for h
    using assms by (simp add: route_shape_def fun_eq_iff)
  from this [of "dj_message_id j"] assms show ?thesis
    by (cases "map_of (rt_by_message r') (dj_message_id j)"; cases "map_of (rt_by_message r) (dj_message_id j)")
      (auto simp: rbacked_def route_shape_def)
qed

lemma backed_shape: "pool_shape st' = pool_shape st \<Longrightarrow> backed P st' j = backed P st j"
proof -
  assume "pool_shape st' = pool_shape st"
  then have "map_option route_shape (map_of (st_by_route st') (dj_chain_key j))
      = map_option route_shape (map_of (st_by_route st) (dj_chain_key j))"
    by (simp add: pool_shape_def fun_eq_iff)
  then show ?thesis
    by (cases "map_of (st_by_route st') (dj_chain_key j)"; cases "map_of (st_by_route st) (dj_chain_key j)")
      (auto simp: backed_def dest: rbacked_shape)
qed

lemma shape_put:
  "map_of (st_by_route st) ck = Some r \<Longrightarrow> route_shape r' = route_shape r \<Longrightarrow>
     pool_shape (put_route ck r' st) = pool_shape st"
  by (auto simp: pool_shape_def get_put_route fun_eq_iff)

lemma shape_modify:
  "(\<And>s. map_of (rt_by_message r) h = Some s \<Longrightarrow> ms_indexed (f s) = ms_indexed s) \<Longrightarrow>
     route_shape (r\<lparr>rt_by_message := hm_modify h f (rt_by_message r)\<rparr>) = route_shape r"
  by (auto simp: route_shape_def hm_get_modify fun_eq_iff option.map_comp intro!: option.map_cong)

lemma requeue_shape: "pool_shape (requeue_delivery ck h now st) = pool_shape st"
  by (auto simp: requeue_delivery_def requeue_slot_def split: option.splits intro!: shape_put shape_modify)

lemma stalled_shape: "pool_shape (fst (collect_stalled_reobservations now st)) = pool_shape st"
proof -
  have "ms_indexed (mark_reobserved thr now s) = ms_indexed s" for thr s
    by (simp add: mark_reobserved_def)
  then have "route_shape (r\<lparr>rt_by_message := hm_map_values (mark_reobserved (rt_threshold r) now) (rt_by_message r)\<rparr>)
      = route_shape r" for r
    by (simp add: route_shape_def hm_get_map_values option.map_comp comp_def fun_eq_iff)
  then show ?thesis
    by (simp add: pool_shape_def collect_stalled_reobservations_def hm_get_map_values option.map_comp comp_def)
qed

lemma dispatch_shape: "dispatch_if_ready P ck h r obs now probe = (r', job, ms) \<Longrightarrow> route_shape r' = route_shape r"
  by (erule dispatch_cases) (auto intro!: shape_modify simp: mark_dispatched_def)

lemma dispatch_each_shape: "dispatch_each P ck obs now probe hs r = (r', jobs, ms) \<Longrightarrow> route_shape r' = route_shape r"
  by (induction hs arbitrary: r r' jobs ms) (fastforce split: prod.splits dest: dispatch_shape)+

lemma collect_ready_routes_shape:
  "collect_ready_routes P now rs = (rs', jobs, ms) \<Longrightarrow>
     map_option route_shape (map_of rs' ck) = map_option route_shape (map_of rs ck)"
  by (induction rs arbitrary: rs' jobs ms) (fastforce split: prod.splits dest: dispatch_each_shape)+

lemma collect_ready_shape:
  "collect_ready_deliveries P now st = (st', jobs, ms) \<Longrightarrow> pool_shape st' = pool_shape st"
  by (auto simp: collect_ready_deliveries_def pool_shape_def fun_eq_iff split: prod.splits
      dest: collect_ready_routes_shape)

lemma launches_then:
  assumes "launches P st s1 js" and "launches P s1 s2 js'" and "pool_shape s2 = pool_shape s1"
  shows "launches P st s2 (js @ js')"
  using assms backed_shape [OF assms(3)] by (auto simp: launches_def)

section \<open>Handing jobs over\<close>

lemma send_jobs_frame:
  assumes "pool_ok P st" and "send_jobs txs now jobs st = (st', sent)"
  shows "pool_ok P st'" and "pool_shape st' = pool_shape st" and "set sent \<subseteq> set jobs"
    and "distinct (map job_key jobs) \<Longrightarrow> distinct (map job_key sent)
      \<and> flying st' = flying st - (job_key ` set jobs - job_key ` set sent)"
proof -
  have "pool_ok P st' \<and> pool_shape st' = pool_shape st \<and> set sent \<subseteq> set jobs
    \<and> (distinct (map job_key jobs) \<longrightarrow> distinct (map job_key sent)
      \<and> flying st' = flying st - (job_key ` set jobs - job_key ` set sent))"
    using assms
  proof (induction jobs arbitrary: st st' sent)
    case Nil
    then show ?case by simp
  next
    case (Cons j js)
    show ?case
    proof (cases "dispatch_delivery_job txs j")
      case (Inr u)
      then obtain sent' where s: "send_jobs txs now js st = (st', sent')" "sent = j # sent'"
        using Cons.prems(2) by (auto split: prod.splits)
      from Cons.IH [OF Cons.prems(1) s(1)] show ?thesis unfolding s(2) by (auto 0 3)
    next
      case (Inl k)
      then have k: "k = job_key j"
        by (auto simp: dispatch_delivery_job_def job_key_def split: option.splits try_send.splits)
      let ?st = "requeue_delivery (dj_chain_key j) (dj_message_id j) now st"
      have s: "send_jobs txs now js ?st = (st', sent)"
        using Cons.prems(2) Inl k by (simp add: job_key_def)
      have fl: "flying ?st = flying st - {job_key j}" by (simp add: requeue_delivery_flying job_key_def)
      from Cons.IH [OF requeue_delivery_ok [OF Cons.prems(1)] s] requeue_shape
      show ?thesis by (auto simp: fl)
    qed
  qed
  then show "pool_ok P st'" and "pool_shape st' = pool_shape st" and "set sent \<subseteq> set jobs"
    and "distinct (map job_key jobs) \<Longrightarrow> distinct (map job_key sent)
      \<and> flying st' = flying st - (job_key ` set jobs - job_key ` set sent)"
    by simp_all
qed

lemma send_launches:
  assumes "pool_ok P st" and "launches P st0 st jobs" and "send_jobs txs now jobs st = (st', sent)"
  shows "launches P st0 st' sent"
proof -
  note fr = send_jobs_frame [OF assms(1,3)]
  have d: "distinct (map job_key jobs)" using assms(2) by (simp add: launches_def)
  have "backed P st' j" if "j \<in> set sent" for j
    using that fr(3) assms(2) backed_shape [OF fr(2)] by (auto simp: launches_def)
  have sub: "job_key ` set sent \<subseteq> job_key ` set jobs" using fr(3) by (rule image_mono)
  have sets: "A \<union> J - (J - S) = A \<union> S" "A \<inter> S = {}" if "S \<subseteq> J" "A \<inter> J = {}" for A J S :: "(u64 \<times> b256) set"
    using that by blast+
  have "flying st0 \<inter> job_key ` set jobs = {}" "flying st = flying st0 \<union> job_key ` set jobs"
    using assms(2) by (simp_all add: launches_def)
  from sets [OF sub this(1)] fr(4) [OF d] this(2) \<open>\<And>j. j \<in> set sent \<Longrightarrow> backed P st' j\<close> show ?thesis
    by (simp add: launches_def)
qed

lemma finish_ok:
  assumes "pool_ok P st" and "launches P st0 st jobs" and "finish env s (st, jobs, ms) = (t, out)"
  shows "pool_ok P (lp_state t)" and "launches P st0 (lp_state t) (lo_sent out)"
    and "lp_work t = lp_work s" and "lp_deferred t = lp_deferred s" and "pool_shape (lp_state t) = pool_shape st"
  using assms send_jobs_frame [OF assms(1)] send_launches [OF assms(1,2)]
  by (auto simp: finish_def no_output_def split: prod.splits)

section \<open>Refill\<close>

lemma keeps_pool_trans:
  assumes "keeps_pool s0 s1" and "keeps_pool s1 s2" and "flying s0 \<subseteq> flying s1"
  shows "keeps_pool s0 s2"
  unfolding keeps_pool_def
proof (intro allI impI)
  fix ck r
  assume r: "map_of (st_by_route s0) ck = Some r"
  obtain r1 where r1: "map_of (st_by_route s1) ck = Some r1" "keeps_routes r r1"
    using assms(1) r by (auto simp: keeps_pool_def)
  obtain r2 where r2: "map_of (st_by_route s2) ck = Some r2" "keeps_routes r1 r2"
    using assms(2) r1(1) by (auto simp: keeps_pool_def)
  have "rflying r \<subseteq> rflying r1"
  proof
    fix h
    assume "h \<in> rflying r"
    with r assms(3) have "(ck, h) \<in> flying s1" by (auto simp: flying_def)
    with r1(1) show "h \<in> rflying r1" by (simp add: flying_def)
  qed
  with keeps_routes_trans [OF r1(2) r2(2)] r2(1)
  show "\<exists>r'. map_of (st_by_route s2) ck = Some r' \<and> keeps_routes r r'" by blast
qed

lemma index_all_launches:
  "pool_ok P st \<Longrightarrow> index_all P now msgs st = (st', jobs, ms) \<Longrightarrow>
     pool_ok P st' \<and> launches P st st' jobs \<and> keeps_pool st st'"
proof (induction msgs arbitrary: st st' jobs ms)
  case Nil
  then show ?case by simp
next
  case (Cons m msgs)
  from Cons.prems(2) obtain st1 job ms1 jobs2 ms2 where
    n: "note_indexed P m now st = (st1, job, ms1)" and i: "index_all P now msgs st1 = (st', jobs2, ms2)"
    and jobs: "jobs = (case job of None \<Rightarrow> [] | Some j \<Rightarrow> [j]) @ jobs2"
    by (auto split: prod.splits)
  note one = note_indexed_launches [OF Cons.prems(1) n]
  note rest = Cons.IH [OF note_indexed_ok [OF Cons.prems(1) n] i]
  have "flying st \<subseteq> flying st1" using one by (auto simp: launches_def)
  with one rest launches_trans keeps_pool_trans show ?case unfolding jobs by blast
qed

lemma rotation_candidates_sub:
  "rotation_candidates now slots n order = Some hs \<Longrightarrow>
     set hs \<subseteq> {h \<in> set order. \<exists>s. map_of slots h = Some s \<and> rotates now s} \<and> length hs \<le> n"
  by (induction now slots n order arbitrary: hs rule: rotation_candidates.induct)
    (fastforce split: option.splits if_splits)+

lemma rotation_candidates_total:
  "set order \<subseteq> fst ` set slots \<Longrightarrow> rotation_candidates now slots n order \<noteq> None"
proof (induction now slots n order rule: rotation_candidates.induct)
  case (3 now slots n h hs)
  then have "map_of slots h \<noteq> None" by (simp add: map_of_eq_None_iff)
  with 3 show ?case by (auto split: option.splits)
qed simp_all

lemma drop_fold_get:
  "map_of (rt_by_message (fold drop_message vs r)) h = (if h \<in> set vs then None else map_of (rt_by_message r) h)"
  by (induction vs arbitrary: r) (auto simp: drop_message_def delete_conv')

lemma drop_fold_frame:
  "rt_attestors (fold drop_message vs r) = rt_attestors r \<and> rt_threshold (fold drop_message vs r) = rt_threshold r
   \<and> rt_cache_max (fold drop_message vs r) = rt_cache_max r"
  by (induction vs arbitrary: r) (auto simp: drop_message_def)

lemma drop_fold_ok: "route_ok P ck r \<Longrightarrow> route_ok P ck (fold drop_message vs r)"
  by (induction vs arbitrary: r) (auto intro: drop_message_ok)

lemma drop_fold_keeps:
  assumes "set vs \<inter> rflying r = {}"
  shows "rflying (fold drop_message vs r) = rflying r" and "keeps_routes r (fold drop_message vs r)"
  using assms by (auto simp: rflying_def drop_fold_get keeps_routes_def drop_fold_frame split: if_splits)

text \<open>One route's refill: either nothing but the store's cursor and records changed, or the victims left.\<close>

lemma refill_route_cases:
  assumes "refill_route P C fx now ck st ws = (st', ws', res, ms)" and "pool_ok P st"
  obtains "st' = st" "map_of (st_by_route st) ck = None" "ws' = ws" "res = Inl IndexPanic"
  | r ws1 e where "map_of (st_by_route st) ck = Some r" "st' = st" "ws' = ws1"
      "res = Inl (WorkFailed e)" "\<exists>n. work_pending C (rf_pending fx ck) ck (hm_keys (rt_by_message r)) n ws = (ws1, Inl e)"
  | r ws1 pend hs where "map_of (st_by_route st) ck = Some r" "st' = st"
      "\<exists>n. work_pending C (rf_pending fx ck) ck (hm_keys (rt_by_message r)) n ws = (ws1, Inr pend)"
      "set hs \<subseteq> {h. \<exists>s. map_of (rt_by_message r) h = Some s \<and> rotates now s}"
      "\<exists>e. record_each C (rf_record fx) (rt_by_message r) hs ws1 = (ws', Inl e) \<and> res = Inl e"
  | r ws1 pend hs jobs ms' where "map_of (st_by_route st) ck = Some r"
      "\<exists>n. work_pending C (rf_pending fx ck) ck (hm_keys (rt_by_message r)) n ws = (ws1, Inr pend)"
      "set hs \<subseteq> {h. \<exists>s. map_of (rt_by_message r) h = Some s \<and> rotates now s}"
      "record_each C (rf_record fx) (rt_by_message r) hs ws1 = (ws', Inr ())"
      "index_all P now pend (put_route ck (fold drop_message hs r) st) = (st', jobs, ms')" "res = Inr jobs"
proof (cases "map_of (st_by_route st) ck")
  case None
  with assms(1) that(1) show ?thesis by (simp add: refill_route_def)
next
  case (Some r)
  have "set (rt_order r) \<subseteq> fst ` set (rt_by_message r)"
    using pool_ok_routeD [OF assms(2) Some] by (simp add: route_ok_def)
  then obtain cs where cs: "rotation_candidates now (rt_by_message r) (max (rt_cache_max r div 4) 1) (rt_order r) = Some cs"
    using rotation_candidates_total by fastforce
  define n where "n = rt_cache_max r - length (rt_by_message r) + length cs"
  obtain ws1 pr where p: "work_pending C (rf_pending fx ck) ck (hm_keys (rt_by_message r)) n ws = (ws1, pr)"
    by fastforce
  show ?thesis
  proof (cases pr)
    case (Inl e)
    with assms(1) Some cs p that(2) show ?thesis by (auto simp: refill_route_def Let_def n_def)
  next
    case (Inr pend)
    define hs where "hs = take (length pend - (rt_cache_max r - length (rt_by_message r))) cs"
    have sub: "set hs \<subseteq> {h. \<exists>s. map_of (rt_by_message r) h = Some s \<and> rotates now s}"
      using rotation_candidates_sub [OF cs] by (auto simp: hs_def dest: in_set_takeD)
    obtain ws2 rr where rec: "record_each C (rf_record fx) (rt_by_message r) hs ws1 = (ws2, rr)" by fastforce
    show ?thesis
    proof (cases rr)
      case (Inl e)
      with assms(1) Some cs p Inr rec sub that(3) [of r ws1 pend hs] show ?thesis
        by (auto simp: refill_route_def Let_def n_def hs_def)
    next
      case rr: (Inr u)
      obtain st2 jobs ms2 where "index_all P now pend (put_route ck (fold drop_message hs r) st) = (st2, jobs, ms2)"
        by (cases "index_all P now pend (put_route ck (fold drop_message hs r) st)") auto
      with assms(1) Some cs p Inr rec rr sub that(4) [of r ws1 pend hs jobs ms2] show ?thesis
        by (auto simp: refill_route_def Let_def n_def hs_def)
    qed
  qed
qed

lemma record_each_backlog:
  assumes "set hs \<subseteq> {h. \<exists>s. map_of slots h = Some s \<and> Q s}"
  shows "record_each C io slots hs ws =
    (case work.rec_all C io (map (\<lambda>h. ms_indexed (the (map_of slots h))) hs) ws of
       (ws', Inl e) \<Rightarrow> (ws', Inl (WorkFailed e)) | (ws', Inr _) \<Rightarrow> (ws', Inr ()))"
  using assms
proof (induction hs arbitrary: ws)
  case Nil
  then show ?case by simp
next
  case (Cons h hs)
  then obtain s where s: "map_of slots h = Some s" by auto
  from Cons.IH Cons.prems show ?case by (simp add: s split: prod.splits sum.splits)
qed

lemma refill_route_ok:
  assumes "pool_ok P st" and "refill_route P C fx now ck st ws = (st', ws', res, ms)"
  shows "pool_ok P st'" and "res = Inr jobs \<Longrightarrow> launches P st st' jobs \<and> keeps_pool st st'"
    and "res = Inl e \<Longrightarrow> st' = st"
proof -
  have "pool_ok P st' \<and> (\<forall>jobs. res = Inr jobs \<longrightarrow> launches P st st' jobs \<and> keeps_pool st st')
    \<and> (\<forall>e. res = Inl e \<longrightarrow> st' = st)"
    using assms(2,1)
  proof (cases rule: refill_route_cases)
    case (4 r ws1 pend hs jobs ms')
    let ?r = "fold drop_message hs r"
    have ok: "pool_ok P (put_route ck ?r st)"
      using pool_ok_put [OF assms(1) drop_fold_ok [OF pool_ok_routeD [OF assms(1) 4(1)]]] .
    have "set hs \<inter> rflying r = {}" using 4(3) by (auto simp: rflying_def rotates_def)
    note dr = drop_fold_keeps [OF this]
    have fl: "flying (put_route ck ?r st) = flying st" by (rule flying_put_same [OF 4(1) dr(1)])
    note ix = index_all_launches [OF ok 4(5)]
    have "keeps_pool st st'"
      using keeps_pool_trans [OF keeps_pool_put [OF 4(1) dr(2)], of st'] ix fl by simp
    with ix fl 4(6) show ?thesis by (simp add: launches_def)
  qed (use assms(1) in auto)
  then show "pool_ok P st'" and "res = Inr jobs \<Longrightarrow> launches P st st' jobs \<and> keeps_pool st st'"
    and "res = Inl e \<Longrightarrow> st' = st"
    by simp_all
qed

lemma refill_routes_ok:
  "pool_ok P st \<Longrightarrow> refill_routes P C fx now cks st ws = (st', ws', res, ms) \<Longrightarrow>
     pool_ok P st' \<and> (\<forall>jobs. res = Inr jobs \<longrightarrow> launches P st st' jobs \<and> keeps_pool st st')"
proof (induction cks arbitrary: st ws st' ws' res ms)
  case Nil
  then show ?case by auto
next
  case (Cons ck cks)
  obtain st1 ws1 res1 ms1 where one: "refill_route P C fx now ck st ws = (st1, ws1, res1, ms1)"
    by (cases "refill_route P C fx now ck st ws") auto
  note ok = refill_route_ok [OF Cons.prems(1) one]
  show ?case
  proof (cases res1)
    case (Inl e)
    with Cons.prems(2) one ok show ?thesis by auto
  next
    case (Inr js)
    obtain st2 ws2 res2 ms2 where two: "refill_routes P C fx now cks st1 ws1 = (st2, ws2, res2, ms2)"
      by (cases "refill_routes P C fx now cks st1 ws1") auto
    note rest = Cons.IH [OF ok(1) two]
    have l1: "launches P st st1 js" "keeps_pool st st1" "flying st \<subseteq> flying st1"
      using ok(2) [OF Inr] by (auto simp: launches_def)
    have "launches P st st2 (js @ js') \<and> keeps_pool st st2" if "res2 = Inr js'" for js'
      using rest that launches_trans [OF l1(1)] keeps_pool_trans [OF l1(2) _ l1(3)] by blast
    with Cons.prems(2) one two Inr rest show ?thesis by (auto split: sum.splits)
  qed
qed

lemma refill_route_store:
  assumes "pool_ok P st" and "refill_route P C fx now ck st ws = (st', ws', res, ms)" and "store_ok ws"
  shows "store_ok ws' \<and> contents ck' ws \<subseteq> contents ck' ws'"
  using assms(2,1)
proof (cases rule: refill_route_cases)
  case 1
  with assms(3) show ?thesis by simp
next
  case (2 r ws1 e)
  with work.pend_frame [OF assms(3)] show ?thesis by fastforce
next
  case (3 r ws1 pend hs)
  then have ok: "store_ok ws1" "contents ck' ws1 = contents ck' ws"
    using work.pend_frame [OF assms(3)] by fastforce+
  from 3(5) work.rec_all_keeps [OF ok(1), where ck = ck'] ok(2) show ?thesis
    by (auto simp: record_each_backlog [OF 3(4)] split: prod.splits sum.splits)
next
  case (4 r ws1 pend hs jobs ms')
  then have ok: "store_ok ws1" "contents ck' ws1 = contents ck' ws"
    using work.pend_frame [OF assms(3)] by fastforce+
  from 4(4) work.rec_all_keeps [OF ok(1), where ck = ck'] ok(2) show ?thesis
    by (auto simp: record_each_backlog [OF 4(3)] split: prod.splits sum.splits)
qed

section \<open>One iteration\<close>

lemma single_launches:
  assumes "pool_ok P st'" and "launches P st st' (case job of None \<Rightarrow> [] | Some j \<Rightarrow> [j])"
    and "finish env s (single (st', job, ms)) = (t, out)"
  shows "pool_ok P (lp_state t) \<and> launches P st (lp_state t) (lo_sent out)"
  using finish_ok [OF assms(1,2)] assms(3) by (simp add: single_def)

lemma admit_deferred_ok:
  assumes "pool_ok P (lp_state s)" and "admit_deferred P env s = (t, out)"
  shows "pool_ok P (lp_state t) \<and> launches P (lp_state s) (lp_state t) (lo_sent out)"
proof (cases "\<exists>im. lp_deferred s = Some im \<and> can_index (lp_state s) im")
  case True
  then obtain im where im: "lp_deferred s = Some im" "can_index (lp_state s) im" by blast
  obtain st job ms where n: "note_indexed P im (le_now env) (lp_state s) = (st, job, ms)"
    by (cases "note_indexed P im (le_now env) (lp_state s)") auto
  with im assms(2) have "finish env (s\<lparr>lp_deferred := None\<rparr>) (single (st, job, ms)) = (t, out)"
    by (simp add: admit_deferred_def)
  with single_launches note_indexed_ok [OF assms(1) n] note_indexed_launches [OF assms(1) n] show ?thesis by blast
next
  case False
  with assms show ?thesis by (auto simp: admit_deferred_def no_output_def split: option.splits)
qed

lemma prune_arm_ok:
  assumes "pool_ok P (lp_state s)" and "prune_arm P C env s = (t, out, Continue_Loop)"
  shows "pool_ok P (lp_state t) \<and> launches P (lp_state s) (lp_state t) (lo_sent out)"
proof -
  define st1 where "st1 = prune_expired (le_now env) (lp_state s)"
  have ok1: "pool_ok P st1" and fl1: "flying st1 = flying (lp_state s)"
    using prune_expired_ok [OF assms(1)] prune_expired_flying [OF assms(1)] by (simp_all add: st1_def)
  obtain st2 work res ms2 where refill: "refill_backlog P C env st1 (lp_work s) = (st2, work, res, ms2)"
    by (cases "refill_backlog P C env st1 (lp_work s)") auto
  have ok2: "pool_ok P st2" "res = Inr jobs \<Longrightarrow> launches P st1 st2 jobs" for jobs
    using refill ok1 refill_routes_ok [OF ok1]
    by (fastforce simp: refill_backlog_def refill_def split: option.splits prod.splits)+
  have res: "\<exists>jobs. res = Inr jobs"
    using assms(2) refill by (cases res) (simp_all add: prune_arm_def Let_def st1_def)
  then obtain jobs where jobs: "res = Inr jobs" by blast
  obtain st3 sent where send: "send_jobs (le_txs env) (le_later env) jobs st2 = (st3, sent)" by fastforce
  obtain st4 reqs where stall: "collect_stalled_reobservations (le_later env) st3 = (st4, reqs)" by fastforce
  obtain st5 ready ms3 where ready: "collect_ready_deliveries P (le_later env) st4 = (st5, ready, ms3)"
    by (cases "collect_ready_deliveries P (le_later env) st4") auto
  obtain st6 sent' where send': "send_jobs (le_txs env) (le_later env) ready st5 = (st6, sent')" by fastforce
  have out: "lp_state t = st6" "lo_sent out = sent @ sent'"
    using assms(2) refill jobs send stall ready send' by (auto simp: prune_arm_def Let_def st1_def)
  have l3: "launches P (lp_state s) st3 sent" "pool_ok P st3"
    using send_launches [OF ok2(1) ok2(2) [OF jobs] send] send_jobs_frame [OF ok2(1) send] fl1
    by (simp_all add: launches_def)
  have ok4: "pool_ok P st4" "flying st4 = flying st3" "pool_shape st4 = pool_shape st3"
    using stall collect_stalled_ok [OF l3(2), of "le_later env"] collect_stalled_flying [of "le_later env" st3]
      stalled_shape [of "le_later env" st3] by simp_all
  have ok5: "pool_ok P st5" "launches P st4 st5 ready" "pool_shape st5 = pool_shape st4"
    using collect_ready_deliveries_ok [OF ok4(1) ready] collect_ready_deliveries_launches [OF ok4(1) ready]
      collect_ready_shape [OF ready] by simp_all
  have l6: "launches P st3 st6 sent'" "pool_shape st6 = pool_shape st3" "pool_ok P st6"
    using send_launches [OF ok5(1,2) send'] send_jobs_frame [OF ok5(1) send'] ok4 ok5(3)
    by (simp_all add: launches_def)
  from launches_then [OF l3(1) l6(1,2)] l6(3) out show ?thesis by simp
qed

lemma result_arm_ok:
  assumes "pool_ok P (lp_state s)" and "result_arm env res s = (t, out, Continue_Loop)"
  shows "pool_ok P (lp_state t)" "lo_sent out = []"
    "flying (lp_state t) = flying (lp_state s) - {(dr_chain_key res, dr_message_id res)}"
proof -
  obtain st job ms where n: "note_delivery_result res (le_now env) (le_unix_now env) (lp_state s) = (st, job, ms)"
    by (cases "note_delivery_result res (le_now env) (le_unix_now env) (lp_state s)") auto
  note fl = note_delivery_result_flying [OF n]
  have "lp_state t = st \<and> lo_sent out = []"
    using assms(2) n fl(2)
    by (auto simp: result_arm_def Let_def single_def finish_def no_output_def
        split: prod.splits sum.splits option.splits if_splits)
  with fl(1) note_delivery_result_ok [OF assms(1) n]
  show "pool_ok P (lp_state t)" "lo_sent out = []"
    "flying (lp_state t) = flying (lp_state s) - {(dr_chain_key res, dr_message_id res)}"
    by simp_all
qed

definition result_key :: "loop_event \<Rightarrow> (u64 \<times> b256) set" where
  "result_key ev = (case ev of Result (Some r) \<Rightarrow> {(dr_chain_key r, dr_message_id r)} | _ \<Rightarrow> {})"

lemma select_arm_ok:
  assumes "pool_ok P (lp_state s)" and "select_arm P C env ev s = (t, out, Continue_Loop)"
  shows "pool_ok P (lp_state t)"
    and "flying (lp_state t) = (flying (lp_state s) \<union> job_key ` set (lo_sent out)) - result_key ev"
    and "flying (lp_state s) \<inter> job_key ` set (lo_sent out) = {} \<and> distinct (map job_key (lo_sent out))
      \<and> (\<forall>j \<in> set (lo_sent out). backed P (lp_state t) j)"
proof -
  have "pool_ok P (lp_state t) \<and> launches P (lp_state s) (lp_state t) (lo_sent out) \<and> result_key ev = {}
    \<or> pool_ok P (lp_state t) \<and> lo_sent out = [] \<and> flying (lp_state t) = flying (lp_state s) - result_key ev"
  proof (cases ev)
    case (SetUpdate u)
    show ?thesis
    proof (cases u)
      case (Some upd)
      obtain st jobs ms where a: "apply_attestor_set P upd (le_now env) (lp_state s) = (st, jobs, ms)"
        by (cases "apply_attestor_set P upd (le_now env) (lp_state s)") auto
      from finish_ok [OF apply_attestor_set_ok [OF assms(1) a] apply_attestor_set_launches [OF assms(1) a]]
        assms(2) SetUpdate Some a show ?thesis
        by (auto simp: select_arm_def result_key_def split: prod.splits)
    qed (use assms SetUpdate in \<open>auto simp: select_arm_def no_output_def result_key_def\<close>)
  next
    case (Indexed i)
    show ?thesis
    proof (cases "\<exists>im. i = Some im \<and> can_index (lp_state s) im")
      case True
      then obtain im where im: "i = Some im" "can_index (lp_state s) im" by blast
      obtain st job ms where n: "note_indexed P im (le_now env) (lp_state s) = (st, job, ms)"
        by (cases "note_indexed P im (le_now env) (lp_state s)") auto
      from single_launches [OF note_indexed_ok [OF assms(1) n], of "lp_state s"] note_indexed_launches [OF assms(1) n]
        assms(2) Indexed im n show ?thesis
        by (auto simp: select_arm_def result_key_def split: prod.splits)
    qed (use assms Indexed in \<open>auto simp: select_arm_def no_output_def result_key_def split: option.splits if_splits\<close>)
  next
    case (Vote v)
    show ?thesis
    proof (cases v)
      case (Some vote)
      obtain st job ms where n: "note_vote P vote (le_now env) (lp_state s) = (st, job, ms)"
        by (cases "note_vote P vote (le_now env) (lp_state s)") auto
      from single_launches [OF note_vote_ok [OF assms(1) n], of "lp_state s"] note_vote_launches [OF assms(1) n]
        assms(2) Vote Some n show ?thesis
        by (auto simp: select_arm_def result_key_def split: prod.splits)
    qed (use assms Vote in \<open>auto simp: select_arm_def\<close>)
  next
    case (Result r)
    show ?thesis
    proof (cases r)
      case (Some res)
      with result_arm_ok [OF assms(1), of env res t out] assms(2) Result show ?thesis
        by (simp add: select_arm_def result_key_def)
    qed (use assms Result in \<open>auto simp: select_arm_def no_output_def result_key_def\<close>)
  next
    case PruneTick
    with prune_arm_ok [OF assms(1)] assms(2) show ?thesis by (simp add: select_arm_def result_key_def)
  qed (use assms in \<open>auto simp: select_arm_def no_output_def result_key_def split: option.splits\<close>)
  then show "pool_ok P (lp_state t)"
    and "flying (lp_state t) = (flying (lp_state s) \<union> job_key ` set (lo_sent out)) - result_key ev"
    and "flying (lp_state s) \<inter> job_key ` set (lo_sent out) = {} \<and> distinct (map job_key (lo_sent out))
      \<and> (\<forall>j \<in> set (lo_sent out). backed P (lp_state t) j)"
    by (elim disjE conjE; simp add: launches_def)+
qed

section \<open>The transition system\<close>

text \<open>
  A state of the system is the loop's state and the set of deliveries the workers still owe a
  result for. The environment picks any enabled arm; a result is for an outstanding delivery.
\<close>

type_synonym pool_world = "pool_loop \<times> (u64 \<times> b256) set"

inductive pool_trans ::
  "primitives \<Rightarrow> work_codec \<Rightarrow> pool_world \<Rightarrow> loop_env \<times> loop_env \<times> loop_event \<Rightarrow> pool_world \<Rightarrow> bool"
  for P :: primitives and C :: work_codec where
  pool_iteration:
    "admit_deferred P env0 s = (s1, out1) \<Longrightarrow> enabled s1 ev \<Longrightarrow>
     result_key ev \<subseteq> out \<union> job_key ` set (lo_sent out1) \<Longrightarrow>
     loop_iter P C env0 env ev s = (t, lo, Continue_Loop) \<Longrightarrow>
     pool_trans P C (s, out) (env0, env, ev) (t, (out \<union> job_key ` set (lo_sent lo)) - result_key ev)"

inductive_cases pool_trans_E: "pool_trans P C s e t"

definition pool_starts :: "pool_world \<Rightarrow> bool" where
  "pool_starts w \<longleftrightarrow> (\<exists>routes cache work. w = (pool_start routes cache work, {}))"

definition pool_inv :: "primitives \<Rightarrow> pool_world \<Rightarrow> bool" where
  "pool_inv P w \<longleftrightarrow> pool_ok P (lp_state (fst w)) \<and> flying (lp_state (fst w)) = snd w"

lemma flying_start: "flying (pool_new routes cache) = {}"
proof -
  have "map_of (st_by_route (pool_new routes cache)) ck = Some r \<Longrightarrow> rt_by_message r = []" for ck r
  proof -
    have "\<forall>r \<in> ran (map_of (fold (\<lambda>x. hm_insert (ra_chain_key x) (f x)) xs m)). rt_by_message r = []"
      if "\<forall>r \<in> ran (map_of m). rt_by_message r = []" "\<forall>x. rt_by_message (f x) = []"
      for f :: "route_attestors \<Rightarrow> route_state" and xs m
      using that
    proof (induction xs arbitrary: m)
      case (Cons x xs)
      have "\<forall>r \<in> ran (map_of (AList.update (ra_chain_key x) (f x) m)). rt_by_message r = []"
        using Cons.prems by (auto simp: update_conv' ran_def split: if_splits)
      with Cons show ?case by simp
    qed simp
    from this [of "[]" "\<lambda>r. \<lparr>rt_attestors = ra_attestors r, rt_threshold = ra_threshold r, rt_by_message = [],
         rt_order = [], rt_cache_max = vc_max_messages cache, rt_early_votes = []\<rparr>" routes]
    show "map_of (st_by_route (pool_new routes cache)) ck = Some r \<Longrightarrow> rt_by_message r = []"
      by (auto simp: pool_new_def ran_def)
  qed
  then show ?thesis by (fastforce simp: flying_def rflying_def)
qed

lemma loop_iter_split:
  assumes "loop_iter P C env0 env ev s = (t, lo, nxt)" and "admit_deferred P env0 s = (s1, out1)"
  shows "\<exists>out2. select_arm P C env ev s1 = (t, out2, nxt) \<and> lo_sent lo = lo_sent out1 @ lo_sent out2
    \<and> lo_reobs lo = lo_reobs out1 @ lo_reobs out2"
  using assms by (auto simp: loop_iter_def join_output_def split: prod.splits)

interpretation pool_loop: invariant_system pool_starts "pool_trans P C" "pool_inv P" for P C
proof unfold_locales
  fix w
  assume "pool_starts w"
  then show "pool_inv P w" by (auto simp: pool_starts_def pool_inv_def pool_start_def pool_new_ok flying_start)
next
  fix w e w'
  assume inv: "pool_inv P w" and "pool_trans P C w e w'"
  from this(2) show "pool_inv P w'"
  proof cases
    case (pool_iteration env0 s s1 out1 ev out env t lo)
    from inv pool_iteration(1) have ok: "pool_ok P (lp_state s)" "flying (lp_state s) = out"
      by (simp_all add: pool_inv_def)
    from loop_iter_split [OF pool_iteration(7,4)] obtain out2 where
      arm: "select_arm P C env ev s1 = (t, out2, Continue_Loop)" and sent: "lo_sent lo = lo_sent out1 @ lo_sent out2"
      by blast
    note head = admit_deferred_ok [OF ok(1) pool_iteration(4)]
    note a = select_arm_ok [OF conjunct1 [OF head] arm]
    have "flying (lp_state s1) = out \<union> job_key ` set (lo_sent out1)" using head ok(2) by (simp add: launches_def)
    with a show ?thesis by (simp add: pool_inv_def pool_iteration(3) sent image_Un Un_assoc)
  qed
qed

end
