(* ===== verification/Pool_Backlog.thy ===== *)
theory Pool_Backlog
  imports Pool_Loop
begin

text \<open>
  No unfinished message is lost. A message the pool holds unresolved, or the work store holds on
  disk, is still in one of the two after every iteration of the loop, failed ones included; only
  a \<^verbatim>\<open>Delivered\<close> or \<^verbatim>\<open>Terminal\<close> result ends it. Without persistence the loop defers a message
  that does not fit instead of dropping it.
\<close>

section \<open>Unresolved slots\<close>

definition runresolved :: "route_state \<Rightarrow> b256 set" where
  "runresolved r = {h. \<exists>s. map_of (rt_by_message r) h = Some s \<and> \<not> resolved s}"

definition unresolved :: "pool_state \<Rightarrow> (u64 \<times> b256) set" where
  "unresolved st = {(ck, h). \<exists>r. map_of (st_by_route st) ck = Some r \<and> h \<in> runresolved r}"

lemma runresolved_modify:
  "(\<And>s. map_of (rt_by_message r) h = Some s \<Longrightarrow> resolved (f s) = resolved s) \<Longrightarrow>
     runresolved (r\<lparr>rt_by_message := hm_modify h f (rt_by_message r)\<rparr>) = runresolved r"
  by (auto simp: runresolved_def hm_get_modify)

lemma runresolved_map_values:
  "rt_by_message r' = hm_map_values f (rt_by_message r) \<Longrightarrow> (\<And>s. resolved (f s) = resolved s) \<Longrightarrow>
     runresolved r' = runresolved r"
  by (auto simp: runresolved_def hm_get_map_values)

lemma unresolved_put:
  "map_of (st_by_route st) ck = Some r \<Longrightarrow> runresolved r \<subseteq> runresolved r' \<Longrightarrow>
     unresolved st \<subseteq> unresolved (put_route ck r' st)"
  by (auto simp: unresolved_def get_put_route split: if_splits) blast

lemma dispatch_unresolved:
  "dispatch_if_ready P ck h r obs now probe = (r', job, ms) \<Longrightarrow> runresolved r' = runresolved r"
  by (erule dispatch_cases) (auto intro!: runresolved_modify simp: mark_dispatched_def resolved_def)

lemma dispatch_each_unresolved:
  "dispatch_each P ck obs now probe hs r = (r', jobs, ms) \<Longrightarrow> runresolved r' = runresolved r"
  by (induction hs arbitrary: r r' jobs ms) (fastforce split: prod.splits dest: dispatch_unresolved)+

lemma make_room_unresolved: "route_ok P ck r \<Longrightarrow> runresolved r \<subseteq> runresolved (fst (make_room r))"
  unfolding runresolved_def route_ok_def using make_room_keeps [of r] by blast

lemma indexed_route_unresolved:
  assumes "im_message_id indexed \<notin> set (hm_keys (rt_by_message r))"
  shows "runresolved (indexed_route ck indexed now r) = Set.insert (im_message_id indexed) (runresolved r)"
proof -
  have "map_of (rt_by_message r) (im_message_id indexed) = None"
    using assms by (simp add: map_of_eq_None_iff)
  then show ?thesis
    by (auto simp: runresolved_def indexed_route_def indexed_slot_def new_slot_def resolved_def map_add_def
        split: option.splits if_splits)
qed

lemma note_indexed_unresolved:
  assumes "pool_ok P st" and "note_indexed P indexed now st = (st', job, ms)"
  shows "unresolved st \<subseteq> unresolved st'"
  using assms(2)
proof (cases rule: note_indexed_cases)
  case 1
  then show ?thesis by simp
next
  case (2 r)
  with unresolved_put [OF 2(1) make_room_unresolved [OF pool_ok_routeD [OF assms(1) 2(1)]]]
  show ?thesis by simp
next
  case (3 r r')
  have "im_message_id indexed \<notin> set (hm_keys (rt_by_message (fst (make_room r))))"
    using 3(2) make_room_subset [of r] by auto
  then have "runresolved r \<subseteq> runresolved (indexed_route (im_chain_key indexed) indexed now (fst (make_room r)))"
    using make_room_unresolved [OF pool_ok_routeD [OF assms(1) 3(1)]] by (auto simp: indexed_route_unresolved)
  with 3(5) have "runresolved r \<subseteq> runresolved r'" using dispatch_unresolved by fastforce
  with unresolved_put [OF 3(1)] 3(4) show ?thesis by simp
qed

lemma note_vote_unresolved:
  assumes "note_vote P vote now st = (st', job, ms)"
  shows "unresolved st \<subseteq> unresolved st'"
  using assms
proof (cases rule: note_vote_cases)
  case 1
  then show ?thesis by simp
next
  case (2 r)
  have "rt_by_message (fst (buffer_early_vote P ck h vote now r)) = rt_by_message r" for ck h
    by (auto simp: buffer_early_vote_def Let_def evict_early_frame split: sum.splits)
  with 2 unresolved_put [OF 2(1)] show ?thesis by (simp add: runresolved_def)
next
  case (3 r slot r')
  have "runresolved (accept_route vote slot r) = runresolved r"
    unfolding accept_route_def using 3(2) by (intro runresolved_modify) (simp add: accept_vote_def resolved_def)
  with 3(8) have "runresolved r' = runresolved r" using dispatch_unresolved by fastforce
  with unresolved_put [OF 3(1)] 3(7) show ?thesis by simp
qed

lemma apply_attestor_set_unresolved:
  assumes "apply_attestor_set P upd now st = (st', jobs, ms)"
  shows "unresolved st \<subseteq> unresolved st'"
  using assms
proof (cases rule: apply_attestor_set_cases)
  case 1
  then show ?thesis by simp
next
  case (2 r)
  with unresolved_put [OF 2(1)] show ?thesis by simp
next
  case (3 r hs r' ms')
  have "runresolved (reload_route upd r) = runresolved r"
    by (rule runresolved_map_values [where f = "prune_signers (ra_attestors upd)"])
      (simp_all add: reload_route_def prune_signers_def resolved_def)
  with dispatch_each_unresolved [OF 3(3)] unresolved_put [OF 3(1)] 3(2) show ?thesis by simp
qed

lemma unresolved_map_values:
  "(\<And>ck r. map_of (st_by_route st) ck = Some r \<Longrightarrow> runresolved r \<subseteq> runresolved (f r)) \<Longrightarrow>
     unresolved st \<subseteq> unresolved (st\<lparr>st_by_route := hm_map_values f (st_by_route st)\<rparr>)"
  by (auto simp: unresolved_def hm_get_map_values)

lemma prune_expired_unresolved: "pool_ok P st \<Longrightarrow> unresolved st \<subseteq> unresolved (prune_expired now st)"
  unfolding prune_expired_def
proof (rule unresolved_map_values)
  fix ck r ttl
  assume "pool_ok P st" "map_of (st_by_route st) ck = Some r"
  then have "hm_ok (rt_by_message r)" using pool_ok_routeD by (fastforce simp: route_ok_def)
  then show "runresolved r \<subseteq> runresolved (route_prune_expired now ttl r)"
    by (auto simp: runresolved_def route_prune_expired_def Let_def hm_get_retain resolved_def)
qed

lemma collect_stalled_unresolved: "unresolved st \<subseteq> unresolved (fst (collect_stalled_reobservations now st))"
  unfolding collect_stalled_reobservations_def fst_conv
proof (rule unresolved_map_values)
  fix r
  show "runresolved r \<subseteq> runresolved
      (r\<lparr>rt_by_message := hm_map_values (mark_reobserved (rt_threshold r) now) (rt_by_message r)\<rparr>)"
    by (rule equalityD2, rule runresolved_map_values [where f = "mark_reobserved (rt_threshold r) now"])
      (simp_all add: mark_reobserved_def resolved_def)
qed

lemma collect_ready_routes_unresolved:
  "collect_ready_routes P now rs = (rs', jobs, ms) \<Longrightarrow>
     map_option runresolved (map_of rs' ck) = map_option runresolved (map_of rs ck)"
  by (induction rs arbitrary: rs' jobs ms) (fastforce split: prod.splits dest: dispatch_each_unresolved)+

lemma collect_ready_unresolved:
  assumes "collect_ready_deliveries P now st = (st', jobs, ms)"
  shows "unresolved st \<subseteq> unresolved st'"
proof -
  have eq: "map_option runresolved (map_of (st_by_route st') ck) = map_option runresolved (map_of (st_by_route st) ck)" for ck
    using assms collect_ready_routes_unresolved [of P now "st_by_route st"]
    by (auto simp: collect_ready_deliveries_def split: prod.splits)
  show ?thesis
    unfolding unresolved_def
  proof clarify
    fix ck h r
    assume "map_of (st_by_route st) ck = Some r" "h \<in> runresolved r"
    with eq [of ck] show "\<exists>r. map_of (st_by_route st') ck = Some r \<and> h \<in> runresolved r" by auto
  qed
qed

lemma requeue_unresolved: "unresolved st \<subseteq> unresolved (requeue_delivery ck h now st)"
proof (cases "map_of (st_by_route st) ck")
  case (Some r)
  have "runresolved (r\<lparr>rt_by_message := hm_modify h (requeue_slot now) (rt_by_message r)\<rparr>) = runresolved r"
    by (rule runresolved_modify) (simp add: requeue_slot_def resolved_def)
  with Some unresolved_put [OF Some] show ?thesis by (simp add: requeue_delivery_def)
qed (simp add: requeue_delivery_def)

lemma send_jobs_unresolved: "send_jobs txs now jobs st = (st', sent) \<Longrightarrow> unresolved st \<subseteq> unresolved st'"
proof (induction jobs arbitrary: st sent)
  case (Cons j js)
  then show ?case
    using requeue_unresolved [of st] by (fastforce split: sum.splits prod.splits)
qed simp

definition finishes :: "delivery_result \<Rightarrow> bool" where
  "finishes r \<longleftrightarrow> dr_outcome r = Delivered \<or> dr_outcome r = Terminal"

lemma note_delivery_result_unresolved:
  assumes "note_delivery_result res now unix_now st = (st', job, ms)"
  shows "unresolved st - (if finishes res then {(dr_chain_key res, dr_message_id res)} else {}) \<subseteq> unresolved st'"
  using assms
  by (auto simp: note_delivery_result_def Let_def unresolved_def runresolved_def get_put_route hm_get_modify
      apply_result_def resolved_def finishes_def split: option.splits if_splits delivery_result_kind.splits)

section \<open>Refill\<close>

definition on_disk :: "work_store \<Rightarrow> (u64 \<times> b256) set" where
  "on_disk ws = {(ck, h). h \<in> contents ck ws}"

lemma on_disk_mono: "(\<And>ck. contents ck ws \<subseteq> contents ck ws') \<Longrightarrow> on_disk ws \<subseteq> on_disk ws'"
  by (auto simp: on_disk_def)

lemma index_all_unresolved:
  "pool_ok P st \<Longrightarrow> index_all P now msgs st = (st', jobs, ms) \<Longrightarrow> unresolved st \<subseteq> unresolved st'"
proof (induction msgs arbitrary: st jobs ms)
  case (Cons m msgs)
  obtain st1 job ms1 where n: "note_indexed P m now st = (st1, job, ms1)"
    by (cases "note_indexed P m now st") auto
  from Cons.IH [OF note_indexed_ok [OF Cons.prems(1) n]] note_indexed_unresolved [OF Cons.prems(1) n] Cons.prems(2) n
  show ?case by (fastforce split: prod.splits)
qed simp

lemma drop_fold_unresolved:
  assumes "map_of (st_by_route st) ck = Some r"
  shows "unresolved st \<subseteq> unresolved (put_route ck (fold drop_message hs r) st) \<union> Pair ck ` set hs"
  using assms by (auto simp: unresolved_def runresolved_def get_put_route drop_fold_get split: if_splits)

lemma refill_route_kept:
  assumes "pool_ok P st" and "store_ok ws" and "refill_route P C fx now ck st ws = (st', ws', res, ms)"
  shows "unresolved st \<union> on_disk ws \<subseteq> unresolved st' \<union> on_disk ws'"
proof -
  have disk: "on_disk ws \<subseteq> on_disk ws'"
    using refill_route_store [OF assms(1,3,2)] by (intro on_disk_mono) simp
  show ?thesis
    using assms(3,1)
  proof (cases rule: refill_route_cases)
    case (4 r ws1 pend hs jobs ms')
    have ok1: "store_ok ws1" using 4(2) work.pend_frame [OF assms(2)] by blast
    have vict: "Pair ck ` set hs \<subseteq> on_disk ws'"
    proof clarify
      fix h
      assume h: "h \<in> set hs"
      then obtain s where s: "map_of (rt_by_message r) h = Some s" using 4(3) by auto
      have im: "im_message_id (ms_indexed s) = h" "im_chain_key (ms_indexed s) = ck"
        using route_ok_slotD [OF pool_ok_routeD [OF assms(1) 4(1)] s] by (simp_all add: slot_ok_def)
      have "work.rec_all C (rf_record fx) (map (\<lambda>h. ms_indexed (the (map_of (rt_by_message r) h))) hs) ws1 = (ws', Inr ())"
        using 4(4) by (auto simp: record_each_backlog [OF 4(3)] split: prod.splits sum.splits)
      from work.rec_all_held [OF ok1 this, of "ms_indexed s"] h s im
      show "(ck, h) \<in> on_disk ws'" by (force simp: on_disk_def)
    qed
    have "unresolved (put_route ck (fold drop_message hs r) st) \<subseteq> unresolved st'"
      using index_all_unresolved [OF _ 4(5)]
        pool_ok_put [OF assms(1) drop_fold_ok [OF pool_ok_routeD [OF assms(1) 4(1)]]] by simp
    from subset_trans [OF drop_fold_unresolved [OF 4(1)] Un_mono [OF this vict]] disk
    show ?thesis by (simp add: le_supI2)
  qed (use disk in auto)
qed

lemma refill_routes_kept:
  "pool_ok P st \<Longrightarrow> store_ok ws \<Longrightarrow> refill_routes P C fx now cks st ws = (st', ws', res, ms) \<Longrightarrow>
     unresolved st \<union> on_disk ws \<subseteq> unresolved st' \<union> on_disk ws' \<and> store_ok ws'"
proof (induction cks arbitrary: st ws st' ws' res ms)
  case Nil
  then show ?case by simp
next
  case (Cons ck cks)
  obtain st1 ws1 res1 ms1 where one: "refill_route P C fx now ck st ws = (st1, ws1, res1, ms1)"
    by (cases "refill_route P C fx now ck st ws") auto
  note k = refill_route_kept [OF Cons.prems(1,2) one] and ok = refill_route_ok(1) [OF Cons.prems(1) one]
  have st: "store_ok ws1" using refill_route_store [OF Cons.prems(1) one Cons.prems(2)] by simp
  show ?case
  proof (cases res1)
    case (Inl e)
    with Cons.prems(3) one k st show ?thesis by simp
  next
    case (Inr js)
    obtain st2 ws2 res2 ms2 where two: "refill_routes P C fx now cks st1 ws1 = (st2, ws2, res2, ms2)"
      by (cases "refill_routes P C fx now cks st1 ws1") auto
    with Cons.prems(3) one Inr have "st' = st2" "ws' = ws2" by (auto split: sum.splits)
    with Cons.IH [OF ok st two] k show ?thesis by blast
  qed
qed

section \<open>Iterations\<close>

definition disk_keys :: "pool_loop \<Rightarrow> (u64 \<times> b256) set" where
  "disk_keys s = (case lp_work s of None \<Rightarrow> {} | Some ws \<Rightarrow> on_disk ws)"

definition kept :: "pool_loop \<Rightarrow> (u64 \<times> b256) set" where
  "kept s = unresolved (lp_state s) \<union> disk_keys s"

definition finished_by :: "loop_event \<Rightarrow> (u64 \<times> b256) set" where
  "finished_by ev = (case ev of
     Result (Some r) \<Rightarrow> if finishes r then {(dr_chain_key r, dr_message_id r)} else {} | _ \<Rightarrow> {})"

definition disk_ok :: "pool_loop \<Rightarrow> bool" where
  "disk_ok s = (case lp_work s of None \<Rightarrow> True | Some ws \<Rightarrow> store_ok ws)"

lemma finish_kept:
  assumes "finish env s (st, jobs, ms) = (t, out)"
  shows "unresolved st \<subseteq> unresolved (lp_state t)" "disk_keys t = disk_keys s" "disk_ok t = disk_ok s" "lp_work t = lp_work s"
  using assms send_jobs_unresolved
  by (fastforce simp: finish_def disk_keys_def disk_ok_def split: prod.splits)+

lemma indexed_kept:
  assumes "pool_ok P (lp_state s)" and "s' = s\<lparr>lp_deferred := d\<rparr>"
    and "finish env s' (single (note_indexed P im now (lp_state s))) = (t, out)"
  shows "kept s \<subseteq> kept t \<and> disk_ok t = disk_ok s"
proof -
  obtain st job ms where n: "note_indexed P im now (lp_state s) = (st, job, ms)"
    by (cases "note_indexed P im now (lp_state s)") auto
  have "disk_keys s' = disk_keys s" "disk_ok s' = disk_ok s" using assms(2) by (simp_all add: disk_keys_def disk_ok_def)
  with note_indexed_unresolved [OF assms(1) n] finish_kept [of env s' st _ ms t out] assms(3) n
  show ?thesis by (fastforce simp: kept_def single_def)
qed

lemma admit_deferred_kept:
  assumes "pool_ok P (lp_state s)" and "admit_deferred P env s = (t, out)"
  shows "kept s \<subseteq> kept t \<and> disk_ok t = disk_ok s"
  using assms(2) indexed_kept [OF assms(1) refl]
  by (auto simp: admit_deferred_def split: option.splits if_splits)

lemma prune_arm_kept:
  assumes "pool_ok P (lp_state s)" and "disk_ok s" and "prune_arm P C env s = (t, out, nxt)"
  shows "kept s \<subseteq> kept t \<and> disk_ok t"
proof -
  define st1 where "st1 = prune_expired (le_now env) (lp_state s)"
  have ok1: "pool_ok P st1" and u1: "unresolved (lp_state s) \<subseteq> unresolved st1"
    using prune_expired_ok [OF assms(1)] prune_expired_unresolved [OF assms(1)] by (simp_all add: st1_def)
  obtain st2 work res ms2 where refill: "refill_backlog P C env st1 (lp_work s) = (st2, work, res, ms2)"
    by (cases "refill_backlog P C env st1 (lp_work s)") auto
  let ?mid = "s\<lparr>lp_state := st2, lp_work := work\<rparr>"
  have "unresolved st1 \<union> disk_keys s \<subseteq> kept ?mid \<and> disk_ok ?mid"
    using refill assms(2) refill_routes_kept [OF ok1]
    by (fastforce simp: refill_backlog_def refill_def disk_ok_def disk_keys_def kept_def split: option.splits prod.splits)
  with u1 have mid: "kept s \<subseteq> kept ?mid" "disk_ok ?mid" by (auto simp: kept_def)
  have "lp_work t = work \<and> unresolved st2 \<subseteq> unresolved (lp_state t)"
  proof (cases res)
    case (Inl e)
    with assms(3) refill show ?thesis by (auto simp: prune_arm_def Let_def st1_def)
  next
    case (Inr jobs)
    obtain st3 sent where send: "send_jobs (le_txs env) (le_later env) jobs st2 = (st3, sent)" by fastforce
    obtain st4 reqs where stall: "collect_stalled_reobservations (le_later env) st3 = (st4, reqs)" by fastforce
    obtain st5 ready ms3 where ready: "collect_ready_deliveries P (le_later env) st4 = (st5, ready, ms3)"
      by (cases "collect_ready_deliveries P (le_later env) st4") auto
    obtain st6 sent' where send': "send_jobs (le_txs env) (le_later env) ready st5 = (st6, sent')" by fastforce
    have "lp_state t = st6" "lp_work t = work"
      using assms(3) refill Inr send stall ready send' by (auto simp: prune_arm_def Let_def st1_def)
    with send_jobs_unresolved [OF send] collect_stalled_unresolved [of st3 "le_later env"] stall
      collect_ready_unresolved [OF ready] send_jobs_unresolved [OF send'] show ?thesis by auto
  qed
  with mid show ?thesis by (auto simp: kept_def disk_keys_def disk_ok_def)
qed

lemma result_arm_kept:
  assumes "disk_ok s" and "result_arm env r s = (t, out, nxt)"
  shows "kept s - finished_by (Result (Some r)) \<subseteq> kept t \<and> disk_ok t"
proof (cases "finishes r \<and> lp_work s \<noteq> None")
  case True
  then obtain ws where ws: "lp_work s = Some ws" "finishes r" by auto
  obtain ws' cr where c: "work_complete (le_complete env) (dr_chain_key r) (dr_message_id r) ws = (ws', cr)"
    by fastforce
  obtain st job ms where n: "note_delivery_result r (le_now env) (le_unix_now env) (lp_state s) = (st, job, ms)"
    by (cases "note_delivery_result r (le_now env) (le_unix_now env) (lp_state s)") auto
  have "store_ok ws" using assms(1) ws(1) by (simp add: disk_ok_def)
  note held = work.complete_held [OF this c]
  have d: "store_ok ws'" using held by blast
  have "contents ck ws \<subseteq> (if ck = dr_chain_key r then Set.insert (dr_message_id r) (contents ck ws') else contents ck ws')" for ck
    using held [of ck] by blast
  then have d2: "on_disk ws - {(dr_chain_key r, dr_message_id r)} \<subseteq> on_disk ws'"
    by (fastforce simp: on_disk_def split: if_splits)
  have job: "job = None" by (rule note_delivery_result_flying(2) [OF n])
  have "lp_work t = Some ws' \<and> (lp_state t = lp_state s \<or> lp_state t = st)"
    using assms(2) ws c n job
    by (auto simp: result_arm_def finishes_def single_def finish_def Let_def split: sum.splits)
  with d d2 note_delivery_result_unresolved [OF n] ws show ?thesis
    by (auto simp: kept_def disk_keys_def disk_ok_def finished_by_def)
next
  case False
  obtain st job ms where n: "note_delivery_result r (le_now env) (le_unix_now env) (lp_state s) = (st, job, ms)"
    by (cases "note_delivery_result r (le_now env) (le_unix_now env) (lp_state s)") auto
  have job: "job = None" by (rule note_delivery_result_flying(2) [OF n])
  have "lp_work t = lp_work s \<and> lp_state t = st"
    using assms(2) False n job
    by (auto simp: result_arm_def finishes_def single_def finish_def Let_def
        split: sum.splits option.splits if_splits bool.splits)
  with assms(1) note_delivery_result_unresolved [OF n] show ?thesis
    by (auto simp: kept_def disk_keys_def disk_ok_def finished_by_def)
qed

lemma select_arm_kept:
  assumes "pool_ok P (lp_state s)" and "disk_ok s" and "select_arm P C env ev s = (t, out, nxt)"
  shows "kept s - finished_by ev \<subseteq> kept t \<and> disk_ok t"
proof (cases ev)
  case (SetUpdate u)
  show ?thesis
  proof (cases u)
    case (Some upd)
    obtain st jobs ms where a: "apply_attestor_set P upd (le_now env) (lp_state s) = (st, jobs, ms)"
      by (cases "apply_attestor_set P upd (le_now env) (lp_state s)") auto
    from finish_kept [of env s st jobs ms t out] apply_attestor_set_unresolved [OF a] assms(2,3) SetUpdate Some a
    show ?thesis by (fastforce simp: select_arm_def kept_def split: prod.splits)
  qed (use assms SetUpdate in \<open>auto simp: select_arm_def kept_def disk_keys_def disk_ok_def\<close>)
next
  case (Indexed i)
  have same: "kept (s\<lparr>lp_deferred := d\<rparr>) = kept s" "disk_ok (s\<lparr>lp_deferred := d\<rparr>) = disk_ok s" for d
    by (simp_all add: kept_def disk_keys_def disk_ok_def)
  show ?thesis
  proof (cases "\<exists>im. i = Some im \<and> can_index (lp_state s) im")
    case True
    then obtain im where im: "i = Some im" "can_index (lp_state s) im" by blast
    with assms(3) Indexed have "finish env s (single (note_indexed P im (le_now env) (lp_state s))) = (t, out)"
      by (simp add: select_arm_def split: prod.splits)
    from indexed_kept [OF assms(1) _ this, of "lp_deferred s"] assms(2) show ?thesis by auto
  next
    case False
    with assms(2,3) Indexed same show ?thesis
      by (auto simp: select_arm_def split: option.splits if_splits)
  qed
next
  case (Vote v)
  show ?thesis
  proof (cases v)
    case (Some vote)
    obtain st job ms where n: "note_vote P vote (le_now env) (lp_state s) = (st, job, ms)"
      by (cases "note_vote P vote (le_now env) (lp_state s)") auto
    from finish_kept [of env s st _ ms t out] note_vote_unresolved [OF n] assms(2,3) Vote Some n
    show ?thesis by (fastforce simp: select_arm_def kept_def single_def split: prod.splits)
  qed (use assms Vote in \<open>auto simp: select_arm_def\<close>)
next
  case (Result r)
  with assms(2,3) result_arm_kept [OF assms(2)] show ?thesis
    by (cases r) (auto simp: select_arm_def)
next
  case PruneTick
  with prune_arm_kept [OF assms(1,2), of C env t out nxt] assms(3) show ?thesis by (auto simp: select_arm_def)
qed (use assms in \<open>auto simp: select_arm_def kept_def disk_keys_def disk_ok_def split: option.splits\<close>)

lemma loop_iter_kept:
  assumes "pool_ok P (lp_state s)" and "disk_ok s" and "loop_iter P C env0 env ev s = (t, lo, nxt)"
  shows "kept s - finished_by ev \<subseteq> kept t \<and> disk_ok t"
proof -
  obtain s1 out1 where head: "admit_deferred P env0 s = (s1, out1)" by fastforce
  obtain out2 where arm: "select_arm P C env ev s1 = (t, out2, nxt)" using loop_iter_split [OF assms(3) head] by blast
  note h = admit_deferred_kept [OF assms(1) head]
  from select_arm_kept [OF _ _ arm] admit_deferred_ok [OF assms(1) head] h assms(2) show ?thesis by blast
qed

section \<open>Admission\<close>

text \<open>\<^verbatim>\<open>can_index\<close> answers exactly when \<^verbatim>\<open>note_indexed\<close> will not drop the message.\<close>

lemma first_resolved_Some:
  assumes "route_ok P ck r" and "(h, s) \<in> set (rt_by_message r)" and "resolved s"
  shows "first_resolved r \<noteq> None"
proof -
  have "map_of (rt_by_message r) h = Some s" "h \<in> set (rt_order r)"
    using assms by (auto simp: route_ok_def hm_get_iff intro: rev_image_eqI)
  with assms(3) show ?thesis
    by (auto simp: first_resolved_def find_None_iff simp del: not_None_eq intro!: exI [of _ h])
qed

lemma make_room_succeeds:
  assumes "route_ok P ck r" and "length (rt_by_message r) < rt_cache_max r \<or> first_resolved r \<noteq> None"
  shows "snd (make_room r)"
proof (cases "length (rt_by_message r) < rt_cache_max r")
  case True
  then show ?thesis by (subst make_room.simps) simp
next
  case False
  then obtain v where v: "first_resolved r = Some v" using assms(2) by auto
  have "length (rt_by_message (drop_message v r)) < rt_cache_max (drop_message v r)"
    using length_delete_less [OF first_resolved_key [OF v]] assms(1) by (simp add: drop_message_def route_ok_def)
  with False v show ?thesis by (subst make_room.simps) (subst make_room.simps, simp)
qed

lemma can_index_iff:
  assumes "route_ok P ck r" and "map_of (st_by_route st) ck = Some r" and "im_chain_key im = ck"
  shows "can_index st im \<longleftrightarrow> im_message_id im \<in> set (hm_keys (rt_by_message r)) \<or> snd (make_room r)"
proof (cases "length (rt_by_message r) < rt_cache_max r \<or> first_resolved r \<noteq> None")
  case True
  then have "length (rt_by_message r) < rt_cache_max r \<or> (\<exists>(_, s) \<in> set (rt_by_message r). resolved s)"
  proof
    assume "first_resolved r \<noteq> None"
    then have "\<exists>h s. map_of (rt_by_message r) h = Some s \<and> resolved s"
      by (auto simp: first_resolved_def find_Some_iff split: option.splits)
    then show ?thesis by (auto dest: map_of_SomeD)
  qed simp
  with make_room_succeeds [OF assms(1) True] assms(2,3) show ?thesis by (simp add: can_index_def)
next
  case False
  then have "\<not> snd (make_room r)" by (subst make_room.simps) simp
  moreover have "\<not> (\<exists>(_, s) \<in> set (rt_by_message r). resolved s)"
    using False first_resolved_Some [OF assms(1)] by auto
  ultimately show ?thesis using assms(2,3) False by (simp add: can_index_def)
qed

definition has_slot :: "pool_state \<Rightarrow> indexed_message \<Rightarrow> bool" where
  "has_slot st im \<longleftrightarrow> (case map_of (st_by_route st) (im_chain_key im) of
     None \<Rightarrow> False | Some r \<Rightarrow> map_of (rt_by_message r) (im_message_id im) \<noteq> None)"

lemma has_slot_shape: "has_slot st im \<longleftrightarrow>
    (case pool_shape st (im_chain_key im) of None \<Rightarrow> False | Some (_, _, f) \<Rightarrow> f (im_message_id im) \<noteq> None)"
  by (auto simp: has_slot_def pool_shape_def route_shape_def split: option.splits)

lemma note_indexed_admits:
  assumes "pool_ok P st" and "can_index st im" and "im_chain_key im \<in> set (hm_keys (st_by_route st))"
    and "note_indexed P im now st = (st', job, ms)"
  shows "has_slot st' im"
proof -
  obtain r where r: "map_of (st_by_route st) (im_chain_key im) = Some r"
    using assms(3) by (metis list.set_map map_of_eq_None_iff not_None_eq)
  note iff = can_index_iff [OF pool_ok_routeD [OF assms(1) r] r refl]
  have key: "im_message_id im \<in> set (hm_keys (rt_by_message x)) \<longleftrightarrow> map_of (rt_by_message x) (im_message_id im) \<noteq> None" for x
    by (simp add: map_of_eq_None_iff)
  from assms(4) show ?thesis
  proof (cases rule: note_indexed_cases)
    case 1
    with r key [of r] show ?thesis by (simp add: has_slot_def)
  next
    case (2 r0)
    with r iff assms(2) show ?thesis by simp
  next
    case (3 r0 r')
    let ?x = "indexed_route (im_chain_key im) im now (fst (make_room r0))"
    have "hm_keys (rt_by_message r') = hm_keys (rt_by_message ?x)"
      using 3(5) by (elim disjE exE conjE) (simp, erule dispatch_frame(6))
    moreover have "im_message_id im \<in> set (hm_keys (rt_by_message ?x))" by (simp add: indexed_route_def)
    ultimately have "map_of (rt_by_message r') (im_message_id im) \<noteq> None"
      by (simp only: key [symmetric])
    with 3(1,4) show ?thesis by (simp add: has_slot_def get_put_route)
  qed
qed

section \<open>The refill never indexes a missing slot\<close>

lemma keys_put [simp]: "hm_keys (st_by_route (put_route ck r st)) = hm_keys (st_by_route st)"
  by (simp add: put_route_def)

lemma note_indexed_keys: "note_indexed P im now st = (st', job, ms) \<Longrightarrow> hm_keys (st_by_route st') = hm_keys (st_by_route st)"
  by (erule note_indexed_cases) auto

lemma index_all_keys: "index_all P now msgs st = (st', jobs, ms) \<Longrightarrow> hm_keys (st_by_route st') = hm_keys (st_by_route st)"
  by (induction msgs arbitrary: st st' jobs ms) (fastforce split: prod.splits dest: note_indexed_keys)+

lemma refill_route_no_panic:
  assumes "pool_ok P st" and "ck \<in> set (hm_keys (st_by_route st))"
    and "refill_route P C fx now ck st ws = (st', ws', res, ms)"
  shows "res \<noteq> Inl IndexPanic" and "hm_keys (st_by_route st') = hm_keys (st_by_route st)"
proof -
  have "map_of (st_by_route st) ck \<noteq> None" using assms(2) by (simp add: map_of_eq_None_iff)
  note known = this
  have "res \<noteq> Inl IndexPanic \<and> hm_keys (st_by_route st') = hm_keys (st_by_route st)"
    using assms(3,1)
  proof (cases rule: refill_route_cases)
    case 1
    with known show ?thesis by simp
  next
    case (3 r ws1 pend hs)
    then show ?thesis by (auto simp: record_each_backlog [OF 3(4)] split: prod.splits sum.splits)
  next
    case (4 r ws1 pend hs jobs ms')
    with index_all_keys [OF 4(5)] show ?thesis by simp
  qed simp
  then show "res \<noteq> Inl IndexPanic" and "hm_keys (st_by_route st') = hm_keys (st_by_route st)" by simp_all
qed

lemma refill_routes_no_panic:
  "pool_ok P st \<Longrightarrow> set cks \<subseteq> set (hm_keys (st_by_route st)) \<Longrightarrow>
     refill_routes P C fx now cks st ws = (st', ws', res, ms) \<Longrightarrow> res \<noteq> Inl IndexPanic"
proof (induction cks arbitrary: st ws st' ws' res ms)
  case (Cons ck cks)
  obtain st1 ws1 res1 ms1 where one: "refill_route P C fx now ck st ws = (st1, ws1, res1, ms1)"
    by (cases "refill_route P C fx now ck st ws") auto
  have "ck \<in> set (hm_keys (st_by_route st))" using Cons.prems(2) by auto
  note np = refill_route_no_panic [OF Cons.prems(1) this one]
  obtain st2 ws2 res2 ms2 where two: "refill_routes P C fx now cks st1 ws1 = (st2, ws2, res2, ms2)"
    by (cases "refill_routes P C fx now cks st1 ws1") auto
  have "set cks \<subseteq> set (hm_keys (st_by_route st1))" unfolding np(2) using Cons.prems(2) by auto
  note r2 = Cons.IH [OF refill_route_ok(1) [OF Cons.prems(1) one] this two]
  with Cons.prems(3) one two np(1) show ?case by (auto split: sum.splits)
qed auto

lemma prune_arm_no_panic:
  assumes "pool_ok P (lp_state s)" and "prune_arm P C env s = (t, out, Return_Err e)"
  shows "e \<noteq> IndexPanic"
proof -
  define st1 where "st1 = prune_expired (le_now env) (lp_state s)"
  have ok1: "pool_ok P st1" using prune_expired_ok [OF assms(1)] by (simp add: st1_def)
  obtain st2 work res ms2 where refill: "refill_backlog P C env st1 (lp_work s) = (st2, work, res, ms2)"
    by (cases "refill_backlog P C env st1 (lp_work s)") auto
  have "res \<noteq> Inl IndexPanic"
    using refill refill_routes_no_panic [OF ok1 subset_refl]
    by (auto simp: refill_backlog_def refill_def split: option.splits prod.splits)
  moreover have "res = Inl e"
    using assms(2) refill by (cases res) (auto simp: prune_arm_def Let_def st1_def split: prod.splits)
  ultimately show ?thesis by auto
qed

section \<open>Ready deliveries go out\<close>

definition ready :: "route_state \<Rightarrow> instant \<Rightarrow> message_slot \<Rightarrow> bool" where
  "ready r now slot \<longleftrightarrow> has_quorum r slot \<and> \<not> resolved slot \<and> \<not> ms_in_flight slot
     \<and> (case ms_next_delivery_attempt_at slot of None \<Rightarrow> True | Some t \<Rightarrow> t \<le> now)"

lemma ready_threshold: "rt_threshold r' = rt_threshold r \<Longrightarrow> ready r' now slot = ready r now slot"
  by (simp add: ready_def has_quorum_def)

lemma make_job_threshold: "rt_threshold r' = rt_threshold r \<Longrightarrow> make_job P ck r' slot = make_job P ck r slot"
  by (simp add: make_job_def has_quorum_def)

lemma dispatch_ready:
  "map_of (rt_by_message r) h = Some slot \<Longrightarrow> ready r now slot \<Longrightarrow>
     fst (snd (dispatch_if_ready P ck h r obs now probe)) = Some (make_job P ck r slot)"
  by (auto simp: dispatch_if_ready_def ready_def resolved_def split: option.splits)

lemma dispatch_other:
  "dispatch_if_ready P ck h' r obs now probe = (r', job, ms) \<Longrightarrow> h \<noteq> h' \<Longrightarrow>
     map_of (rt_by_message r') h = map_of (rt_by_message r) h"
  by (erule dispatch_cases) (simp_all add: hm_get_modify)

lemma dispatch_each_ready:
  "map_of (rt_by_message r) h = Some slot \<Longrightarrow> ready r now slot \<Longrightarrow> h \<in> set hs \<Longrightarrow>
     dispatch_each P ck obs now probe hs r = (r', jobs, ms) \<Longrightarrow> make_job P ck r slot \<in> set jobs"
proof (induction hs arbitrary: r r' jobs ms)
  case (Cons h' hs)
  obtain r1 job ms1 where d: "dispatch_if_ready P ck h' r obs now probe = (r1, job, ms1)"
    by (cases "dispatch_if_ready P ck h' r obs now probe") auto
  obtain jobs2 ms2 where e: "dispatch_each P ck obs now probe hs r1 = (r', jobs2, ms2)"
    using Cons.prems(4) d by (auto split: prod.splits)
  have jobs: "set jobs = set_option job \<union> set jobs2"
    using Cons.prems(4) d e by (auto split: option.splits)
  show ?case
  proof (cases "h' = h")
    case True
    with dispatch_ready [OF Cons.prems(1,2), of P ck obs probe] d jobs show ?thesis by simp
  next
    case False
    note fr = dispatch_frame(2) [OF d]
    have "map_of (rt_by_message r1) h = Some slot" "ready r1 now slot" "h \<in> set hs"
      using dispatch_other [OF d, of h] False Cons.prems(1,2,3) ready_threshold [OF fr] by simp_all
    from Cons.IH [OF this e] have "make_job P ck r1 slot \<in> set jobs2" .
    with jobs make_job_threshold [OF fr] show ?thesis by simp
  qed
qed simp

lemma collect_ready_routes_ready:
  "map_of rs ck = Some r \<Longrightarrow> map_of (rt_by_message r) h = Some slot \<Longrightarrow> ready r now slot \<Longrightarrow>
     collect_ready_routes P now rs = (rs', jobs, ms) \<Longrightarrow> make_job P ck r slot \<in> set jobs"
proof (induction rs arbitrary: rs' jobs ms)
  case (Cons p rs)
  obtain ck' r0 where p: "p = (ck', r0)" by fastforce
  have key: "h \<in> set (hm_keys (rt_by_message r))"
    using map_of_SomeD [OF Cons.prems(2)] by (simp add: rev_image_eqI)
  obtain r1 js ms1 where d: "dispatch_each P ck' False now True (hm_keys (rt_by_message r0)) r0 = (r1, js, ms1)"
    by (cases "dispatch_each P ck' False now True (hm_keys (rt_by_message r0)) r0") auto
  obtain rs2 js2 ms2 where c: "collect_ready_routes P now rs = (rs2, js2, ms2)"
    by (cases "collect_ready_routes P now rs") auto
  have jobs: "jobs = js @ js2" using Cons.prems(4) d c by (simp add: p)
  show ?case
  proof (cases "ck' = ck")
    case True
    with Cons.prems(1) have "r0 = r" by (simp add: p)
    with dispatch_each_ready [OF Cons.prems(2,3) key] d True jobs show ?thesis by auto
  next
    case False
    with Cons.IH [OF _ Cons.prems(2,3) c] Cons.prems(1) jobs show ?thesis by (simp add: p)
  qed
qed simp

end
