(* ===== verification/Pool_Theorems.thy ===== *)
theory Pool_Theorems
  imports Pool_Backlog
begin

text \<open>
  The properties of the vote pool, and a small concrete run of the loop on which they are
  exercised: one route with one attestor, whose vote arrives before its message is indexed.
\<close>

section \<open>A concrete run\<close>

definition demo_prims :: primitives where
  "demo_prims = \<lparr>ecrecover = (\<lambda>_ raw. Some (ucast (raw ! 0))), abi_encode_params = concat\<rparr>"

definition demo_codec :: work_codec where
  "demo_codec = \<lparr>enc_message = (\<lambda>_. []), dec_message = (\<lambda>_. None), enc_failed = (\<lambda>_. []), dec_failed = (\<lambda>_. None)\<rparr>"

definition demo_message :: indexed_message where
  "demo_message = \<lparr>im_chain_key = 7, im_message_id = 11, im_emitter = 1, im_outbox = 2, im_sequence = 0,
     im_destination_chain_key = 7, im_creditcoin_chain_id = 1, im_payload = [], im_tx_hash = 3, im_block_height = 4\<rparr>"

definition demo_sig :: bytes where
  "demo_sig = 5 # replicate 63 0 @ [27]"

definition demo_vote :: message_vote where
  "demo_vote = \<lparr>mv_chain_key = 7, mv_message_id = 11, mv_signer = 5, mv_signature = demo_sig\<rparr>"

definition demo_env :: loop_env where
  "demo_env = \<lparr>le_now = 0, le_later = 0, le_unix_now = None, le_txs = [(7, \<lambda>_. SendOk)], le_complete = no_faults,
     le_refill = \<lparr>rf_pending = (\<lambda>_. no_faults), rf_record = (\<lambda>_. no_faults)\<rparr>\<rparr>"

definition demo_start :: pool_loop where
  "demo_start = pool_start [\<lparr>ra_chain_key = 7, ra_attestors = [5], ra_threshold = 1\<rparr>]
     \<lparr>vc_ttl_seconds = 60, vc_max_messages = 2\<rparr> (Some for_checkpoint)"

definition demo_voted :: pool_loop where
  "demo_voted = fst (loop_iter demo_prims demo_codec demo_env demo_env (Vote (Some demo_vote)) demo_start)"

lemmas demo_defs = demo_message_def demo_vote_def demo_env_def demo_start_def demo_codec_def

lemma demo_recover: "recover_signer demo_prims h demo_sig = Inr 5"
  by (simp add: demo_prims_def demo_sig_def recover_signer_def Let_def nth_append)

lemmas demo_eval = demo_defs demo_recover loop_iter_def admit_deferred_def select_arm_def pool_start_def
  finish_def single_def pool_new_def put_route_def hm_modify_def join_output_def no_output_def Let_def

lemma demo_voted_eq:
  "loop_iter demo_prims demo_codec demo_env demo_env (Vote (Some demo_vote)) demo_start =
     (demo_start\<lparr>lp_state := \<lparr>st_by_route = [(7, \<lparr>rt_attestors = [5], rt_threshold = 1, rt_by_message = [],
        rt_order = [], rt_cache_max = 2, rt_early_votes = [(11, \<lparr>ev_signers = [(5, demo_sig)], ev_first_seen = 0\<rparr>)]\<rparr>)],
        st_cache = \<lparr>vc_ttl_seconds = 60, vc_max_messages = 2\<rparr>\<rparr>\<rparr>,
      no_output\<lparr>lo_metrics := [IncVote 7 Buffered]\<rparr>, Continue_Loop)"
  by (simp add: demo_eval note_vote_def buffer_early_vote_def evict_early_overflow.simps)

lemma demo_indexed_eq:
  "loop_iter demo_prims demo_codec demo_env demo_env (Indexed (Some demo_message)) demo_voted = (t, out, nxt) \<Longrightarrow>
     nxt = Continue_Loop \<and> lo_sent out \<noteq> []"
  by (simp add: demo_voted_def demo_voted_eq)
    (auto simp add: demo_eval note_indexed_def make_room.simps can_index_def insert_slot_def adopt_early_def dispatch_if_ready_def
    has_quorum_def new_slot_def dispatch_delivery_job_def make_job_def)

lemma demo_reach: "reach pool_starts (pool_trans demo_prims demo_codec) (demo_voted, {})"
proof (rule reach_step)
  show "reach pool_starts (pool_trans demo_prims demo_codec) (demo_start, {})"
    by (rule reach_start) (auto simp: pool_starts_def demo_start_def)
  have "admit_deferred demo_prims demo_env demo_start = (demo_start, no_output)"
    by (simp add: admit_deferred_def demo_start_def pool_start_def)
  from pool_iteration [OF this, of "Vote (Some demo_vote)" "{}" demo_codec demo_env]
  show "pool_trans demo_prims demo_codec (demo_start, {}) (demo_env, demo_env, Vote (Some demo_vote)) (demo_voted, {})"
    by (simp add: demo_voted_eq demo_voted_def enabled_def result_key_def no_output_def)
qed

lemma demo_voted_fields: "lp_deferred demo_voted = None" "lp_work demo_voted = Some for_checkpoint"
  unfolding demo_voted_def demo_voted_eq by (simp_all add: demo_start_def pool_start_def)

lemma demo_step:
  obtains t out2 where "admit_deferred demo_prims demo_env demo_voted = (demo_voted, no_output)"
    "select_arm demo_prims demo_codec demo_env (Indexed (Some demo_message)) demo_voted = (t, out2, Continue_Loop)"
    "lo_sent out2 \<noteq> []"
proof -
  have head: "admit_deferred demo_prims demo_env demo_voted = (demo_voted, no_output)"
    by (simp add: admit_deferred_def demo_voted_fields)
  obtain t lo nxt where it: "loop_iter demo_prims demo_codec demo_env demo_env (Indexed (Some demo_message)) demo_voted = (t, lo, nxt)"
    by (cases "loop_iter demo_prims demo_codec demo_env demo_env (Indexed (Some demo_message)) demo_voted") auto
  from loop_iter_split [OF it head] demo_indexed_eq [OF it] head that show ?thesis
    by (auto simp: no_output_def)
qed

section \<open>Properties\<close>

text \<open>C2. Every job the pool task sends carries a quorum certificate. In any reachable state, whichever
  arm of the select fires, each job handed to a delivery channel belongs to a message indexed from the
  source chain and still held by the pool, and its signatures were recovered, in canonical form, from
  distinct members of the route's current attestor set; unless the job only reconciles, they are at
  least as many as the route's threshold.\<close>

theorem sent_jobs_certified:
  assumes "reach pool_starts (pool_trans P C) (s, owed)"
    and "admit_deferred P env0 s = (s1, out1)"
    and "select_arm P C env ev s1 = (t, out2, Continue_Loop)"
  shows "list_all (backed P (lp_state s1)) (lo_sent out1) \<and> list_all (backed P (lp_state t)) (lo_sent out2)"
proof -
  have "pool_ok P (lp_state s)" using pool_loop.reach_inv [OF assms(1)] by (simp add: pool_inv_def)
  from admit_deferred_ok [OF this assms(2)] select_arm_ok(3) [OF _ assms(3)] show ?thesis
    by (auto simp: launches_def list_all_iff)
qed

theorem sent_jobs_certified_witness:
  "\<exists>t out2. select_arm demo_prims demo_codec demo_env (Indexed (Some demo_message)) demo_voted = (t, out2, Continue_Loop)
     \<and> lo_sent out2 \<noteq> [] \<and> list_all (backed demo_prims (lp_state t)) (lo_sent out2)"
proof (rule demo_step)
  fix t out2
  assume step: "admit_deferred demo_prims demo_env demo_voted = (demo_voted, no_output)"
    "select_arm demo_prims demo_codec demo_env (Indexed (Some demo_message)) demo_voted = (t, out2, Continue_Loop)"
    "lo_sent out2 \<noteq> []"
  from sent_jobs_certified [OF demo_reach step(1,2)] step show ?thesis by blast
qed

text \<open>C3. At most one delivery of a message is outstanding, and no slot is stranded. In every reachable
  state the slots marked in flight are exactly the deliveries the workers still owe a result for; the
  jobs an iteration sends are for pairwise different messages, none of which was outstanding.\<close>

theorem single_outstanding_delivery:
  assumes "reach pool_starts (pool_trans P C) (s, owed)"
    and "admit_deferred P env0 s = (s1, out1)"
    and "select_arm P C env ev s1 = (t, out2, Continue_Loop)"
  shows "flying (lp_state s) = owed
    \<and> distinct (map job_key (lo_sent out1 @ lo_sent out2))
    \<and> owed \<inter> set (map job_key (lo_sent out1 @ lo_sent out2)) = {}
    \<and> flying (lp_state t) = (owed \<union> set (map job_key (lo_sent out1 @ lo_sent out2))) - result_key ev"
proof -
  have ok: "pool_ok P (lp_state s)" and fl: "flying (lp_state s) = owed"
    using pool_loop.reach_inv [OF assms(1)] by (simp_all add: pool_inv_def)
  note head = admit_deferred_ok [OF ok assms(2)]
  note arm = select_arm_ok [OF conjunct1 [OF head] assms(3)]
  from head fl have "flying (lp_state s1) = owed \<union> job_key ` set (lo_sent out1)" "distinct (map job_key (lo_sent out1))"
    "owed \<inter> job_key ` set (lo_sent out1) = {}"
    by (simp_all add: launches_def)
  with arm(2,3) fl show ?thesis by (simp add: image_Un Un_assoc Int_Un_distrib Int_Un_distrib2 Int_commute)
qed

theorem single_outstanding_delivery_witness:
  "\<exists>t out2. select_arm demo_prims demo_codec demo_env (Indexed (Some demo_message)) demo_voted = (t, out2, Continue_Loop)
     \<and> lo_sent out2 \<noteq> [] \<and> distinct (map job_key (lo_sent out2)) \<and> flying (lp_state t) = set (map job_key (lo_sent out2))"
proof (rule demo_step)
  fix t out2
  assume step: "admit_deferred demo_prims demo_env demo_voted = (demo_voted, no_output)"
    "select_arm demo_prims demo_codec demo_env (Indexed (Some demo_message)) demo_voted = (t, out2, Continue_Loop)"
    "lo_sent out2 \<noteq> []"
  from single_outstanding_delivery [OF demo_reach step(1,2)] step show ?thesis
    by (auto simp: no_output_def result_key_def)
qed

text \<open>C4. No unfinished message is lost. Across one iteration of the loop, whatever the arm and whatever
  faults its disk operations meet, every message that was unresolved in memory or recorded on disk is
  still one of the two afterwards, unless the iteration processed its Delivered or Terminal result.\<close>

theorem no_message_lost:
  assumes "reach pool_starts (pool_trans P C) (s, owed)" and "disk_ok s"
    and "loop_iter P C env0 env ev s = (t, lo, nxt)"
  shows "kept s - finished_by ev \<subseteq> kept t \<and> disk_ok t"
proof -
  have "pool_ok P (lp_state s)" using pool_loop.reach_inv [OF assms(1)] by (simp add: pool_inv_def)
  from loop_iter_kept [OF this assms(2,3)] show ?thesis .
qed

lemma store_ok_fresh [simp]: "store_ok for_checkpoint"
  by (simp add: store_ok_def for_checkpoint_def dir_of_def names_ok_def)

theorem no_message_lost_witness:
  "\<exists>t lo. loop_iter demo_prims demo_codec demo_env demo_env (Indexed (Some demo_message)) demo_voted = (t, lo, Continue_Loop)
     \<and> kept demo_voted \<subseteq> kept t \<and> disk_ok t"
proof -
  obtain t lo nxt where it: "loop_iter demo_prims demo_codec demo_env demo_env (Indexed (Some demo_message)) demo_voted = (t, lo, nxt)"
    by (cases "loop_iter demo_prims demo_codec demo_env demo_env (Indexed (Some demo_message)) demo_voted") auto
  have "disk_ok demo_voted"
    by (simp add: disk_ok_def demo_voted_fields)
  from no_message_lost [OF demo_reach this it] demo_indexed_eq [OF it] it show ?thesis
    by (auto simp: finished_by_def)
qed

text \<open>A message of a configured route is never refused silently. When the pool cannot index it, it
  stays deferred (without persistence); otherwise the loop gives it a slot.\<close>

theorem indexed_or_deferred:
  assumes "reach pool_starts (pool_trans P C) (s, owed)"
    and "im_chain_key im \<in> set (hm_keys (st_by_route (lp_state s)))" and "lp_work s = None" and "lp_deferred s = None"
    and "select_arm P C env (Indexed (Some im)) s = (t, lo, nxt)"
  shows "has_slot (lp_state t) im \<or> lp_deferred t = Some im"
proof (cases "can_index (lp_state s) im")
  case True
  have ok: "pool_ok P (lp_state s)" using pool_loop.reach_inv [OF assms(1)] by (simp add: pool_inv_def)
  obtain st job ms where n: "note_indexed P im (le_now env) (lp_state s) = (st, job, ms)"
    by (cases "note_indexed P im (le_now env) (lp_state s)") auto
  have "finish env s (single (st, job, ms)) = (t, lo)"
    using assms(5) True n by (simp add: select_arm_def split: prod.splits)
  then have "pool_shape (lp_state t) = pool_shape st"
    using finish_ok(5) [OF note_indexed_ok [OF ok n] conjunct1 [OF note_indexed_launches [OF ok n]]]
    by (simp add: single_def)
  with note_indexed_admits [OF ok True assms(2) n] show ?thesis by (simp add: has_slot_shape)
next
  case False
  with assms(3,5) show ?thesis by (auto simp: select_arm_def)
qed

definition demo_volatile :: pool_loop where
  "demo_volatile = pool_start [\<lparr>ra_chain_key = 7, ra_attestors = [5], ra_threshold = 1\<rparr>]
     \<lparr>vc_ttl_seconds = 60, vc_max_messages = 0\<rparr> None"

theorem indexed_or_deferred_witness:
  "\<exists>t lo nxt. select_arm demo_prims demo_codec demo_env (Indexed (Some demo_message)) demo_volatile = (t, lo, nxt)
     \<and> (has_slot (lp_state t) demo_message \<or> lp_deferred t = Some demo_message)"
proof -
  obtain t lo nxt where arm:
    "select_arm demo_prims demo_codec demo_env (Indexed (Some demo_message)) demo_volatile = (t, lo, nxt)"
    by (cases "select_arm demo_prims demo_codec demo_env (Indexed (Some demo_message)) demo_volatile") auto
  have "reach pool_starts (pool_trans demo_prims demo_codec) (demo_volatile, {})"
    by (rule reach_start) (auto simp: pool_starts_def demo_volatile_def)
  from indexed_or_deferred [OF this _ _ _ arm] arm show ?thesis
    by (simp add: demo_volatile_def pool_start_def pool_new_def demo_message_def)
qed

text \<open>C13. The representation invariant of the pool holds in every reachable state: working set and early
  vote buffer within the cache bound, the eviction order listing exactly the stored messages, every
  counted signature recovered from the signer it is counted for, signers of open messages in the
  current attestor set, and an in-flight message unresolved with no retry scheduled.\<close>

theorem pool_invariant:
  "reach pool_starts (pool_trans P C) (s, owed) \<Longrightarrow> pool_ok P (lp_state s)"
  using pool_loop.reach_inv by (fastforce simp: pool_inv_def)

theorem pool_invariant_witness: "pool_ok demo_prims (lp_state demo_voted)"
  by (rule pool_invariant [OF demo_reach])

text \<open>C14. The tick's refill never panics: when the prune arm ends the task it is because the work
  store reported an error, never because a slot was indexed that does not exist.\<close>

theorem refill_never_panics:
  assumes "reach pool_starts (pool_trans P C) (s, owed)" and "prune_arm P C env s = (t, out, Return_Err e)"
  shows "\<exists>we. e = WorkFailed we"
proof -
  have "pool_ok P (lp_state s)" using pool_loop.reach_inv [OF assms(1)] by (simp add: pool_inv_def)
  from prune_arm_no_panic [OF this assms(2)] show ?thesis by (cases e) simp_all
qed

definition demo_unreadable :: pool_loop where
  "demo_unreadable = pool_start [\<lparr>ra_chain_key = 7, ra_attestors = [5], ra_threshold = 1\<rparr>]
     \<lparr>vc_ttl_seconds = 60, vc_max_messages = 2\<rparr> (Some (for_checkpoint\<lparr>ws_dirs := [(7, [])]\<rparr>))"

definition demo_broken_disk :: loop_env where
  "demo_broken_disk = demo_env\<lparr>le_refill := \<lparr>rf_pending = (\<lambda>_. no_faults\<lparr>io_read_dir_ok := False\<rparr>),
     rf_record = (\<lambda>_. no_faults)\<rparr>\<rparr>"

lemma demo_broken_tick:
  "\<exists>t out e. prune_arm demo_prims demo_codec demo_broken_disk demo_unreadable = (t, out, Return_Err e)"
  by (simp add: prune_arm_def demo_broken_disk_def demo_defs demo_unreadable_def pool_start_def pool_new_def prune_expired_def
      hm_map_values_def route_prune_expired_def hm_retain_def refill_backlog_def refill_def refill_route_def work_pending_def
      for_checkpoint_def no_faults_def Let_def)

theorem refill_never_panics_witness:
  "\<exists>t out we. prune_arm demo_prims demo_codec demo_broken_disk demo_unreadable = (t, out, Return_Err (WorkFailed we))"
proof -
  have "reach pool_starts (pool_trans demo_prims demo_codec) (demo_unreadable, {})"
    by (rule reach_start) (auto simp: pool_starts_def demo_unreadable_def)
  from refill_never_panics [OF this, of demo_broken_disk] demo_broken_tick show ?thesis by blast
qed


definition demo_slot :: message_slot where
  "demo_slot = (new_slot demo_message 0)\<lparr>ms_signers := [(5, demo_sig)]\<rparr>"

definition demo_route :: route_state where
  "demo_route = \<lparr>rt_attestors = [5], rt_threshold = 1, rt_by_message = [(11, demo_slot)], rt_order = [11],
     rt_cache_max = 2, rt_early_votes = []\<rparr>"

definition demo_pool :: pool_state where
  "demo_pool = \<lparr>st_by_route = [(7, demo_route)], st_cache = \<lparr>vc_ttl_seconds = 60, vc_max_messages = 2\<rparr>\<rparr>"


text \<open>Quorum intersection: any two sets of signers that reach the threshold of an attestor set of
  \<open>n\<close> members share more than a third of it, so two conflicting certificates need that many
  attestors to sign both; and the threshold is reachable whenever there are attestors at all.\<close>

theorem quorum_intersection:
  assumes "A \<subseteq> set atts" and "B \<subseteq> set atts" and "distinct atts"
    and "calculate_threshold (length atts) \<le> card A" and "calculate_threshold (length atts) \<le> card B"
  shows "length atts div 3 < card (A \<inter> B) \<and> calculate_threshold (length atts) \<le> length atts"
proof -
  have fin: "finite A" "finite B" using assms(1,2) finite_subset by auto
  have "card (A \<union> B) \<le> length atts"
    using card_mono [of "set atts" "A \<union> B"] assms(1-3) by (simp add: distinct_card)
  moreover have "card (A \<union> B) + card (A \<inter> B) = card A + card B" using card_Un_Int [OF fin] by simp
  moreover have "card A \<le> length atts"
    using card_mono [of "set atts" A] assms(1,3) by (simp add: distinct_card)
  ultimately show ?thesis using assms(4,5) by (simp add: calculate_threshold_def)
qed

theorem quorum_intersection_witness:
  "length [1, 2, 3 :: address] div 3 < card ({1, 2, 3 :: address} \<inter> {1, 2, 3})
   \<and> calculate_threshold (length [1, 2, 3 :: address]) \<le> length [1, 2, 3 :: address]"
  by (rule quorum_intersection) (simp_all add: calculate_threshold_def)

text \<open>Only canonical signatures count. A vote's signer is recovered only from a signature whose
  recovery id is 27 or 28 and whose \<open>s\<close> is at most half the group order, and the malleated twin of
  an accepted signature (\<open>s\<close> replaced by the order minus \<open>s\<close>) is rejected whatever its recovery id.\<close>

theorem recover_signer_canonical:
  assumes "recover_signer P hash raw = Inr a"
    and "be_nat (take 32 (drop 32 raw')) = 2 * be_nat SECP256K1_HALF_ORDER_BE + 1 - be_nat (take 32 (drop 32 raw))"
  shows "raw ! 64 \<in> {27, 28} \<and> be_nat (take 32 (drop 32 raw)) \<le> be_nat SECP256K1_HALF_ORDER_BE
    \<and> ecrecover P hash raw = Some a \<and> (\<exists>e. recover_signer P hash' raw' = Inl e)"
proof -
  have low: "be_nat (take 32 (drop 32 raw)) \<le> be_nat SECP256K1_HALF_ORDER_BE"
    and v: "raw ! 64 \<in> {27, 28}" and ec: "ecrecover P hash raw = Some a"
    using assms(1) by (auto simp: recover_signer_def Let_def split: if_splits option.splits)
  from low assms(2) have "be_nat SECP256K1_HALF_ORDER_BE < be_nat (take 32 (drop 32 raw'))" by linarith
  then have "\<exists>e. recover_signer P hash' raw' = Inl e" by (auto simp: recover_signer_def Let_def)
  with low v ec show ?thesis by simp
qed

text \<open>The group order of secp256k1, in the \<open>s\<close> part of a signature.\<close>

definition demo_twin :: bytes where
  "demo_twin = 5 # replicate 31 0 @
     [0xFF, 0xFF, 0xFF, 0xFF, 0xFF, 0xFF, 0xFF, 0xFF, 0xFF, 0xFF, 0xFF, 0xFF, 0xFF, 0xFF, 0xFF, 0xFE,
      0xBA, 0xAE, 0xDC, 0xE6, 0xAF, 0x48, 0xA0, 0x3B, 0xBF, 0xD2, 0x5E, 0x8C, 0xD0, 0x36, 0x41, 0x41, 27]"

theorem recover_signer_canonical_witness: "\<exists>e. recover_signer demo_prims 11 demo_twin = Inl e"
proof -
  have "be_nat (take 32 (drop 32 demo_twin)) = 2 * be_nat SECP256K1_HALF_ORDER_BE + 1 - be_nat (take 32 (drop 32 demo_sig))"
    by (simp add: demo_twin_def demo_sig_def SECP256K1_HALF_ORDER_BE_def) (simp add: be_nat_def)
  from recover_signer_canonical [OF demo_recover [of 11] this, of 11] show ?thesis by blast
qed

lemma delivery_retry_delay_doubling:
  "delivery_retry_delay n = secs (doubling 30 300 4 (unat n - 1))"
proof -
  have "unat (push_bit k (1 :: u64)) = 2 ^ k" if "k \<le> 4" for k
    using that unat_pow2_u64 [of k] by (simp add: push_bit_eq_mult)
  moreover have "unat (sat_sub n 1) = unat n - 1" by (simp add: unat_sat_sub)
  ultimately show ?thesis
    by (simp add: delivery_retry_delay_def doubling_def unat_sat DELIVERY_RETRY_BASE_def DELIVERY_RETRY_MAX_def
        min_def word_le_nat_alt Let_def)
qed

interpretation delivery_backoff: backoff "\<lambda>n. delivery_retry_delay (of_nat (min n 5))" "secs 30" "secs 300" 5
proof unfold_locales
  have small: "unat (of_nat (min n 5) :: u32) = min n 5" for n
    by (simp add: unsigned_of_nat take_bit_eq_mod)
  note d = delivery_retry_delay_doubling small
  show "delivery_retry_delay (of_nat (min a 5)) \<le> delivery_retry_delay (of_nat (min b 5))" if "a \<le> b" for a b
    unfolding d secs_mono using that by (intro doubling_mono) auto
  show "secs 30 \<le> delivery_retry_delay (of_nat (min a 5))" for a
    unfolding d secs_mono by (rule doubling_lo) simp
  show "delivery_retry_delay (of_nat (min a 5)) = secs 300" if "5 \<le> a" for a
    unfolding d using that by (simp add: doubling_def)
qed

text \<open>The delay before a failed delivery is attempted again never shrinks with the attempts, starts
  at 30 seconds and is capped at five minutes, from the fifth attempt on.\<close>

theorem delivery_retry_delay_schedule:
  "secs 30 \<le> delivery_retry_delay n \<and> delivery_retry_delay n \<le> secs 300
   \<and> (m \<le> n \<longrightarrow> delivery_retry_delay m \<le> delivery_retry_delay n)
   \<and> (5 \<le> n \<longrightarrow> delivery_retry_delay n = secs 300)"
proof -
  have fold: "delivery_retry_delay k = delivery_retry_delay (of_nat (min (unat k) 5))" for k
    by (simp add: delivery_retry_delay_doubling doubling_def unsigned_of_nat take_bit_eq_mod min_def) linarith
  have "5 \<le> unat n" if "5 \<le> n" using that by (simp add: word_le_nat_alt)
  moreover have "unat m \<le> unat n" if "m \<le> n" using that by (simp add: word_le_nat_alt)
  ultimately show ?thesis
    using delivery_backoff.delay_lo [of "unat n"] delivery_backoff.delay_hi [of "unat n"]
      delivery_backoff.delay_mono [of "unat m" "unat n"] delivery_backoff.delay_sat [of "unat n"]
    unfolding fold [of m] fold [of n] by blast
qed

theorem delivery_retry_delay_schedule_witness:
  "delivery_retry_delay 2 \<le> delivery_retry_delay 7 \<and> delivery_retry_delay 7 = secs 300"
  using delivery_retry_delay_schedule [of 7 2] by simp

end
