(* ===== verification/Text.thy ===== *)
theory Text
  imports Prelude "HOL-Library.Sublist"
begin

text \<open>
  The string operations of the standard library the relayer uses on error texts: substring
  search, ASCII classification and lower case, hexadecimal digits. A text is a list of
  characters; only its ASCII part is interpreted.
\<close>

section \<open>Substring search\<close>

fun find_sub :: "'a list \<Rightarrow> 'a list \<Rightarrow> nat option" where
  "find_sub needle [] = (if needle = [] then Some 0 else None)"
| "find_sub needle (c # cs) =
     (if prefix needle (c # cs) then Some 0 else map_option Suc (find_sub needle cs))"

definition occurs_at :: "'a list \<Rightarrow> 'a list \<Rightarrow> nat \<Rightarrow> bool" where
  "occurs_at needle hay i \<longleftrightarrow> prefix needle (drop i hay)"

definition contains_sub :: "'a list \<Rightarrow> 'a list \<Rightarrow> bool" where
  "contains_sub needle hay \<longleftrightarrow> find_sub needle hay \<noteq> None"

lemma find_sub_Some:
  "find_sub needle hay = Some i \<Longrightarrow>
     occurs_at needle hay i \<and> i + length needle \<le> length hay \<and> (\<forall>j < i. \<not> occurs_at needle hay j)"
proof (induction needle hay arbitrary: i rule: find_sub.induct)
  case (1 needle)
  then show ?case by (auto simp: occurs_at_def split: if_splits)
next
  case (2 needle c cs)
  show ?case
  proof (cases "prefix needle (c # cs)")
    case True
    with "2.prems" prefix_length_le [OF True] show ?thesis by (simp add: occurs_at_def)
  next
    case False
    with "2.prems" obtain k where k: "find_sub needle cs = Some k" "i = Suc k" by auto
    from "2.IH" [OF False k(1)] False k(2) show ?thesis
      by (auto simp: occurs_at_def less_Suc_eq_0_disj)
  qed
qed

lemma find_sub_None: "find_sub needle hay = None \<Longrightarrow> \<not> occurs_at needle hay i"
proof (induction needle hay arbitrary: i rule: find_sub.induct)
  case (1 needle)
  then show ?case by (auto simp: occurs_at_def split: if_splits)
next
  case (2 needle c cs)
  then show ?case
    by (cases i) (auto simp: occurs_at_def split: if_splits)
qed

lemma contains_sub_iff: "contains_sub needle hay \<longleftrightarrow> (\<exists>i. occurs_at needle hay i)"
  using find_sub_Some find_sub_None by (cases "find_sub needle hay") (fastforce simp: contains_sub_def)+

lemma find_sub_append:
  assumes "\<forall>j < length pre. \<not> occurs_at needle (pre @ needle @ post) j"
  shows "find_sub needle (pre @ needle @ post) = Some (length pre)"
proof (cases "find_sub needle (pre @ needle @ post)")
  case None
  from find_sub_None [OF None, of "length pre"] show ?thesis by (simp add: occurs_at_def)
next
  case (Some i)
  from find_sub_Some [OF Some] assms have "\<not> i < length pre" by blast
  moreover have "\<not> length pre < i" using find_sub_Some [OF Some] by (force simp: occurs_at_def)
  ultimately show ?thesis using Some by simp
qed

section \<open>Characters\<close>

definition code_of :: "char \<Rightarrow> nat" where "code_of c = of_char c"

definition is_digit :: "char \<Rightarrow> bool" where "is_digit c \<longleftrightarrow> 48 \<le> code_of c \<and> code_of c \<le> 57"

definition is_ascii_alphanumeric :: "char \<Rightarrow> bool" where
  "is_ascii_alphanumeric c \<longleftrightarrow> is_digit c \<or> 65 \<le> code_of c \<and> code_of c \<le> 90 \<or> 97 \<le> code_of c \<and> code_of c \<le> 122"

definition to_ascii_lower :: "char \<Rightarrow> char" where
  "to_ascii_lower c = (if 65 \<le> code_of c \<and> code_of c \<le> 90 then char_of (code_of c + 32) else c)"

definition hex_value :: "char \<Rightarrow> nat option" where
  "hex_value c =
     (let n = code_of c in
      if 48 \<le> n \<and> n \<le> 57 then Some (n - 48)
      else if 97 \<le> n \<and> n \<le> 102 then Some (n - 87)
      else if 65 \<le> n \<and> n \<le> 70 then Some (n - 55)
      else None)"

definition is_ascii_hexdigit :: "char \<Rightarrow> bool" where
  "is_ascii_hexdigit c \<longleftrightarrow> hex_value c \<noteq> None"

text \<open>\<^verbatim>\<open>hex::decode\<close>: pairs of digits, most significant first; an odd length or another character fails.\<close>

fun hex_decode :: "string \<Rightarrow> bytes option" where
  "hex_decode [] = Some []"
| "hex_decode [c] = None"
| "hex_decode (c # d # rest) =
     (case (hex_value c, hex_value d, hex_decode rest) of
        (Some hi, Some lo, Some bs) \<Rightarrow> Some (of_nat (16 * hi + lo) # bs)
      | _ \<Rightarrow> None)"

lemma code_of_char_of [simp]: "n < 256 \<Longrightarrow> code_of (char_of n) = n"
  by (simp add: code_of_def)

lemma hex_value_lower: "hex_value (to_ascii_lower c) = hex_value c"
  by (auto simp: hex_value_def to_ascii_lower_def Let_def)

lemma hex_decode_lower: "hex_decode (map to_ascii_lower s) = hex_decode s"
  by (induction s rule: hex_decode.induct) (simp_all add: hex_value_lower)

lemma hex_decode_total:
  "list_all is_ascii_hexdigit s \<Longrightarrow> even (length s) \<Longrightarrow>
     \<exists>bs. hex_decode s = Some bs \<and> length bs = length s div 2"
  by (induction s rule: hex_decode.induct) (auto simp: is_ascii_hexdigit_def)

lemma hex_decode_append:
  "even (length s) \<Longrightarrow> hex_decode s = Some a \<Longrightarrow> hex_decode t = Some b \<Longrightarrow> hex_decode (s @ t) = Some (a @ b)"
  by (induction s arbitrary: a rule: hex_decode.induct) (auto split: option.splits)

section \<open>Numbers\<close>

text \<open>\<^verbatim>\<open>Display\<close> of an unsigned integer.\<close>

fun decimal :: "nat \<Rightarrow> string" where
  "decimal n = (if n < 10 then [char_of (48 + n)] else decimal (n div 10) @ [char_of (48 + n mod 10)])"

declare decimal.simps [simp del]

definition undecimal :: "string \<Rightarrow> nat" where
  "undecimal s = foldl (\<lambda>acc c. acc * 10 + (code_of c - 48)) 0 s"

lemma undecimal_decimal [simp]: "undecimal (decimal n) = n"
proof (induction n rule: decimal.induct)
  case (1 n)
  then show ?case by (cases "n < 10") (simp_all add: decimal.simps [of n] undecimal_def)
qed

lemma decimal_inj [simp]: "decimal a = decimal b \<longleftrightarrow> a = b"
  by (metis undecimal_decimal)

lemma decimal_digits: "c \<in> set (decimal n) \<Longrightarrow> is_digit c"
proof (induction n rule: decimal.induct)
  case (1 n)
  then show ?case
    by (cases "n < 10") (auto simp: decimal.simps [of n] is_digit_def)
qed

text \<open>\<^verbatim>\<open>to_be_bytes\<close> of an integer of \<open>n\<close> bytes.\<close>

definition to_be_bytes :: "nat \<Rightarrow> nat \<Rightarrow> bytes" where
  "to_be_bytes n x = map (\<lambda>i. of_nat (x div 256 ^ (n - 1 - i))) [0..<n]"

lemma length_to_be_bytes [simp]: "length (to_be_bytes n x) = n"
  by (simp add: to_be_bytes_def)

lemma to_be_bytes_Suc: "to_be_bytes (Suc n) x = to_be_bytes n (x div 256) @ [of_nat x]"
proof -
  have "x div 256 ^ (n - i) = x div 256 div 256 ^ (n - Suc i)" if "i < n" for i
    using that by (simp add: Suc_diff_Suc flip: div_mult2_eq power_Suc)
  then show ?thesis by (simp add: to_be_bytes_def)
qed

lemma be_nat_to_be_bytes: "be_nat (to_be_bytes n x) = x mod 256 ^ n"
proof (induction n arbitrary: x)
  case 0
  then show ?case by (simp add: to_be_bytes_def)
next
  case (Suc n)
  have "unat (of_nat x :: u8) = x mod 256" by (simp add: unsigned_of_nat take_bit_eq_mod)
  then show ?case by (simp add: to_be_bytes_Suc Suc mod_mult2_eq)
qed

section \<open>Hexadecimal text\<close>

definition hex_digit :: "nat \<Rightarrow> char" where
  "hex_digit n = char_of (if n < 10 then 48 + n else 87 + n)"

text \<open>\<^verbatim>\<open>hex::encode\<close>: two lower-case digits per byte.\<close>

definition hex_encode :: "bytes \<Rightarrow> string" where
  "hex_encode bs = concat (map (\<lambda>b. [hex_digit (unat b div 16), hex_digit (unat b mod 16)]) bs)"

lemma hex_value_digit: "n < 16 \<Longrightarrow> hex_value (hex_digit n) = Some n"
  by (auto simp: hex_value_def hex_digit_def Let_def)

lemma length_hex_encode [simp]: "length (hex_encode bs) = 2 * length bs"
  by (induction bs) (simp_all add: hex_encode_def)

lemma hex_decode_encode [simp]: "hex_decode (hex_encode bs) = Some bs"
proof (induction bs)
  case Nil
  then show ?case by (simp add: hex_encode_def)
next
  case (Cons b bs)
  have b: "unat b < 256" using unsigned_less [of b] by simp
  then have "of_nat (16 * (unat b div 16) + unat b mod 16) = b" by simp
  with Cons b show ?case
    by (simp add: hex_encode_def hex_value_digit)
qed

end
