(* ===== verification/Revert.thy ===== *)
theory Revert
  imports Text
begin

text \<open>
  Classification of revert errors (\<^verbatim>\<open>message-relayer/src/revert.rs\<close>): the payload and selector
  found in an error text, and the phrases of a deterministic revert.
\<close>

definition after_data_hex :: "string \<Rightarrow> string option" where
  "after_data_hex s =
     (case find_sub ''data'' s of
        None \<Rightarrow> None
      | Some data_at \<Rightarrow>
          (case find_sub ''0x'' (drop data_at s) of
             None \<Rightarrow> None
           | Some k \<Rightarrow> Some (drop (k + data_at + 2) s)))"

definition revert_data :: "string \<Rightarrow> bytes option" where
  "revert_data s =
     (case after_data_hex s of
        None \<Rightarrow> None
      | Some rest \<Rightarrow>
          let hex = takeWhile is_ascii_hexdigit rest in
          if length hex < 8 \<or> odd (length hex) then None
          else hex_decode (map to_ascii_lower hex))"

definition revert_selector :: "string \<Rightarrow> bytes option" where
  "revert_selector s =
     (case after_data_hex s of
        None \<Rightarrow> None
      | Some rest \<Rightarrow>
          let hex = take 8 (takeWhile is_ascii_hexdigit rest) in
          if length hex < 8 then None else hex_decode (map to_ascii_lower hex))"

definition has_selector :: "string \<Rightarrow> bytes \<Rightarrow> bool" where
  "has_selector s sel \<longleftrightarrow> revert_selector s = Some sel"

definition is_revert :: "string \<Rightarrow> bool" where
  "is_revert s =
     (let lower = map to_ascii_lower s in
      contains_sub ''execution reverted'' lower
      \<or> contains_sub ''vm exception while processing transaction'' lower
      \<or> contains_sub ''transaction reverted'' lower)"

section \<open>Payload and selector agree\<close>

lemma hexdigits_takeWhile: "list_all is_ascii_hexdigit (takeWhile is_ascii_hexdigit s)"
  by (auto simp: list_all_iff dest: set_takeWhileD)

lemma hex_decode_take:
  assumes "hex_decode s = Some bs"
  shows "hex_decode (take (2 * n) s) = Some (take n bs)"
  using assms
proof (induction s arbitrary: bs n rule: hex_decode.induct)
  case (3 c d rest)
  then show ?case by (cases n) (auto split: option.splits)
qed simp_all

lemma revert_data_selector:
  assumes "revert_data s = Some bs"
  shows "revert_selector s = Some (take 4 bs)" and "4 \<le> length bs"
proof -
  obtain rest where rest: "after_data_hex s = Some rest"
    using assms by (auto simp: revert_data_def split: option.splits)
  define h where "h = takeWhile is_ascii_hexdigit rest"
  have len: "8 \<le> length h" "even (length h)" and dec: "hex_decode h = Some bs"
    using assms rest by (auto simp: revert_data_def Let_def h_def hex_decode_lower split: if_splits)
  show "revert_selector s = Some (take 4 bs)"
    using hex_decode_take [OF dec, of 4] len(1) rest
    by (simp add: revert_selector_def Let_def h_def hex_decode_lower)
  obtain bs' where "hex_decode h = Some bs'" "length bs' = length h div 2"
    using hex_decode_total [of h] len(2) hexdigits_takeWhile [of rest] by (auto simp: h_def)
  with dec len show "4 \<le> length bs" by simp
qed

end
