(* ===== verification/Classify.thy ===== *)
theory Classify
  imports Revert Messages
begin

text \<open>
  The delivery worker's classifications (\<^verbatim>\<open>message-relayer/src/delivery/mod.rs\<close>): the envelope's
  terms, the funding read from the source ledger, the revert of a call, the logs of a successful
  receipt, the gas bump, the idle-liveness rule, and the bookkeeping of top-up requests.
\<close>

section \<open>What the generated bindings provide\<close>

text \<open>
  Selectors, event signature hashes and ABI decoders are generated by the \<^verbatim>\<open>sol!\<close> macro of alloy
  from the contract interfaces: fields of this record, an argument of what uses them.
\<close>

record log =
  lg_address :: address
  lg_topics :: "b256 list"
  lg_data :: bytes

record inbox_abi =
  sel_validation_failed :: bytes
  sel_invalid_dispatcher :: bytes
  sel_insufficient_gas :: bytes
  sel_already_validated :: bytes
  sel_already_processed :: bytes
  sig_destination_failed :: b256
  sig_message_queued :: b256
  sig_message_deferred :: b256
  sig_message_executed :: b256
  dec_dest_failed :: "log \<Rightarrow> address option"
  dec_executed :: "log \<Rightarrow> bool"
  dec_retry_deferred :: "bytes \<Rightarrow> u64 option"
  dec_envelope :: "bytes \<Rightarrow> (u256 \<times> u256) option"

text \<open>A contract error of alloy: the structured revert data, if any, and the printed text.\<close>

record contract_error =
  ce_revert_data :: "bytes option"
  ce_text :: string

section \<open>Envelope\<close>

record envelope_terms =
  et_native_value :: u256
  et_gas_limit :: "u256 option"

definition envelope_terms_of :: "inbox_abi \<Rightarrow> bytes \<Rightarrow> envelope_terms" where
  "envelope_terms_of A payload =
     (case dec_envelope A payload of
        Some (native_value, gas_limit) \<Rightarrow> \<lparr>et_native_value = native_value, et_gas_limit = Some gas_limit\<rparr>
      | None \<Rightarrow> \<lparr>et_native_value = 0, et_gas_limit = None\<rparr>)"

section \<open>Funding\<close>

definition MAX_FUNDED_GAS :: nat where "MAX_FUNDED_GAS = 100000000"
definition TOP_UP_DEADLINE_GRACE :: duration where "TOP_UP_DEADLINE_GRACE = secs 900"

record message_funding =
  mf_gas :: "u64 option"
  mf_delivery_deadline :: "u64 option"
  mf_relay_settled :: bool

definition funding_unknown :: message_funding where
  "funding_unknown = \<lparr>mf_gas = None, mf_delivery_deadline = None, mf_relay_settled = False\<rparr>"

text \<open>\<^verbatim>\<open>MessageInfo\<close> of the ledger, as far as it is read.\<close>

record message_info =
  mi_gas_limit :: u256
  mi_delivery_deadline :: u256
  mi_relay_settled :: bool

definition read_message_funding :: "contract_error + message_info \<Rightarrow> contract_error + message_funding" where
  "read_message_funding answer =
     (case answer of
        Inl err \<Rightarrow> Inl err
      | Inr info \<Rightarrow>
          let deadline = Some (sat_to_u64 (mi_delivery_deadline info)) in
          if mi_gas_limit info = 0
          then Inr \<lparr>mf_gas = None, mf_delivery_deadline = deadline, mf_relay_settled = mi_relay_settled info\<rparr>
          else if of_nat MAX_FUNDED_GAS < mi_gas_limit info then Inr funding_unknown
          else Inr \<lparr>mf_gas = Some (sat_to_u64 (mi_gas_limit info)), mf_delivery_deadline = deadline,
                    mf_relay_settled = mi_relay_settled info\<rparr>)"

datatype foreclosed = RelaySettled | DeadlinePassed

definition top_up_foreclosed :: "message_funding \<Rightarrow> u64 option \<Rightarrow> foreclosed option" where
  "top_up_foreclosed f now =
     (if mf_relay_settled f then Some RelaySettled
      else case (mf_delivery_deadline f, now) of
             (Some deadline, Some n) \<Rightarrow>
               if sat_add deadline (of_nat (as_secs TOP_UP_DEADLINE_GRACE)) < n then Some DeadlinePassed else None
           | _ \<Rightarrow> None)"

section \<open>Top-up requests\<close>

definition MAX_TOP_UP_ATTEMPTS :: u8 where "MAX_TOP_UP_ATTEMPTS = 3"

datatype top_up_mark = InFlight u8 | Settled | Failed u8

type_synonym top_up_ledger = "(b256, top_up_mark) hash_map"

datatype top_up_refusal = AlreadyInFlight | AlreadyRequested | AttemptsExhausted

definition top_up_begin :: "b256 \<Rightarrow> top_up_ledger \<Rightarrow> top_up_ledger \<times> (top_up_refusal + u8)" where
  "top_up_begin i marks =
     (let go = (\<lambda>attempts. (hm_insert i (InFlight attempts) marks, Inr attempts)) in
      case hm_get marks i of
        Some (InFlight _) \<Rightarrow> (marks, Inl AlreadyInFlight)
      | Some Settled \<Rightarrow> (marks, Inl AlreadyRequested)
      | Some (Failed attempts) \<Rightarrow>
          if MAX_TOP_UP_ATTEMPTS \<le> attempts then (marks, Inl AttemptsExhausted) else go (attempts + 1)
      | None \<Rightarrow> go 1)"

definition top_up_settle :: "b256 \<Rightarrow> top_up_ledger \<Rightarrow> top_up_ledger" where
  "top_up_settle i marks = hm_insert i Settled marks"

definition top_up_fail :: "b256 \<Rightarrow> top_up_ledger \<Rightarrow> top_up_ledger" where
  "top_up_fail i marks =
     (case hm_get marks i of
        Some (InFlight attempts) \<Rightarrow> hm_insert i (Failed attempts) marks
      | Some (Failed attempts) \<Rightarrow> hm_insert i (Failed attempts) marks
      | Some Settled \<Rightarrow> marks
      | None \<Rightarrow> hm_insert i (Failed 1) marks)"

section \<open>Reverts\<close>

datatype delivery_revert =
    Duplicate
  | ValidationFailedWithNativeValue
  | InvalidMessageDispatcher
  | InsufficientGasForDestination
  | OtherRevert

definition revert_duplicate_delivery :: "inbox_abi \<Rightarrow> string \<Rightarrow> bool" where
  "revert_duplicate_delivery A s =
     (let sel = revert_selector s in
      contains_sub ''Already validated'' s
      \<or> contains_sub ''MessageAlreadyValidated'' s
      \<or> sel = Some (sel_already_validated A)
      \<or> contains_sub ''MessageAlreadyProcessed'' s
      \<or> sel = Some (sel_already_processed A))"

definition classify_revert_str :: "inbox_abi \<Rightarrow> string \<Rightarrow> bytes option \<Rightarrow> delivery_revert option" where
  "classify_revert_str A s sel0 =
     (let sel = option_or sel0 (revert_selector s);
          is = (\<lambda>selector name. sel = Some selector \<or> contains_sub name s)
      in if revert_duplicate_delivery A s then Some Duplicate
         else if is (sel_validation_failed A) ''ValidationFailedWithNativeValue''
         then Some ValidationFailedWithNativeValue
         else if is (sel_invalid_dispatcher A) ''InvalidMessageDispatcher'' then Some InvalidMessageDispatcher
         else if is (sel_insufficient_gas A) ''InsufficientGasForDestination''
         then Some InsufficientGasForDestination
         else if is_revert s \<or> sel \<noteq> None then Some OtherRevert
         else None)"

definition classify_delivery_revert :: "inbox_abi \<Rightarrow> contract_error \<Rightarrow> delivery_revert option" where
  "classify_delivery_revert A err =
     (let sel = (case ce_revert_data err of
                   None \<Rightarrow> None
                 | Some d \<Rightarrow> if 4 \<le> length d then Some (take 4 d) else None)
      in classify_revert_str A (ce_text err) sel)"

definition decode_retry_deferred_str :: "inbox_abi \<Rightarrow> string \<Rightarrow> u64 option" where
  "decode_retry_deferred_str A s =
     (case revert_data s of None \<Rightarrow> None | Some d \<Rightarrow> dec_retry_deferred A d)"

definition decode_retry_deferred :: "inbox_abi \<Rightarrow> contract_error \<Rightarrow> u64 option" where
  "decode_retry_deferred A err =
     option_or (case ce_revert_data err of None \<Rightarrow> None | Some d \<Rightarrow> dec_retry_deferred A d)
       (decode_retry_deferred_str A (ce_text err))"

section \<open>Receipts\<close>

datatype receipt_class = RcDelivered | RcDestinationFailed address | RcPending | RcUnknown

fun classify_logs_from :: "inbox_abi \<Rightarrow> address \<Rightarrow> b256 \<Rightarrow> log list \<Rightarrow> bool \<Rightarrow> bool \<Rightarrow> receipt_class" where
  "classify_logs_from A inbox mid [] pending executed =
     (if pending then RcPending else if executed then RcDelivered else RcUnknown)"
| "classify_logs_from A inbox mid (l # ls) pending executed =
     (if lg_address l \<noteq> inbox \<or> \<not> (1 < length (lg_topics l) \<and> lg_topics l ! 1 = mid)
      then classify_logs_from A inbox mid ls pending executed
      else let t = hd (lg_topics l) in
      if t = sig_destination_failed A
      then RcDestinationFailed (case dec_dest_failed A l of None \<Rightarrow> 0 | Some d \<Rightarrow> d)
      else if t = sig_message_queued A \<or> t = sig_message_deferred A
      then classify_logs_from A inbox mid ls True executed
      else if t = sig_message_executed A
      then classify_logs_from A inbox mid ls pending (dec_executed A l)
      else classify_logs_from A inbox mid ls pending executed)"

definition classify_success_logs :: "inbox_abi \<Rightarrow> address \<Rightarrow> b256 \<Rightarrow> log list \<Rightarrow> receipt_class" where
  "classify_success_logs A inbox mid logs = classify_logs_from A inbox mid logs False False"

section \<open>Gas\<close>

definition bumped_gas_limit :: "u64 option \<Rightarrow> u64 option \<Rightarrow> u64 \<Rightarrow> u64 option" where
  "bumped_gas_limit current envelope_gas cap =
     (case option_or current envelope_gas of
        None \<Rightarrow> None
      | Some base \<Rightarrow>
          if cap \<le> base then None
          else let bumped = max (sat_mul base 5 div 4) (sat_add base 1) in Some (min bumped cap))"

section \<open>Idle liveness\<close>

definition HEALTH_TICK :: duration where "HEALTH_TICK = secs 15"

definition idle_ticker_should_heartbeat ::
  "duration option \<Rightarrow> duration option \<Rightarrow> duration \<Rightarrow> duration \<Rightarrow> bool" where
  "idle_ticker_should_heartbeat since_job since_error tick grace =
     (let past_error_grace = is_none_or (\<lambda>elapsed. grace \<le> elapsed) since_error in
      case since_job of
        None \<Rightarrow> True
      | Some elapsed \<Rightarrow> past_error_grace \<and> tick \<le> elapsed)"

section \<open>Facts\<close>

lemma bumped_gas_limit_bounds:
  assumes "bumped_gas_limit current envelope cap = Some next"
  obtains base where "option_or current envelope = Some base" "base < next" "next \<le> cap"
proof -
  obtain base where b: "option_or current envelope = Some base" "\<not> cap \<le> base"
    and n: "next = min (max (sat_mul base 5 div 4) (sat_add base 1)) cap"
    using assms by (auto simp: bumped_gas_limit_def Let_def split: option.splits if_splits)
  have "unat base < unat cap" "unat cap < 2 ^ 64"
    using b(2) unsigned_less [of cap, where 'a = nat] by (simp_all add: word_le_nat_alt)
  then have "unat (sat_add base 1) = Suc (unat base)" by (simp add: unat_sat)
  then have "base < sat_add base 1" by (simp add: word_less_nat_alt)
  with b(2) have "base < next" unfolding n by (simp add: less_max_iff_disj not_le)
  with b(1) n that show ?thesis by simp
qed

lemma read_funding_bound:
  assumes "read_message_funding answer = Inr f" and "mf_gas f = Some g"
  shows "0 < unat g \<and> unat g \<le> MAX_FUNDED_GAS"
proof -
  obtain info where a: "answer = Inr info" using assms(1) by (cases answer) (auto simp: read_message_funding_def)
  have info: "mi_gas_limit info \<noteq> 0" "\<not> of_nat MAX_FUNDED_GAS < mi_gas_limit info" "g = sat_to_u64 (mi_gas_limit info)"
    using assms by (auto simp: a read_message_funding_def Let_def funding_unknown_def split: if_splits)
  have "unat (of_nat MAX_FUNDED_GAS :: u256) = MAX_FUNDED_GAS"
    by (simp add: MAX_FUNDED_GAS_def)
  with info(2) have "unat (mi_gas_limit info) \<le> MAX_FUNDED_GAS" by (simp add: word_less_nat_alt)
  moreover have "0 < unat (mi_gas_limit info)" using info(1) by (simp add: unat_gt_0)
  ultimately show ?thesis using info(3) by (simp add: unat_sat_to_u64 MAX_FUNDED_GAS_def)
qed

text \<open>Only the logs of the expected contract for the expected message matter.\<close>

definition relevant :: "address \<Rightarrow> b256 \<Rightarrow> log \<Rightarrow> bool" where
  "relevant inbox mid l \<longleftrightarrow> lg_address l = inbox \<and> 1 < length (lg_topics l) \<and> lg_topics l ! 1 = mid"

lemma classify_logs_filter:
  "classify_logs_from A inbox mid logs p e = classify_logs_from A inbox mid (filter (relevant inbox mid) logs) p e"
  by (induction logs arbitrary: p e) (auto simp: relevant_def Let_def)

lemma classify_delivered:
  "classify_logs_from A inbox mid logs p e = RcDelivered \<Longrightarrow>
     e \<or> (\<exists>l \<in> set logs. relevant inbox mid l \<and> hd (lg_topics l) = sig_message_executed A \<and> dec_executed A l)"
  by (induction logs arbitrary: p e) (auto simp: relevant_def Let_def split: if_splits)

lemma classify_failed_first:
  "sig_destination_failed A \<notin> {sig_message_queued A, sig_message_deferred A, sig_message_executed A} \<Longrightarrow>
   (\<exists>d. classify_logs_from A inbox mid logs p e = RcDestinationFailed d) \<longleftrightarrow>
     (\<exists>l \<in> set logs. relevant inbox mid l \<and> hd (lg_topics l) = sig_destination_failed A)"
  by (induction logs arbitrary: p e) (auto simp: relevant_def Let_def)

section \<open>The top-up budget\<close>

text \<open>
  A run over one message: a refusal asks for a request, the detached sender reports back. The
  counter is the number of requests sent.
\<close>

datatype top_up_event = TopUpRefused | TopUpLanded | TopUpFailed

fun top_up_step :: "b256 \<Rightarrow> top_up_event \<Rightarrow> top_up_ledger \<times> nat \<Rightarrow> top_up_ledger \<times> nat" where
  "top_up_step i TopUpRefused (m, n) =
     (case top_up_begin i m of (m', Inr _) \<Rightarrow> (m', n + 1) | (m', Inl _) \<Rightarrow> (m', n))"
| "top_up_step i TopUpLanded (m, n) =
     (case hm_get m i of Some (InFlight _) \<Rightarrow> (top_up_settle i m, n) | _ \<Rightarrow> (m, n))"
| "top_up_step i TopUpFailed (m, n) =
     (case hm_get m i of Some (InFlight _) \<Rightarrow> (top_up_fail i m, n) | _ \<Rightarrow> (m, n))"

definition top_up_inv :: "b256 \<Rightarrow> top_up_ledger \<times> nat \<Rightarrow> bool" where
  "top_up_inv i s = (case s of (m, n) \<Rightarrow>
     (case hm_get m i of
        None \<Rightarrow> n = 0
      | Some (InFlight a) \<Rightarrow> n = unat a \<and> n \<le> 3
      | Some (Failed a) \<Rightarrow> n = unat a \<and> n \<le> 3
      | Some Settled \<Rightarrow> n \<le> 3))"

lemma top_up_step_inv: "top_up_inv i s \<Longrightarrow> top_up_inv i (top_up_step i ev s)"
proof -
  assume inv: "top_up_inv i s"
  obtain m n where s: "s = (m, n)" by fastforce
  have bump: "unat (a + 1) = Suc (unat a)" if "\<not> MAX_TOP_UP_ATTEMPTS \<le> a" for a :: u8
  proof -
    have "unat a < 3" using that by (simp add: MAX_TOP_UP_ATTEMPTS_def word_le_nat_alt)
    then show ?thesis by (simp add: unat_word_ariths)
  qed
  show ?thesis
  proof (cases ev)
    case TopUpRefused
    with inv bump show ?thesis
      by (auto simp: s top_up_inv_def top_up_begin_def Let_def update_conv' MAX_TOP_UP_ATTEMPTS_def word_le_nat_alt
          split: option.splits top_up_mark.splits if_splits)
  next
    case TopUpLanded
    with inv show ?thesis
      by (auto simp: s top_up_inv_def top_up_settle_def update_conv' split: option.splits top_up_mark.splits)
  next
    case TopUpFailed
    with inv show ?thesis
      by (auto simp: s top_up_inv_def top_up_fail_def update_conv' split: option.splits top_up_mark.splits)
  qed
qed

end
