(* ===== verification/Bounded.thy ===== *)
theory Bounded
  imports Prelude
begin

text \<open>
  Two bounded first-in first-out memories: the set of recently finished transactions
  (\<^verbatim>\<open>BoundedSeen\<close> of \<^verbatim>\<open>pending.rs\<close>) and the store of delivery outcomes (\<^verbatim>\<open>outcome.rs\<close>). Both
  implement one interface, on which the retention guarantee is proved once.
\<close>

section \<open>The interface\<close>

definition keep_last :: "nat \<Rightarrow> 'a list \<Rightarrow> 'a list" where
  "keep_last n xs = drop (length xs - n) xs"

lemma keep_last_short [simp]: "length xs \<le> n \<Longrightarrow> keep_last n xs = xs"
  by (simp add: keep_last_def)

lemma keep_last_length: "length (keep_last n xs) \<le> n"
  by (simp add: keep_last_def)

lemma keep_last_distinct: "distinct xs \<Longrightarrow> distinct (keep_last n xs)"
  by (simp add: keep_last_def)

lemma keep_last_sub: "set (keep_last n xs) \<subseteq> set xs"
  by (simp add: keep_last_def set_drop_subset)

lemma keep_last_snoc: "keep_last n (keep_last n xs @ [x]) = keep_last n (xs @ [x])"
proof (cases "n \<le> length xs")
  case True
  define k where "k = length xs - n"
  have "keep_last n xs @ [x] = drop k (xs @ [x])" using True by (simp add: keep_last_def k_def)
  moreover have "length (drop k (xs @ [x])) = Suc n" using True by (simp add: k_def del: drop_append)
  ultimately have "keep_last n (keep_last n xs @ [x]) = drop (Suc k) (xs @ [x])"
    by (simp add: keep_last_def del: drop_append)
  with True show ?thesis by (simp add: keep_last_def k_def Suc_diff_le del: drop_append)
qed simp

lemma keep_last_append: "length ys \<le> n \<Longrightarrow> set ys \<subseteq> set (keep_last n (xs @ ys))"
proof -
  assume "length ys \<le> n"
  then have "length (xs @ ys) - n \<le> length xs" by simp
  then show ?thesis by (simp add: keep_last_def)
qed

text \<open>
  \<open>items\<close> lists the remembered keys, oldest first. Adding a key that is remembered changes
  nothing of the list; a new key goes to the end and the overflow is dropped at the front.
\<close>

locale bounded_fifo =
  fixes items :: "'s \<Rightarrow> b256 list" and add :: "b256 \<Rightarrow> 's \<Rightarrow> 's" and cap :: "'s \<Rightarrow> nat" and ok :: "'s \<Rightarrow> bool"
  assumes add_items: "ok s \<Longrightarrow> items (add x s) =
      (if x \<in> set (items s) then items s else keep_last (cap s) (items s @ [x]))"
    and add_ok: "ok s \<Longrightarrow> ok (add x s) \<and> cap (add x s) = cap s"
    and items_bound: "ok s \<Longrightarrow> distinct (items s) \<and> length (items s) \<le> cap s"
begin

lemma fold_ok: "ok s \<Longrightarrow> ok (fold add xs s) \<and> cap (fold add xs s) = cap s"
  by (induction xs arbitrary: s) (simp_all add: add_ok)

lemma newest_remembered: "ok s \<Longrightarrow> 0 < cap s \<Longrightarrow> x \<in> set (items (add x s))"
  using keep_last_append [of "[x]" "cap s" "items s"] by (auto simp: add_items)

text \<open>New distinct keys, at most as many as the capacity, are all remembered, in order.\<close>

lemma fold_items:
  assumes "ok s" and "distinct xs" and "set xs \<inter> set (items s) = {}"
  shows "items (fold add xs s) = keep_last (cap s) (items s @ xs)"
  using assms
proof (induction xs rule: rev_induct)
  case Nil
  with items_bound [of s] show ?case by simp
next
  case (snoc x xs)
  have IH: "items (fold add xs s) = keep_last (cap s) (items s @ xs)" using snoc by simp
  have "x \<notin> set (items (fold add xs s))"
    using snoc.prems(2,3) keep_last_sub [of "cap s" "items s @ xs"] by (auto simp: IH)
  with add_items [of "fold add xs s" x] fold_ok [OF snoc.prems(1), of xs] keep_last_snoc [of "cap s" "items s @ xs" x]
  show ?case by (simp add: IH)
qed

lemma recent_remembered:
  assumes "ok s" and "distinct xs" and "set xs \<inter> set (items s) = {}" and "length xs \<le> cap s"
  shows "set xs \<subseteq> set (items (fold add xs s))"
  unfolding fold_items [OF assms(1-3)] by (rule keep_last_append [OF assms(4)])

end

section \<open>Recently finished transactions\<close>

record bounded_seen =
  bs_set :: "b256 set"
  bs_order :: "b256 list"
  bs_cap :: nat

definition seen_new :: "nat \<Rightarrow> bounded_seen" where
  "seen_new cap = \<lparr>bs_set = {}, bs_order = [], bs_cap = cap\<rparr>"

definition seen_contains :: "b256 \<Rightarrow> bounded_seen \<Rightarrow> bool" where
  "seen_contains tx s \<longleftrightarrow> tx \<in> bs_set s"

definition seen_insert :: "b256 \<Rightarrow> bounded_seen \<Rightarrow> bounded_seen" where
  "seen_insert tx s =
     (if tx \<in> bs_set s then s
      else let s1 = s\<lparr>bs_set := Set.insert tx (bs_set s), bs_order := bs_order s @ [tx]\<rparr>
           in if bs_cap s1 < card (bs_set s1)
              then (case bs_order s1 of
                      [] \<Rightarrow> s1
                    | old # rest \<Rightarrow> s1\<lparr>bs_order := rest, bs_set := bs_set s1 - {old}\<rparr>)
              else s1)"

definition seen_ok :: "bounded_seen \<Rightarrow> bool" where
  "seen_ok s \<longleftrightarrow> distinct (bs_order s) \<and> set (bs_order s) = bs_set s \<and> length (bs_order s) \<le> bs_cap s"

lemma seen_new_ok [simp]: "seen_ok (seen_new cap)"
  by (simp add: seen_ok_def seen_new_def)

lemma seen_insert_cases:
  assumes "seen_ok s"
  shows "seen_insert tx s = (if tx \<in> set (bs_order s) then s
    else s\<lparr>bs_order := keep_last (bs_cap s) (bs_order s @ [tx]),
           bs_set := set (keep_last (bs_cap s) (bs_order s @ [tx]))\<rparr>)"
proof (cases "tx \<in> bs_set s")
  case True
  with assms show ?thesis by (simp add: seen_insert_def seen_ok_def)
next
  case False
  then have new: "tx \<notin> set (bs_order s)" using assms by (simp add: seen_ok_def)
  have card: "card (Set.insert tx (bs_set s)) = Suc (length (bs_order s))"
  proof -
    have "card (bs_set s) = length (bs_order s)" "finite (bs_set s)"
      using assms distinct_card [of "bs_order s"] by (auto simp: seen_ok_def simp flip: set_conv_nth)
    with False show ?thesis by simp
  qed
  obtain old rest where split: "bs_order s @ [tx] = old # rest" by (cases "bs_order s @ [tx]") auto
  have d: "distinct (old # rest)" "set (old # rest) = Set.insert tx (bs_set s)"
    using assms new by (auto simp flip: split simp: seen_ok_def)
  show ?thesis
  proof (cases "bs_cap s < Suc (length (bs_order s))")
    case True
    with assms have "bs_cap s = length (bs_order s)" unfolding seen_ok_def by linarith
    moreover have "length (bs_order s) = length rest"
    proof -
      have "length (bs_order s @ [tx]) = length (old # rest)" by (simp only: split)
      then show ?thesis by simp
    qed
    ultimately have "keep_last (bs_cap s) (bs_order s @ [tx]) = rest" unfolding split by (simp add: keep_last_def)
    moreover have "set rest = Set.insert tx (bs_set s) - {old}" using d by auto
    ultimately show ?thesis using False new card True split by (simp add: seen_insert_def Let_def)
  next
    case nf: False
    with False new card assms show ?thesis by (auto simp: seen_insert_def Let_def seen_ok_def)
  qed
qed

lemma seen_insert_ok:
  assumes "seen_ok s"
  shows "seen_ok (seen_insert tx s) \<and> bs_cap (seen_insert tx s) = bs_cap s"
proof (cases "tx \<in> set (bs_order s)")
  case True
  with assms show ?thesis by (simp add: seen_insert_cases)
next
  case False
  then have "distinct (bs_order s @ [tx])" using assms by (simp add: seen_ok_def)
  with False assms keep_last_length [of "bs_cap s" "bs_order s @ [tx]"] show ?thesis
    by (simp add: seen_insert_cases) (simp add: seen_ok_def keep_last_distinct)
qed

interpretation seen: bounded_fifo bs_order seen_insert bs_cap seen_ok
proof unfold_locales
  show "bs_order (seen_insert x s) = (if x \<in> set (bs_order s) then bs_order s else keep_last (bs_cap s) (bs_order s @ [x]))"
    if "seen_ok s" for s x
    using that by (simp add: seen_insert_cases)
  show "seen_ok (seen_insert x s) \<and> bs_cap (seen_insert x s) = bs_cap s" if "seen_ok s" for s x
    by (rule seen_insert_ok [OF that])
qed (simp add: seen_ok_def)

end
