(* ===== verification/Outcome.thy ===== *)
theory Outcome
  imports Bounded
begin

text \<open>
  The store of delivery outcomes (\<^verbatim>\<open>message-relayer/src/outcome.rs\<close>): a bounded map from message
  ids to the last verdict, evicting the oldest recorded message first.
\<close>

datatype outcome_kind = OkDelivered | OkDestinationFailed | OkPending | OkUndeliverable | OkTerminal

text \<open>A reason is the format string it is printed with, by name, and the values it carries.\<close>

datatype outcome_reason =
    ReasonText string
  | ValueCapReason u256 u256
  | GasCapReason u256 u64
  | UnderFundedReason u64 u64 string
  | DestinationReason address string
  | RetryFailedAgain u32 u32
  | GaveUpAfter u32

record delivery_outcome =
  do_kind :: outcome_kind
  do_chain_key :: u64
  do_tx_hash :: "b256 option"
  do_reason :: "outcome_reason option"
  do_recorded_at :: u64

definition outcome_new :: "outcome_kind \<Rightarrow> u64 \<Rightarrow> u64 \<Rightarrow> delivery_outcome" where
  "outcome_new kind ck now = \<lparr>do_kind = kind, do_chain_key = ck, do_tx_hash = None, do_reason = None, do_recorded_at = now\<rparr>"

definition with_tx :: "b256 \<Rightarrow> delivery_outcome \<Rightarrow> delivery_outcome" where
  "with_tx tx oc = oc\<lparr>do_tx_hash := Some tx\<rparr>"

definition with_reason :: "outcome_reason \<Rightarrow> delivery_outcome \<Rightarrow> delivery_outcome" where
  "with_reason why oc = oc\<lparr>do_reason := Some why\<rparr>"

record outcome_store =
  os_by_id :: "(b256, delivery_outcome) hash_map"
  os_order :: "b256 list"
  os_cap :: nat
  os_evictions :: u64

definition DEFAULT_CAP :: nat where "DEFAULT_CAP = 10000"

definition outcome_store_new :: "nat \<Rightarrow> outcome_store" where
  "outcome_store_new cap = \<lparr>os_by_id = [], os_order = [], os_cap = max cap 1, os_evictions = 0\<rparr>"

function outcome_evict :: "outcome_store \<Rightarrow> outcome_store" where
  "outcome_evict s =
     (if os_cap s < length (os_order s)
      then (case os_order s of
              [] \<Rightarrow> s
            | old # rest \<Rightarrow> outcome_evict (s\<lparr>os_order := rest, os_by_id := hm_remove old (os_by_id s),
                              os_evictions := os_evictions s + 1\<rparr>))
      else s)"
  by pat_completeness auto
termination
  by (relation "measure (\<lambda>s. length (os_order s))") auto

declare outcome_evict.simps [simp del]

definition outcome_record :: "b256 \<Rightarrow> delivery_outcome \<Rightarrow> outcome_store \<Rightarrow> outcome_store" where
  "outcome_record mid oc s =
     (let fresh = (hm_get (os_by_id s) mid = None);
          s1 = s\<lparr>os_by_id := hm_insert mid oc (os_by_id s)\<rparr>
      in if fresh then outcome_evict (s1\<lparr>os_order := os_order s1 @ [mid]\<rparr>) else s1)"

definition outcome_get :: "b256 \<Rightarrow> outcome_store \<Rightarrow> delivery_outcome option" where
  "outcome_get mid s = hm_get (os_by_id s) mid"

definition outcome_get_many :: "b256 list \<Rightarrow> outcome_store \<Rightarrow> (b256 \<times> delivery_outcome) list" where
  "outcome_get_many ids s =
     List.map_filter (\<lambda>i. map_option (\<lambda>oc. (i, oc)) (hm_get (os_by_id s) i)) ids"

definition outcome_len :: "outcome_store \<Rightarrow> nat" where
  "outcome_len s = length (os_by_id s)"

definition outcome_is_empty :: "outcome_store \<Rightarrow> bool" where
  "outcome_is_empty s \<longleftrightarrow> outcome_len s = 0"

section \<open>Invariant\<close>

definition outcome_ok :: "outcome_store \<Rightarrow> bool" where
  "outcome_ok s \<longleftrightarrow> hm_ok (os_by_id s) \<and> distinct (os_order s) \<and> set (os_order s) = set (hm_keys (os_by_id s))
     \<and> length (os_order s) \<le> os_cap s \<and> 0 < os_cap s"

lemma outcome_new_ok [simp]: "outcome_ok (outcome_store_new cap)"
  by (simp add: outcome_ok_def outcome_store_new_def)

lemma outcome_evict_one:
  assumes "length (os_order s) \<le> Suc (os_cap s)"
  shows "outcome_evict s =
    (if length (os_order s) \<le> os_cap s then s
     else s\<lparr>os_order := tl (os_order s), os_by_id := hm_remove (hd (os_order s)) (os_by_id s),
            os_evictions := os_evictions s + 1\<rparr>)"
proof (cases "length (os_order s) \<le> os_cap s")
  case True
  then show ?thesis by (subst outcome_evict.simps) simp
next
  case False
  then obtain old rest where o: "os_order s = old # rest" by (cases "os_order s") auto
  with assms have "length rest \<le> os_cap s" by simp
  with False o show ?thesis by (subst outcome_evict.simps) (subst outcome_evict.simps, simp)
qed

text \<open>
  A verdict for a known message replaces the old one in place; one for a new message goes to the
  end and, at capacity, pushes out the oldest.
\<close>

lemma outcome_record_cases:
  assumes "outcome_ok s"
  shows "outcome_record mid oc s =
    (if mid \<in> set (os_order s) then s\<lparr>os_by_id := hm_insert mid oc (os_by_id s)\<rparr>
     else if length (os_order s) < os_cap s
     then s\<lparr>os_by_id := hm_insert mid oc (os_by_id s), os_order := os_order s @ [mid]\<rparr>
     else s\<lparr>os_by_id := hm_remove (hd (os_order s)) (hm_insert mid oc (os_by_id s)),
            os_order := tl (os_order s) @ [mid], os_evictions := os_evictions s + 1\<rparr>)"
proof -
  have known: "hm_get (os_by_id s) mid = None \<longleftrightarrow> mid \<notin> set (os_order s)"
    using assms by (simp add: outcome_ok_def map_of_eq_None_iff)
  show ?thesis
  proof (cases "mid \<in> set (os_order s)")
    case True
    with known show ?thesis by (auto simp: outcome_record_def Let_def)
  next
    case False
    have ne: "os_order s \<noteq> []" if "\<not> length (os_order s) < os_cap s" using that assms by (auto simp: outcome_ok_def)
    from False known assms outcome_evict_one [of "s\<lparr>os_by_id := hm_insert mid oc (os_by_id s), os_order := os_order s @ [mid]\<rparr>"]
    show ?thesis using ne by (auto simp: outcome_record_def Let_def outcome_ok_def)
  qed
qed

lemma outcome_record_ok:
  assumes "outcome_ok s"
  shows "outcome_ok (outcome_record mid oc s) \<and> os_cap (outcome_record mid oc s) = os_cap s"
proof -
  have keys: "set (hm_keys (hm_insert mid oc (os_by_id s))) = Set.insert mid (set (os_order s))"
    using assms hm_keys_insert [of mid oc "os_by_id s"] by (simp add: outcome_ok_def)
  have ok: "hm_ok (hm_insert mid oc (os_by_id s))" using assms by (simp add: outcome_ok_def hash.invar_insert)
  consider "mid \<in> set (os_order s)" | "mid \<notin> set (os_order s)" "length (os_order s) < os_cap s"
    | old rest where "mid \<notin> set (os_order s)" "os_order s = old # rest" "length (os_order s) = os_cap s"
    using assms by (cases "os_order s") (auto simp: outcome_ok_def le_less)
  then show ?thesis
  proof cases
    case 1
    with assms keys ok show ?thesis by (auto simp: outcome_record_cases outcome_ok_def)
  next
    case 2
    with assms keys ok show ?thesis by (simp add: outcome_record_cases) (simp add: outcome_ok_def)
  next
    case (3 old rest)
    have "set (hm_keys (hm_remove old (hm_insert mid oc (os_by_id s)))) = Set.insert mid (set rest)"
    proof -
      have "old \<notin> set rest" using assms 3(2) by (simp add: outcome_ok_def)
      with 3(1,2) show ?thesis unfolding hm_set_remove keys by auto
    qed
    with assms 3 ok show ?thesis
      by (simp add: outcome_record_cases) (simp add: outcome_ok_def hash.invar_remove)
  qed
qed

interpretation outcomes: bounded_fifo os_order "\<lambda>mid. outcome_record mid (f mid)" os_cap outcome_ok for f
proof unfold_locales
  fix s x
  assume ok: "outcome_ok s"
  show "os_order (outcome_record x (f x) s) =
      (if x \<in> set (os_order s) then os_order s else keep_last (os_cap s) (os_order s @ [x]))"
  proof (cases "length (os_order s) < os_cap s")
    case True
    with ok show ?thesis by (simp add: outcome_record_cases)
  next
    case False
    with ok have "length (os_order s) = os_cap s" "os_order s \<noteq> []" by (auto simp: outcome_ok_def)
    with False ok show ?thesis
      by (cases "os_order s") (auto simp: outcome_record_cases keep_last_def Suc_diff_le)
  qed
  show "outcome_ok (outcome_record x (f x) s) \<and> os_cap (outcome_record x (f x) s) = os_cap s"
    by (rule outcome_record_ok [OF ok])
  show "distinct (os_order s) \<and> length (os_order s) \<le> os_cap s" using ok by (simp add: outcome_ok_def)
qed

lemma outcome_get_record:
  assumes "outcome_ok s"
  shows "outcome_get mid (outcome_record mid oc s) = Some oc"
proof -
  have "os_order s \<noteq> []" if "\<not> length (os_order s) < os_cap s" using that assms by (auto simp: outcome_ok_def)
  then have "hd (os_order s) \<noteq> mid" if "mid \<notin> set (os_order s)" "\<not> length (os_order s) < os_cap s"
    using that by (cases "os_order s") auto
  with assms show ?thesis
    by (auto simp: outcome_record_cases outcome_get_def update_conv' delete_conv')
qed

end
