(* ===== verification/Delivery.thy ===== *)
theory Delivery
  imports Classify Outcome Failed_Retry
begin

text \<open>
  The per-route delivery worker (\<^verbatim>\<open>message-relayer/src/delivery/mod.rs\<close>): one job from receipt to
  result. The answers of the nodes, the clock and the disk are the fields of an environment
  record; what the worker broadcasts, records and counts is its state. Logging and the sleeps
  between attempts are not modelled.
\<close>

section \<open>Configuration, effects and answers\<close>

record chain_route =
  cr_chain_key :: u64
  cr_inbox_address :: address
  cr_max_native_coin_value_wei :: u256
  cr_max_gas_limit :: u64
  cr_block_confirmation_depth :: u64
  cr_relayer_contract_address :: "address option"
  cr_failed_retry :: failed_retry_policy

record delivery_config =
  dc_simulate_before_send :: bool
  dc_max_retries :: u32

datatype delivery_status =
    StSubmitted | StSucceeded | StReverted | StAlreadyValidated | StPending | StDestinationFailed
  | StRefusedNativeValue | StRefusedGasLimit | StValidationFailedWithNativeValue | StInvalidDispatcher
  | StUnclassified

datatype delivery_metric =
    IncDeliverTx u64 delivery_status
  | ObserveTimeToDeliver
  | IncDestinationFailedRetriesExhausted u64

text \<open>A transaction handed to the node: message, gas limit, value.\<close>

datatype worker_tx =
    DeliverTx b256 "u64 option" u256
  | RetryPendingTx b256 u64
  | RetryFailedTx b256 u64

record delivery_state =
  ds_outcomes :: outcome_store
  ds_ledger :: ledger
  ds_top_up :: "top_up_ledger option"   \<comment> \<open>\<open>None\<close>: no requester is configured\<close>
  ds_requests :: "(b256 \<times> u64) list"  \<comment> \<open>top-up requests handed to the sender task\<close>
  ds_txs :: "worker_tx list"
  ds_metrics :: "delivery_metric list"

datatype 'a rpc = RpcTimeout | RpcErr contract_error | RpcOk 'a

datatype send_answer = SendStalled | SendRejected contract_error | SendAccepted

record receipt =
  rcpt_status :: bool
  rcpt_logs :: "log list"
  rcpt_tx_hash :: b256
  rcpt_block_number :: "u64 option"

record exec_env =
  xe_state_timeout :: bool
  xe_processed_at :: "unit + u256"
  xe_tip :: "unit + u64"
  xe_processed_at_block :: "u64 \<Rightarrow> unit + u256"
  xe_is_pending :: "unit + bool"
  xe_is_retryable :: "unit + bool"
  xe_estimate :: "u64 rpc"
  xe_preflight :: "u64 \<Rightarrow> unit rpc"
  xe_send :: "u64 \<Rightarrow> send_answer"
  xe_receipt :: "receipt rpc"
  xe_replay :: "u64 \<Rightarrow> u64 option \<Rightarrow> unit rpc"
  xe_now_gate :: "u64 option"
  xe_now_attempt :: "u64 option"
  xe_now_start :: "u64 option"
  xe_now_give_up :: "u64 option"
  xe_recorded_at :: u64
  xe_gate_readable :: bool
  xe_attempt_readable :: bool
  xe_attempt_io :: io_faults
  xe_start_readable :: bool
  xe_start_io :: io_faults
  xe_give_up_io :: io_faults
  xe_forget_io :: io_faults

definition unwrap_or_default :: "u64 option \<Rightarrow> u64" where
  "unwrap_or_default x = (case x of None \<Rightarrow> 0 | Some n \<Rightarrow> n)"

definition add_metric :: "delivery_metric \<Rightarrow> delivery_state \<Rightarrow> delivery_state" where
  "add_metric m ds = ds\<lparr>ds_metrics := ds_metrics ds @ [m]\<rparr>"

definition add_tx :: "worker_tx \<Rightarrow> delivery_state \<Rightarrow> delivery_state" where
  "add_tx tx ds = ds\<lparr>ds_txs := ds_txs ds @ [tx]\<rparr>"

definition record_outcome :: "b256 \<Rightarrow> delivery_outcome \<Rightarrow> delivery_state \<Rightarrow> delivery_state" where
  "record_outcome mid oc ds = ds\<lparr>ds_outcomes := outcome_record mid oc (ds_outcomes ds)\<rparr>"

definition forget_retries :: "exec_env \<Rightarrow> b256 \<Rightarrow> delivery_state \<Rightarrow> delivery_state" where
  "forget_retries env mid ds = ds\<lparr>ds_ledger := ledger_forget (xe_forget_io env) mid (ds_ledger ds)\<rparr>"

section \<open>The budget of failed executions\<close>

definition give_up_failed_retries ::
  "work_codec \<Rightarrow> chain_route \<Rightarrow> exec_env \<Rightarrow> b256 \<Rightarrow> failed_retry_state \<Rightarrow> delivery_state
    \<Rightarrow> delivery_state \<times> delivery_result_kind" where
  "give_up_failed_retries C route env mid state ds =
     (let ck = cr_chain_key route;
          ds1 = (if fr_gave_up_at state \<noteq> None then ds
                 else add_metric (IncDestinationFailedRetriesExhausted ck)
                        (ds\<lparr>ds_ledger := fst (ledger_give_up C (xe_give_up_io env) mid state
                               (unwrap_or_default (xe_now_give_up env)) (ds_ledger ds))\<rparr>));
          outcome = (with_reason (GaveUpAfter (fr_attempts state))
                       (outcome_new OkDestinationFailed ck (xe_recorded_at env)))
                    \<lparr>do_tx_hash := Option.bind (outcome_get mid (ds_outcomes ds1)) do_tx_hash\<rparr>
      in (record_outcome mid outcome ds1, Terminal))"

definition after_failed_retry ::
  "work_codec \<Rightarrow> chain_route \<Rightarrow> exec_env \<Rightarrow> b256 \<Rightarrow> failed_retry_state \<Rightarrow> u64 option \<Rightarrow> delivery_state
    \<Rightarrow> delivery_state \<times> delivery_result_kind" where
  "after_failed_retry C route env mid spent retry_deferred ds =
     (if fp_max_attempts (cr_failed_retry route) \<le> fr_attempts spent
      then give_up_failed_retries C route env mid spent ds
      else (ds, AwaitingExecution (Some (case retry_deferred of
              None \<Rightarrow> fr_next_attempt_at spent
            | Some at \<Rightarrow> max at (fr_next_attempt_at spent)))))"

definition count_attempt ::
  "work_codec \<Rightarrow> chain_route \<Rightarrow> exec_env \<Rightarrow> b256 \<Rightarrow> delivery_state \<Rightarrow> delivery_state \<times> failed_retry_state" where
  "count_attempt C route env mid ds =
     (let (L, spent) = record_attempt C (xe_attempt_readable env) (xe_attempt_io env) mid (cr_failed_retry route)
            (unwrap_or_default (xe_now_attempt env)) (ds_ledger ds)
      in (ds\<lparr>ds_ledger := L\<rparr>, spent))"

definition start_failed_retries ::
  "work_codec \<Rightarrow> chain_route \<Rightarrow> exec_env \<Rightarrow> b256 \<Rightarrow> delivery_state \<Rightarrow> delivery_state \<times> delivery_result_kind" where
  "start_failed_retries C route env mid ds =
     (let (L, state) = ledger_start C (xe_start_readable env) (xe_start_io env) mid (cr_failed_retry route)
            (unwrap_or_default (xe_now_start env)) (ds_ledger ds);
          ds1 = ds\<lparr>ds_ledger := L\<rparr>
      in if fp_max_attempts (cr_failed_retry route) \<le> fr_attempts state
         then give_up_failed_retries C route env mid state ds1
         else (ds1, AwaitingExecution (Some (fr_next_attempt_at state))))"

section \<open>Reconciling execution\<close>

datatype execution_state = Executed | Confirming | ExPending | ExFailed | Unaccepted

datatype state_read = StateTimeout | StateErr | StateOk execution_state

definition read_execution_state :: "chain_route \<Rightarrow> exec_env \<Rightarrow> state_read" where
  "read_execution_state route env =
     (if xe_state_timeout env then StateTimeout
      else case xe_processed_at env of
        Inl _ \<Rightarrow> StateErr
      | Inr processed_at \<Rightarrow>
          if processed_at \<noteq> 0
          then (if 0 < cr_block_confirmation_depth route
                then (case xe_tip env of
                        Inl _ \<Rightarrow> StateErr
                      | Inr tip \<Rightarrow>
                          let confirmed = sat_sub tip (cr_block_confirmation_depth route) in
                          if ucast confirmed < processed_at then StateOk Confirming
                          else (case xe_processed_at_block env confirmed of
                                  Inl _ \<Rightarrow> StateErr
                                | Inr q \<Rightarrow> if q = 0 then StateOk Confirming else StateOk Executed))
                else StateOk Executed)
          else (case xe_is_pending env of
                  Inl _ \<Rightarrow> StateErr
                | Inr True \<Rightarrow> StateOk ExPending
                | Inr False \<Rightarrow>
                    (case xe_is_retryable env of
                       Inl _ \<Rightarrow> StateErr
                     | Inr True \<Rightarrow> StateOk ExFailed
                     | Inr False \<Rightarrow> StateOk Unaccepted)))"

definition retry_gas :: "inbox_abi \<Rightarrow> chain_route \<Rightarrow> u64 rpc \<Rightarrow> delivery_result_kind + u64" where
  "retry_gas A route estimate =
     (case estimate of
        RpcOk gas \<Rightarrow>
          if gas \<le> cr_max_gas_limit route then Inr (min (sat_add gas (gas div 4)) (cr_max_gas_limit route))
          else Inl (AwaitingExecution None)
      | RpcErr err \<Rightarrow> Inl (AwaitingExecution (decode_retry_deferred A err))
      | RpcTimeout \<Rightarrow> Inl (AwaitingExecution None))"

text \<open>
  What the receipt of a retry says: new state, result, whether the destination is still failing,
  whether it failed in this receipt.
\<close>

definition settle_retry_receipt ::
  "inbox_abi \<Rightarrow> chain_route \<Rightarrow> exec_env \<Rightarrow> b256 \<Rightarrow> u64 \<Rightarrow> failed_retry_state option \<Rightarrow> delivery_state
    \<Rightarrow> delivery_state \<times> delivery_result_kind \<times> bool \<times> bool" where
  "settle_retry_receipt A route env mid gas spent ds =
     (case xe_receipt env of
        RpcOk r \<Rightarrow>
          if rcpt_status r
          then let (kind, result) =
                     (case classify_success_logs A (cr_inbox_address route) mid (rcpt_logs r) of
                        RcDelivered \<Rightarrow> if cr_block_confirmation_depth route = 0
                                       then (Some OkDelivered, Delivered)
                                       else (Some OkPending, AwaitingExecution None)
                      | RcPending \<Rightarrow> (Some OkPending, AwaitingExecution None)
                      | RcDestinationFailed _ \<Rightarrow> (Some OkDestinationFailed, AwaitingExecution None)
                      | RcUnknown \<Rightarrow> (None, AwaitingExecution None));
                   destination_failed = (kind = Some OkDestinationFailed);
                   failed_again = (case kind of None \<Rightarrow> True | Some k \<Rightarrow> k = OkDestinationFailed);
                   ds1 = (case kind of
                            None \<Rightarrow> ds
                          | Some k \<Rightarrow>
                              let reason = (case spent of
                                    Some sp \<Rightarrow> if failed_again
                                      then RetryFailedAgain (fr_attempts sp) (fp_max_attempts (cr_failed_retry route))
                                      else ReasonText ''execution retry observed; completion follows configured confirmations''
                                  | None \<Rightarrow> ReasonText ''execution retry observed; completion follows configured confirmations'')
                              in record_outcome mid (with_reason reason (with_tx (rcpt_tx_hash r)
                                   (outcome_new k (cr_chain_key route) (xe_recorded_at env)))) ds);
                   ds2 = (if result = Delivered then forget_retries env mid ds1 else ds1)
               in (ds2, result, failed_again, destination_failed)
          else (ds, AwaitingExecution (case xe_replay env gas (rcpt_block_number r) of
                      RpcErr err \<Rightarrow> decode_retry_deferred A err
                    | _ \<Rightarrow> None), True, False)
      | _ \<Rightarrow> (ds, AwaitingExecution None, True, False))"

definition retry_hint :: "delivery_result_kind \<Rightarrow> u64 option" where
  "retry_hint result = (case result of AwaitingExecution retry_after \<Rightarrow> retry_after | _ \<Rightarrow> None)"

definition retry_execution ::
  "work_codec \<Rightarrow> inbox_abi \<Rightarrow> chain_route \<Rightarrow> exec_env \<Rightarrow> b256 \<Rightarrow> bool \<Rightarrow> delivery_state
    \<Rightarrow> delivery_state \<times> delivery_result_kind" where
  "retry_execution C A route env mid pending ds =
     (case retry_gas A route (xe_estimate env) of
        Inl result \<Rightarrow> (ds, result)
      | Inr gas \<Rightarrow>
          (case xe_preflight env gas of
             RpcErr err \<Rightarrow> (ds, AwaitingExecution (decode_retry_deferred A err))
           | RpcTimeout \<Rightarrow> (ds, AwaitingExecution None)
           | RpcOk _ \<Rightarrow>
               let tx = (if pending then RetryPendingTx mid gas else RetryFailedTx mid gas) in
               (case xe_send env gas of
                  SendRejected err \<Rightarrow> (ds, AwaitingExecution (decode_retry_deferred A err))
                | SendStalled \<Rightarrow>
                    if \<not> pending
                    then let (ds1, spent) = count_attempt C route env mid (add_tx tx ds)
                         in after_failed_retry C route env mid spent None ds1
                    else (add_tx tx ds, AwaitingExecution None)
                | SendAccepted \<Rightarrow>
                    let (ds1, spent) =
                          (if pending then (add_tx tx ds, None)
                           else let (ds', sp) = count_attempt C route env mid (add_tx tx ds) in (ds', Some sp));
                        (ds2, result, failed_again, destination_failed) =
                          settle_retry_receipt A route env mid gas spent ds1
                    in case spent of
                         Some sp \<Rightarrow>
                           if failed_again
                           then after_failed_retry C route env mid sp (retry_hint result) ds2
                           else (ds2, result)
                       | None \<Rightarrow>
                           if destination_failed then start_failed_retries C route env mid ds2
                           else (ds2, result))))"

definition reconcile_execution ::
  "work_codec \<Rightarrow> inbox_abi \<Rightarrow> chain_route \<Rightarrow> exec_env \<Rightarrow> b256 \<Rightarrow> delivery_state
    \<Rightarrow> delivery_state \<times> delivery_result_kind" where
  "reconcile_execution C A route env mid ds =
     (case read_execution_state route env of
        StateTimeout \<Rightarrow> (ds, Retryable)
      | StateErr \<Rightarrow> (ds, Retryable)
      | StateOk Executed \<Rightarrow>
          (record_outcome mid (with_reason
             (ReasonText ''Inbox processedAt confirms execution at the configured confirmation depth'')
             (outcome_new OkDelivered (cr_chain_key route) (xe_recorded_at env))) (forget_retries env mid ds),
           Delivered)
      | StateOk Confirming \<Rightarrow> (ds, AwaitingExecution None)
      | StateOk Unaccepted \<Rightarrow> (ds, AwaitingVotes)
      | StateOk ExPending \<Rightarrow> retry_execution C A route env mid True ds
      | StateOk ExFailed \<Rightarrow>
          (case ledger_gate C (xe_gate_readable env) mid (cr_failed_retry route)
                  (unwrap_or_default (xe_now_gate env)) (ds_ledger ds) of
             (L, Proceed) \<Rightarrow> retry_execution C A route env mid False (ds\<lparr>ds_ledger := L\<rparr>)
           | (L, Wait at) \<Rightarrow> (ds\<lparr>ds_ledger := L\<rparr>, AwaitingExecution (Some at))
           | (L, GiveUp state) \<Rightarrow> give_up_failed_retries C route env mid state (ds\<lparr>ds_ledger := L\<rparr>)))"

definition settle_duplicate_revert ::
  "work_codec \<Rightarrow> inbox_abi \<Rightarrow> chain_route \<Rightarrow> exec_env \<Rightarrow> b256 \<Rightarrow> delivery_state
    \<Rightarrow> delivery_state \<times> delivery_result_kind" where
  "settle_duplicate_revert C A route env mid ds =
     (case reconcile_execution C A route env mid ds of
        (ds1, AwaitingVotes) \<Rightarrow> (ds1, Retryable)
      | res \<Rightarrow> res)"

section \<open>Sending\<close>

definition revert_status :: "delivery_revert option \<Rightarrow> delivery_status" where
  "revert_status r =
     (case r of
        Some ValidationFailedWithNativeValue \<Rightarrow> StValidationFailedWithNativeValue
      | Some InvalidMessageDispatcher \<Rightarrow> StInvalidDispatcher
      | Some Duplicate \<Rightarrow> StAlreadyValidated
      | Some OtherRevert \<Rightarrow> StUnclassified
      | Some InsufficientGasForDestination \<Rightarrow> StReverted
      | None \<Rightarrow> StReverted)"

definition retry_delivery_revert ::
  "chain_route \<Rightarrow> delivery_revert option \<Rightarrow> delivery_state \<Rightarrow> delivery_state \<times> delivery_result_kind" where
  "retry_delivery_revert route r ds = (add_metric (IncDeliverTx (cr_chain_key route) (revert_status r)) ds, Retryable)"

datatype stage = Done delivery_result_kind | ProceedStage

definition settle_pre_send_revert ::
  "chain_route \<Rightarrow> delivery_revert \<Rightarrow> delivery_state \<Rightarrow> delivery_state \<times> stage" where
  "settle_pre_send_revert route r ds =
     (case r of
        Duplicate \<Rightarrow> (ds, Done Retryable)
      | InsufficientGasForDestination \<Rightarrow> (ds, ProceedStage)
      | _ \<Rightarrow> (let (ds1, kind) = retry_delivery_revert route (Some r) ds in (ds1, Done kind)))"

datatype send_outcome =
    SoSucceeded b256
  | SoAlreadyValidated
  | SoPending b256
  | SoDestinationFailed address b256 "u64 option"
  | SoReverted "delivery_revert option"
  | SoFailed

text \<open>The answers to one attempt of the send loop; the call depends on the gas limit it pins.\<close>

record attempt_env =
  ae_preflight :: "u64 option \<Rightarrow> bool rpc"
  ae_send :: "u64 option \<Rightarrow> send_answer"
  ae_receipt :: "receipt rpc"
  ae_replay :: "bool rpc"

definition replay_revert_reason :: "inbox_abi \<Rightarrow> bool rpc \<Rightarrow> delivery_revert option" where
  "replay_revert_reason A answer =
     (case answer of RpcErr err \<Rightarrow> classify_delivery_revert A err | _ \<Rightarrow> None)"

datatype attempt_end = Stop send_outcome | Again "u64 option"

definition bump_or_stop ::
  "chain_route \<Rightarrow> u64 option \<Rightarrow> u64 option \<Rightarrow> attempt_end" where
  "bump_or_stop route gas envelope_gas =
     (case bumped_gas_limit gas envelope_gas (cr_max_gas_limit route) of
        Some next \<Rightarrow> Again (Some next)
      | None \<Rightarrow> Stop (SoReverted (Some InsufficientGasForDestination)))"

definition after_send_error ::
  "inbox_abi \<Rightarrow> chain_route \<Rightarrow> bool \<Rightarrow> u64 option \<Rightarrow> u64 option \<Rightarrow> contract_error \<Rightarrow> attempt_end" where
  "after_send_error A route may_retry gas envelope_gas err =
     (case classify_delivery_revert A err of
        Some Duplicate \<Rightarrow> Stop SoAlreadyValidated
      | Some InsufficientGasForDestination \<Rightarrow>
          if may_retry then bump_or_stop route gas envelope_gas
          else Stop (SoReverted (Some InsufficientGasForDestination))
      | Some r \<Rightarrow> Stop (SoReverted (Some r))
      | None \<Rightarrow> if may_retry then Again gas else Stop SoFailed)"

definition after_receipt ::
  "inbox_abi \<Rightarrow> chain_route \<Rightarrow> b256 \<Rightarrow> bool \<Rightarrow> u64 option \<Rightarrow> u64 option \<Rightarrow> attempt_env \<Rightarrow> attempt_end" where
  "after_receipt A route mid may_retry gas envelope_gas ae =
     (case ae_receipt ae of
        RpcOk r \<Rightarrow>
          if rcpt_status r
          then Stop (case classify_success_logs A (cr_inbox_address route) mid (rcpt_logs r) of
                       RcUnknown \<Rightarrow> SoFailed
                     | RcDelivered \<Rightarrow> SoSucceeded (rcpt_tx_hash r)
                     | RcPending \<Rightarrow> SoPending (rcpt_tx_hash r)
                     | RcDestinationFailed dispatcher \<Rightarrow>
                         SoDestinationFailed dispatcher (rcpt_tx_hash r) (rcpt_block_number r))
          else (let class = replay_revert_reason A (ae_replay ae) in
                case class of
                  Some Duplicate \<Rightarrow> Stop SoAlreadyValidated
                | Some InsufficientGasForDestination \<Rightarrow>
                    if may_retry then bump_or_stop route gas envelope_gas else Stop (SoReverted class)
                | _ \<Rightarrow> Stop (SoReverted class))
      | RpcErr _ \<Rightarrow> if may_retry then Again gas else Stop SoFailed
      | RpcTimeout \<Rightarrow> Stop SoFailed)"

text \<open>One attempt: whether a transaction was handed to the node, and how it ended.\<close>

definition send_attempt ::
  "inbox_abi \<Rightarrow> chain_route \<Rightarrow> b256 \<Rightarrow> bool \<Rightarrow> u64 option \<Rightarrow> u64 option \<Rightarrow> attempt_env \<Rightarrow> bool \<times> attempt_end" where
  "send_attempt A route mid may_retry gas envelope_gas ae =
     (case ae_preflight ae gas of
        RpcTimeout \<Rightarrow> (False, Stop SoFailed)
      | RpcErr err \<Rightarrow> (False, after_send_error A route may_retry gas envelope_gas err)
      | RpcOk False \<Rightarrow> (False, Stop SoFailed)
      | RpcOk True \<Rightarrow>
          (case ae_send ae gas of
             SendStalled \<Rightarrow> (True, if may_retry then Again gas else Stop SoFailed)
           | SendRejected err \<Rightarrow> (False, after_send_error A route may_retry gas envelope_gas err)
           | SendAccepted \<Rightarrow> (True, after_receipt A route mid may_retry gas envelope_gas ae)))"

lemma send_attempt_again:
  "send_attempt A route mid may_retry gas envelope ae = (b, Again gas') \<Longrightarrow> may_retry"
  by (auto simp: send_attempt_def after_send_error_def after_receipt_def bump_or_stop_def Let_def
      split: rpc.splits bool.splits send_answer.splits option.splits delivery_revert.splits if_splits)

text \<open>
  The loop. The attempt counter never reaches \<open>2 ^ 32\<close>: it stops growing past \<open>max_retries + 1\<close>
  (a \<^verbatim>\<open>u32\<close>), so it is a natural number here.
\<close>

function send_loop ::
  "inbox_abi \<Rightarrow> chain_route \<Rightarrow> b256 \<Rightarrow> u256 \<Rightarrow> u64 option \<Rightarrow> nat \<Rightarrow> (nat \<Rightarrow> attempt_env) \<Rightarrow> nat \<Rightarrow> u64 option
    \<Rightarrow> worker_tx list \<times> send_outcome" where
  "send_loop A route mid val envelope_gas max_retries answers attempts gas =
     (let n = attempts + 1;
          (sent, e) = send_attempt A route mid (n \<le> max_retries) gas envelope_gas (answers n);
          txs = (if sent then [DeliverTx mid gas val] else [])
      in case e of
           Stop outcome \<Rightarrow> (txs, outcome)
         | Again gas' \<Rightarrow>
             (let (txs', outcome) = send_loop A route mid val envelope_gas max_retries answers n gas'
              in (txs @ txs', outcome)))"
  by pat_completeness auto
termination
  by (relation "measure (\<lambda>(_, _, _, _, _, max_retries, _, attempts, _). Suc max_retries - attempts)")
     (auto dest: send_attempt_again [OF sym])

declare send_loop.simps [simp del]

section \<open>The job\<close>

record job_env =
  je_exec :: exec_env
  je_simulation :: "bool rpc"
  je_estimate :: "u64 rpc"
  je_now_top_up :: "u64 option"
  je_attempts :: "nat \<Rightarrow> attempt_env"
  je_probe :: "string option"

text \<open>
  A failed simulation or estimate: a duplicate is reconciled, another revert settled, an error
  below the contract returned to the pool.
\<close>

definition pre_send_error ::
  "work_codec \<Rightarrow> inbox_abi \<Rightarrow> chain_route \<Rightarrow> exec_env \<Rightarrow> b256 \<Rightarrow> contract_error \<Rightarrow> delivery_state
    \<Rightarrow> delivery_state \<times> stage" where
  "pre_send_error C A route env mid err ds =
     (case classify_delivery_revert A err of
        Some Duplicate \<Rightarrow> (let (ds1, kind) = settle_duplicate_revert C A route env mid ds in (ds1, Done kind))
      | Some r \<Rightarrow> settle_pre_send_revert route r ds
      | None \<Rightarrow> (ds, Done Retryable))"

definition refuse_over_cap ::
  "inbox_abi \<Rightarrow> chain_route \<Rightarrow> job_env \<Rightarrow> delivery_job \<Rightarrow> delivery_state \<Rightarrow> delivery_state \<times> stage" where
  "refuse_over_cap A route env job ds =
     (let ck = cr_chain_key route;
          terms = envelope_terms_of A (dj_payload job);
          refuse = (\<lambda>status reason. (record_outcome (dj_message_id job) (with_reason reason
                      (outcome_new OkUndeliverable ck (xe_recorded_at (je_exec env))))
                      (add_metric (IncDeliverTx ck status) ds), Done Terminal))
      in if cr_max_native_coin_value_wei route < et_native_value terms
         then refuse StRefusedNativeValue (ValueCapReason (et_native_value terms) (cr_max_native_coin_value_wei route))
         else case et_gas_limit terms of
                Some g \<Rightarrow> if ucast (cr_max_gas_limit route) < g
                          then refuse StRefusedGasLimit (GasCapReason g (cr_max_gas_limit route))
                          else (ds, ProceedStage)
              | None \<Rightarrow> (ds, ProceedStage))"

definition simulate_stage ::
  "work_codec \<Rightarrow> inbox_abi \<Rightarrow> chain_route \<Rightarrow> delivery_config \<Rightarrow> job_env \<Rightarrow> delivery_job \<Rightarrow> delivery_state
    \<Rightarrow> delivery_state \<times> stage" where
  "simulate_stage C A route cfg env job ds =
     (if \<not> dc_simulate_before_send cfg then (ds, ProceedStage)
      else case je_simulation env of
             RpcTimeout \<Rightarrow> (ds, Done Retryable)
           | RpcOk False \<Rightarrow> (ds, Done Retryable)
           | RpcOk True \<Rightarrow> (ds, ProceedStage)
           | RpcErr err \<Rightarrow> pre_send_error C A route (je_exec env) (dj_message_id job) err ds)"

definition foreclosed_text :: "foreclosed \<Rightarrow> string" where
  "foreclosed_text f =
     (case f of
        RelaySettled \<Rightarrow> ''relay fee already settled (RelayAlreadySettled)''
      | DeadlinePassed \<Rightarrow> ''delivery deadline passed (DeliveryDeadlineReached)'')"

definition request_top_up :: "b256 \<Rightarrow> u64 \<Rightarrow> delivery_state \<Rightarrow> delivery_state" where
  "request_top_up mid additional ds =
     (case ds_top_up ds of
        None \<Rightarrow> ds
      | Some marks \<Rightarrow>
          (case top_up_begin mid marks of
             (marks', Inr _) \<Rightarrow> ds\<lparr>ds_top_up := Some marks', ds_requests := ds_requests ds @ [(mid, additional)]\<rparr>
           | (marks', Inl _) \<Rightarrow> ds\<lparr>ds_top_up := Some marks'\<rparr>))"

definition funding_stage ::
  "work_codec \<Rightarrow> inbox_abi \<Rightarrow> chain_route \<Rightarrow> job_env \<Rightarrow> delivery_job \<Rightarrow> message_funding \<Rightarrow> delivery_state
    \<Rightarrow> delivery_state \<times> stage" where
  "funding_stage C A route env job funding ds =
     (case mf_gas funding of
        None \<Rightarrow> (ds, ProceedStage)
      | Some gas \<Rightarrow>
          (case je_estimate env of
             RpcOk est \<Rightarrow>
               if gas < est
               then (case top_up_foreclosed funding (je_now_top_up env) of
                       Some why \<Rightarrow>
                         (record_outcome (dj_message_id job)
                            (with_reason (UnderFundedReason est gas (foreclosed_text why))
                              (outcome_new OkTerminal (cr_chain_key route) (xe_recorded_at (je_exec env)))) ds,
                          Done Terminal)
                     | None \<Rightarrow> (request_top_up (dj_message_id job) (sat_sub est gas) ds, Done Retryable))
               else (ds, ProceedStage)
           | RpcErr err \<Rightarrow> pre_send_error C A route (je_exec env) (dj_message_id job) err ds
           | RpcTimeout \<Rightarrow> (ds, Done Retryable)))"

definition settle_outcome ::
  "work_codec \<Rightarrow> inbox_abi \<Rightarrow> chain_route \<Rightarrow> job_env \<Rightarrow> delivery_job \<Rightarrow> send_outcome \<Rightarrow> delivery_state
    \<Rightarrow> delivery_state \<times> delivery_result_kind" where
  "settle_outcome C A route env job outcome ds =
     (let ck = cr_chain_key route; mid = dj_message_id job; at = xe_recorded_at (je_exec env) in
      case outcome of
        SoSucceeded tx \<Rightarrow>
          (let final = (cr_block_confirmation_depth route = 0);
               ds1 = add_metric ObserveTimeToDeliver (add_metric (IncDeliverTx ck StSucceeded) ds)
           in (record_outcome mid (with_tx tx (outcome_new (if final then OkDelivered else OkPending) ck at)) ds1,
               if final then Delivered else AwaitingExecution None))
      | SoDestinationFailed dispatcher tx block \<Rightarrow>
          (let detail = (case je_probe env of
                  Some d \<Rightarrow> d
                | None \<Rightarrow> ''revert reason not recoverable (replay failed or timed out)'');
               ds1 = add_metric ObserveTimeToDeliver (add_metric (IncDeliverTx ck StDestinationFailed) ds)
           in start_failed_retries C route (je_exec env) mid
                (record_outcome mid (with_reason (DestinationReason dispatcher detail) (with_tx tx
                   (outcome_new OkDestinationFailed ck at))) ds1))
      | SoAlreadyValidated \<Rightarrow>
          settle_duplicate_revert C A route (je_exec env) mid (add_metric (IncDeliverTx ck StAlreadyValidated) ds)
      | SoPending tx \<Rightarrow>
          (record_outcome mid (with_reason
             (ReasonText ''dispatcher queued/deferred the message (MessageQueued/MessageDeferred)'')
             (with_tx tx (outcome_new OkPending ck at))) (add_metric (IncDeliverTx ck StPending) ds),
           AwaitingExecution None)
      | SoReverted r \<Rightarrow> retry_delivery_revert route r ds
      | SoFailed \<Rightarrow> (add_metric (IncDeliverTx ck StReverted) ds, Retryable))"

definition send_stage ::
  "work_codec \<Rightarrow> inbox_abi \<Rightarrow> chain_route \<Rightarrow> delivery_config \<Rightarrow> job_env \<Rightarrow> delivery_job \<Rightarrow> message_funding \<Rightarrow> delivery_state
    \<Rightarrow> delivery_state \<times> delivery_result_kind" where
  "send_stage C A route cfg env job funding ds =
     (let terms = envelope_terms_of A (dj_payload job);
          ds1 = add_metric (IncDeliverTx (cr_chain_key route) StSubmitted) ds;
          (txs, outcome) = send_loop A route (dj_message_id job) (et_native_value terms)
            (map_option sat_to_u64 (et_gas_limit terms)) (unat (dc_max_retries cfg)) (je_attempts env) 0 (mf_gas funding)
      in settle_outcome C A route env job outcome (ds1\<lparr>ds_txs := ds_txs ds1 @ txs\<rparr>))"

text \<open>Run a stage and, unless it settled the job, what follows.\<close>

definition then_stage ::
  "delivery_state \<times> stage \<Rightarrow> (delivery_state \<Rightarrow> delivery_state \<times> delivery_result_kind)
    \<Rightarrow> delivery_state \<times> delivery_result_kind" where
  "then_stage res k = (case res of (ds, Done kind) \<Rightarrow> (ds, kind) | (ds, ProceedStage) \<Rightarrow> k ds)"

definition handle_job ::
  "work_codec \<Rightarrow> inbox_abi \<Rightarrow> chain_route \<Rightarrow> delivery_config \<Rightarrow> job_env \<Rightarrow> delivery_job \<Rightarrow> message_funding \<Rightarrow> delivery_state
    \<Rightarrow> delivery_state \<times> delivery_result_kind" where
  "handle_job C A route cfg env job funding ds =
     (if dj_reconcile_only job then reconcile_execution C A route (je_exec env) (dj_message_id job) ds
      else then_stage (refuse_over_cap A route env job ds)
             (\<lambda>ds1. then_stage (simulate_stage C A route cfg env job ds1)
                (\<lambda>ds2. then_stage (funding_stage C A route env job funding ds2)
                   (\<lambda>ds3. send_stage C A route cfg env job funding ds3))))"

section \<open>The worker\<close>

text \<open>
  One iteration on a received job: the funding read (\<open>None\<close> when no relayer contract is
  configured, or on a timeout), the job, and the result sent back. \<^verbatim>\<open>handle_job\<close> has no error
  path of its own, so the worker's error arm is never taken.
\<close>

definition job_funding :: "chain_route \<Rightarrow> delivery_job \<Rightarrow> (contract_error + message_info) option \<Rightarrow> message_funding" where
  "job_funding route job answer =
     (if cr_relayer_contract_address route = None \<or> dj_reconcile_only job then funding_unknown
      else case answer of
             None \<Rightarrow> funding_unknown
           | Some info \<Rightarrow> (case read_message_funding info of Inl _ \<Rightarrow> funding_unknown | Inr f \<Rightarrow> f))"

definition worker_step ::
  "work_codec \<Rightarrow> inbox_abi \<Rightarrow> chain_route \<Rightarrow> delivery_config \<Rightarrow> job_env \<Rightarrow> (contract_error + message_info) option
    \<Rightarrow> delivery_job \<Rightarrow> delivery_state \<Rightarrow> delivery_state \<times> delivery_result" where
  "worker_step C A route cfg env answer job ds =
     (let (ds', kind) = handle_job C A route cfg env job (job_funding route job answer) ds
      in (ds', \<lparr>dr_chain_key = dj_chain_key job, dr_message_id = dj_message_id job, dr_outcome = kind\<rparr>))"

end
