(* ===== verification/Delivery_Correct.thy ===== *)
theory Delivery_Correct
  imports Delivery
begin

text \<open>
  What the delivery worker does and never does: which transactions a job may hand to the node,
  what a final result rests on, what it leaves in the outcome store, and the budget of paid
  execution retries over any number of jobs and restarts.
\<close>

section \<open>Effects that touch neither ledger nor wallet\<close>

lemma add_metric_simps [simp]:
  "ds_ledger (add_metric m ds) = ds_ledger ds" "ds_txs (add_metric m ds) = ds_txs ds"
  "ds_outcomes (add_metric m ds) = ds_outcomes ds" "ds_top_up (add_metric m ds) = ds_top_up ds"
  "ds_requests (add_metric m ds) = ds_requests ds"
  by (simp_all add: add_metric_def)

lemma record_outcome_simps [simp]:
  "ds_ledger (record_outcome mid oc ds) = ds_ledger ds" "ds_txs (record_outcome mid oc ds) = ds_txs ds"
  "ds_outcomes (record_outcome mid oc ds) = outcome_record mid oc (ds_outcomes ds)"
  "ds_top_up (record_outcome mid oc ds) = ds_top_up ds" "ds_requests (record_outcome mid oc ds) = ds_requests ds"
  by (simp_all add: record_outcome_def)

lemma add_tx_simps [simp]:
  "ds_ledger (add_tx tx ds) = ds_ledger ds" "ds_txs (add_tx tx ds) = ds_txs ds @ [tx]"
  "ds_outcomes (add_tx tx ds) = ds_outcomes ds" "ds_top_up (add_tx tx ds) = ds_top_up ds"
  "ds_requests (add_tx tx ds) = ds_requests ds"
  by (simp_all add: add_tx_def)

lemma forget_retries_simps [simp]:
  "ds_txs (forget_retries env mid ds) = ds_txs ds" "ds_outcomes (forget_retries env mid ds) = ds_outcomes ds"
  "ds_top_up (forget_retries env mid ds) = ds_top_up ds" "ds_requests (forget_retries env mid ds) = ds_requests ds"
  "ds_ledger (forget_retries env mid ds) = ledger_forget (xe_forget_io env) mid (ds_ledger ds)"
  by (simp_all add: forget_retries_def)

section \<open>Reconciliation\<close>

text \<open>What ends a reconciliation, and the transactions it may send.\<close>

definition retry_allowed :: "chain_route \<Rightarrow> exec_env \<Rightarrow> b256 \<Rightarrow> worker_tx \<Rightarrow> bool" where
  "retry_allowed route env mid tx =
     (case tx of
        DeliverTx _ _ _ \<Rightarrow> False
      | RetryPendingTx m g \<Rightarrow> m = mid \<and> g \<le> cr_max_gas_limit route \<and> xe_preflight env g = RpcOk ()
          \<and> read_execution_state route env = StateOk ExPending
      | RetryFailedTx m g \<Rightarrow> m = mid \<and> g \<le> cr_max_gas_limit route \<and> xe_preflight env g = RpcOk ()
          \<and> read_execution_state route env = StateOk ExFailed)"

definition extends :: "(worker_tx \<Rightarrow> bool) \<Rightarrow> nat \<Rightarrow> delivery_state \<Rightarrow> delivery_state \<Rightarrow> bool" where
  "extends ok n ds ds' \<longleftrightarrow> (\<exists>txs. ds_txs ds' = ds_txs ds @ txs \<and> length txs \<le> n \<and> list_all ok txs)"

lemma extends_refl: "ds_txs ds' = ds_txs ds \<Longrightarrow> extends ok n ds ds'"
  by (simp add: extends_def)

lemma extends_one: "ds_txs ds' = ds_txs ds @ [tx] \<Longrightarrow> ok tx \<Longrightarrow> extends ok 1 ds ds'"
  by (simp add: extends_def)

lemma give_up_failed_retries_result:
  assumes "give_up_failed_retries C route env mid st ds = (ds', kind)"
  shows "kind = Terminal" "ds_txs ds' = ds_txs ds"
    "ds_ledger ds' = (if fr_gave_up_at st \<noteq> None then ds_ledger ds
       else fst (ledger_give_up C (xe_give_up_io env) mid st (unwrap_or_default (xe_now_give_up env)) (ds_ledger ds)))"
    "\<exists>oc. ds_outcomes ds' = outcome_record mid oc (ds_outcomes ds) \<and> do_kind oc = OkDestinationFailed
       \<and> do_reason oc = Some (GaveUpAfter (fr_attempts st))"
  using assms
  by (auto simp: give_up_failed_retries_def Let_def with_reason_def outcome_new_def split: if_splits)


lemma after_failed_retry_result:
  assumes "after_failed_retry C route env mid spent hint ds = (ds', kind)"
  shows "ds_txs ds' = ds_txs ds" and "kind \<noteq> Delivered" and "kind \<noteq> AwaitingVotes"
    and "kind = Terminal \<Longrightarrow> give_up_failed_retries C route env mid spent ds = (ds', Terminal)
      \<and> fp_max_attempts (cr_failed_retry route) \<le> fr_attempts spent"
  using assms give_up_failed_retries_result [of C route env mid spent ds]
  by (auto simp: after_failed_retry_def split: if_splits)

lemma start_failed_retries_result:
  assumes "start_failed_retries C route env mid ds = (ds', kind)"
  shows "ds_txs ds' = ds_txs ds" and "kind \<noteq> Delivered" and "kind \<noteq> AwaitingVotes"
    and "kind = Terminal \<Longrightarrow> \<exists>st ds0. give_up_failed_retries C route env mid st ds0 = (ds', Terminal)
      \<and> ds_outcomes ds0 = ds_outcomes ds \<and> fp_max_attempts (cr_failed_retry route) \<le> fr_attempts st"
proof -
  obtain L st where st: "ledger_start C (xe_start_readable env) (xe_start_io env) mid (cr_failed_retry route)
      (unwrap_or_default (xe_now_start env)) (ds_ledger ds) = (L, st)" by fastforce
  have eq: "start_failed_retries C route env mid ds =
      (if fp_max_attempts (cr_failed_retry route) \<le> fr_attempts st
       then give_up_failed_retries C route env mid st (ds\<lparr>ds_ledger := L\<rparr>)
       else (ds\<lparr>ds_ledger := L\<rparr>, AwaitingExecution (Some (fr_next_attempt_at st))))"
    by (simp add: start_failed_retries_def st)
  note gu = give_up_failed_retries_result [of C route env mid st "ds\<lparr>ds_ledger := L\<rparr>"]
  show "ds_txs ds' = ds_txs ds" and "kind \<noteq> Delivered" and "kind \<noteq> AwaitingVotes"
    using assms gu unfolding eq by (auto split: if_splits)
  show "\<exists>st ds0. give_up_failed_retries C route env mid st ds0 = (ds', Terminal)
      \<and> ds_outcomes ds0 = ds_outcomes ds \<and> fp_max_attempts (cr_failed_retry route) \<le> fr_attempts st" if "kind = Terminal"
    using assms that unfolding eq
    by (intro exI [of _ st] exI [of _ "ds\<lparr>ds_ledger := L\<rparr>"]) (auto split: if_splits)
qed

text \<open>Execution seen in the receipt of a retry, on a route that needs no confirmations.\<close>

definition receipt_executed :: "inbox_abi \<Rightarrow> chain_route \<Rightarrow> b256 \<Rightarrow> receipt rpc \<Rightarrow> bool" where
  "receipt_executed A route mid answer \<longleftrightarrow> cr_block_confirmation_depth route = 0
     \<and> (\<exists>r. answer = RpcOk r \<and> rcpt_status r
          \<and> classify_success_logs A (cr_inbox_address route) mid (rcpt_logs r) = RcDelivered)"

lemma settle_retry_receipt_result:
  assumes "settle_retry_receipt A route env mid gas spent ds = (ds', kind, again, failed)"
  shows "ds_txs ds' = ds_txs ds" and "kind = Delivered \<or> (\<exists>t. kind = AwaitingExecution t)"
    and "kind = Delivered \<Longrightarrow> receipt_executed A route mid (xe_receipt env) \<and> \<not> again \<and> \<not> failed
      \<and> ds_ledger ds' = ledger_forget (xe_forget_io env) mid (ds_ledger ds)
      \<and> (\<exists>oc. ds_outcomes ds' = outcome_record mid oc (ds_outcomes ds) \<and> do_kind oc = OkDelivered)"
    and "kind \<noteq> Delivered \<Longrightarrow> ds_ledger ds' = ds_ledger ds"
    and "ds_outcomes ds' = ds_outcomes ds \<or> (\<exists>oc. ds_outcomes ds' = outcome_record mid oc (ds_outcomes ds))"
  using assms
  by (auto simp: settle_retry_receipt_def receipt_executed_def Let_def with_reason_def with_tx_def outcome_new_def
      split: rpc.splits if_splits receipt_class.splits option.splits)

lemma count_attempt_simps [simp]:
  "ds_txs (fst (count_attempt C route env mid ds)) = ds_txs ds"
  "ds_outcomes (fst (count_attempt C route env mid ds)) = ds_outcomes ds"
  by (simp_all add: count_attempt_def split: prod.splits)

lemma retry_gas_cap: "retry_gas A route est = Inr gas \<Longrightarrow> gas \<le> cr_max_gas_limit route"
  by (auto simp: retry_gas_def split: rpc.splits if_splits)

definition retry_tx :: "b256 \<Rightarrow> bool \<Rightarrow> u64 \<Rightarrow> worker_tx" where
  "retry_tx mid pending gas = (if pending then RetryPendingTx mid gas else RetryFailedTx mid gas)"

text \<open>The ways a retry can end, with the intermediate states that matter to the proofs below.\<close>

lemma retry_execution_cases:
  assumes run: "retry_execution C A route env mid pending ds = (ds', kind)"
  obtains (idle) t where "ds' = ds" "kind = AwaitingExecution t"
  | (parked) gas where "retry_gas A route (xe_estimate env) = Inr gas" "xe_preflight env gas = RpcOk ()" "pending"
      "ds' = add_tx (retry_tx mid True gas) ds" "kind = AwaitingExecution None"
  | (stalled) gas ds1 spent where "retry_gas A route (xe_estimate env) = Inr gas" "xe_preflight env gas = RpcOk ()"
      "\<not> pending" "count_attempt C route env mid (add_tx (retry_tx mid False gas) ds) = (ds1, spent)"
      "after_failed_retry C route env mid spent None ds1 = (ds', kind)"
  | (resumed) gas ds2 result again failed where "retry_gas A route (xe_estimate env) = Inr gas"
      "xe_preflight env gas = RpcOk ()" "pending"
      "settle_retry_receipt A route env mid gas None (add_tx (retry_tx mid True gas) ds) = (ds2, result, again, failed)"
      "(if failed then start_failed_retries C route env mid ds2 else (ds2, result)) = (ds', kind)"
  | (retried) gas ds1 spent ds2 result again failed where "retry_gas A route (xe_estimate env) = Inr gas"
      "xe_preflight env gas = RpcOk ()" "\<not> pending"
      "count_attempt C route env mid (add_tx (retry_tx mid False gas) ds) = (ds1, spent)"
      "settle_retry_receipt A route env mid gas (Some spent) ds1 = (ds2, result, again, failed)"
      "(if again then after_failed_retry C route env mid spent (retry_hint result) ds2 else (ds2, result)) = (ds', kind)"
proof -
  define ds1 spent where "ds1 gas = fst (count_attempt C route env mid (add_tx (retry_tx mid False gas) ds))"
    and "spent gas = snd (count_attempt C route env mid (add_tx (retry_tx mid False gas) ds))" for gas
  have ca: "count_attempt C route env mid (add_tx (retry_tx mid False gas) ds) = (ds1 gas, spent gas)" for gas
    by (simp add: ds1_def spent_def)
  show thesis
  proof (cases "retry_gas A route (xe_estimate env)")
    case (Inl r)
    then show ?thesis using run idle by (auto simp: retry_execution_def retry_gas_def split: rpc.splits if_splits)
  next
    case (Inr gas)
    note g = Inr
    show ?thesis
    proof (cases "xe_preflight env gas")
      case (RpcOk u)
      note pre = RpcOk
      show ?thesis
      proof (cases "xe_send env gas")
        case SendStalled
        then show ?thesis
          using run g pre ca [of gas] stalled [of gas "ds1 gas" "spent gas"] parked [of gas]
          by (cases pending) (simp_all add: retry_execution_def retry_tx_def)
      next
        case (SendRejected err)
        then show ?thesis using run g pre idle by (auto simp: retry_execution_def)
      next
        case SendAccepted
        show ?thesis
        proof (cases pending)
          case True
          obtain ds2 result again failed where s:
            "settle_retry_receipt A route env mid gas None (add_tx (retry_tx mid True gas) ds) = (ds2, result, again, failed)"
            by (rule prod_cases4)
          with True SendAccepted run g pre have "(if failed then start_failed_retries C route env mid ds2 else (ds2, result)) = (ds', kind)"
            by (simp add: retry_execution_def retry_tx_def)
          with resumed [OF g _ True s] pre show ?thesis by simp
        next
          case False
          obtain ds2 result again failed where s:
            "settle_retry_receipt A route env mid gas (Some (spent gas)) (ds1 gas) = (ds2, result, again, failed)"
            by (rule prod_cases4)
          with False SendAccepted run g pre ca [of gas]
          have "(if again then after_failed_retry C route env mid (spent gas) (retry_hint result) ds2 else (ds2, result)) = (ds', kind)"
            by (simp add: retry_execution_def retry_tx_def)
          with retried [OF g _ False ca s] pre show ?thesis by simp
        qed
      qed
    next
      case RpcTimeout
      then show ?thesis using run g idle by (auto simp: retry_execution_def)
    next
      case (RpcErr err)
      then show ?thesis using run g idle by (auto simp: retry_execution_def)
    qed
  qed
qed

lemma retry_allowed_tx:
  assumes "retry_gas A route (xe_estimate env) = Inr gas" and "xe_preflight env gas = RpcOk ()"
    and "read_execution_state route env = StateOk (if pending then ExPending else ExFailed)"
  shows "retry_allowed route env mid (retry_tx mid pending gas)"
  using assms retry_gas_cap [OF assms(1)] by (simp add: retry_allowed_def retry_tx_def)

lemma retry_execution_txs:
  assumes "retry_execution C A route env mid pending ds = (ds', kind)"
    and st: "read_execution_state route env = StateOk (if pending then ExPending else ExFailed)"
  shows "extends (retry_allowed route env mid) 1 ds ds'"
  using assms(1)
proof (cases rule: retry_execution_cases)
  case (idle t)
  then show ?thesis by (simp add: extends_refl)
next
  case (parked gas)
  with st show ?thesis using retry_allowed_tx [of A route env gas True mid] by (intro extends_one) auto
next
  case (stalled gas ds1 spent)
  from count_attempt_simps(1) [of C route env mid "add_tx (retry_tx mid False gas) ds"] stalled
    after_failed_retry_result(1) [OF stalled(5)] st retry_allowed_tx [of A route env gas False mid]
  show ?thesis by (intro extends_one [where tx = "retry_tx mid False gas"]) auto
next
  case (resumed gas ds2 result again failed)
  from settle_retry_receipt_result(1) [OF resumed(4)] resumed start_failed_retries_result(1) [of C route env mid ds2 ds' kind]
    st retry_allowed_tx [of A route env gas True mid]
  show ?thesis by (intro extends_one [where tx = "retry_tx mid True gas"]) (auto split: if_splits)
next
  case (retried gas ds1 spent ds2 result again failed)
  from count_attempt_simps(1) [of C route env mid "add_tx (retry_tx mid False gas) ds"] retried
    settle_retry_receipt_result(1) [OF retried(5)]
    after_failed_retry_result(1) [of C route env mid spent "retry_hint result" ds2 ds' kind]
    st retry_allowed_tx [of A route env gas False mid]
  show ?thesis by (intro extends_one [where tx = "retry_tx mid False gas"]) (auto split: if_splits)
qed

text \<open>Executed at the depth the route asks for.\<close>

definition confirmed :: "chain_route \<Rightarrow> exec_env \<Rightarrow> bool" where
  "confirmed route env \<longleftrightarrow> (\<exists>p. xe_processed_at env = Inr p \<and> p \<noteq> 0
     \<and> (0 < cr_block_confirmation_depth route \<longrightarrow>
          (\<exists>tip q. xe_tip env = Inr tip
             \<and> p \<le> ucast (sat_sub tip (cr_block_confirmation_depth route))
             \<and> xe_processed_at_block env (sat_sub tip (cr_block_confirmation_depth route)) = Inr q \<and> q \<noteq> 0)))"

lemma read_executed_iff: "read_execution_state route env = StateOk Executed \<longleftrightarrow> \<not> xe_state_timeout env \<and> confirmed route env"
  by (auto simp: read_execution_state_def confirmed_def Let_def not_less split: sum.splits if_splits bool.splits)

lemma retry_execution_delivered:
  assumes "retry_execution C A route env mid pending ds = (ds', Delivered)"
  shows "receipt_executed A route mid (xe_receipt env)
    \<and> (\<exists>oc. ds_outcomes ds' = outcome_record mid oc (ds_outcomes ds) \<and> do_kind oc = OkDelivered)"
  using assms
proof (cases rule: retry_execution_cases)
  case (stalled gas ds1 spent)
  with after_failed_retry_result(2) [OF stalled(5)] show ?thesis by simp
next
  case (resumed gas ds2 result again failed)
  have "\<not> failed" using resumed(5) start_failed_retries_result(2) [of C route env mid ds2 ds' Delivered] by auto
  with resumed(5) have "result = Delivered" "ds' = ds2" by simp_all
  with settle_retry_receipt_result(3) [OF resumed(4)] show ?thesis by simp
next
  case (retried gas ds1 spent ds2 result again failed)
  have "\<not> again"
    using retried(6) after_failed_retry_result(2) [of C route env mid spent "retry_hint result" ds2 ds' Delivered] by auto
  with retried(6) have "result = Delivered" "ds' = ds2" by simp_all
  moreover have "ds_outcomes ds1 = ds_outcomes ds"
    using count_attempt_simps(2) [of C route env mid "add_tx (retry_tx mid False gas) ds"] retried(4) by simp
  ultimately show ?thesis using settle_retry_receipt_result(3) [OF retried(5)] by simp
qed auto


section \<open>Giving up\<close>

definition abandoned :: "b256 \<Rightarrow> ledger \<Rightarrow> bool" where
  "abandoned mid L \<longleftrightarrow> (\<exists>s. hm_get (fl_memory (fst L)) mid = Some s \<and> fr_gave_up_at s \<noteq> None)"

lemma abandoned_gate:
  assumes "abandoned mid L"
  shows "\<exists>st. snd (ledger_gate C r mid p now L) = GiveUp st \<and> fr_gave_up_at st \<noteq> None"
  using assms
  by (auto simp: abandoned_def ledger_gate_def ledger_get_def Let_def stricter_def option_or_def
      split: prod.splits sum.splits option.splits)

lemma ledger_get_cached:
  "ledger_get C r mid L = (L1, Inr (Some s)) \<Longrightarrow> hm_get (fl_memory (fst L1)) mid = Some s"
  by (auto simp: ledger_get_def Let_def update_conv' split: prod.splits sum.splits option.splits)

lemma gate_give_up_cached:
  assumes "ledger_gate C r mid p now L = (L1, GiveUp st)"
  shows "fr_gave_up_at st \<noteq> None \<Longrightarrow> hm_get (fl_memory (fst L1)) mid = Some st"
    and "fr_gave_up_at st \<noteq> None \<or> fp_max_attempts p \<le> fr_attempts st"
  using assms ledger_get_cached [of C r mid L]
  by (auto simp: ledger_gate_def Let_def default_retry_state_def split: prod.splits sum.splits option.splits if_splits)

lemma start_cached:
  assumes "ledger_start C r io mid p now L = (L1, st)" and "fr_gave_up_at st \<noteq> None"
  shows "hm_get (fl_memory (fst L1)) mid = Some st"
  using assms ledger_get_cached [of C r mid L]
  by (auto simp: ledger_start_def Let_def split: prod.splits sum.splits option.splits)

lemma give_up_abandons:
  assumes "give_up_failed_retries C route env mid st ds = (ds', kind)"
    and "fr_gave_up_at st \<noteq> None \<Longrightarrow> hm_get (fl_memory (fst (ds_ledger ds))) mid = Some st"
  shows "abandoned mid (ds_ledger ds')"
  using give_up_failed_retries_result(3) [OF assms(1)] assms(2)
  by (auto simp: abandoned_def ledger_give_up_def ledger_put_def Let_def update_conv' split: prod.splits if_splits)

text \<open>Where a terminal verdict leaves the worker: abandoned in memory, with the reason recorded.\<close>

definition gave_up :: "b256 \<Rightarrow> delivery_state \<Rightarrow> delivery_state \<Rightarrow> bool" where
  "gave_up mid ds ds' \<longleftrightarrow> abandoned mid (ds_ledger ds')
     \<and> (\<exists>ocs oc n. ds_outcomes ds' = outcome_record mid oc ocs
          \<and> (ocs = ds_outcomes ds \<or> (\<exists>oc0. ocs = outcome_record mid oc0 (ds_outcomes ds)))
          \<and> do_kind oc = OkDestinationFailed \<and> do_reason oc = Some (GaveUpAfter n))"

lemma gave_upI:
  assumes "give_up_failed_retries C route env mid st ds1 = (ds', kind)"
    and "fr_gave_up_at st \<noteq> None \<Longrightarrow> hm_get (fl_memory (fst (ds_ledger ds1))) mid = Some st"
    and "ds_outcomes ds1 = ds_outcomes ds \<or> (\<exists>oc0. ds_outcomes ds1 = outcome_record mid oc0 (ds_outcomes ds))"
  shows "gave_up mid ds ds'"
  unfolding gave_up_def
  using give_up_abandons [OF assms(1,2)] give_up_failed_retries_result(4) [OF assms(1)] assms(3) by blast

lemma start_gives_up:
  assumes "start_failed_retries C route env mid ds1 = (ds', Terminal)"
    and "ds_outcomes ds1 = ds_outcomes ds \<or> (\<exists>oc0. ds_outcomes ds1 = outcome_record mid oc0 (ds_outcomes ds))"
  shows "gave_up mid ds ds'"
proof -
  obtain L st where st: "ledger_start C (xe_start_readable env) (xe_start_io env) mid (cr_failed_retry route)
      (unwrap_or_default (xe_now_start env)) (ds_ledger ds1) = (L, st)" by fastforce
  with assms(1) have gu: "give_up_failed_retries C route env mid st (ds1\<lparr>ds_ledger := L\<rparr>) = (ds', Terminal)"
    by (simp add: start_failed_retries_def Let_def split: if_splits)
  from gave_upI [OF gu, of ds] start_cached [OF st] assms(2) show ?thesis by simp
qed

lemma count_attempt_not_given_up:
  "count_attempt C route env mid ds = (ds1, spent) \<Longrightarrow> fr_gave_up_at spent = None"
  by (auto simp: count_attempt_def record_attempt_def Let_def split: prod.splits)

lemma retry_execution_terminal:
  assumes "retry_execution C A route env mid pending ds = (ds', Terminal)"
  shows "gave_up mid ds ds'"
  using assms
proof (cases rule: retry_execution_cases)
  case (stalled gas ds1 spent)
  have "ds_outcomes ds1 = ds_outcomes ds"
    using count_attempt_simps(2) [of C route env mid "add_tx (retry_tx mid False gas) ds"] stalled(4) by simp
  moreover have gu: "give_up_failed_retries C route env mid spent ds1 = (ds', Terminal)"
    using after_failed_retry_result(4) [OF stalled(5) refl] by simp
  ultimately show ?thesis using gave_upI [OF gu, of ds] count_attempt_not_given_up [OF stalled(4)] by simp
next
  case (resumed gas ds2 result again failed)
  have "failed" using resumed(5) settle_retry_receipt_result(2) [OF resumed(4)] by (auto split: if_splits)
  with resumed(5) have "start_failed_retries C route env mid ds2 = (ds', Terminal)" by simp
  from start_gives_up [OF this] settle_retry_receipt_result(5) [OF resumed(4)] show ?thesis by simp
next
  case (retried gas ds1 spent ds2 result again failed)
  have "again" using retried(6) settle_retry_receipt_result(2) [OF retried(5)] by (auto split: if_splits)
  with retried(6) have "after_failed_retry C route env mid spent (retry_hint result) ds2 = (ds', Terminal)" by simp
  then have gu: "give_up_failed_retries C route env mid spent ds2 = (ds', Terminal)"
    using after_failed_retry_result(4) by blast
  have "ds_outcomes ds1 = ds_outcomes ds"
    using count_attempt_simps(2) [of C route env mid "add_tx (retry_tx mid False gas) ds"] retried(4) by simp
  then show ?thesis
    using gave_upI [OF gu, of ds] count_attempt_not_given_up [OF retried(4)] settle_retry_receipt_result(5) [OF retried(5)]
    by simp
qed auto


section \<open>Reconciliation as a whole\<close>

lemma reconcile_cases:
  assumes "reconcile_execution C A route env mid ds = (ds', kind)"
  obtains (unread) "ds' = ds" "kind = Retryable"
  | (executed) oc where "confirmed route env" "kind = Delivered" "do_kind oc = OkDelivered"
      "ds' = record_outcome mid oc (forget_retries env mid ds)"
  | (waiting) t where "ds' = ds" "kind = AwaitingExecution t \<or> kind = AwaitingVotes"
  | (pending) "read_execution_state route env = StateOk ExPending"
      "retry_execution C A route env mid True ds = (ds', kind)"
  | (proceed) L where "read_execution_state route env = StateOk ExFailed"
      "ledger_gate C (xe_gate_readable env) mid (cr_failed_retry route) (unwrap_or_default (xe_now_gate env))
         (ds_ledger ds) = (L, Proceed)"
      "retry_execution C A route env mid False (ds\<lparr>ds_ledger := L\<rparr>) = (ds', kind)"
  | (wait) L at where "ledger_gate C (xe_gate_readable env) mid (cr_failed_retry route) (unwrap_or_default (xe_now_gate env))
         (ds_ledger ds) = (L, Wait at)" "ds' = ds\<lparr>ds_ledger := L\<rparr>" "kind = AwaitingExecution (Some at)"
  | (exhausted) L st where "ledger_gate C (xe_gate_readable env) mid (cr_failed_retry route) (unwrap_or_default (xe_now_gate env))
         (ds_ledger ds) = (L, GiveUp st)" "give_up_failed_retries C route env mid st (ds\<lparr>ds_ledger := L\<rparr>) = (ds', kind)"
proof (cases "read_execution_state route env")
  case (StateOk x)
  note st = StateOk
  show thesis
  proof (cases x)
    case Executed
    with st have "confirmed route env" using read_executed_iff by simp
    with st Executed assms show thesis
      by (intro executed) (auto simp: reconcile_execution_def with_reason_def outcome_new_def)
  next
    case ExFailed
    obtain L g where g: "ledger_gate C (xe_gate_readable env) mid (cr_failed_retry route) (unwrap_or_default (xe_now_gate env))
         (ds_ledger ds) = (L, g)" by fastforce
    show thesis
    proof (cases g)
      case Proceed
      with st ExFailed assms g proceed show thesis by (simp add: reconcile_execution_def)
    next
      case (Wait at)
      with st ExFailed assms g wait show thesis by (simp add: reconcile_execution_def)
    next
      case (GiveUp s)
      with st ExFailed assms g exhausted show thesis by (simp add: reconcile_execution_def)
    qed
  next
    case Confirming
    with st assms waiting show thesis by (auto simp: reconcile_execution_def)
  next
    case ExPending
    with st assms pending show thesis by (simp add: reconcile_execution_def)
  next
    case Unaccepted
    with st assms waiting show thesis by (auto simp: reconcile_execution_def)
  qed
next
  case StateTimeout
  with assms unread show thesis by (simp add: reconcile_execution_def)
next
  case StateErr
  with assms unread show thesis by (simp add: reconcile_execution_def)
qed

lemma reconcile_txs:
  assumes "reconcile_execution C A route env mid ds = (ds', kind)"
  shows "extends (retry_allowed route env mid) 1 ds ds'"
  using assms
proof (cases rule: reconcile_cases)
  case pending
  from retry_execution_txs [OF pending(2)] pending(1) show ?thesis by simp
next
  case (proceed L)
  from retry_execution_txs [OF proceed(3)] proceed(1) show ?thesis by (simp add: extends_def)
next
  case (exhausted L st)
  from give_up_failed_retries_result(2) [OF exhausted(2)] show ?thesis by (simp add: extends_refl)
qed (auto simp: extends_refl)

lemma reconcile_delivered:
  assumes "reconcile_execution C A route env mid ds = (ds', Delivered)"
  shows "(confirmed route env \<or> receipt_executed A route mid (xe_receipt env))
    \<and> (\<exists>oc. ds_outcomes ds' = outcome_record mid oc (ds_outcomes ds) \<and> do_kind oc = OkDelivered)"
  using assms
proof (cases rule: reconcile_cases)
  case pending
  from retry_execution_delivered [OF pending(2)] show ?thesis by simp
next
  case (proceed L)
  from retry_execution_delivered [OF proceed(3)] show ?thesis by simp
next
  case (exhausted L st)
  from give_up_failed_retries_result(1) [OF exhausted(2)] show ?thesis by simp
qed auto

lemma reconcile_terminal:
  assumes "reconcile_execution C A route env mid ds = (ds', Terminal)"
  shows "gave_up mid ds ds'"
  using assms
proof (cases rule: reconcile_cases)
  case pending
  then show ?thesis using retry_execution_terminal by simp
next
  case (proceed L)
  from retry_execution_terminal [OF proceed(3)] show ?thesis by (simp add: gave_up_def)
next
  case (exhausted L st)
  from gave_upI [OF exhausted(2), of ds] gate_give_up_cached(1) [OF exhausted(1)] show ?thesis by simp
qed auto

lemma settle_duplicate_result:
  assumes "settle_duplicate_revert C A route env mid ds = (ds', kind)"
  obtains k where "reconcile_execution C A route env mid ds = (ds', k)" "kind = (if k = AwaitingVotes then Retryable else k)"
  using assms by (auto simp: settle_duplicate_revert_def split: prod.splits delivery_result_kind.splits)


section \<open>The send loop\<close>

text \<open>What a delivery transaction may look like, and what it was checked against.\<close>

definition deliver_allowed ::
  "chain_route \<Rightarrow> b256 \<Rightarrow> u256 \<Rightarrow> u64 option \<Rightarrow> (nat \<Rightarrow> attempt_env) \<Rightarrow> worker_tx \<Rightarrow> bool" where
  "deliver_allowed route mid v funded answers tx =
     (case tx of
        DeliverTx m g w \<Rightarrow> m = mid \<and> w = v
          \<and> (g = funded \<or> (\<exists>x. g = Some x \<and> x \<le> cr_max_gas_limit route))
          \<and> (\<exists>n. ae_preflight (answers n) g = RpcOk True)
      | _ \<Rightarrow> False)"

definition gas_fits :: "chain_route \<Rightarrow> u64 option \<Rightarrow> u64 option \<Rightarrow> bool" where
  "gas_fits route funded g \<longleftrightarrow> g = funded \<or> (\<exists>x. g = Some x \<and> x \<le> cr_max_gas_limit route)"

lemma bump_fits: "bump_or_stop route gas envelope = Again g \<Longrightarrow> gas_fits route funded g"
  by (cases "bumped_gas_limit gas envelope (cr_max_gas_limit route)")
    (auto simp: bump_or_stop_def gas_fits_def elim: bumped_gas_limit_bounds)

lemma send_attempt_fits:
  assumes "send_attempt A route mid may gas envelope ae = (b, Again g)" and "gas_fits route funded gas"
  shows "gas_fits route funded g"
  using assms bump_fits [of route gas envelope g funded]
  by (auto simp: send_attempt_def after_send_error_def after_receipt_def Let_def
      split: rpc.splits bool.splits send_answer.splits option.splits delivery_revert.splits if_splits)

lemma send_attempt_preflight:
  "send_attempt A route mid may gas envelope ae = (True, e) \<Longrightarrow> ae_preflight ae gas = RpcOk True"
  by (auto simp: send_attempt_def split: rpc.splits bool.splits)

lemma send_attempt_succeeded:
  assumes "send_attempt A route mid may gas envelope ae = (b, Stop (SoSucceeded tx))"
  shows "\<exists>r. ae_receipt ae = RpcOk r \<and> rcpt_status r
    \<and> classify_success_logs A (cr_inbox_address route) mid (rcpt_logs r) = RcDelivered"
  using assms
  by (auto simp: send_attempt_def after_send_error_def after_receipt_def bump_or_stop_def Let_def
      split: rpc.splits bool.splits send_answer.splits option.splits delivery_revert.splits receipt_class.splits if_splits)

lemma send_loop_txs:
  "send_loop A route mid v envelope max_retries answers attempts gas = (txs, out) \<Longrightarrow>
   gas_fits route funded gas \<Longrightarrow> attempts \<le> max_retries \<Longrightarrow>
   list_all (deliver_allowed route mid v funded answers) txs \<and> length txs + attempts \<le> Suc max_retries
   \<and> (\<forall>tx. out = SoSucceeded tx \<longrightarrow> (\<exists>n r. ae_receipt (answers n) = RpcOk r \<and> rcpt_status r
        \<and> classify_success_logs A (cr_inbox_address route) mid (rcpt_logs r) = RcDelivered))"
proof (induction A route mid v envelope max_retries answers attempts gas arbitrary: txs out rule: send_loop.induct)
  case (1 A route mid v envelope max_retries answers attempts gas)
  obtain sent e where sa: "send_attempt A route mid (attempts + 1 \<le> max_retries) gas envelope (answers (attempts + 1)) = (sent, e)"
    by fastforce
  have mine: "list_all (deliver_allowed route mid v funded answers) (if sent then [DeliverTx mid gas v] else [])"
  proof (cases sent)
    case True
    with sa have "send_attempt A route mid (attempts + 1 \<le> max_retries) gas envelope (answers (attempts + 1)) = (True, e)"
      by simp
    from send_attempt_preflight [OF this] True 1(3) show ?thesis by (auto simp: deliver_allowed_def gas_fits_def)
  qed simp
  show ?case
  proof (cases e)
    case (Stop outcome)
    with sa 1(2) have "txs = (if sent then [DeliverTx mid gas v] else [])" "out = outcome"
      by (simp_all add: send_loop.simps [of A route mid v envelope max_retries answers attempts gas])
    with mine 1(4) sa Stop send_attempt_succeeded show ?thesis by fastforce
  next
    case (Again gas')
    obtain txs' out' where rec: "send_loop A route mid v envelope max_retries answers (attempts + 1) gas' = (txs', out')"
      by fastforce
    have le: "attempts + 1 \<le> max_retries" using send_attempt_again sa Again by blast
    have "gas_fits route funded gas'" using send_attempt_fits [OF _ 1(3)] sa Again by blast
    note ih = 1(1) [OF refl sa [symmetric] refl refl Again rec this le]
    from sa Again 1(2) rec have "txs = (if sent then [DeliverTx mid gas v] else []) @ txs'" "out = out'"
      by (simp_all add: send_loop.simps [of A route mid v envelope max_retries answers attempts gas])
    with mine ih show ?thesis by auto
  qed
qed


section \<open>The job\<close>

text \<open>
  A job's transactions: deliveries within the route's caps for the job's message and value, or one
  preflighted retry of an accepted message.
\<close>

definition within_caps :: "inbox_abi \<Rightarrow> chain_route \<Rightarrow> delivery_job \<Rightarrow> bool" where
  "within_caps A route job \<longleftrightarrow>
     et_native_value (envelope_terms_of A (dj_payload job)) \<le> cr_max_native_coin_value_wei route
     \<and> (\<forall>g. et_gas_limit (envelope_terms_of A (dj_payload job)) = Some g \<longrightarrow> g \<le> ucast (cr_max_gas_limit route))"

definition job_tx :: "inbox_abi \<Rightarrow> chain_route \<Rightarrow> job_env \<Rightarrow> delivery_job \<Rightarrow> message_funding \<Rightarrow> worker_tx \<Rightarrow> bool" where
  "job_tx A route env job funding tx \<longleftrightarrow>
     \<not> dj_reconcile_only job \<and> within_caps A route job
       \<and> deliver_allowed route (dj_message_id job) (et_native_value (envelope_terms_of A (dj_payload job)))
           (mf_gas funding) (je_attempts env) tx
     \<or> retry_allowed route (je_exec env) (dj_message_id job) tx"

definition is_delivery :: "worker_tx \<Rightarrow> bool" where
  "is_delivery tx = (case tx of DeliverTx _ _ _ \<Rightarrow> True | _ \<Rightarrow> False)"

lemma retry_not_delivery: "retry_allowed route env mid tx \<Longrightarrow> \<not> is_delivery tx"
  by (cases tx) (simp_all add: retry_allowed_def is_delivery_def)

lemma allowed_delivery: "deliver_allowed route mid v funded answers tx \<Longrightarrow> is_delivery tx"
  by (cases tx) (simp_all add: deliver_allowed_def is_delivery_def)

text \<open>
  What a job promises about its transactions: \<open>d\<close> bounds the deliveries, one retry at most may
  follow them.
\<close>

definition job_txs ::
  "inbox_abi \<Rightarrow> chain_route \<Rightarrow> job_env \<Rightarrow> delivery_job \<Rightarrow> message_funding \<Rightarrow> nat \<Rightarrow> delivery_state \<Rightarrow> delivery_state \<Rightarrow> bool" where
  "job_txs A route env job funding d ds ds' \<longleftrightarrow> (\<exists>txs. ds_txs ds' = ds_txs ds @ txs
     \<and> list_all (job_tx A route env job funding) txs
     \<and> length (filter is_delivery txs) \<le> d \<and> length (filter (\<lambda>tx. \<not> is_delivery tx) txs) \<le> 1)"

lemma job_txs_none: "ds_txs ds' = ds_txs ds \<Longrightarrow> job_txs A route env job funding d ds ds'"
  by (simp add: job_txs_def)

lemma job_txs_retry:
  assumes "extends (retry_allowed route (je_exec env) (dj_message_id job)) 1 ds ds'"
  shows "job_txs A route env job funding d ds ds'"
proof -
  obtain txs where txs: "ds_txs ds' = ds_txs ds @ txs" "length txs \<le> 1"
    "list_all (retry_allowed route (je_exec env) (dj_message_id job)) txs"
    using assms by (auto simp: extends_def)
  from txs(3) have "filter is_delivery txs = []" "list_all (job_tx A route env job funding) txs"
    by (auto simp: filter_empty_conv list_all_iff job_tx_def dest: retry_not_delivery)
  moreover have "length (filter (\<lambda>tx. \<not> is_delivery tx) txs) \<le> 1"
    using txs(2) length_filter_le [of "\<lambda>tx. \<not> is_delivery tx" txs] by linarith
  ultimately show ?thesis using txs(1) by (auto simp: job_txs_def)
qed

lemma job_txs_send:
  assumes "ds_txs ds1 = ds_txs ds @ txs" and "extends (retry_allowed route (je_exec env) (dj_message_id job)) 1 ds1 ds'"
    and "\<not> dj_reconcile_only job" and "within_caps A route job"
    and "list_all (deliver_allowed route (dj_message_id job) (et_native_value (envelope_terms_of A (dj_payload job)))
           (mf_gas funding) (je_attempts env)) txs" and "length txs \<le> d"
  shows "job_txs A route env job funding d ds ds'"
proof -
  obtain rs where rs: "ds_txs ds' = ds_txs ds @ txs @ rs" "length rs \<le> 1"
    "list_all (retry_allowed route (je_exec env) (dj_message_id job)) rs"
    using assms(1,2) by (auto simp: extends_def)
  have d: "filter is_delivery txs = txs" "filter (\<lambda>tx. \<not> is_delivery tx) txs = []"
    using assms(5) allowed_delivery by (fastforce simp: filter_id_conv filter_empty_conv list_all_iff)+
  have r: "filter is_delivery rs = []"
    using rs(3) retry_not_delivery by (auto simp: filter_empty_conv list_all_iff)
  have "list_all (job_tx A route env job funding) (txs @ rs)"
    using assms(3-5) rs(3) by (auto simp: list_all_iff job_tx_def)
  moreover have "length (filter (\<lambda>tx. \<not> is_delivery tx) rs) \<le> 1"
    using rs(2) length_filter_le [of "\<lambda>tx. \<not> is_delivery tx" rs] by linarith
  ultimately show ?thesis using rs(1) d r assms(6) by (auto simp: job_txs_def intro!: exI [of _ "txs @ rs"])
qed

text \<open>What a final result rests on, and what it leaves in the outcome store.\<close>

definition executed_evidence :: "inbox_abi \<Rightarrow> chain_route \<Rightarrow> job_env \<Rightarrow> b256 \<Rightarrow> bool" where
  "executed_evidence A route env mid \<longleftrightarrow> confirmed route (je_exec env)
     \<or> receipt_executed A route mid (xe_receipt (je_exec env))
     \<or> (\<exists>n. receipt_executed A route mid (ae_receipt (je_attempts env n)))"

definition underfunded :: "job_env \<Rightarrow> message_funding \<Rightarrow> bool" where
  "underfunded env funding \<longleftrightarrow> (\<exists>gas est. mf_gas funding = Some gas \<and> je_estimate env = RpcOk est \<and> gas < est
     \<and> top_up_foreclosed funding (je_now_top_up env) \<noteq> None)"

definition recorded :: "b256 \<Rightarrow> outcome_kind \<Rightarrow> delivery_state \<Rightarrow> delivery_state \<Rightarrow> bool" where
  "recorded mid k ds ds' \<longleftrightarrow> (outcome_ok (ds_outcomes ds) \<longrightarrow>
     (\<exists>oc. outcome_get mid (ds_outcomes ds') = Some oc \<and> do_kind oc = k))"

definition settled ::
  "inbox_abi \<Rightarrow> chain_route \<Rightarrow> job_env \<Rightarrow> delivery_job \<Rightarrow> message_funding \<Rightarrow> delivery_state \<Rightarrow> delivery_state
    \<Rightarrow> delivery_result_kind \<Rightarrow> bool" where
  "settled A route env job funding ds ds' kind \<longleftrightarrow>
     (kind = Delivered \<longrightarrow> executed_evidence A route env (dj_message_id job) \<and> recorded (dj_message_id job) OkDelivered ds ds')
     \<and> (kind = Terminal \<longrightarrow>
          \<not> within_caps A route job \<and> recorded (dj_message_id job) OkUndeliverable ds ds'
          \<or> underfunded env funding \<and> recorded (dj_message_id job) OkTerminal ds ds'
          \<or> abandoned (dj_message_id job) (ds_ledger ds') \<and> recorded (dj_message_id job) OkDestinationFailed ds ds')"

lemma recordedI: "ds_outcomes ds' = outcome_record mid oc (ds_outcomes ds) \<Longrightarrow> do_kind oc = k \<Longrightarrow> recorded mid k ds ds'"
  by (simp add: recorded_def outcome_get_record)

lemma recorded_from: "ds_outcomes ds1 = ds_outcomes ds \<Longrightarrow> recorded mid k ds1 ds' \<Longrightarrow> recorded mid k ds ds'"
  by (simp add: recorded_def)

lemma gave_up_recorded: "gave_up mid ds ds' \<Longrightarrow> abandoned mid (ds_ledger ds') \<and> recorded mid OkDestinationFailed ds ds'"
  by (auto simp: gave_up_def recorded_def outcome_get_record outcome_record_ok)

lemma settled_open: "kind \<noteq> Delivered \<Longrightarrow> kind \<noteq> Terminal \<Longrightarrow> settled A route env job funding ds ds' kind"
  by (simp add: settled_def)

lemma settled_from:
  "ds_outcomes ds1 = ds_outcomes ds \<Longrightarrow> settled A route env job funding ds1 ds' kind \<Longrightarrow> settled A route env job funding ds ds' kind"
  by (auto simp: settled_def dest: recorded_from)

lemma job_txs_from:
  "ds_txs ds1 = ds_txs ds \<Longrightarrow> job_txs A route env job funding d ds1 ds' \<Longrightarrow> job_txs A route env job funding d ds ds'"
  by (simp add: job_txs_def)

lemma reconcile_settled:
  assumes "reconcile_execution C A route (je_exec env) (dj_message_id job) ds = (ds', kind)"
  shows "settled A route env job funding ds ds' kind"
proof -
  have "kind = Delivered \<Longrightarrow> executed_evidence A route env (dj_message_id job) \<and> recorded (dj_message_id job) OkDelivered ds ds'"
    using reconcile_delivered [of C A route "je_exec env" "dj_message_id job" ds ds'] assms
    by (auto simp: executed_evidence_def intro: recordedI)
  moreover have "kind = Terminal \<Longrightarrow> gave_up (dj_message_id job) ds ds'"
    using reconcile_terminal assms by blast
  ultimately show ?thesis using gave_up_recorded by (auto simp: settled_def)
qed

lemma duplicate_settled:
  assumes "settle_duplicate_revert C A route (je_exec env) (dj_message_id job) ds = (ds', kind)"
  shows "settled A route env job funding ds ds' kind"
    and "extends (retry_allowed route (je_exec env) (dj_message_id job)) 1 ds ds'"
proof -
  obtain k where k: "reconcile_execution C A route (je_exec env) (dj_message_id job) ds = (ds', k)"
    "kind = (if k = AwaitingVotes then Retryable else k)"
    using settle_duplicate_result [OF assms] by blast
  from reconcile_settled [OF k(1), of funding] k(2) show "settled A route env job funding ds ds' kind"
    by (cases "k = AwaitingVotes") (simp_all add: settled_open)
  show "extends (retry_allowed route (je_exec env) (dj_message_id job)) 1 ds ds'" by (rule reconcile_txs [OF k(1)])
qed

lemma start_settled:
  assumes "start_failed_retries C route (je_exec env) (dj_message_id job) ds = (ds', kind)"
  shows "settled A route env job funding ds ds' kind"
proof -
  have "kind = Terminal \<Longrightarrow> gave_up (dj_message_id job) ds ds'" using start_gives_up [of _ _ _ _ ds] assms by blast
  with start_failed_retries_result(2) [OF assms] gave_up_recorded show ?thesis by (auto simp: settled_def)
qed

lemma settle_outcome_settled:
  assumes "settle_outcome C A route env job outcome ds = (ds', kind)"
    and "\<And>tx. outcome = SoSucceeded tx \<Longrightarrow> cr_block_confirmation_depth route = 0 \<Longrightarrow>
      \<exists>n. receipt_executed A route (dj_message_id job) (ae_receipt (je_attempts env n))"
  shows "settled A route env job funding ds ds' kind"
    and "extends (retry_allowed route (je_exec env) (dj_message_id job)) 1 ds ds'"
proof (atomize (full), cases outcome)
  case (SoSucceeded tx)
  have "recorded (dj_message_id job) OkDelivered ds ds'" if "cr_block_confirmation_depth route = 0"
    using assms(1) SoSucceeded that
    by (intro recordedI) (auto simp: settle_outcome_def Let_def with_tx_def outcome_new_def)
  with assms SoSucceeded
  show "settled A route env job funding ds ds' kind \<and> extends (retry_allowed route (je_exec env) (dj_message_id job)) 1 ds ds'"
    by (auto simp: settle_outcome_def Let_def settled_def executed_evidence_def extends_refl split: if_splits)
next
  case SoAlreadyValidated
  with assms(1) have d: "settle_duplicate_revert C A route (je_exec env) (dj_message_id job)
      (add_metric (IncDeliverTx (cr_chain_key route) StAlreadyValidated) ds) = (ds', kind)"
    by (simp add: settle_outcome_def)
  from duplicate_settled(2) [OF d] settled_from [OF _ duplicate_settled(1) [OF d]]
  show "settled A route env job funding ds ds' kind \<and> extends (retry_allowed route (je_exec env) (dj_message_id job)) 1 ds ds'"
    by (simp add: extends_def)
next
  case (SoDestinationFailed disp tx blk)
  define mid where "mid = dj_message_id job"
  obtain ds1 oc where st: "start_failed_retries C route (je_exec env) mid ds1 = (ds', kind)"
    and ds1: "ds_outcomes ds1 = outcome_record mid oc (ds_outcomes ds)" "ds_txs ds1 = ds_txs ds"
    using assms(1) SoDestinationFailed by (auto simp: settle_outcome_def Let_def mid_def)
  have "kind = Terminal \<Longrightarrow> gave_up mid ds ds'" using start_gives_up [of C route "je_exec env" mid ds1 ds' ds] st ds1 by blast
  with start_failed_retries_result(1,2) [OF st] gave_up_recorded ds1
  show "settled A route env job funding ds ds' kind \<and> extends (retry_allowed route (je_exec env) (dj_message_id job)) 1 ds ds'"
    by (auto simp: settled_def mid_def extends_refl)
qed (use assms(1) in \<open>auto simp: settle_outcome_def Let_def retry_delivery_revert_def intro!: settled_open extends_refl\<close>)


lemma pre_send_error_result:
  assumes "pre_send_error C A route (je_exec env) (dj_message_id job) err ds = (ds', st)"
  shows "st = ProceedStage \<Longrightarrow> ds' = ds"
    and "st = Done kind \<Longrightarrow> settled A route env job funding ds ds' kind \<and> job_txs A route env job funding d ds ds'"
proof -
  have dup: "settled A route env job funding ds ds'' k \<and> job_txs A route env job funding d ds ds''"
    if "settle_duplicate_revert C A route (je_exec env) (dj_message_id job) ds = (ds'', k)" for ds'' k
    using duplicate_settled [OF that] job_txs_retry by blast
  show "st = ProceedStage \<Longrightarrow> ds' = ds"
    using assms
    by (auto simp: pre_send_error_def settle_pre_send_revert_def Let_def
        split: option.splits delivery_revert.splits prod.splits)
  show "settled A route env job funding ds ds' kind \<and> job_txs A route env job funding d ds ds'" if "st = Done kind"
    using assms that dup
    by (auto simp: pre_send_error_def settle_pre_send_revert_def retry_delivery_revert_def Let_def
        intro!: settled_open job_txs_none split: option.splits delivery_revert.splits prod.splits)
qed

lemma refuse_over_cap_result:
  assumes "refuse_over_cap A route env job ds = (ds', st)"
  shows "st = ProceedStage \<Longrightarrow> ds' = ds \<and> within_caps A route job"
    and "st = Done kind \<Longrightarrow> settled A route env job funding ds ds' kind \<and> job_txs A route env job funding d ds ds'"
  using assms
  by (auto simp: refuse_over_cap_def Let_def within_caps_def settled_def not_less with_reason_def outcome_new_def
      intro!: job_txs_none recordedI split: if_splits option.splits)

lemma simulate_stage_result:
  assumes "simulate_stage C A route cfg env job ds = (ds', st)"
  shows "st = ProceedStage \<Longrightarrow> ds' = ds"
    and "st = Done kind \<Longrightarrow> settled A route env job funding ds ds' kind \<and> job_txs A route env job funding d ds ds'"
  using assms pre_send_error_result(1) [of C A route env job _ ds ds' st]
    pre_send_error_result(2) [of C A route env job _ ds ds' st kind funding d]
  by (auto simp: simulate_stage_def intro!: settled_open job_txs_none split: if_splits rpc.splits bool.splits)

lemma request_top_up_simps [simp]:
  "ds_txs (request_top_up mid n ds) = ds_txs ds" "ds_outcomes (request_top_up mid n ds) = ds_outcomes ds"
  "ds_ledger (request_top_up mid n ds) = ds_ledger ds"
  by (simp_all add: request_top_up_def split: option.splits prod.splits sum.splits)

lemma funding_stage_result:
  assumes "funding_stage C A route env job funding ds = (ds', st)"
  shows "st = ProceedStage \<Longrightarrow> ds' = ds"
    and "st = Done kind \<Longrightarrow> settled A route env job funding ds ds' kind \<and> job_txs A route env job funding d ds ds'"
proof -
  show "st = ProceedStage \<Longrightarrow> ds' = ds"
    using assms pre_send_error_result(1) [of C A route env job _ ds ds' st]
    by (auto simp: funding_stage_def split: option.splits rpc.splits if_splits)
  have cut: "settled A route env job funding ds (record_outcome (dj_message_id job) oc ds) Terminal"
    if "underfunded env funding" "do_kind oc = OkTerminal" for oc
    using that recordedI [of "record_outcome (dj_message_id job) oc ds" "dj_message_id job" oc ds OkTerminal]
    by (simp add: settled_def)
  show "settled A route env job funding ds ds' kind \<and> job_txs A route env job funding d ds ds'" if "st = Done kind"
    using assms that cut pre_send_error_result(2) [of C A route env job _ ds ds' st kind funding d]
    by (auto simp: funding_stage_def underfunded_def with_reason_def outcome_new_def settled_open job_txs_none
        split: option.splits rpc.splits if_splits)
qed


lemma send_stage_result:
  assumes run: "send_stage C A route cfg env job funding ds = (ds', kind)"
    and "\<not> dj_reconcile_only job" and "within_caps A route job"
  shows "settled A route env job funding ds ds' kind
    \<and> job_txs A route env job funding (Suc (unat (dc_max_retries cfg))) ds ds'"
proof -
  define terms where "terms = envelope_terms_of A (dj_payload job)"
  define ds1 where "ds1 = add_metric (IncDeliverTx (cr_chain_key route) StSubmitted) ds"
  obtain txs outcome where loop: "send_loop A route (dj_message_id job) (et_native_value terms)
      (map_option sat_to_u64 (et_gas_limit terms)) (unat (dc_max_retries cfg)) (je_attempts env) 0 (mf_gas funding) = (txs, outcome)"
    by fastforce
  have out: "settle_outcome C A route env job outcome (ds1\<lparr>ds_txs := ds_txs ds1 @ txs\<rparr>) = (ds', kind)"
    using run loop by (simp add: send_stage_def terms_def ds1_def Let_def)
  have "gas_fits route (mf_gas funding) (mf_gas funding)" by (simp add: gas_fits_def)
  from send_loop_txs [OF loop this]
  have txs: "list_all (deliver_allowed route (dj_message_id job) (et_native_value terms) (mf_gas funding) (je_attempts env)) txs"
      "length txs \<le> Suc (unat (dc_max_retries cfg))"
    and ok: "outcome = SoSucceeded tx \<Longrightarrow> cr_block_confirmation_depth route = 0 \<Longrightarrow>
      \<exists>n. receipt_executed A route (dj_message_id job) (ae_receipt (je_attempts env n))" for tx
    by (auto simp: receipt_executed_def)
  note so = settle_outcome_settled [OF out ok]
  have "job_txs A route env job funding (Suc (unat (dc_max_retries cfg))) ds ds'"
    by (rule job_txs_send [OF _ so(2)]) (use assms(2,3) txs in \<open>simp_all add: ds1_def terms_def\<close>)
  moreover have "settled A route env job funding ds ds' kind"
    by (rule settled_from [OF _ so(1)]) (simp_all add: ds1_def)
  ultimately show ?thesis by simp
qed

lemma handle_job_result:
  assumes run: "handle_job C A route cfg env job funding ds = (ds', kind)"
  shows "settled A route env job funding ds ds' kind
    \<and> job_txs A route env job funding (Suc (unat (dc_max_retries cfg))) ds ds'"
proof (cases "dj_reconcile_only job")
  case True
  with run have "reconcile_execution C A route (je_exec env) (dj_message_id job) ds = (ds', kind)"
    by (simp add: handle_job_def)
  from reconcile_settled [OF this] job_txs_retry [OF reconcile_txs [OF this]] show ?thesis by simp
next
  case False
  obtain ds1 st1 where r1: "refuse_over_cap A route env job ds = (ds1, st1)" by fastforce
  obtain ds2 st2 where r2: "simulate_stage C A route cfg env job ds1 = (ds2, st2)" by fastforce
  obtain ds3 st3 where r3: "funding_stage C A route env job funding ds2 = (ds3, st3)" by fastforce
  note d1 = refuse_over_cap_result [OF r1] and d2 = simulate_stage_result [OF r2] and d3 = funding_stage_result [OF r3]
  from run False r1 r2 r3
  have eq: "(ds', kind) = (case st1 of Done k \<Rightarrow> (ds1, k) | ProceedStage \<Rightarrow>
      (case st2 of Done k \<Rightarrow> (ds2, k) | ProceedStage \<Rightarrow>
        (case st3 of Done k \<Rightarrow> (ds3, k) | ProceedStage \<Rightarrow> send_stage C A route cfg env job funding ds3)))"
    by (simp add: handle_job_def then_stage_def split: stage.splits)
  show ?thesis
  proof (cases "st1 = ProceedStage \<and> st2 = ProceedStage \<and> st3 = ProceedStage")
    case True
    with eq d1(1) d2(1) d3(1) send_stage_result [of C A route cfg env job funding ds ds' kind] False show ?thesis by simp
  next
    case False
    with eq d1 d2 d3 show ?thesis by (auto split: stage.splits)
  qed
qed

lemma worker_settled:
  assumes "worker_step C A route cfg env answer job ds = (ds', res)"
  shows "settled A route env job (job_funding route job answer) ds ds' (dr_outcome res)"
  using assms handle_job_result [of C A route cfg env job "job_funding route job answer" ds]
  by (auto simp: worker_step_def split: prod.splits)

end
