(* ===== verification/Delivery_Budget.thy ===== *)
theory Delivery_Budget
  imports Delivery_Correct
begin

text \<open>
  The budget of \<^verbatim>\<open>retryFailedMessage\<close> transactions over the whole worker: proved once from the contract
  of the attempt ledger (\<^verbatim>\<open>attempt_budget\<close>), then read off its two instances, memory within one
  process and the sidecar across restarts.
\<close>

definition is_failed_retry :: "b256 \<Rightarrow> worker_tx \<Rightarrow> bool" where
  "is_failed_retry mid tx = (case tx of RetryFailedTx m _ \<Rightarrow> m = mid | _ \<Rightarrow> False)"

definition tally :: "b256 \<Rightarrow> delivery_state \<Rightarrow> nat" where
  "tally mid ds = length (filter (is_failed_retry mid) (ds_txs ds))"

definition env_ok :: "(io_faults \<Rightarrow> bool) \<Rightarrow> exec_env \<Rightarrow> bool" where
  "env_ok io_ok env \<longleftrightarrow> io_ok (xe_attempt_io env) \<and> io_ok (xe_start_io env) \<and> io_ok (xe_give_up_io env)"

definition budgeted :: "(ledger \<Rightarrow> nat \<Rightarrow> bool) \<Rightarrow> b256 \<Rightarrow> delivery_state \<Rightarrow> bool" where
  "budgeted counts mid ds \<longleftrightarrow> counts (ds_ledger ds) (tally mid ds)"

lemma tally_txs: "ds_txs ds' = ds_txs ds \<Longrightarrow> tally mid ds' = tally mid ds"
  by (simp add: tally_def)

lemma tally_pending [simp]: "tally mid (add_tx (retry_tx m True gas) ds) = tally mid ds"
  by (simp add: tally_def retry_tx_def is_failed_retry_def)

lemma tally_failed [simp]: "tally mid (add_tx (retry_tx m False gas) ds) = (if m = mid then Suc (tally mid ds) else tally mid ds)"
  by (simp add: tally_def retry_tx_def is_failed_retry_def)

lemma tally_ledger [simp]: "tally mid (ds\<lparr>ds_ledger := L\<rparr>) = tally mid ds"
  by (simp add: tally_def)

lemma budgeted_same:
  "ds_txs ds' = ds_txs ds \<Longrightarrow> ds_ledger ds' = ds_ledger ds \<Longrightarrow> budgeted counts mid ds' = budgeted counts mid ds"
  by (simp add: budgeted_def tally_def)

lemma funding_stage_frame:
  "funding_stage C A route env job funding ds = (ds', st) \<Longrightarrow>
     (\<exists>err. pre_send_error C A route (je_exec env) (dj_message_id job) err ds = (ds', st))
     \<or> ds_txs ds' = ds_txs ds \<and> ds_ledger ds' = ds_ledger ds"
  by (auto simp: funding_stage_def split: option.splits if_splits rpc.splits)

lemma simulate_stage_frame:
  "simulate_stage C A route cfg env job ds = (ds', st) \<Longrightarrow>
     (\<exists>err. pre_send_error C A route (je_exec env) (dj_message_id job) err ds = (ds', st))
     \<or> ds_txs ds' = ds_txs ds \<and> ds_ledger ds' = ds_ledger ds"
  by (auto simp: simulate_stage_def split: if_splits rpc.splits bool.splits)

section \<open>Runs of the worker\<close>

text \<open>A restart loses what the process kept in memory; the sidecar and the chain stay.\<close>

datatype worker_event =
    WorkerJob job_env "(contract_error + message_info) option" delivery_job
  | WorkerRestart

definition worker_restart :: "delivery_state \<Rightarrow> delivery_state" where
  "worker_restart ds = ds\<lparr>ds_ledger := ledger_restart (ds_ledger ds),
     ds_outcomes := outcome_store_new (os_cap (ds_outcomes ds)), ds_top_up := map_option (\<lambda>_. []) (ds_top_up ds)\<rparr>"

fun worker_run ::
  "work_codec \<Rightarrow> inbox_abi \<Rightarrow> chain_route \<Rightarrow> delivery_config \<Rightarrow> worker_event list \<Rightarrow> delivery_state
    \<Rightarrow> delivery_state \<times> delivery_result list" where
  "worker_run C A route cfg [] ds = (ds, [])"
| "worker_run C A route cfg (WorkerJob env answer job # es) ds =
     (let (ds1, r) = worker_step C A route cfg env answer job ds;
          (ds2, rs) = worker_run C A route cfg es ds1
      in (ds2, r # rs))"
| "worker_run C A route cfg (WorkerRestart # es) ds = worker_run C A route cfg es (worker_restart ds)"

fun event_ok :: "(io_faults \<Rightarrow> bool) \<Rightarrow> worker_event \<Rightarrow> bool" where
  "event_ok io_ok (WorkerJob env _ _) = env_ok io_ok (je_exec env)"
| "event_ok io_ok WorkerRestart = True"

definition undelivered :: "b256 \<Rightarrow> delivery_result list \<Rightarrow> bool" where
  "undelivered mid rs \<longleftrightarrow> list_all (\<lambda>r. dr_message_id r = mid \<longrightarrow> dr_outcome r \<noteq> Delivered) rs"

section \<open>Every step keeps the count\<close>

context attempt_budget
begin

lemma budgeted_give_up:
  assumes "budgeted counts mid ds" and "io_ok (xe_give_up_io env)"
    and "give_up_failed_retries C route env m st ds = (ds', kind)" and "m = mid \<Longrightarrow> tally mid ds \<le> unat (fr_attempts st)"
  shows "budgeted counts mid ds'"
proof -
  note r = give_up_failed_retries_result(2,3) [OF assms(3)]
  have t: "tally mid ds' = tally mid ds" by (rule tally_txs [OF r(1)])
  show ?thesis
    unfolding budgeted_def t r(2) using assms(1,2,4) give_up_keeps [of "ds_ledger ds" "tally mid ds"]
    by (simp add: budgeted_def)
qed

lemma budgeted_after:
  assumes "budgeted counts mid ds" and "io_ok (xe_give_up_io env)"
    and "after_failed_retry C route env m spent hint ds = (ds', kind)" and "m = mid \<Longrightarrow> tally mid ds \<le> unat (fr_attempts spent)"
  shows "budgeted counts mid ds'"
  using assms budgeted_give_up [OF assms(1,2), of route m spent ds' kind]
  by (auto simp: after_failed_retry_def split: if_splits)

lemma budgeted_start:
  assumes "budgeted counts mid ds" and "io_ok (xe_start_io env)" and "io_ok (xe_give_up_io env)" and "cr_failed_retry route = p"
    and "start_failed_retries C route env m ds = (ds', kind)"
  shows "budgeted counts mid ds'"
proof -
  obtain L st where st: "ledger_start C (xe_start_readable env) (xe_start_io env) m p
      (unwrap_or_default (xe_now_start env)) (ds_ledger ds) = (L, st)" by fastforce
  from start_keeps [OF _ assms(2) st] assms(1)
  have L: "counts L (tally mid ds)" "m = mid \<Longrightarrow> fp_max_attempts p \<le> fr_attempts st \<Longrightarrow> tally mid ds \<le> unat (fr_attempts st)"
    by (auto simp: budgeted_def)
  then have "budgeted counts mid (ds\<lparr>ds_ledger := L\<rparr>)" by (simp add: budgeted_def)
  with budgeted_give_up [of "ds\<lparr>ds_ledger := L\<rparr>" env route m st ds' kind] assms(3-5) st L(2) show ?thesis
    by (auto simp: start_failed_retries_def Let_def split: if_splits)
qed

lemma budgeted_receipt:
  assumes "budgeted counts mid ds" and "settle_retry_receipt A route env m gas spent ds = (ds', kind, again, failed)"
    and "m = mid \<Longrightarrow> kind \<noteq> Delivered"
  shows "budgeted counts mid ds'" and "tally mid ds' = tally mid ds"
proof -
  note r = settle_retry_receipt_result [OF assms(2)]
  show t: "tally mid ds' = tally mid ds" using r(1) by (rule tally_txs)
  show "budgeted counts mid ds'"
    using assms(1,3) r(3,4) t by (cases "kind = Delivered") (auto simp: budgeted_def intro: forget_keeps)
qed

lemma budgeted_attempt:
  assumes "budgeted counts mid ds" and "io_ok (xe_attempt_io env)" and "cr_failed_retry route = p"
    and gate: "ledger_gate C r m p now (ds_ledger ds) = (L, Proceed)"
    and "count_attempt C route env m (add_tx (retry_tx m False gas) (ds\<lparr>ds_ledger := L\<rparr>)) = (ds1, spent)"
  shows "budgeted counts mid ds1" and "m = mid \<Longrightarrow> tally mid ds1 \<le> unat (fr_attempts spent)"
proof -
  obtain L2 where rec: "record_attempt C (xe_attempt_readable env) (xe_attempt_io env) m p
      (unwrap_or_default (xe_now_attempt env)) L = (L2, spent)"
    and ds1: "ds1 = (add_tx (retry_tx m False gas) (ds\<lparr>ds_ledger := L\<rparr>))\<lparr>ds_ledger := L2\<rparr>"
    using assms(3,5) by (auto simp: count_attempt_def split: prod.splits)
  have n: "counts (ds_ledger ds) (tally mid ds)" using assms(1) by (simp add: budgeted_def)
  have "budgeted counts mid ds1 \<and> (m = mid \<longrightarrow> tally mid ds1 \<le> unat (fr_attempts spent))"
  proof (cases "m = mid")
    case True
    with counts_attempt [OF n _ assms(2), of r now L] gate rec show ?thesis by (simp add: ds1 budgeted_def)
  next
    case False
    have "counts L (tally mid ds)" using gate_keeps [OF n gate] by simp
    moreover have "same_entry mid L L2" using ledger_ops_other(3) [OF False] rec by (metis fst_conv)
    ultimately show ?thesis using False counts_other by (simp add: ds1 budgeted_def)
  qed
  then show "budgeted counts mid ds1" and "m = mid \<Longrightarrow> tally mid ds1 \<le> unat (fr_attempts spent)" by auto
qed

lemma budgeted_pending:
  assumes "budgeted counts mid ds" and "env_ok io_ok env" and "cr_failed_retry route = p"
    and "retry_execution C A route env m True ds = (ds', kind)" and "m = mid \<Longrightarrow> kind \<noteq> Delivered"
  shows "budgeted counts mid ds'"
  using assms(4)
proof (cases rule: retry_execution_cases)
  case (parked gas)
  with assms(1) show ?thesis by (simp add: budgeted_def)
next
  case (resumed gas ds2 result again failed)
  have b: "budgeted counts mid (add_tx (retry_tx m True gas) ds)" using assms(1) by (simp add: budgeted_def)
  have "m = mid \<Longrightarrow> result \<noteq> Delivered"
    using resumed(5) assms(5) settle_retry_receipt_result(3) [OF resumed(4)] by (auto split: if_splits)
  from budgeted_receipt(1) [OF b resumed(4) this] budgeted_start [of ds2 env route m ds' kind] assms(2,3) resumed(5)
  show ?thesis by (auto simp: env_ok_def split: if_splits)
qed (use assms(1) in auto)

lemma budgeted_proceed:
  assumes "budgeted counts mid ds" and "env_ok io_ok env" and "cr_failed_retry route = p"
    and gate: "ledger_gate C r m p now (ds_ledger ds) = (L, Proceed)"
    and "retry_execution C A route env m False (ds\<lparr>ds_ledger := L\<rparr>) = (ds', kind)" and "m = mid \<Longrightarrow> kind \<noteq> Delivered"
  shows "budgeted counts mid ds'"
  using assms(5)
proof (cases rule: retry_execution_cases)
  case (idle t)
  with gate_keeps [OF _ gate] assms(1) show ?thesis by (simp add: budgeted_def)
next
  case (stalled gas ds1 spent)
  from assms(2) have io: "io_ok (xe_attempt_io env)" "io_ok (xe_give_up_io env)" by (simp_all add: env_ok_def)
  note a = budgeted_attempt [OF assms(1) io(1) assms(3) gate stalled(4)]
  show ?thesis by (rule budgeted_after [OF a(1) io(2) stalled(5) a(2)])
next
  case (retried gas ds1 spent ds2 result again failed)
  from assms(2) have io: "io_ok (xe_attempt_io env)" "io_ok (xe_give_up_io env)" by (simp_all add: env_ok_def)
  note a = budgeted_attempt [OF assms(1) io(1) assms(3) gate retried(4)]
  have "m = mid \<Longrightarrow> result \<noteq> Delivered"
    using retried(6) assms(6) settle_retry_receipt_result(3) [OF retried(5)] by (auto split: if_splits)
  note b = budgeted_receipt [OF a(1) retried(5) this]
  show ?thesis
  proof (cases again)
    case True
    with retried(6) budgeted_after [OF b(1) io(2), of route m spent "retry_hint result" ds' kind] a(2) b(2)
    show ?thesis by simp
  next
    case False
    with retried(6) b(1) show ?thesis by simp
  qed
qed auto

lemma budgeted_reconcile:
  assumes "budgeted counts mid ds" and "env_ok io_ok env" and "cr_failed_retry route = p"
    and "reconcile_execution C A route env m ds = (ds', kind)" and "m = mid \<Longrightarrow> kind \<noteq> Delivered"
  shows "budgeted counts mid ds'"
  using assms(4)
proof (cases rule: reconcile_cases)
  case (executed oc)
  with assms(5) have "m \<noteq> mid" by auto
  with executed assms(1) forget_keeps [of "ds_ledger ds" "tally mid ds" m] tally_txs [of ds' ds mid] show ?thesis
    by (simp add: budgeted_def)
next
  case pending
  with budgeted_pending [OF assms(1-3) _ assms(5)] show ?thesis by blast
next
  case (proceed L)
  with budgeted_proceed [OF assms(1-3) _ _ assms(5)] assms(3) show ?thesis by blast
next
  case (wait L at)
  with gate_keeps [of "ds_ledger ds" "tally mid ds"] assms(1,3) show ?thesis by (simp add: budgeted_def)
next
  case (exhausted L st)
  from gate_keeps [of "ds_ledger ds" "tally mid ds"] exhausted(1) assms(1,3)
  have "counts L (tally mid ds)" "m = mid \<Longrightarrow> tally mid ds \<le> unat (fr_attempts st)" by (auto simp: budgeted_def)
  with budgeted_give_up [of "ds\<lparr>ds_ledger := L\<rparr>" env route m st ds' kind] exhausted(2) assms(2) show ?thesis
    by (simp add: budgeted_def env_ok_def)
qed (use assms(1) in auto)

lemma budgeted_duplicate:
  assumes "budgeted counts mid ds" and "env_ok io_ok env" and "cr_failed_retry route = p"
    and "settle_duplicate_revert C A route env m ds = (ds', kind)" and "m = mid \<Longrightarrow> kind \<noteq> Delivered"
  shows "budgeted counts mid ds'"
proof -
  obtain k where "reconcile_execution C A route env m ds = (ds', k)" "kind = (if k = AwaitingVotes then Retryable else k)"
    using settle_duplicate_result [OF assms(4)] by blast
  with budgeted_reconcile [OF assms(1-3)] assms(5) show ?thesis by fastforce
qed

lemma budgeted_pre_send:
  assumes "budgeted counts mid ds" and "env_ok io_ok env" and "cr_failed_retry route = p"
    and "pre_send_error C A route env m err ds = (ds', st)" and "\<And>k. st = Done k \<Longrightarrow> m = mid \<Longrightarrow> k \<noteq> Delivered"
  shows "budgeted counts mid ds'"
  using assms budgeted_duplicate [OF assms(1-3), of A m] budgeted_same [of ds' ds counts mid]
  by (auto simp: pre_send_error_def settle_pre_send_revert_def retry_delivery_revert_def Let_def
      split: option.splits delivery_revert.splits prod.splits)

lemma budgeted_stage:
  assumes "budgeted counts mid ds" and "env_ok io_ok env" and "cr_failed_retry route = p"
    and "(\<exists>err. pre_send_error C A route env m err ds = (ds', st)) \<or> ds_txs ds' = ds_txs ds \<and> ds_ledger ds' = ds_ledger ds"
    and "\<And>k. st = Done k \<Longrightarrow> m = mid \<Longrightarrow> k \<noteq> Delivered"
  shows "budgeted counts mid ds'"
  using assms(4)
proof
  assume "\<exists>err. pre_send_error C A route env m err ds = (ds', st)"
  then obtain err where "pre_send_error C A route env m err ds = (ds', st)" by blast
  from budgeted_pre_send [OF assms(1-3) this assms(5)] show ?thesis by blast
next
  assume "ds_txs ds' = ds_txs ds \<and> ds_ledger ds' = ds_ledger ds"
  with assms(1) budgeted_same [of ds' ds counts mid] show ?thesis by simp
qed

lemma budgeted_outcome:
  assumes "budgeted counts mid ds" and "env_ok io_ok (je_exec env)" and "cr_failed_retry route = p"
    and "settle_outcome C A route env job outcome ds = (ds', kind)" and "dj_message_id job = mid \<Longrightarrow> kind \<noteq> Delivered"
  shows "budgeted counts mid ds'"
proof (cases outcome)
  case SoAlreadyValidated
  have "budgeted counts mid (add_metric (IncDeliverTx (cr_chain_key route) StAlreadyValidated) ds)"
    using assms(1) by (simp add: budgeted_def tally_def)
  from budgeted_duplicate [OF this assms(2,3) _ assms(5)] assms(4) SoAlreadyValidated show ?thesis
    by (auto simp: settle_outcome_def)
next
  case (SoDestinationFailed d tx blk)
  then obtain ds1 where ds1: "start_failed_retries C route (je_exec env) (dj_message_id job) ds1 = (ds', kind)"
      "ds_txs ds1 = ds_txs ds" "ds_ledger ds1 = ds_ledger ds"
    using assms(4) by (auto simp: settle_outcome_def Let_def)
  have "budgeted counts mid ds1" using assms(1) budgeted_same [OF ds1(2,3)] by simp
  from budgeted_start [OF this _ _ assms(3) ds1(1)] assms(2) show ?thesis by (simp add: env_ok_def)
qed (use assms(1,4) budgeted_same [of ds' ds counts mid] in \<open>auto simp: settle_outcome_def Let_def retry_delivery_revert_def\<close>)

lemma deliveries_not_tallied: "list_all (deliver_allowed route m v funded answers) txs \<Longrightarrow> filter (is_failed_retry mid) txs = []"
  by (induction txs) (auto simp: deliver_allowed_def is_failed_retry_def split: worker_tx.splits)

lemma budgeted_send:
  assumes "budgeted counts mid ds" and "env_ok io_ok (je_exec env)" and "cr_failed_retry route = p"
    and run: "send_stage C A route cfg env job funding ds = (ds', kind)" and "dj_message_id job = mid \<Longrightarrow> kind \<noteq> Delivered"
  shows "budgeted counts mid ds'"
proof -
  define terms where "terms = envelope_terms_of A (dj_payload job)"
  define ds1 where "ds1 = add_metric (IncDeliverTx (cr_chain_key route) StSubmitted) ds"
  obtain txs outcome where loop: "send_loop A route (dj_message_id job) (et_native_value terms)
      (map_option sat_to_u64 (et_gas_limit terms)) (unat (dc_max_retries cfg)) (je_attempts env) 0 (mf_gas funding) = (txs, outcome)"
    by fastforce
  have "list_all (deliver_allowed route (dj_message_id job) (et_native_value terms) (mf_gas funding) (je_attempts env)) txs"
    using send_loop_txs [OF loop, of "mf_gas funding"] by (simp add: gas_fits_def)
  from deliveries_not_tallied [OF this] assms(1)
  have "budgeted counts mid (ds1\<lparr>ds_txs := ds_txs ds1 @ txs\<rparr>)" by (simp add: budgeted_def tally_def ds1_def)
  from budgeted_outcome [OF this assms(2,3) _ assms(5)] run loop show ?thesis
    by (simp add: send_stage_def terms_def ds1_def Let_def)
qed

lemma budgeted_job:
  assumes "budgeted counts mid ds" and "env_ok io_ok (je_exec env)" and "cr_failed_retry route = p"
    and run: "handle_job C A route cfg env job funding ds = (ds', kind)" and nd: "dj_message_id job = mid \<Longrightarrow> kind \<noteq> Delivered"
  shows "budgeted counts mid ds'"
proof (cases "dj_reconcile_only job")
  case True
  with budgeted_reconcile [OF assms(1-3) _ nd] run show ?thesis by (simp add: handle_job_def)
next
  case False
  obtain ds1 st1 where r1: "refuse_over_cap A route env job ds = (ds1, st1)" by fastforce
  obtain ds2 st2 where r2: "simulate_stage C A route cfg env job ds1 = (ds2, st2)" by fastforce
  obtain ds3 st3 where r3: "funding_stage C A route env job funding ds2 = (ds3, st3)" by fastforce
  from run False r1 r2 r3
  have eq: "(ds', kind) = (case st1 of Done k \<Rightarrow> (ds1, k) | ProceedStage \<Rightarrow>
      (case st2 of Done k \<Rightarrow> (ds2, k) | ProceedStage \<Rightarrow>
        (case st3 of Done k \<Rightarrow> (ds3, k) | ProceedStage \<Rightarrow> send_stage C A route cfg env job funding ds3)))"
    by (simp add: handle_job_def then_stage_def split: stage.splits)
  have "ds_txs ds1 = ds_txs ds" "ds_ledger ds1 = ds_ledger ds"
    using r1 by (auto simp: refuse_over_cap_def Let_def split: if_splits option.splits)
  with assms(1) budgeted_same [of ds1 ds counts mid] have b1: "budgeted counts mid ds1" by simp
  show ?thesis
  proof (cases st1)
    case (Done k)
    with eq b1 show ?thesis by simp
  next
    case ProceedStage
    note s1 = this
    have b2: "budgeted counts mid ds2" if "\<And>k. st2 = Done k \<Longrightarrow> dj_message_id job = mid \<Longrightarrow> k \<noteq> Delivered"
      by (rule budgeted_stage [OF b1 assms(2,3) simulate_stage_frame [OF r2] that])
    show ?thesis
    proof (cases st2)
      case (Done k)
      with eq s1 b2 nd show ?thesis by simp
    next
      case ProceedStage
      with b2 have b: "budgeted counts mid ds2" by simp
      have b3: "budgeted counts mid ds3" if "\<And>k. st3 = Done k \<Longrightarrow> dj_message_id job = mid \<Longrightarrow> k \<noteq> Delivered"
        by (rule budgeted_stage [OF b assms(2,3) funding_stage_frame [OF r3] that])
      show ?thesis
      proof (cases st3)
        case (Done k)
        with eq s1 ProceedStage b3 nd show ?thesis by simp
      next
        case p3: ProceedStage
        with b3 have "budgeted counts mid ds3" by simp
        from budgeted_send [OF this assms(2,3) _ nd] eq s1 ProceedStage p3 show ?thesis by simp
      qed
    qed
  qed
qed

lemma budgeted_run:
  assumes "\<And>L n. WorkerRestart \<in> set es \<Longrightarrow> counts L n \<Longrightarrow> counts (ledger_restart L) n"
    and "budgeted counts mid ds" and "list_all (event_ok io_ok) es" and "cr_failed_retry route = p"
    and "worker_run C A route cfg es ds = (ds', rs)" and "undelivered mid rs"
  shows "budgeted counts mid ds'"
  using assms
proof (induction es arbitrary: ds ds' rs)
  case (Cons e es)
  show ?case
  proof (cases e)
    case (WorkerJob env answer job)
    obtain ds1 kind where job: "handle_job C A route cfg env job (job_funding route job answer) ds = (ds1, kind)" by fastforce
    obtain ds2 rs2 where rest: "worker_run C A route cfg es ds1 = (ds2, rs2)" by fastforce
    from job Cons.prems(5) rest WorkerJob have eq: "ds' = ds2"
      "rs = \<lparr>dr_chain_key = dj_chain_key job, dr_message_id = dj_message_id job, dr_outcome = kind\<rparr> # rs2"
      by (auto simp: worker_step_def)
    with Cons.prems(6) have nd: "dj_message_id job = mid \<Longrightarrow> kind \<noteq> Delivered" and rs2: "undelivered mid rs2"
      by (auto simp: undelivered_def)
    have "budgeted counts mid ds1"
      by (rule budgeted_job [OF Cons.prems(2) _ Cons.prems(4) job nd]) (use Cons.prems(3) WorkerJob in simp_all)
    from Cons.IH [OF _ this _ Cons.prems(4) rest rs2] Cons.prems(1,3) eq show ?thesis by simp
  next
    case WorkerRestart
    with Cons.prems(1,2) have "budgeted counts mid (worker_restart ds)"
      by (simp add: budgeted_def worker_restart_def tally_def)
    from Cons.IH [OF _ this _ Cons.prems(4) _ Cons.prems(6)] Cons.prems(1,3,5) WorkerRestart show ?thesis by simp
  qed
qed simp

lemma run_within_budget:
  assumes "\<And>L n. WorkerRestart \<in> set es \<Longrightarrow> counts L n \<Longrightarrow> counts (ledger_restart L) n"
    and "counts (ds_ledger ds) 0" and "ds_txs ds = []" and "list_all (event_ok io_ok) es" and "cr_failed_retry route = p"
    and "worker_run C A route cfg es ds = (ds', rs)" and "undelivered mid rs"
  shows "tally mid ds' \<le> unat (fp_max_attempts p)"
proof -
  have "budgeted counts mid ds" using assms(2,3) by (simp add: budgeted_def tally_def)
  from budgeted_run [OF assms(1) this assms(4-7)] have "budgeted counts mid ds'" by blast
  then show ?thesis unfolding budgeted_def by (rule counts_max)
qed

end

end
