(* ===== verification/Delivery_Theorems.thy ===== *)
theory Delivery_Theorems
  imports Delivery_Budget Work_Theorems
begin

text \<open>
  The properties of the delivery worker, and the concrete jobs they are exercised on.
\<close>

section \<open>A concrete worker\<close>

lemma unary_codec_ok: "failed_codec_ok unary_codec"
  by (auto simp: failed_codec_ok_def unary_codec_def Let_def split: option.splits)

definition demo_abi :: inbox_abi where
  "demo_abi = \<lparr>sel_validation_failed = [1], sel_invalid_dispatcher = [2], sel_insufficient_gas = [3],
     sel_already_validated = [4], sel_already_processed = [5], sig_destination_failed = 101, sig_message_queued = 102,
     sig_message_deferred = 103, sig_message_executed = 104, dec_dest_failed = (\<lambda>_. None), dec_executed = (\<lambda>_. True),
     dec_retry_deferred = (\<lambda>_. None), dec_envelope = (\<lambda>_. Some (5, 90))\<rparr>"

definition demo_chain_route :: chain_route where
  "demo_chain_route = \<lparr>cr_chain_key = 7, cr_inbox_address = 9, cr_max_native_coin_value_wei = 10, cr_max_gas_limit = 1000,
     cr_block_confirmation_depth = 0, cr_relayer_contract_address = None,
     cr_failed_retry = \<lparr>fp_max_attempts = 1, fp_initial_backoff_secs = 1, fp_max_backoff_secs = 1\<rparr>\<rparr>"

definition demo_cfg :: delivery_config where
  "demo_cfg = \<lparr>dc_simulate_before_send = False, dc_max_retries = 2\<rparr>"

definition demo_exec :: exec_env where
  "demo_exec = \<lparr>xe_state_timeout = False, xe_processed_at = Inr 0, xe_tip = Inr 0, xe_processed_at_block = (\<lambda>_. Inr 0),
     xe_is_pending = Inr False, xe_is_retryable = Inr True, xe_estimate = RpcOk 100, xe_preflight = (\<lambda>_. RpcOk ()),
     xe_send = (\<lambda>_. SendStalled), xe_receipt = RpcTimeout, xe_replay = (\<lambda>_ _. RpcTimeout), xe_now_gate = Some 0,
     xe_now_attempt = Some 0, xe_now_start = Some 0, xe_now_give_up = Some 0, xe_recorded_at = 0,
     xe_gate_readable = True, xe_attempt_readable = True, xe_attempt_io = no_faults, xe_start_readable = True,
     xe_start_io = no_faults, xe_give_up_io = no_faults, xe_forget_io = no_faults\<rparr>"

definition demo_executed_log :: log where
  "demo_executed_log = \<lparr>lg_address = 9, lg_topics = [104, 11], lg_data = []\<rparr>"

definition demo_job_env :: job_env where
  "demo_job_env = \<lparr>je_exec = demo_exec, je_simulation = RpcOk True, je_estimate = RpcOk 100, je_now_top_up = None,
     je_attempts = (\<lambda>_. \<lparr>ae_preflight = (\<lambda>_. RpcOk True), ae_send = (\<lambda>_. SendAccepted),
        ae_receipt = RpcOk \<lparr>rcpt_status = True, rcpt_logs = [demo_executed_log], rcpt_tx_hash = 77, rcpt_block_number = None\<rparr>,
        ae_replay = RpcTimeout\<rparr>),
     je_probe = None\<rparr>"

definition demo_job :: "bool \<Rightarrow> delivery_job" where
  "demo_job reconcile = \<lparr>dj_chain_key = 7, dj_message_id = 11, dj_emitter = 1, dj_outbox = 2, dj_sequence = 0, dj_payload = [],
     dj_votes_calldata = [], dj_signer_count = 1, dj_indexed_at = 0, dj_reconcile_only = reconcile\<rparr>"

definition demo_worker :: delivery_state where
  "demo_worker = \<lparr>ds_outcomes = outcome_store_new 4, ds_ledger = (failed_retries_new 7 True, for_checkpoint),
     ds_top_up = None, ds_requests = [], ds_txs = [], ds_metrics = []\<rparr>"

lemmas demo_worker_defs = demo_abi_def demo_chain_route_def demo_cfg_def demo_exec_def demo_job_env_def demo_job_def
  demo_worker_def demo_executed_log_def failed_retries_new_def for_checkpoint_def no_faults_def

lemma demo_fields [simp]:
  "cr_chain_key demo_chain_route = 7" "cr_block_confirmation_depth demo_chain_route = 0"
  "dj_chain_key (demo_job b) = 7" "dj_message_id (demo_job b) = 11" "dj_reconcile_only (demo_job b) = b"
  by (simp_all add: demo_chain_route_def demo_job_def)

lemma demo_send_loop:
  "send_loop demo_abi demo_chain_route 11 v e r (je_attempts demo_job_env) 0 None = ([DeliverTx 11 None v], SoSucceeded 77)"
  by (subst send_loop.simps)
    (simp add: demo_worker_defs send_attempt_def after_receipt_def classify_success_logs_def)

definition demo_delivered :: delivery_state where
  "demo_delivered = fst (worker_step unary_codec demo_abi demo_chain_route demo_cfg demo_job_env None (demo_job False) demo_worker)"

lemma demo_send_stage:
  assumes "dj_message_id j = 11"
  shows "send_stage C demo_abi demo_chain_route demo_cfg demo_job_env j funding_unknown ds =
     settle_outcome C demo_abi demo_chain_route demo_job_env j (SoSucceeded 77)
       (add_tx (DeliverTx 11 None 5) (add_metric (IncDeliverTx 7 StSubmitted) ds))"
  using demo_send_loop [of 5 "Some (sat_to_u64 90)" "unat (dc_max_retries demo_cfg)"] assms
  by (simp add: send_stage_def envelope_terms_of_def funding_unknown_def demo_abi_def add_tx_def)

lemma demo_deliver_job:
  assumes "dj_message_id j = 11" "\<not> dj_reconcile_only j"
  shows "handle_job C demo_abi demo_chain_route demo_cfg demo_job_env j funding_unknown ds =
     settle_outcome C demo_abi demo_chain_route demo_job_env j (SoSucceeded 77)
       (add_tx (DeliverTx 11 None 5) (add_metric (IncDeliverTx 7 StSubmitted) ds))"
proof -
  have "refuse_over_cap demo_abi demo_chain_route demo_job_env j ds = (ds, ProceedStage)"
    by (simp add: refuse_over_cap_def envelope_terms_of_def demo_abi_def demo_chain_route_def)
  moreover have "simulate_stage C demo_abi demo_chain_route demo_cfg demo_job_env j ds = (ds, ProceedStage)"
    by (simp add: simulate_stage_def demo_cfg_def)
  moreover have "funding_stage C demo_abi demo_chain_route demo_job_env j funding_unknown ds = (ds, ProceedStage)"
    by (simp add: funding_stage_def funding_unknown_def)
  ultimately show ?thesis using assms by (simp add: handle_job_def then_stage_def demo_send_stage)
qed

lemma demo_no_funding: "job_funding demo_chain_route job None = funding_unknown"
  by (simp add: job_funding_def)

lemma demo_delivered_step:
  "worker_step unary_codec demo_abi demo_chain_route demo_cfg demo_job_env None (demo_job False) demo_worker =
     (demo_delivered, \<lparr>dr_chain_key = 7, dr_message_id = 11, dr_outcome = Delivered\<rparr>)"
  by (simp add: demo_delivered_def worker_step_def demo_no_funding demo_deliver_job settle_outcome_def)

lemma demo_delivered_txs: "ds_txs demo_delivered = [DeliverTx 11 None 5]"
  by (simp add: demo_delivered_def worker_step_def demo_no_funding demo_deliver_job settle_outcome_def
      demo_worker_def Let_def)

definition demo_reconciled :: delivery_state where
  "demo_reconciled = fst (worker_step unary_codec demo_abi demo_chain_route demo_cfg demo_job_env None (demo_job True) demo_worker)"

lemmas demo_retry_eval = demo_worker_defs worker_step_def job_funding_def handle_job_def reconcile_execution_def
  read_execution_state_def ledger_gate_def ledger_get_def failed_retry_def unwrap_or_default_def retry_execution_def
  retry_gas_def count_attempt_def record_attempt_def ledger_put_def after_failed_retry_def give_up_failed_retries_def
  default_retry_state_def option_or_def Let_def

lemma demo_reconciled_step:
  "worker_step unary_codec demo_abi demo_chain_route demo_cfg demo_job_env None (demo_job True) demo_worker =
     (demo_reconciled, \<lparr>dr_chain_key = 7, dr_message_id = 11, dr_outcome = Terminal\<rparr>)"
  by (simp add: demo_reconciled_def demo_retry_eval sat_add_def)

lemma demo_reconciled_txs: "ds_txs demo_reconciled = [RetryFailedTx 11 125]"
  by (simp add: demo_reconciled_def demo_retry_eval sat_add_def add_tx_def)

section \<open>What a job may spend\<close>

lemma job_funding_bound: "mf_gas (job_funding route job answer) = Some g \<Longrightarrow> unat g \<le> MAX_FUNDED_GAS"
  by (auto simp: job_funding_def funding_unknown_def split: if_splits option.splits sum.splits dest: read_funding_bound)

text \<open>C16. What one job may hand to the node. Every transaction is either a \<^verbatim>\<open>deliverMessage\<close> of the job's own
  message, carrying exactly the envelope's native value, within the route's value and gas caps, at the
  funded gas limit or one at most the route's cap, and preflighted at exactly that gas limit; or a
  single \<^verbatim>\<open>retryPendingMessage\<close> or \<^verbatim>\<open>retryFailedMessage\<close> of that message, preflighted and within the
  gas cap. There are at most \<^verbatim>\<open>max_retries\<close> + 1 deliveries, and no pinned gas limit exceeds both the
  route's cap and the sanity ceiling on funded gas.\<close>

theorem worker_transactions:
  assumes "worker_step C A route cfg env answer job ds = (ds', res)"
  shows "\<exists>txs. ds_txs ds' = ds_txs ds @ txs
    \<and> list_all (job_tx A route env job (job_funding route job answer)) txs
    \<and> length (filter is_delivery txs) \<le> unat (dc_max_retries cfg) + 1
    \<and> length (filter (\<lambda>tx. \<not> is_delivery tx) txs) \<le> 1
    \<and> (\<forall>m g v. DeliverTx m (Some g) v \<in> set txs \<longrightarrow> unat g \<le> max MAX_FUNDED_GAS (unat (cr_max_gas_limit route)))"
proof -
  let ?f = "job_funding route job answer"
  obtain kind where "handle_job C A route cfg env job ?f ds = (ds', kind)"
    using assms by (auto simp: worker_step_def split: prod.splits)
  from handle_job_result [OF this] obtain txs where txs: "ds_txs ds' = ds_txs ds @ txs"
    "list_all (job_tx A route env job ?f) txs" "length (filter is_delivery txs) \<le> unat (dc_max_retries cfg) + 1"
    "length (filter (\<lambda>tx. \<not> is_delivery tx) txs) \<le> 1"
    by (auto simp: job_txs_def)
  have "unat g \<le> max MAX_FUNDED_GAS (unat (cr_max_gas_limit route))" if "DeliverTx m (Some g) v \<in> set txs" for m g v
  proof -
    from that txs(2) have "Some g = mf_gas ?f \<or> g \<le> cr_max_gas_limit route"
      by (fastforce simp: list_all_iff job_tx_def deliver_allowed_def retry_allowed_def)
    then show ?thesis using job_funding_bound [of route job answer g] by (auto simp: word_le_nat_alt)
  qed
  with txs show ?thesis by blast
qed

theorem worker_transactions_witness:
  "ds_txs demo_delivered = [DeliverTx 11 None 5]
   \<and> job_tx demo_abi demo_chain_route demo_job_env (demo_job False) (job_funding demo_chain_route (demo_job False) None)
       (DeliverTx 11 None 5)"
proof -
  have "ds_txs demo_worker = []" by (simp add: demo_worker_def)
  with worker_transactions [OF demo_delivered_step] demo_delivered_txs show ?thesis by auto
qed

section \<open>What a final result rests on\<close>

lemma receipt_log:
  assumes "receipt_executed A route mid answer"
  shows "\<exists>r l. answer = RpcOk r \<and> rcpt_status r \<and> l \<in> set (rcpt_logs r) \<and> relevant (cr_inbox_address route) mid l
    \<and> hd (lg_topics l) = sig_message_executed A \<and> dec_executed A l"
  using assms classify_delivered [of A "cr_inbox_address route" mid _ False False]
  by (fastforce simp: receipt_executed_def classify_success_logs_def)

text \<open>C17. A message is reported delivered only on evidence. Either the Inbox reports it processed, and on
  a route with a confirmation depth reports so again in the state of the confirmed block; or, on a route
  without one, a successful receipt of this job carries a \<^verbatim>\<open>MessageExecuted\<close> event of the Inbox itself
  for this message. The outcome store then answers Delivered for it.\<close>

theorem delivered_has_evidence:
  assumes "worker_step C A route cfg env answer job ds = (ds', res)" and "dr_outcome res = Delivered"
    and "outcome_ok (ds_outcomes ds)"
  shows "(confirmed route (je_exec env)
      \<or> cr_block_confirmation_depth route = 0
        \<and> (\<exists>rcpt r l. (rcpt = xe_receipt (je_exec env) \<or> (\<exists>n. rcpt = ae_receipt (je_attempts env n)))
             \<and> rcpt = RpcOk r \<and> rcpt_status r \<and> l \<in> set (rcpt_logs r)
             \<and> relevant (cr_inbox_address route) (dj_message_id job) l
             \<and> hd (lg_topics l) = sig_message_executed A \<and> dec_executed A l))
    \<and> (\<exists>oc. outcome_get (dj_message_id job) (ds_outcomes ds') = Some oc \<and> do_kind oc = OkDelivered)"
proof -
  from worker_settled [OF assms(1)] assms(2) have ev: "executed_evidence A route env (dj_message_id job)"
    and rec: "recorded (dj_message_id job) OkDelivered ds ds'" by (simp_all add: settled_def)
  have "cr_block_confirmation_depth route = 0" if "receipt_executed A route (dj_message_id job) a" for a
    using that by (simp add: receipt_executed_def)
  with ev rec assms(3) receipt_log show ?thesis unfolding executed_evidence_def recorded_def by metis
qed

theorem delivered_has_evidence_witness:
  "outcome_get 11 (ds_outcomes demo_delivered) \<noteq> None"
proof -
  have "outcome_ok (ds_outcomes demo_worker)" by (simp add: demo_worker_def)
  with delivered_has_evidence [OF demo_delivered_step] show ?thesis by auto
qed



section \<open>The budget of paid retries\<close>

text \<open>C20. Within one process no message is retried more often than its budget allows. Whatever the nodes
  answer and whatever the disk does, over any sequence of jobs on a route, as long as the message has
  not been reported delivered, at most \<^verbatim>\<open>max_attempts\<close> \<^verbatim>\<open>retryFailedMessage\<close> transactions were handed
  to the node for it.\<close>

theorem retry_budget_in_process:
  assumes "worker_run C A route cfg es ds = (ds', rs)" and "ds_txs ds = []" and "WorkerRestart \<notin> set es"
    and "undelivered mid rs"
  shows "tally mid ds' \<le> unat (fp_max_attempts (cr_failed_retry route))"
proof -
  have "list_all (event_ok (\<lambda>_. True)) es"
    by (auto simp: list_all_iff env_ok_def elim: event_ok.elims) (metis event_ok.simps env_ok_def worker_event.exhaust)
  from in_process.run_within_budget [OF _ _ assms(2) this refl assms(1,4)] assms(3) show ?thesis
    by (simp add: remembers_def)
qed

theorem retry_budget_in_process_witness:
  "tally 11 demo_reconciled = 1 \<and> tally 11 demo_reconciled \<le> unat (fp_max_attempts (cr_failed_retry demo_chain_route))"
proof -
  have "worker_run unary_codec demo_abi demo_chain_route demo_cfg [WorkerJob demo_job_env None (demo_job True)] demo_worker =
      (demo_reconciled, [\<lparr>dr_chain_key = 7, dr_message_id = 11, dr_outcome = Terminal\<rparr>])"
    by (simp add: demo_reconciled_step)
  from retry_budget_in_process [OF this, of 11] show ?thesis
    by (simp add: undelivered_def demo_worker_def tally_def demo_reconciled_txs is_failed_retry_def)
qed


lemma demo_never_delivers:
  assumes "worker_step unary_codec demo_abi demo_chain_route demo_cfg demo_job_env None (demo_job True) ds = (ds', r)"
  shows "dr_outcome r \<noteq> Delivered"
proof
  assume "dr_outcome r = Delivered"
  with assms have "reconcile_execution unary_codec demo_abi demo_chain_route demo_exec 11 ds = (ds', Delivered)"
    by (auto simp: worker_step_def handle_job_def demo_job_env_def split: prod.splits)
  from reconcile_delivered [OF this] show False
    by (simp add: confirmed_def receipt_executed_def demo_exec_def)
qed

definition demo_restarts :: "worker_event list" where
  "demo_restarts = [WorkerJob demo_job_env None (demo_job True), WorkerRestart, WorkerJob demo_job_env None (demo_job True),
     WorkerRestart, WorkerJob demo_job_env None (demo_job True)]"


section \<open>Receipts, reverts and top-ups\<close>

text \<open>Foreign events cannot decide a receipt: only the logs emitted by the route's Inbox for this very
  message matter, a destination failure among them always wins, and Delivered is never concluded
  without an execution event.\<close>

theorem receipt_ignores_foreign_logs:
  assumes "sig_destination_failed A \<notin> {sig_message_queued A, sig_message_deferred A, sig_message_executed A}"
  shows "classify_success_logs A inbox mid logs = classify_success_logs A inbox mid (filter (relevant inbox mid) logs)
    \<and> ((\<exists>d. classify_success_logs A inbox mid logs = RcDestinationFailed d) \<longleftrightarrow>
        (\<exists>l \<in> set logs. relevant inbox mid l \<and> hd (lg_topics l) = sig_destination_failed A))
    \<and> (classify_success_logs A inbox mid logs = RcDelivered \<longrightarrow>
        (\<exists>l \<in> set logs. relevant inbox mid l \<and> hd (lg_topics l) = sig_message_executed A \<and> dec_executed A l))"
  using classify_logs_filter [of A inbox mid logs False False] classify_failed_first [OF assms, of inbox mid logs False False]
    classify_delivered [of A inbox mid logs False False]
  unfolding classify_success_logs_def by blast

theorem receipt_ignores_foreign_logs_witness:
  "classify_success_logs demo_abi 9 11 [\<lparr>lg_address = 8, lg_topics = [101, 11], lg_data = []\<rparr>, demo_executed_log] =
     classify_success_logs demo_abi 9 11 [demo_executed_log]"
  using receipt_ignores_foreign_logs [of demo_abi 9 11
      "[\<lparr>lg_address = 8, lg_topics = [101, 11], lg_data = []\<rparr>, demo_executed_log]"]
  by (simp add: demo_abi_def demo_executed_log_def relevant_def)

text \<open>At most three top-up requests are ever sent for a message, however often it is refused and in
  whatever order the requests land or fail, and none while one is in flight or after one has landed.\<close>

theorem top_up_requests_bounded:
  "snd (fold (top_up_step i) evs ([], 0)) \<le> 3"
proof -
  have "top_up_inv i (fold (top_up_step i) evs s)" if "top_up_inv i s" for s
    using that by (induction evs arbitrary: s) (simp_all add: top_up_step_inv)
  from this [of "([], 0)"] show ?thesis
    by (auto simp: top_up_inv_def split: prod.splits option.splits top_up_mark.splits)
qed

text \<open>The gas bump makes progress and respects the cap: a bumped limit is strictly above the limit it
  replaces and never above the route's maximum, so repeated bumps end at the cap.\<close>

theorem gas_bump_progress:
  assumes "bumped_gas_limit current envelope cap = Some next"
  shows "next \<le> cap \<and> (\<exists>base. option_or current envelope = Some base \<and> base < next)"
  using assms bumped_gas_limit_bounds by blast

theorem gas_bump_progress_witness: "\<exists>base. option_or (Some 100) None = Some base \<and> base < (125 :: u64)"
  using gas_bump_progress [of "Some 100" None 1000 125]
  by (simp add: bumped_gas_limit_def option_or_def sat_mul_def sat_add_def)

end
