(* ===== verification/Pending.thy ===== *)
theory Pending
  imports Bounded
begin

text \<open>
  Pending-transaction tracking shared by the proof submitters (\<^verbatim>\<open>message-relayer/src/pending.rs\<close>):
  the bounded queue with its backoff, and the schedule of polls for a proof that is not ready.
\<close>

section \<open>Schedules\<close>

definition TRANSIENT_BACKOFF_BASE :: duration where "TRANSIENT_BACKOFF_BASE = secs 30"
definition TRANSIENT_BACKOFF_MAX :: duration where "TRANSIENT_BACKOFF_MAX = secs (10 * 60)"

record not_ready_policy =
  np_poll_interval :: duration
  np_poll_window :: duration

fun ilog2 :: "nat \<Rightarrow> nat" where
  "ilog2 n = (if n < 2 then 0 else Suc (ilog2 (n div 2)))"

declare ilog2.simps [simp del]

text \<open>
  \<^verbatim>\<open>2u32.saturating_pow(exp)\<close> and \<^verbatim>\<open>Duration::saturating_mul\<close> stay in range: the exponent is at
  most 31 and the base 30 seconds.
\<close>

definition next_delay :: "not_ready_policy \<Rightarrow> duration \<Rightarrow> duration" where
  "next_delay p waited =
     (if waited < np_poll_window p then np_poll_interval p
      else let excess = waited - np_poll_window p;
               steps = as_secs excess div max (as_secs TRANSIENT_BACKOFF_BASE) 1 + 1;
               e = min (ilog2 steps) 31
           in min (TRANSIENT_BACKOFF_BASE * 2 ^ e) TRANSIENT_BACKOFF_MAX)"

section \<open>The queue\<close>

record 'm pending_tx =
  pt_first_seen :: instant
  pt_block :: u64
  pt_next_attempt_at :: instant
  pt_transient_attempts :: u32
  pt_meta :: "'m list"

record 'm pending_txs =
  pq_seen :: "(b256, 'm pending_tx) hash_map"
  pq_cap :: nat

definition pending_new :: "nat \<Rightarrow> 'm pending_txs" where
  "pending_new cap = \<lparr>pq_seen = [], pq_cap = cap\<rparr>"

definition pending_contains :: "b256 \<Rightarrow> 'm pending_txs \<Rightarrow> bool" where
  "pending_contains tx q \<longleftrightarrow> tx \<in> set (hm_keys (pq_seen q))"

definition pending_len :: "'m pending_txs \<Rightarrow> nat" where
  "pending_len q = length (pq_seen q)"

definition pending_is_full :: "'m pending_txs \<Rightarrow> bool" where
  "pending_is_full q \<longleftrightarrow> pq_cap q \<le> length (pq_seen q)"

definition pending_remove :: "b256 \<Rightarrow> 'm pending_txs \<Rightarrow> 'm pending_txs" where
  "pending_remove tx q = q\<lparr>pq_seen := hm_remove tx (pq_seen q)\<rparr>"

definition pending_age :: "b256 \<Rightarrow> instant \<Rightarrow> 'm pending_txs \<Rightarrow> duration option" where
  "pending_age tx now q = map_option (\<lambda>e. now - pt_first_seen e) (hm_get (pq_seen q) tx)"

definition oldest_pending_block :: "'m pending_txs \<Rightarrow> u64 option" where
  "oldest_pending_block q =
     (case map (\<lambda>(_, e). pt_block e) (pq_seen q) of [] \<Rightarrow> None | b # bs \<Rightarrow> Some (fold min bs b))"

definition pending_insert ::
  "b256 \<Rightarrow> instant \<Rightarrow> u64 \<Rightarrow> 'm list \<Rightarrow> 'm pending_txs \<Rightarrow> 'm pending_txs \<times> b256 option" where
  "pending_insert tx now block meta q =
     (if tx \<in> set (hm_keys (pq_seen q)) then (q, None)
      else let q1 = q\<lparr>pq_seen := hm_insert tx \<lparr>pt_first_seen = now, pt_block = block, pt_next_attempt_at = now,
                        pt_transient_attempts = 0, pt_meta = meta\<rparr> (pq_seen q)\<rparr>
           in if pq_cap q1 < length (pq_seen q1)
              then (case min_by_key (\<lambda>(_, e). pt_first_seen e) (pq_seen q1) of
                      None \<Rightarrow> (q1, None)
                    | Some (oldest, _) \<Rightarrow> (q1\<lparr>pq_seen := hm_remove oldest (pq_seen q1)\<rparr>, Some oldest))
              else (q1, None))"

definition note_meta :: "b256 \<Rightarrow> 'm \<Rightarrow> 'm pending_txs \<Rightarrow> 'm pending_txs" where
  "note_meta tx item q =
     q\<lparr>pq_seen := hm_modify tx (\<lambda>e. if item \<in> set (pt_meta e) then e else e\<lparr>pt_meta := pt_meta e @ [item]\<rparr>) (pq_seen q)\<rparr>"

definition pending_ready :: "nat \<Rightarrow> instant \<Rightarrow> 'm pending_txs \<Rightarrow> (b256 \<times> 'm list) list" where
  "pending_ready n now q =
     (let entries = map (\<lambda>(h, e). (h, pt_first_seen e, pt_meta e))
            (filter (\<lambda>(_, e). pt_next_attempt_at e \<le> now) (pq_seen q))
      in map (\<lambda>(h, _, meta). (h, meta)) (take n (sort_key (\<lambda>(_, first_seen, _). first_seen) entries)))"

definition pending_defer :: "b256 \<Rightarrow> instant \<Rightarrow> 'm pending_txs \<Rightarrow> 'm pending_txs" where
  "pending_defer tx until q = q\<lparr>pq_seen := hm_modify tx (\<lambda>e. e\<lparr>pt_next_attempt_at := until\<rparr>) (pq_seen q)\<rparr>"

definition transient_backoff :: "u32 \<Rightarrow> duration" where
  "transient_backoff attempts =
     (let e = min (unat (sat_sub attempts 1)) 31
      in min (TRANSIENT_BACKOFF_BASE * 2 ^ e) TRANSIENT_BACKOFF_MAX)"

definition record_transient_failure :: "b256 \<Rightarrow> instant \<Rightarrow> 'm pending_txs \<Rightarrow> 'm pending_txs \<times> u32" where
  "record_transient_failure tx now q =
     (case hm_get (pq_seen q) tx of
        None \<Rightarrow> (q, 0)
      | Some e \<Rightarrow>
          let attempts = pt_transient_attempts e + 1
          in (q\<lparr>pq_seen := hm_modify tx (\<lambda>e. e\<lparr>pt_transient_attempts := attempts,
                  pt_next_attempt_at := now + transient_backoff attempts\<rparr>) (pq_seen q)\<rparr>, attempts))"

section \<open>The not-ready schedule\<close>

lemma ilog2_pow: "ilog2 (2 ^ k) = k"
proof (induction k)
  case (Suc k)
  have "\<not> (2 :: nat) ^ Suc k < 2" by simp
  with Suc show ?case by (subst ilog2.simps) simp
qed (simp add: ilog2.simps)

text \<open>The cumulative wait after \<open>k\<close> polls past the window.\<close>

definition waited_after :: "not_ready_policy \<Rightarrow> nat \<Rightarrow> duration" where
  "waited_after p k = np_poll_window p + secs (30 * (2 ^ k - 1))"

text \<open>
  The counterless schedule reproduces the doubling sequence: polling again exactly when it says
  so, the \<open>k\<close>-th wait past the window is \<open>30 * 2 ^ k\<close> seconds, up to the cap.
\<close>

lemma next_delay_doubles:
  assumes "k \<le> 31"
  shows "next_delay p (waited_after p k) = min (secs (30 * 2 ^ k)) TRANSIENT_BACKOFF_MAX"
proof -
  have "as_secs (secs (30 * (2 ^ k - 1))) div 30 + 1 = 2 ^ k" by simp
  moreover have "secs 30 * 2 ^ k = secs (30 * 2 ^ k)" by (simp add: secs_def)
  ultimately show ?thesis
    using assms by (simp add: next_delay_def waited_after_def TRANSIENT_BACKOFF_BASE_def Let_def ilog2_pow)
qed

lemma waited_after_Suc:
  assumes "k \<le> 4"
  shows "waited_after p (Suc k) = waited_after p k + next_delay p (waited_after p k)"
proof -
  have "(2 :: nat) ^ k \<le> 2 ^ 4" using assms by (rule power_increasing) simp
  then have "secs (30 * 2 ^ k) \<le> TRANSIENT_BACKOFF_MAX" by (simp add: TRANSIENT_BACKOFF_MAX_def)
  then have "next_delay p (waited_after p k) = secs (30 * 2 ^ k)" using assms by (simp add: next_delay_doubles)
  moreover have "30 * (2 ^ Suc k - 1) = 30 * (2 ^ k - 1) + 30 * (2 :: nat) ^ k"
    using one_le_power [of "2 :: nat" k] by (simp add: diff_mult_distrib2)
  ultimately show ?thesis by (simp add: waited_after_def secs_add)
qed

lemma next_delay_bounds:
  "np_poll_window p \<le> w \<Longrightarrow> TRANSIENT_BACKOFF_BASE \<le> next_delay p w \<and> next_delay p w \<le> TRANSIENT_BACKOFF_MAX"
  by (simp add: next_delay_def Let_def TRANSIENT_BACKOFF_BASE_def TRANSIENT_BACKOFF_MAX_def)

section \<open>The queue's invariant\<close>

definition pending_ok :: "'m pending_txs \<Rightarrow> bool" where
  "pending_ok q \<longleftrightarrow> hm_ok (pq_seen q) \<and> length (pq_seen q) \<le> pq_cap q"

lemma pending_insert_cases:
  fixes tx :: b256
  assumes "pending_ok q" and "pending_insert tx now block meta q = (q', ev)"
  obtains "tx \<in> set (hm_keys (pq_seen q))" "q' = q" "ev = None"
  | e where "tx \<notin> set (hm_keys (pq_seen q))" "length (pq_seen q) < pq_cap q" "ev = None"
      "e = \<lparr>pt_first_seen = now, pt_block = block, pt_next_attempt_at = now, pt_transient_attempts = 0, pt_meta = meta\<rparr>"
      "q' = q\<lparr>pq_seen := pq_seen q @ [(tx, e)]\<rparr>"
  | e old oe where "tx \<notin> set (hm_keys (pq_seen q))" "length (pq_seen q) = pq_cap q" "ev = Some old"
      "e = \<lparr>pt_first_seen = now, pt_block = block, pt_next_attempt_at = now, pt_transient_attempts = 0, pt_meta = meta\<rparr>"
      "q' = q\<lparr>pq_seen := hm_remove old (pq_seen q @ [(tx, e)])\<rparr>"
      "(old, oe) \<in> set (pq_seen q @ [(tx, e)])"
      "\<forall>(h, x) \<in> set (pq_seen q @ [(tx, e)]). pt_first_seen oe \<le> pt_first_seen x"
proof (cases "tx \<in> set (hm_keys (pq_seen q))")
  case True
  with assms(2) show ?thesis by (intro that(1)) (simp_all add: pending_insert_def)
next
  case False
  define e where "e = \<lparr>pt_first_seen = now, pt_block = block, pt_next_attempt_at = now,
    pt_transient_attempts = 0, pt_meta = meta\<rparr>"
  have fresh: "hm_insert tx e (pq_seen q) = pq_seen q @ [(tx, e)]"
    using False by (intro hm_insert_fresh) (simp add: map_of_eq_None_iff)
  show ?thesis
  proof (cases "length (pq_seen q) < pq_cap q")
    case True
    have "pending_insert tx now block meta q = (q\<lparr>pq_seen := pq_seen q @ [(tx, e)]\<rparr>, None)"
      using True False fresh by (simp add: pending_insert_def e_def)
    with True False assms(2) show ?thesis by (intro that(2) [of e]) (simp_all add: e_def)
  next
    case nf: False
    then have len: "length (pq_seen q) = pq_cap q" using assms(1) by (simp add: pending_ok_def)
    obtain old oe where m: "min_by_key (\<lambda>(_, e). pt_first_seen e) (pq_seen q @ [(tx, e)]) = Some (old, oe)"
      by (cases "min_by_key (\<lambda>(_, e). pt_first_seen e) (pq_seen q @ [(tx, e)])") auto
    have "pending_insert tx now block meta q = (q\<lparr>pq_seen := hm_remove old (pq_seen q @ [(tx, e)])\<rparr>, Some old)"
      using False len m fresh by (simp add: pending_insert_def e_def)
    then have res: "q' = q\<lparr>pq_seen := hm_remove old (pq_seen q @ [(tx, e)])\<rparr>" "ev = Some old"
      using assms(2) by simp_all
    have le: "\<forall>(h, x) \<in> set (pq_seen q @ [(tx, e)]). pt_first_seen oe \<le> pt_first_seen x"
      using min_by_key_le [OF m] by fastforce
    show ?thesis by (rule that(3) [OF False len res(2) e_def res(1) min_by_key_in [OF m] le])
  qed
qed

lemma pending_insert_ok:
  assumes "pending_ok q" and "pending_insert tx now block meta q = (q', ev)"
  shows "pending_ok q' \<and> pq_cap q' = pq_cap q"
  using assms
proof (cases rule: pending_insert_cases)
  case 1
  with assms(1) show ?thesis by simp
next
  case (2 e)
  with assms(1) show ?thesis by (auto simp: pending_ok_def hm_ok_def)
next
  case (3 e old oe)
  have ok: "hm_ok (pq_seen q @ [(tx, e)])" using 3(1) assms(1) by (auto simp: pending_ok_def hm_ok_def)
  have "old \<in> set (map fst (pq_seen q @ [(tx, e)]))" using 3(6) by force
  from hm_length_remove [OF ok this] 3 ok assms(1) show ?thesis
    by (simp add: pending_ok_def hash.invar_remove)
qed

lemma pending_ops_ok:
  "pending_ok q \<Longrightarrow> pending_ok (pending_remove tx q)"
  "pending_ok q \<Longrightarrow> pending_ok (note_meta tx item q)"
  "pending_ok q \<Longrightarrow> pending_ok (pending_defer tx until q)"
  "pending_ok q \<Longrightarrow> pending_ok (fst (record_transient_failure tx now q))"
  by (auto simp: pending_ok_def pending_remove_def note_meta_def pending_defer_def record_transient_failure_def
      hash.invar_remove Let_def intro: le_trans [OF length_delete_le] split: option.splits)

section \<open>Reading the queue\<close>

lemma pending_ready_sorted:
  "map fst (pending_ready n now q) =
     take n (map fst (sort_key (\<lambda>(_, e). pt_first_seen e) (filter (\<lambda>(_, e). pt_next_attempt_at e \<le> now) (pq_seen q))))"
proof -
  have eq: "sort_key (\<lambda>(_, t, _). t) (map (\<lambda>(h, e). (h, pt_first_seen e, pt_meta e)) xs) =
      map (\<lambda>(h, e). (h, pt_first_seen e, pt_meta e)) (sort_key (\<lambda>(_, e). pt_first_seen e) xs)"
    for xs :: "(b256 \<times> 'a pending_tx) list"
  proof -
    have ins: "insort_key (\<lambda>(_, t, _). t) ((\<lambda>(h, e). (h, pt_first_seen e, pt_meta e)) x)
        (map (\<lambda>(h, e). (h, pt_first_seen e, pt_meta e)) ys)
      = map (\<lambda>(h, e). (h, pt_first_seen e, pt_meta e)) (insort_key (\<lambda>(_, e). pt_first_seen e) x ys)"
      for x :: "b256 \<times> 'a pending_tx" and ys
      by (induction ys) (auto split: prod.splits)
    show ?thesis by (induction xs) (simp_all add: ins)
  qed
  show ?thesis
    unfolding pending_ready_def Let_def eq by (simp add: take_map comp_def case_prod_unfold)
qed

lemma fold_min_le: "fold min bs b \<le> b \<and> (\<forall>x \<in> set bs. fold min bs b \<le> x)"
  for b :: "'a::linorder"
proof (induction bs arbitrary: b)
  case (Cons x bs)
  from Cons.IH [of "min x b"] show ?case by simp
qed simp

lemma fold_min_in: "fold min bs b \<in> set (b # bs)" for b :: "'a::linorder"
  by (induction bs arbitrary: b) (fastforce simp: min_def)+

lemma oldest_pending_block_min:
  "oldest_pending_block q = Some b \<Longrightarrow>
     (\<exists>e \<in> snd ` set (pq_seen q). pt_block e = b) \<and> (\<forall>e \<in> snd ` set (pq_seen q). b \<le> pt_block e)"
  "oldest_pending_block q = None \<longleftrightarrow> pq_seen q = []"
proof -
  show "oldest_pending_block q = None \<longleftrightarrow> pq_seen q = []"
    by (cases "pq_seen q") (auto simp: oldest_pending_block_def)
  assume "oldest_pending_block q = Some b"
  then obtain c bs where bs: "map (\<lambda>(_, e). pt_block e) (pq_seen q) = c # bs" "b = fold min bs c"
    by (auto simp: oldest_pending_block_def split: list.splits)
  have "set (c # bs) = pt_block ` snd ` set (pq_seen q)"
    unfolding bs(1) [symmetric] by (force simp: image_iff)
  with fold_min_le [of bs c] fold_min_in [of bs c] bs(2)
  show "(\<exists>e \<in> snd ` set (pq_seen q). pt_block e = b) \<and> (\<forall>e \<in> snd ` set (pq_seen q). b \<le> pt_block e)"
    by (metis (no_types, lifting) image_iff set_ConsD)
qed

lemma transient_backoff_doubling: "transient_backoff a = doubling (secs 30) (secs 600) 31 (unat a - 1)"
  by (simp add: transient_backoff_def doubling_def TRANSIENT_BACKOFF_BASE_def TRANSIENT_BACKOFF_MAX_def Let_def unat_sat)

end
