(* ===== verification/Pacing.thy ===== *)
theory Pacing
  imports Text
begin

text \<open>
  Rate-limit pacing of the periodic read loops (\<^verbatim>\<open>message-relayer/src/pacing.rs\<close>): the escalating
  deferral and the classification of an error text as rate limiting. The text is taken to be
  ASCII, where \<^verbatim>\<open>to_lowercase\<close> is the ASCII lower case.
\<close>

definition LEVEL_CAP :: u32 where "LEVEL_CAP = 5"
definition PACE_BASE :: duration where "PACE_BASE = secs 5"

record rate_limit_pacer =
  rp_level :: u32
  rp_defer_until :: "instant option"

definition pacer_default :: rate_limit_pacer where
  "pacer_default = \<lparr>rp_level = 0, rp_defer_until = None\<rparr>"

definition pacer_after :: "bool \<Rightarrow> instant \<Rightarrow> rate_limit_pacer \<Rightarrow> rate_limit_pacer" where
  "pacer_after rate_limited now p =
     (if rate_limited
      then let level = min (rp_level p + 1) LEVEL_CAP
           in p\<lparr>rp_level := level, rp_defer_until := Some (now + PACE_BASE * 2 ^ unat (level - 1))\<rparr>
      else p\<lparr>rp_level := sat_sub (rp_level p) 1\<rparr>)"

definition pacer_deferring :: "instant \<Rightarrow> rate_limit_pacer \<Rightarrow> duration option" where
  "pacer_deferring now p =
     (case rp_defer_until p of
        None \<Rightarrow> None
      | Some until \<Rightarrow> if now < until then Some (until - now) else None)"

section \<open>Classification of errors\<close>

text \<open>\<open>None\<close> is the panic of slicing the text past its end, which a non-empty needle never reaches.\<close>

function standalone_from :: "string \<Rightarrow> string \<Rightarrow> nat \<Rightarrow> bool option" where
  "standalone_from hay needle start =
     (if length hay < start then None
      else case find_sub needle (drop start hay) of
             None \<Rightarrow> Some False
           | Some pos \<Rightarrow>
               let i = start + pos;
                   before_ok = (i = 0 \<or> \<not> is_ascii_alphanumeric (hay ! (i - 1)));
                   after = i + length needle;
                   after_ok = (length hay \<le> after \<or> \<not> is_ascii_alphanumeric (hay ! after))
               in if before_ok \<and> after_ok then Some True else standalone_from hay needle (i + 1))"
  by pat_completeness auto
termination
  by (relation "measure (\<lambda>(hay, _, start). Suc (length hay) - start)") auto

declare standalone_from.simps [simp del]

definition contains_standalone :: "string \<Rightarrow> string \<Rightarrow> bool option" where
  "contains_standalone hay needle = standalone_from hay needle 0"

definition error_looks_rate_limited :: "string \<Rightarrow> bool" where
  "error_looks_rate_limited raw =
     (let hay = map to_ascii_lower raw in
      list_ex (\<lambda>needle. contains_sub needle hay)
        [''resource_exhausted'', ''resource exhausted'', ''rate limit'', ''rps limit'',
         ''too many requests'', ''quota'']
      \<or> contains_standalone hay ''429'' = Some True
      \<or> contains_standalone hay ''32005'' = Some True)"

section \<open>Deferral\<close>

definition pacer_ok :: "rate_limit_pacer \<Rightarrow> bool" where
  "pacer_ok p \<longleftrightarrow> rp_level p \<le> LEVEL_CAP"

lemma pacer_level_nat:
  assumes "pacer_ok p"
  shows "unat (rp_level (pacer_after limited now p)) =
    (if limited then min (Suc (unat (rp_level p))) 5 else unat (rp_level p) - 1)"
proof -
  have "unat (rp_level p) \<le> 5" using assms by (simp add: pacer_ok_def LEVEL_CAP_def word_le_nat_alt)
  then have "unat (rp_level p + 1) = Suc (unat (rp_level p))"
    by (simp add: unat_word_ariths)
  then show ?thesis
    by (auto simp: pacer_after_def Let_def LEVEL_CAP_def min_def word_le_nat_alt unat_sat_sub)
qed

lemma pacer_after_ok: "pacer_ok p \<Longrightarrow> pacer_ok (pacer_after limited now p)"
  using pacer_level_nat [of p limited now]
  by (auto simp: pacer_ok_def LEVEL_CAP_def word_le_nat_alt split: if_splits)

lemma pacer_deferral:
  assumes "pacer_ok p"
  shows "rp_defer_until (pacer_after True now p) = Some (now + secs (5 * 2 ^ (min (Suc (unat (rp_level p))) 5 - 1)))"
proof -
  let ?l = "rp_level (pacer_after True now p)"
  have l: "unat ?l = min (Suc (unat (rp_level p))) 5" using pacer_level_nat [OF assms, of True now] by simp
  then have "0 < unat ?l" by simp
  then have "unat (?l - 1) = unat ?l - 1" by (subst unat_minus_one) auto
  with l show ?thesis by (simp add: pacer_after_def Let_def PACE_BASE_def secs_def)
qed

section \<open>Standalone tokens\<close>

definition standalone_at :: "string \<Rightarrow> string \<Rightarrow> nat \<Rightarrow> bool" where
  "standalone_at hay needle i \<longleftrightarrow> occurs_at needle hay i
     \<and> (i = 0 \<or> \<not> is_ascii_alphanumeric (hay ! (i - 1)))
     \<and> (length hay \<le> i + length needle \<or> \<not> is_ascii_alphanumeric (hay ! (i + length needle)))"

lemma occurs_at_drop: "occurs_at needle (drop k hay) j = occurs_at needle hay (k + j)"
  by (simp add: occurs_at_def add.commute)

lemma standalone_from_iff:
  assumes "needle \<noteq> []" and "start \<le> length hay"
  shows "standalone_from hay needle start = Some (\<exists>i \<ge> start. standalone_at hay needle i)"
  using assms
proof (induction hay needle start rule: standalone_from.induct)
  case (1 hay needle start)
  show ?case
  proof (cases "find_sub needle (drop start hay)")
    case None
    have "\<not> occurs_at needle hay i" if "start \<le> i" for i
      using find_sub_None [OF None, of "i - start"] that by (simp add: occurs_at_drop)
    with None "1.prems" show ?thesis
      by (subst standalone_from.simps) (auto simp: standalone_at_def)
  next
    case (Some pos)
    note f = find_sub_Some [OF Some]
    have at: "occurs_at needle hay (start + pos)" using f by (simp add: occurs_at_drop)
    have le: "start + pos + 1 \<le> length hay" using f "1.prems" by (cases needle) auto
    have none: "\<not> occurs_at needle hay i" if "start \<le> i" "i < start + pos" for i
    proof -
      have "\<not> occurs_at needle (drop start hay) (i - start)" using f that by auto
      with that show ?thesis by (simp add: occurs_at_drop)
    qed
    show ?thesis
    proof (cases "standalone_at hay needle (start + pos)")
      case True
      then have "standalone_from hay needle start = Some True"
        using Some "1.prems"(2) by (subst standalone_from.simps) (auto simp: standalone_at_def)
      with True show ?thesis by (auto intro: exI [of _ "start + pos"])
    next
      case False
      have step: "standalone_from hay needle start = standalone_from hay needle (start + pos + 1)"
        using Some "1.prems"(2) False at by (subst standalone_from.simps) (auto simp: standalone_at_def)
      have IH: "standalone_from hay needle (start + pos + 1) = Some (\<exists>i \<ge> start + pos + 1. standalone_at hay needle i)"
        by (rule "1.IH" [OF _ Some refl refl refl refl]) (use "1.prems" le False at in \<open>auto simp: standalone_at_def\<close>)
      have "(\<exists>i \<ge> start. standalone_at hay needle i) \<longleftrightarrow> (\<exists>i \<ge> start + pos + 1. standalone_at hay needle i)"
      proof
        assume "\<exists>i \<ge> start. standalone_at hay needle i"
        then obtain i where i: "start \<le> i" "standalone_at hay needle i" by blast
        with none have "\<not> i < start + pos" by (auto simp: standalone_at_def)
        with i False have "start + pos + 1 \<le> i" by (cases "i = start + pos") auto
        with i show "\<exists>i \<ge> start + pos + 1. standalone_at hay needle i" by blast
      qed (use add_leD1 in \<open>fastforce\<close>)
      with step IH show ?thesis by simp
    qed
  qed
qed

end
