(* ===== verification/Finality.thy ===== *)
theory Finality
  imports Prelude
begin

text \<open>
  The block a source scan may read up to (\<^verbatim>\<open>message-relayer/src/events/finality.rs\<close>).
\<close>

definition FINALITY_STALL_TIMEOUT :: duration where "FINALITY_STALL_TIMEOUT = secs 600"

datatype finality_policy = Finalized | Depth u64

record finality_tracker =
  ft_last_finalized :: "u64 option"
  ft_last_advance :: instant
  ft_stalled :: bool

definition tracker_new :: "instant \<Rightarrow> finality_tracker" where
  "tracker_new now = \<lparr>ft_last_finalized = None, ft_last_advance = now, ft_stalled = False\<rparr>"

datatype finality_error = HeadUnavailable | HeadRegressed

definition pick_to_block ::
  "u64 option \<Rightarrow> u64 \<Rightarrow> finality_policy \<Rightarrow> finality_tracker \<Rightarrow> instant \<Rightarrow> finality_tracker \<times> (finality_error + u64)" where
  "pick_to_block finalized tip policy tracker now =
     (case policy of
        Depth depth \<Rightarrow> (tracker, Inr (sat_sub tip depth))
      | Finalized \<Rightarrow>
          (case finalized of
             None \<Rightarrow> (tracker, Inl HeadUnavailable)
           | Some f \<Rightarrow>
               if \<not> is_none_or (\<lambda>previous. previous \<le> f) (ft_last_finalized tracker)
               then (tracker, Inl HeadRegressed)
               else if is_none_or (\<lambda>previous. previous < f) (ft_last_finalized tracker)
               then (tracker\<lparr>ft_last_finalized := Some f, ft_last_advance := now, ft_stalled := False\<rparr>, Inr f)
               else (tracker\<lparr>ft_stalled := FINALITY_STALL_TIMEOUT \<le> now - ft_last_advance tracker\<rparr>, Inr f)))"

section \<open>A sequence of scans\<close>

text \<open>One reading of the finalized head, the tip and the clock per scan; the blocks granted, in order.\<close>

fun granted :: "finality_policy \<Rightarrow> finality_tracker \<Rightarrow> (u64 option \<times> u64 \<times> instant) list \<Rightarrow> u64 list" where
  "granted policy t [] = []"
| "granted policy t ((f, tip, now) # rs) =
     (let (t', res) = pick_to_block f tip policy t now
      in (case res of Inr b \<Rightarrow> [b] | Inl _ \<Rightarrow> []) @ granted policy t' rs)"

lemma pick_finalized:
  assumes "pick_to_block f tip Finalized t now = (t', Inr b)"
  shows "f = Some b" and "ft_last_finalized t' = Some b" and "ft_last_finalized t = Some p \<Longrightarrow> p \<le> b"
  using assms by (auto simp: pick_to_block_def is_none_or_def split: option.splits if_splits)

lemma pick_error: "pick_to_block f tip policy t now = (t', Inl e) \<Longrightarrow> t' = t"
  by (auto simp: pick_to_block_def split: finality_policy.splits option.splits if_splits)

lemma granted_sorted:
  "sorted (granted Finalized t rs) \<and> (\<forall>p. ft_last_finalized t = Some p \<longrightarrow> (\<forall>b \<in> set (granted Finalized t rs). p \<le> b))"
proof (induction Finalized t rs rule: granted.induct)
  case (1 t)
  then show ?case by simp
next
  case (2 t f tip now rs)
  obtain t' res where p: "pick_to_block f tip Finalized t now = (t', res)" by fastforce
  note IH = "2.hyps" [OF p [symmetric] refl]
  show ?case
  proof (cases res)
    case (Inl e)
    with p pick_error [of f tip Finalized t now t' e] IH show ?thesis by simp
  next
    case (Inr b)
    note pf = pick_finalized [OF p [unfolded Inr]]
    have "b \<le> x" if "x \<in> set (granted Finalized t' rs)" for x using IH pf(2) that by blast
    with p Inr IH pf show ?thesis by (fastforce intro: order_trans)
  qed
qed

lemma granted_from_reads: "b \<in> set (granted Finalized t rs) \<Longrightarrow> \<exists>tip now. (Some b, tip, now) \<in> set rs"
proof (induction Finalized t rs rule: granted.induct)
  case (2 t f tip now rs)
  obtain t' res where p: "pick_to_block f tip Finalized t now = (t', res)" by fastforce
  from "2.prems" p "2.hyps" [OF p [symmetric] refl] pick_finalized(1) [of f tip t now t'] show ?case
    by (auto split: sum.splits)
qed simp

lemma stalled_iff:
  assumes "pick_to_block (Some f) tip Finalized t now = (t', Inr b)" and "ft_last_finalized t = Some f"
  shows "ft_stalled t' \<longleftrightarrow> secs 600 \<le> now - ft_last_advance t"
  using assms by (auto simp: pick_to_block_def is_none_or_def FINALITY_STALL_TIMEOUT_def)

end
