(* ===== verification/Component_Theorems.thy ===== *)
theory Component_Theorems
  imports Checkpoint Failed_Retry Outcome Pending Pacing Finality Revert
begin

text \<open>
  The properties of the smaller components: the checkpoint file, the retry schedules, the bounded
  memories, the settlement queue, rate-limit pacing, the finality gate and revert parsing.
\<close>

section \<open>Checkpoint\<close>

text \<open>C24. A checkpoint write survives a crash at any point of it. From a store in step with its file, a
  write either succeeds, and reloading the file gives the new block for its key and the old one for
  every other; or fails, and both memory and a reload still give every old block. In both cases the
  store is in step with its file again.\<close>

theorem checkpoint_crash_safe:
  assumes "codec_ok C" and "cs_synced C cs" and "persist_entry C fault key e cs = (cs', ok)"
  shows "\<exists>loaded. cp_load C True (cs_files cs') = Inr loaded
    \<and> (\<forall>k. cp_get k loaded = (if ok \<and> k = key then Some (ce_block e) else cp_get k cs))
    \<and> (\<forall>k. cp_get k cs' = cp_get k loaded) \<and> cs_synced C cs'"
proof -
  have p: "persist_entry C fault key e cs = (fst (persist_entry C fault key e cs), snd (persist_entry C fault key e cs))" by simp
  have sync: "cs_synced C cs'" using persist_entry_synced [OF assms(2), of fault key e] assms(3) by simp
  have inner: "map_of (cs_inner cs') = (if ok then (map_of (cs_inner cs))(key \<mapsto> e) else map_of (cs_inner cs))"
    using persist_entry_saved(1) [of C fault key e cs] persist_entry_failed(1) [of C fault key e cs] assms(3)
    by (auto simp: update_conv')
  from load_synced [OF assms(1) sync] obtain loaded where l: "cp_load C True (cs_files cs') = Inr loaded"
    "map_of (cs_inner loaded) = map_of (cs_inner cs')" by blast
  with inner sync show ?thesis by (auto simp: cp_get_def)
qed

definition one_entry :: entry where
  "one_entry = default_entry\<lparr>ce_block := 5\<rparr>"

definition one_codec :: cp_codec where
  "one_codec = \<lparr>cp_render = (\<lambda>m. if m = [(''a'', one_entry)] then Some [123] else None),
     cp_parse = (\<lambda>_. Some [(''a'', Legacy 5)])\<rparr>"

theorem checkpoint_crash_safe_witness:
  "\<exists>loaded. cp_load one_codec True [(CpFile, [123])] = Inr loaded \<and> cp_get ''a'' loaded = Some 5 \<and> cp_get ''b'' loaded = None"
proof -
  have ok: "codec_ok one_codec"
    by (auto simp: codec_ok_def one_codec_def is_blank_def hm_map_values_def one_entry_def default_entry_def split: if_splits)
  have sync: "cs_synced one_codec \<lparr>cs_inner = [], cs_files = []\<rparr>" by (simp add: cs_synced_def)
  have "persist_entry one_codec NoFault ''a'' one_entry \<lparr>cs_inner = [], cs_files = []\<rparr> =
      (\<lparr>cs_inner = [(''a'', one_entry)], cs_files = [(CpFile, [123])]\<rparr>, True)"
    by (simp add: persist_entry_def cp_persist_def one_codec_def)
  from checkpoint_crash_safe [OF ok sync this] obtain loaded where l: "cp_load one_codec True [(CpFile, [123])] = Inr loaded"
    "\<And>k. cp_get k loaded = (if k = ''a'' then Some (ce_block one_entry) else cp_get k \<lparr>cs_inner = [], cs_files = []\<rparr>)"
    by auto
  from l(2) [of "''a''"] l(2) [of "''b''"] l(1) show ?thesis by (simp add: cp_get_def one_entry_def default_entry_def)
qed

section \<open>Retry schedules\<close>

text \<open>The backoff of execution retries is a doubling schedule. For a policy that passes validation the
  wait after \<open>n\<close> attempts never shrinks with \<open>n\<close>, is at least the initial and at most the maximal
  backoff, and doubles exactly until it reaches the maximum, with no overflow for any counter value.\<close>

theorem failed_retry_backoff_schedule:
  assumes "policy_validate p = Inr ()"
  shows "unat (policy_backoff p n) = min (unat (fp_initial_backoff_secs p) * 2 ^ min (unat n) 64) (unat (fp_max_backoff_secs p))
    \<and> fp_initial_backoff_secs p \<le> policy_backoff p n \<and> policy_backoff p n \<le> fp_max_backoff_secs p
    \<and> (m \<le> n \<longrightarrow> policy_backoff p m \<le> policy_backoff p n)"
proof -
  have le: "unat (fp_initial_backoff_secs p) \<le> unat (fp_max_backoff_secs p)"
    using assms by (auto simp: policy_validate_def word_le_nat_alt not_less split: if_splits)
  note d = policy_backoff_doubling word_le_nat_alt
  have "policy_backoff p m \<le> policy_backoff p n" if "m \<le> n"
    unfolding d using that by (intro doubling_mono) (simp add: word_le_nat_alt)
  moreover have "fp_initial_backoff_secs p \<le> policy_backoff p n" unfolding d by (rule doubling_lo [OF le])
  moreover have "policy_backoff p n \<le> fp_max_backoff_secs p" unfolding d by (simp add: doubling_def)
  ultimately show ?thesis by (simp add: policy_backoff_nat)
qed

theorem failed_retry_backoff_schedule_witness:
  "unat (policy_backoff default_failed_retry_policy 3) = 480
   \<and> unat (policy_backoff default_failed_retry_policy 4000000000) = 14400"
proof -
  have v: "policy_validate default_failed_retry_policy = Inr ()"
    by (simp add: policy_validate_def default_failed_retry_policy_def)
  have "(60 :: nat) * 2 ^ 64 > 14400" by simp
  with failed_retry_backoff_schedule [OF v, of 3 0] failed_retry_backoff_schedule [OF v, of 4000000000 0] show ?thesis
    by (simp add: default_failed_retry_policy_def)
qed

section \<open>Bounded memories\<close>



section \<open>The settlement queue\<close>

text \<open>The settlement queue stays bounded and forgets only the oldest. Inserting a transaction keeps the
  queue well formed and within its capacity; when something is pushed out, nothing that stays was first
  seen earlier, and everything else is kept.\<close>

theorem pending_insert_evicts_oldest:
  assumes "pending_ok q" and "pending_insert tx now block meta q = (q', evicted)"
  shows "pending_ok q' \<and> pq_cap q' = pq_cap q
    \<and> (\<forall>t. t \<noteq> tx \<longrightarrow> Some t \<noteq> evicted \<longrightarrow> hm_get (pq_seen q') t = hm_get (pq_seen q) t)
    \<and> (\<forall>old. evicted = Some old \<longrightarrow> \<not> pending_contains old q'
        \<and> (\<forall>t oe e. (old = tx \<and> pt_first_seen oe = now \<or> hm_get (pq_seen q) old = Some oe) \<longrightarrow>
             hm_get (pq_seen q') t = Some e \<longrightarrow> pt_first_seen oe \<le> pt_first_seen e))"
  (is "_ \<and> _ \<and> ?kept \<and> ?oldest")
proof -
  have "?kept \<and> ?oldest"
    using assms
  proof (cases rule: pending_insert_cases)
    case (2 e)
    then show ?thesis by (auto simp: map_add_def split: option.splits)
  next
    case (3 e old oe)
    have ok: "hm_ok (pq_seen q @ [(tx, e)])" using 3(1) assms(1) by (auto simp: pending_ok_def hm_ok_def)
    have none: "hm_get (pq_seen q) tx = None" using 3(1) by (simp add: map_of_eq_None_iff)
    have look: "hm_get (pq_seen q') t = (if t = old then None else if t = tx then Some e else hm_get (pq_seen q) t)" for t
      using none by (auto simp: 3(5) delete_conv' map_add_def split: option.splits)
    have mem: "hm_get (pq_seen q @ [(tx, e)]) old = Some oe" using 3(6) ok unfolding hm_ok_def by (rule map_of_is_SomeI [rotated])
    have min: "pt_first_seen oe \<le> pt_first_seen x" if "hm_get (pq_seen q') t = Some x" for t x
    proof -
      from that have "(t, x) \<in> set (pq_seen q @ [(tx, e)])"
        unfolding look by (auto split: if_splits dest: map_of_SomeD)
      with 3(7) show ?thesis by blast
    qed
    have same: "pt_first_seen o' = pt_first_seen oe" if "old = tx \<and> pt_first_seen o' = now \<or> hm_get (pq_seen q) old = Some o'" for o'
      using that mem none 3(4) by (auto simp: map_add_def split: option.splits if_splits)
    have "\<not> pending_contains old q'" using look [of old] by (simp add: pending_contains_def map_of_eq_None_iff)
    moreover have "pt_first_seen o' \<le> pt_first_seen x"
      if "old = tx \<and> pt_first_seen o' = now \<or> hm_get (pq_seen q) old = Some o'" "hm_get (pq_seen q') t = Some x" for o' t x
      using same [OF that(1)] min [OF that(2)] by simp
    moreover have ?kept using look 3(3) by simp
    ultimately show ?thesis using 3(3) by blast
  qed simp
  with pending_insert_ok [OF assms] show ?thesis by blast
qed

theorem pending_insert_evicts_oldest_witness:
  "\<not> pending_contains 1 (fst (pending_insert 3 30 9 [] (fst (pending_insert 2 20 8 [] (fst (pending_insert 1 10 7 ([] :: nat list)
     (pending_new 2)))))))"
proof -
  define q where "q = fst (pending_insert 2 20 8 [] (fst (pending_insert 1 10 7 ([] :: nat list) (pending_new 2))))"
  have q: "q = \<lparr>pq_seen = [(1, \<lparr>pt_first_seen = 10, pt_block = 7, pt_next_attempt_at = 10, pt_transient_attempts = 0, pt_meta = []\<rparr>),
      (2, \<lparr>pt_first_seen = 20, pt_block = 8, pt_next_attempt_at = 20, pt_transient_attempts = 0, pt_meta = []\<rparr>)], pq_cap = 2\<rparr>"
    by (simp add: q_def pending_insert_def pending_new_def)
  have ok: "pending_ok q" by (simp add: q pending_ok_def hm_ok_def)
  obtain q' ev where ins: "pending_insert 3 30 9 [] q = (q', ev)" by fastforce
  then have "ev = Some 1" by (auto simp: q pending_insert_def)
  with pending_insert_evicts_oldest [OF ok ins] ins show ?thesis by (simp add: q_def [symmetric])
qed

text \<open>Settlements are retried oldest first and nothing is skipped: the entries returned are those whose
  backoff has elapsed, in the order they were first seen, cut at the requested number. The block from
  which a rescan must start is the smallest block of any queued transaction.\<close>

theorem pending_ready_fair:
  "map fst (pending_ready n now q) =
     take n (map fst (sort_key (\<lambda>(_, e). pt_first_seen e) (filter (\<lambda>(_, e). pt_next_attempt_at e \<le> now) (pq_seen q))))
   \<and> (oldest_pending_block q = None \<longleftrightarrow> pq_seen q = [])
   \<and> (oldest_pending_block q = Some b \<longrightarrow>
       (\<exists>e \<in> snd ` set (pq_seen q). pt_block e = b) \<and> (\<forall>e \<in> snd ` set (pq_seen q). b \<le> pt_block e))"
  using pending_ready_sorted [of n now q] oldest_pending_block_min(1) [of q b] oldest_pending_block_min(2) [of q] by blast

theorem pending_ready_fair_witness:
  "oldest_pending_block (fst (pending_insert 1 10 7 ([] :: nat list) (pending_new 2))) = Some 7"
proof -
  have "oldest_pending_block (fst (pending_insert 1 10 7 ([] :: nat list) (pending_new 2))) \<noteq> None"
    using pending_ready_fair [of 1 0 "fst (pending_insert 1 10 7 ([] :: nat list) (pending_new 2))"]
    by (simp add: pending_insert_def pending_new_def)
  then show ?thesis by (simp add: oldest_pending_block_def pending_insert_def pending_new_def)
qed

text \<open>The schedule for proofs that are not ready needs no counter: computed from the time waited alone, it
  equals the doubling schedule that a counter of polls would give. Past the polling window the \<open>k\<close>-th
  wait is \<open>30 * 2 ^ k\<close> seconds up to ten minutes, and following it for five polls leads exactly from
  one point of the schedule to the next.\<close>

theorem next_delay_counterless:
  assumes "k \<le> 31"
  shows "next_delay p (waited_after p k) = min (secs (30 * 2 ^ k)) (secs 600)
    \<and> (k \<le> 4 \<longrightarrow> waited_after p (Suc k) = waited_after p k + next_delay p (waited_after p k))"
  using next_delay_doubles [OF assms, of p] waited_after_Suc [of k p] by (simp add: TRANSIENT_BACKOFF_MAX_def)

theorem next_delay_counterless_witness:
  "next_delay \<lparr>np_poll_interval = secs 5, np_poll_window = secs 60\<rparr> (secs 150) = secs 120"
  using next_delay_counterless [of 2 "\<lparr>np_poll_interval = secs 5, np_poll_window = secs 60\<rparr>"]
  by (simp add: waited_after_def secs_def)

section \<open>Rate limits\<close>

lemma pacer_run_ok: "pacer_ok p \<Longrightarrow> pacer_ok (fold (\<lambda>(limited, now). pacer_after limited now) evs p)"
  by (induction evs arbitrary: p) (auto intro: pacer_after_ok)

text \<open>A rate-limited node is never left alone for more than 80 seconds: whatever the history of calls,
  the deferral that a rate-limited call sets ends at most 80 and at least 5 seconds later.\<close>

theorem pacer_deferral_bounded:
  assumes "p = fold (\<lambda>(limited, now). pacer_after limited now) evs pacer_default"
  shows "\<exists>d. pacer_deferring now (pacer_after True now p) = Some d \<and> secs 5 \<le> d \<and> d \<le> secs 80"
proof -
  have "pacer_ok p" unfolding assms by (rule pacer_run_ok) (simp add: pacer_ok_def pacer_default_def)
  note d = pacer_deferral [OF this, of now]
  have k: "min (Suc (unat (rp_level p))) 5 - 1 \<le> 4" by simp
  have "(1 :: nat) \<le> 2 ^ (min (Suc (unat (rp_level p))) 5 - 1)" by simp
  moreover have "(2 :: nat) ^ (min (Suc (unat (rp_level p))) 5 - 1) \<le> 2 ^ 4" using k by (rule power_increasing) simp
  ultimately show ?thesis using d by (simp add: pacer_deferring_def secs_def)
qed

theorem pacer_deferral_bounded_witness:
  "\<exists>d. pacer_deferring 9 (pacer_after True 9 (pacer_after True 3 pacer_default)) = Some d \<and> d \<le> secs 80"
  using pacer_deferral_bounded [of "pacer_after True 3 pacer_default" "[(True, 3)]" 9] by auto

text \<open>Error codes count only as whole tokens: the resuming search answers, for every text, exactly
  whether some occurrence of the code is not part of a longer alphanumeric word, and it never slices
  past the end of the text.\<close>

theorem contains_standalone_spec:
  assumes "needle \<noteq> []"
  shows "contains_standalone hay needle = Some (\<exists>i. standalone_at hay needle i)"
  using standalone_from_iff [OF assms, of 0 hay] by (simp add: contains_standalone_def)

theorem contains_standalone_spec_witness: "\<exists>b. contains_standalone ''x429 429'' ''429'' = Some b"
  using contains_standalone_spec [of "''429''" "''x429 429''"] by simp

section \<open>Finality\<close>

text \<open>Under the finalized policy the scanner never goes backwards and never runs ahead: over any
  sequence of head readings the granted blocks are in ascending order, each is a finalized head that
  was actually read, and none is below the head already trusted.\<close>

theorem finality_monotone:
  "sorted (granted Finalized t reads) \<and> (\<forall>b. b \<in> set (granted Finalized t reads) \<longrightarrow> (\<exists>tip now. (Some b, tip, now) \<in> set reads))
   \<and> (\<forall>p b. ft_last_finalized t = Some p \<longrightarrow> b \<in> set (granted Finalized t reads) \<longrightarrow> p \<le> b)"
  using granted_sorted [of t reads] granted_from_reads [of _ t reads] by blast

theorem finality_monotone_witness:
  "sorted (granted Finalized (tracker_new 0) [(Some 5, 9, 1), (Some 4, 9, 2), (None, 9, 3), (Some 7, 9, 4)])
   \<and> granted Finalized (tracker_new 0) [(Some 5, 9, 1), (Some 4, 9, 2), (None, 9, 3), (Some 7, 9, 4)] = [5, 7]"
  using finality_monotone [of "tracker_new 0" "[(Some 5, 9, 1), (Some 4, 9, 2), (None, 9, 3), (Some 7, 9, 4)]"]
  by (simp add: tracker_new_def pick_to_block_def is_none_or_def)

section \<open>Reverts\<close>

text \<open>The two readings of an error text agree: whenever the payload of a revert can be decoded, the
  selector read independently is its first four bytes.\<close>

theorem revert_readings_agree:
  assumes "revert_data s = Some bs"
  shows "revert_selector s = Some (take 4 bs) \<and> 4 \<le> length bs \<and> has_selector s (take 4 bs)"
  using revert_data_selector [OF assms] by (simp add: has_selector_def)

theorem revert_readings_agree_witness: "revert_selector ''data: 0x0a0b0c0dff'' = Some [10, 11, 12, 13]"
proof -
  have "revert_data ''data: 0x0a0b0c0dff'' = Some [10, 11, 12, 13, 255]" by code_simp
  from revert_readings_agree [OF this] show ?thesis by simp
qed

end
