(* ===== verification/Rpc.thy ===== *)
theory Rpc
  imports Prelude
begin

text \<open>
  The provider slot of a long-lived polling worker (\<^verbatim>\<open>message-relayer/src/rpc.rs\<close>): dialled when
  empty, dropped after three consecutive failed iterations. Also the shape of one bounded RPC
  call: no answer in time, an error text, or a value.
\<close>

datatype 'a reply = Timed_Out | Refused string | Reply 'a

definition REBUILD_AFTER_FAILURES :: u32 where "REBUILD_AFTER_FAILURES = 3"

record 'p reconnecting =
  rn_provider :: "'p option"
  rn_consecutive_failures :: u32
  rn_rebuilds :: u64

definition reconnecting_new :: "'p reconnecting" where
  "reconnecting_new = \<lparr>rn_provider = None, rn_consecutive_failures = 0, rn_rebuilds = 0\<rparr>"

text \<open>\<open>dial\<close> is what a dial would give at this moment; it happens only for an empty slot.\<close>

definition rpc_connect :: "'p option \<Rightarrow> 'p reconnecting \<Rightarrow> 'p reconnecting \<times> 'p option" where
  "rpc_connect dial rn =
     (case rn_provider rn of
        Some p \<Rightarrow> (rn, Some p)
      | None \<Rightarrow> (case dial of
                   None \<Rightarrow> (rn, None)
                 | Some p \<Rightarrow> (rn\<lparr>rn_provider := Some p\<rparr>, Some p)))"

definition note_ok :: "'p reconnecting \<Rightarrow> 'p reconnecting" where
  "note_ok rn = rn\<lparr>rn_consecutive_failures := 0\<rparr>"

definition note_err :: "'p reconnecting \<Rightarrow> 'p reconnecting \<times> bool" where
  "note_err rn =
     (let failures = sat_add (rn_consecutive_failures rn) 1 in
      if failures < REBUILD_AFTER_FAILURES then (rn\<lparr>rn_consecutive_failures := failures\<rparr>, False)
      else (rn\<lparr>rn_consecutive_failures := 0, rn_rebuilds := sat_add (rn_rebuilds rn) 1, rn_provider := None\<rparr>, True))"

section \<open>A sequence of iterations\<close>

text \<open>The failures at the end of a list of outcomes.\<close>

definition streak :: "bool list \<Rightarrow> nat" where
  "streak oks = length (takeWhile Not (rev oks))"

lemma streak_Nil [simp]: "streak [] = 0"
  by (simp add: streak_def)

lemma streak_snoc [simp]: "streak (oks @ [ok]) = (if ok then 0 else Suc (streak oks))"
  by (simp add: streak_def)

fun reports :: "bool list \<Rightarrow> 'p reconnecting \<Rightarrow> 'p reconnecting" where
  "reports [] rn = rn"
| "reports (ok # oks) rn = reports oks (if ok then note_ok rn else fst (note_err rn))"

lemma reports_append: "reports (a @ b) rn = reports b (reports a rn)"
  by (induction a arbitrary: rn) auto

lemma note_err_early:
  "rn_consecutive_failures rn = 0 \<Longrightarrow> note_err rn = (rn\<lparr>rn_consecutive_failures := 1\<rparr>, False)"
  "rn_consecutive_failures rn = 1 \<Longrightarrow> note_err rn = (rn\<lparr>rn_consecutive_failures := 2\<rparr>, False)"
  by (simp_all add: note_err_def sat_add_def REBUILD_AFTER_FAILURES_def)

lemma note_err_third:
  "rn_consecutive_failures rn = 2 \<Longrightarrow> note_err rn =
     (rn\<lparr>rn_consecutive_failures := 0, rn_rebuilds := sat_add (rn_rebuilds rn) 1, rn_provider := None\<rparr>, True)"
  by (simp add: note_err_def sat_add_def REBUILD_AFTER_FAILURES_def)

text \<open>The counter is the streak of failures modulo three.\<close>

lemma reports_failures:
  "rn_consecutive_failures rn = 0 \<Longrightarrow> rn_consecutive_failures (reports oks rn) = of_nat (streak oks mod 3)"
proof (induction oks rule: rev_induct)
  case Nil
  then show ?case by simp
next
  case (snoc ok oks)
  let ?rn = "reports oks rn"
  have "streak oks mod 3 = 0 \<or> streak oks mod 3 = 1 \<or> streak oks mod 3 = 2" by presburger
  then show ?case
    using snoc
    by (elim disjE) (auto simp: reports_append note_ok_def mod_Suc note_err_early note_err_third)
qed

end
