(* ===== verification/Scanner.thy ===== *)
theory Scanner
  imports Work_Correct Finality Rpc Text
begin

text \<open>
  Discovery of source messages (\<^verbatim>\<open>message-relayer/src/events/mod.rs\<close>) and the historical
  authorization of their Outbox (\<^verbatim>\<open>events/authority.rs\<close>). The source node is a record of its
  answers during one poll: no call is repeated with the same arguments in a poll, so a function
  of the arguments covers every behaviour. The ABI codec and the rendering of an address are
  arguments. Heartbeats are counted, log lines are left out.
\<close>

section \<open>What the node answers\<close>

record src_log =
  sl_block_number :: "u64 option"
  sl_removed :: bool
  sl_address :: address
  sl_tx_hash :: "b256 option"
  sl_block_hash :: "b256 option"
  sl_topics :: "b256 list"
  sl_data :: bytes

record src_receipt =
  sr_tx_hash :: b256
  sr_block_number :: "u64 option"
  sr_block_hash :: "b256 option"
  sr_logs :: "src_log list"

record src_block =
  sb_number :: u64
  sb_hash :: b256
  sb_transactions :: "b256 list"

record source_node =
  sn_finalized :: "u64 option reply"
  sn_tip :: "u64 reply"
  sn_logs :: "b256 \<Rightarrow> address option \<Rightarrow> u64 \<Rightarrow> u64 \<Rightarrow> src_log list reply"
  sn_block :: "u64 \<Rightarrow> src_block option reply"
  sn_receipt :: "b256 \<Rightarrow> src_receipt option reply"
  sn_discovery :: "u64 \<Rightarrow> u64 \<Rightarrow> bytes reply"
  sn_member :: "address \<Rightarrow> u32 \<Rightarrow> address \<Rightarrow> u64 \<Rightarrow> bytes reply"

record published =
  pb_message_id :: b256
  pb_emitter_address :: b256
  pb_sequence :: u64
  pb_payload :: bytes

record source_abi =
  sa_signature :: b256
  sa_dec_published :: "b256 list \<Rightarrow> bytes \<Rightarrow> published option"
  sa_dec_discovery :: "bytes \<Rightarrow> (address \<times> bool) option"
  sa_enc_discovery :: "address \<times> bool \<Rightarrow> bytes"
  sa_dec_active :: "bytes \<Rightarrow> bool option"
  sa_enc_active :: "bool \<Rightarrow> bytes"

datatype scan_error =
    ChainKeyTooLarge
  | LookupTimedOut
  | LookupFailed
  | MalformedResponse
  | NonCanonicalResponse
  | SourceFinality finality_error
  | LogRangeTooLarge
  | BlockMissing
  | WrongBlock
  | NoTransactions
  | ReceiptMissing
  | InconsistentReceipt
  | InconsistentLog
  | NoBlockNumber
  | OutsideRange
  | OutsidePinnedOutbox
  | InvalidPublished
  | NoTransactionHash
  | RecordFailed work_error
  | PoolChannelClosed
  | PersistenceMismatch
  | ZeroOutbox
  | ConnectFailed

definition MAX_BLOCKS_PER_SCAN :: u64 where "MAX_BLOCKS_PER_SCAN = 2000"

text \<open>\<^verbatim>\<open>timeout(...).await.context(...)?.context(...)?\<close>.\<close>

fun answered :: "'a reply \<Rightarrow> scan_error + 'a" where
  "answered Timed_Out = Inl LookupTimedOut"
| "answered (Refused _) = Inl LookupFailed"
| "answered (Reply x) = Inr x"

section \<open>Historical authorization\<close>

definition registry_chain_key :: "u64 \<Rightarrow> scan_error + u32" where
  "registry_chain_key chain_key = (if unat chain_key < 2 ^ 32 then Inr (ucast chain_key) else Inl ChainKeyTooLarge)"

definition decode_response :: "(bytes \<Rightarrow> 'a option) \<Rightarrow> ('a \<Rightarrow> bytes) \<Rightarrow> bytes \<Rightarrow> scan_error + 'a" where
  "decode_response dec enc bs =
     (case dec bs of
        None \<Rightarrow> Inl MalformedResponse
      | Some decoded \<Rightarrow> if enc decoded = bs then Inr decoded else Inl NonCanonicalResponse)"

definition discovery_at :: "source_abi \<Rightarrow> source_node \<Rightarrow> u64 \<Rightarrow> u64 \<Rightarrow> scan_error + address option" where
  "discovery_at A node chain_key block =
     (case registry_chain_key chain_key of
        Inl e \<Rightarrow> Inl e
      | Inr _ \<Rightarrow>
          (case answered (sn_discovery node chain_key block) of
             Inl e \<Rightarrow> Inl e
           | Inr bs \<Rightarrow>
               (case decode_response (sa_dec_discovery A) (sa_enc_discovery A) bs of
                  Inl e \<Rightarrow> Inl e
                | Inr (addr, exists) \<Rightarrow> Inr (if exists \<and> addr \<noteq> 0 then Some addr else None))))"

definition authorized_at ::
  "source_abi \<Rightarrow> source_node \<Rightarrow> u64 \<Rightarrow> address \<Rightarrow> address \<Rightarrow> u64 \<Rightarrow> scan_error + bool" where
  "authorized_at A node chain_key discovery outbox block =
     (case registry_chain_key chain_key of
        Inl e \<Rightarrow> Inl e
      | Inr key \<Rightarrow>
          (case answered (sn_member node discovery key outbox block) of
             Inl e \<Rightarrow> Inl e
           | Inr bs \<Rightarrow> decode_response (sa_dec_active A) (sa_enc_active A) bs))"

section \<open>Fetching the logs of a range\<close>

definition log_limit_error :: "string \<Rightarrow> bool" where
  "log_limit_error message =
     (let message = map to_ascii_lower message in
      contains_sub ''query returned more than'' message
      \<or> contains_sub ''too many results'' message
      \<or> contains_sub ''too many logs'' message
      \<or> contains_sub ''log response size exceeded'' message)"

text \<open>A result and how often \<^verbatim>\<open>progress\<close> was called on the way to it.\<close>

type_synonym 'a progressed = "nat \<times> (scan_error + 'a)"

definition wanted :: "source_abi \<Rightarrow> address option \<Rightarrow> src_log \<Rightarrow> bool" where
  "wanted A pinned l \<longleftrightarrow>
     (case sl_topics l of [] \<Rightarrow> False | t # _ \<Rightarrow> t = sa_signature A) \<and> is_none_or (\<lambda>a. sl_address l = a) pinned"

fun receipt_logs ::
  "source_abi \<Rightarrow> u64 \<Rightarrow> address option \<Rightarrow> b256 \<Rightarrow> src_receipt \<Rightarrow> src_log list \<Rightarrow> src_log list \<Rightarrow> scan_error + src_log list" where
  "receipt_logs A number pinned hash receipt [] logs = Inr logs"
| "receipt_logs A number pinned hash receipt (l # ls) logs =
     (if \<not> (sl_block_number l = Some number \<and> sl_block_hash l = sr_block_hash receipt
            \<and> sl_tx_hash l = Some hash \<and> \<not> sl_removed l)
      then Inl InconsistentLog
      else receipt_logs A number pinned hash receipt ls (if wanted A pinned l then logs @ [l] else logs))"

fun receipts_loop ::
  "source_abi \<Rightarrow> source_node \<Rightarrow> u64 \<Rightarrow> b256 \<Rightarrow> address option \<Rightarrow> b256 list \<Rightarrow> nat \<Rightarrow> src_log list \<Rightarrow> src_log list progressed" where
  "receipts_loop A node number block_hash pinned [] n logs = (n, Inr logs)"
| "receipts_loop A node number block_hash pinned (hash # hashes) n logs =
     (case answered (sn_receipt node hash) of
        Inl e \<Rightarrow> (n, Inl e)
      | Inr None \<Rightarrow> (n, Inl ReceiptMissing)
      | Inr (Some receipt) \<Rightarrow>
          if \<not> (sr_tx_hash receipt = hash \<and> sr_block_number receipt = Some number
                 \<and> sr_block_hash receipt = Some block_hash)
          then (n, Inl InconsistentReceipt)
          else (case receipt_logs A number pinned hash receipt (sr_logs receipt) logs of
                  Inl e \<Rightarrow> (n + 1, Inl e)
                | Inr logs \<Rightarrow> receipts_loop A node number block_hash pinned hashes (n + 1) logs))"

definition message_logs_from_receipts ::
  "source_abi \<Rightarrow> source_node \<Rightarrow> u64 \<Rightarrow> address option \<Rightarrow> src_log list progressed" where
  "message_logs_from_receipts A node number pinned =
     (case answered (sn_block node number) of
        Inl e \<Rightarrow> (0, Inl e)
      | Inr None \<Rightarrow> (0, Inl BlockMissing)
      | Inr (Some block) \<Rightarrow>
          if sb_number block \<noteq> number then (0, Inl WrongBlock)
          else if sb_transactions block = [] then (0, Inl NoTransactions)
          else receipts_loop A node number (sb_hash block) pinned (sb_transactions block) 0 [])"

definition fetch_message_logs ::
  "source_abi \<Rightarrow> source_node \<Rightarrow> u64 \<Rightarrow> u64 \<Rightarrow> address option \<Rightarrow> src_log list progressed" where
  "fetch_message_logs A node from_block to_block pinned =
     (case sn_logs node (sa_signature A) pinned from_block to_block of
        Timed_Out \<Rightarrow> (0, Inl LookupTimedOut)
      | Reply logs \<Rightarrow> (0, Inr logs)
      | Refused err \<Rightarrow>
          if log_limit_error err \<and> from_block < to_block then (0, Inl LogRangeTooLarge)
          else if log_limit_error err then message_logs_from_receipts A node from_block pinned
          else (0, Inl LookupFailed))"

text \<open>
  The loop of \<^verbatim>\<open>poll_once\<close> that halves the range while the provider finds it too large. A range of
  one block is never too large, so the recursion ends; that test is part of \<open>fetch_message_logs\<close>
  and is repeated here only for the termination proof.
\<close>

lemma halved_range:
  assumes "from_block < (to_block :: u64)"
  shows "unat (from_block + (to_block - from_block) div 2) = unat from_block + (unat to_block - unat from_block) div 2"
proof -
  have lt: "unat from_block < unat to_block" using assms by (simp add: word_less_nat_alt)
  have u: "unat ((to_block - from_block) div 2) = (unat to_block - unat from_block) div 2"
    using lt by (simp add: unat_div unat_sub_if')
  have "unat to_block < 2 ^ LENGTH(64)" by (rule unsigned_less)
  with lt have "unat from_block + (unat to_block - unat from_block) div 2 < 2 ^ 64" by simp
  with u show ?thesis by (simp add: unat_word_ariths)
qed

lemma receipts_loop_not_range: "receipts_loop A node n h p hs k ls \<noteq> (m, Inl LogRangeTooLarge)"
proof (induction hs arbitrary: k ls)
  case (Cons x hs)
  have "receipt_logs A n p x r l acc \<noteq> Inl LogRangeTooLarge" for r l acc
    by (induction l arbitrary: acc) auto
  with Cons show ?case
    by (cases "sn_receipt node x") (auto split: option.splits sum.splits)
qed simp

lemma fetch_range_error: "fetch_message_logs A node from_block to_block pinned = (n, Inl LogRangeTooLarge) \<Longrightarrow> from_block < to_block"
  by (cases "sn_block node from_block")
    (auto simp: fetch_message_logs_def message_logs_from_receipts_def receipts_loop_not_range
      split: reply.splits if_splits option.splits)

function fetch_shrinking ::
  "source_abi \<Rightarrow> source_node \<Rightarrow> address option \<Rightarrow> u64 \<Rightarrow> u64 \<Rightarrow> nat \<Rightarrow> (u64 \<times> src_log list) progressed" where
  "fetch_shrinking A node pinned from_block to_block n =
     (case fetch_message_logs A node from_block to_block pinned of
        (k, Inr logs) \<Rightarrow> (n + k, Inr (to_block, logs))
      | (k, Inl e) \<Rightarrow>
          if e = LogRangeTooLarge
          then fetch_shrinking A node pinned from_block (from_block + (to_block - from_block) div 2) (n + k)
          else (n + k, Inl e))"
  by pat_completeness auto
termination
proof (relation "measure (\<lambda>(_, _, _, from_block, to_block, _). unat to_block - unat from_block)")
  fix A node pinned from_block to_block n k s e
  assume "(k, s) = fetch_message_logs A node from_block to_block pinned" "s = Inl e" "e = LogRangeTooLarge"
  then have "from_block < to_block" by (metis fetch_range_error)
  with halved_range [OF this]
  show "((A, node, pinned, from_block, from_block + (to_block - from_block) div 2, n + k),
        A, node, pinned, from_block, to_block, n)
      \<in> measure (\<lambda>(_, _, _, from_block, to_block, _). unat to_block - unat from_block)"
    by (simp add: word_less_nat_alt)
qed simp

declare fetch_shrinking.simps [simp del]

section \<open>One poll\<close>

record source_route =
  so_chain_key :: u64
  so_destination_chain_key :: b256
  so_creditcoin_chain_id :: u64
  so_outbox_override :: "address option"

text \<open>
  The outcome of handing one message to the pool: accepted, the task cancelled first (the select
  is biased), or the channel closed with the task cancelled meanwhile or not.
\<close>

datatype send_end = Accepted | CancelledFirst | ClosedCancelled | Closed

record scan_env =
  sv_node :: source_node
  sv_now :: instant
  sv_io :: "nat \<Rightarrow> io_faults"
  sv_send :: "nat \<Rightarrow> send_end"

record scan_state =
  sc_work :: "work_store option"
  sc_sent :: "indexed_message list"
  sc_indexed :: nat
  sc_progress :: nat

type_synonym discovery_cache = "(u64, address option) hash_map"
type_synonym member_cache = "(u64 \<times> address, bool) hash_map"

text \<open>
  Whether the Outbox of a log is authorized at the log's block, reading each (block) and each
  (block, Outbox) at most once.
\<close>

definition cached_authorization ::
  "source_abi \<Rightarrow> source_node \<Rightarrow> source_route \<Rightarrow> u64 \<Rightarrow> address \<Rightarrow> discovery_cache \<times> member_cache
    \<Rightarrow> (discovery_cache \<times> member_cache) \<times> (scan_error + bool)" where
  "cached_authorization A node source block outbox caches =
     (let (discoveries, memberships) = caches in
      case (case hm_get discoveries block of
              Some discovery \<Rightarrow> Inr (discoveries, discovery)
            | None \<Rightarrow> (case discovery_at A node (so_chain_key source) block of
                         Inl e \<Rightarrow> Inl e
                       | Inr discovery \<Rightarrow> Inr (hm_insert block discovery discoveries, discovery))) of
        Inl e \<Rightarrow> (caches, Inl e)
      | Inr (discoveries, None) \<Rightarrow> ((discoveries, memberships), Inr False)
      | Inr (discoveries, Some discovery) \<Rightarrow>
          (case hm_get memberships (block, outbox) of
             Some authorized \<Rightarrow> ((discoveries, memberships), Inr authorized)
           | None \<Rightarrow>
               (case authorized_at A node (so_chain_key source) discovery outbox block of
                  Inl e \<Rightarrow> ((discoveries, memberships), Inl e)
                | Inr authorized \<Rightarrow>
                    ((discoveries, hm_insert (block, outbox) authorized memberships), Inr authorized))))"

text \<open>\<^verbatim>\<open>Address::from_slice(&emitterAddress[..20])\<close>: the high twenty bytes of the word.\<close>

definition emitter_of :: "b256 \<Rightarrow> address" where
  "emitter_of w = ucast (drop_bit 96 w)"

definition to_indexed :: "source_route \<Rightarrow> address \<Rightarrow> u64 \<Rightarrow> b256 \<Rightarrow> published \<Rightarrow> indexed_message" where
  "to_indexed source outbox block_height tx_hash decoded =
     \<lparr>im_chain_key = so_chain_key source, im_message_id = pb_message_id decoded,
      im_emitter = emitter_of (pb_emitter_address decoded), im_outbox = outbox,
      im_sequence = pb_sequence decoded, im_destination_chain_key = so_destination_chain_key source,
      im_creditcoin_chain_id = so_creditcoin_chain_id source, im_payload = pb_payload decoded,
      im_tx_hash = tx_hash, im_block_height = block_height\<rparr>"

text \<open>How the body of the loop over the logs ends.\<close>

datatype log_end = NextLog | StopOk | StopErr scan_error

text \<open>The tail of the body, for an authorized log: decode, record, count, send.\<close>

definition index_log ::
  "source_abi \<Rightarrow> work_codec \<Rightarrow> source_route \<Rightarrow> scan_env \<Rightarrow> nat \<Rightarrow> src_log \<Rightarrow> u64 \<Rightarrow> scan_state \<Rightarrow> scan_state \<times> log_end" where
  "index_log A C source ev i l block_height st =
     (case sa_dec_published A (sl_topics l) (sl_data l) of
        None \<Rightarrow> (st, StopErr InvalidPublished)
      | Some decoded \<Rightarrow>
          (case sl_tx_hash l of
             None \<Rightarrow> (st, StopErr NoTransactionHash)
           | Some tx_hash \<Rightarrow>
               let indexed = to_indexed source (sl_address l) block_height tx_hash decoded;
                   (work, recorded) =
                     (case sc_work st of
                        None \<Rightarrow> (None, Inr ())
                      | Some w \<Rightarrow> (let (w', r) = work_record C (sv_io ev i) indexed w in (Some w', r)));
                   st1 = st\<lparr>sc_work := work\<rparr>
               in (case recorded of
                     Inl e \<Rightarrow> (st1, StopErr (RecordFailed e))
                   | Inr _ \<Rightarrow>
                       let st2 = st1\<lparr>sc_indexed := sc_indexed st1 + 1\<rparr>
                       in (case sv_send ev i of
                             CancelledFirst \<Rightarrow> (st2, StopOk)
                           | ClosedCancelled \<Rightarrow> (st2, StopOk)
                           | Closed \<Rightarrow> (st2, StopErr PoolChannelClosed)
                           | Accepted \<Rightarrow> (st2\<lparr>sc_sent := sc_sent st2 @ [indexed]\<rparr>, NextLog)))))"

definition scan_log ::
  "source_abi \<Rightarrow> work_codec \<Rightarrow> source_route \<Rightarrow> scan_env \<Rightarrow> u64 \<Rightarrow> u64 \<Rightarrow> nat \<Rightarrow> src_log
    \<Rightarrow> discovery_cache \<times> member_cache \<Rightarrow> scan_state
    \<Rightarrow> (discovery_cache \<times> member_cache) \<times> scan_state \<times> log_end" where
  "scan_log A C source ev from_block to_block i l caches st0 =
     (let st = st0\<lparr>sc_progress := sc_progress st0 + 1\<rparr> in
      case sl_block_number l of
        None \<Rightarrow> (caches, st, StopErr NoBlockNumber)
      | Some block_height \<Rightarrow>
          if \<not> (\<not> sl_removed l \<and> from_block \<le> block_height \<and> block_height \<le> to_block)
          then (caches, st, StopErr OutsideRange)
          else (case so_outbox_override source of
                  Some pinned \<Rightarrow>
                    if sl_address l \<noteq> pinned then (caches, st, StopErr OutsidePinnedOutbox)
                    else (caches, index_log A C source ev i l block_height st)
                | None \<Rightarrow>
                    (case cached_authorization A (sv_node ev) source block_height (sl_address l) caches of
                       (caches', Inl e) \<Rightarrow> (caches', st, StopErr e)
                     | (caches', Inr False) \<Rightarrow> (caches', st, NextLog)
                     | (caches', Inr True) \<Rightarrow> (caches', index_log A C source ev i l block_height st))))"

fun scan_logs ::
  "source_abi \<Rightarrow> work_codec \<Rightarrow> source_route \<Rightarrow> scan_env \<Rightarrow> u64 \<Rightarrow> u64 \<Rightarrow> nat \<Rightarrow> src_log list
    \<Rightarrow> discovery_cache \<times> member_cache \<Rightarrow> scan_state \<Rightarrow> scan_state \<times> log_end" where
  "scan_logs A C source ev from_block to_block i [] caches st = (st, NextLog)"
| "scan_logs A C source ev from_block to_block i (l # ls) caches st =
     (case scan_log A C source ev from_block to_block i l caches st of
        (caches', st', NextLog) \<Rightarrow> scan_logs A C source ev from_block to_block (i + 1) ls caches' st'
      | (caches', st', stop) \<Rightarrow> (st', stop))"

definition read_finalized_head :: "source_node \<Rightarrow> scan_error + u64" where
  "read_finalized_head node =
     (case answered (sn_finalized node) of
        Inl e \<Rightarrow> Inl e
      | Inr None \<Rightarrow> Inl (SourceFinality HeadUnavailable)
      | Inr (Some number) \<Rightarrow> Inr number)"

definition read_heads :: "finality_policy \<Rightarrow> source_node \<Rightarrow> scan_error + u64 option \<times> u64" where
  "read_heads policy node =
     (case policy of
        Finalized \<Rightarrow> (case read_finalized_head node of Inl e \<Rightarrow> Inl e | Inr f \<Rightarrow> Inr (Some f, 0))
      | Depth _ \<Rightarrow> (case answered (sn_tip node) of Inl e \<Rightarrow> Inl e | Inr tip \<Rightarrow> Inr (None, tip)))"

definition poll_once ::
  "source_abi \<Rightarrow> work_codec \<Rightarrow> source_route \<Rightarrow> finality_policy \<Rightarrow> scan_env \<Rightarrow> finality_tracker \<Rightarrow> u64 \<Rightarrow> scan_state
    \<Rightarrow> finality_tracker \<times> u64 \<times> scan_state \<times> (scan_error + unit)" where
  "poll_once A C source policy ev finality last_seen st =
     (case read_heads policy (sv_node ev) of
        Inl e \<Rightarrow> (finality, last_seen, st, Inl e)
      | Inr (finalized, tip) \<Rightarrow>
          (case pick_to_block finalized tip policy finality (sv_now ev) of
             (finality', Inl e) \<Rightarrow> (finality', last_seen, st, Inl (SourceFinality e))
           | (finality', Inr confirmed) \<Rightarrow>
               if confirmed \<le> last_seen then (finality', last_seen, st, Inr ())
               else
                 let from_block = last_seen + 1;
                     to_block = min confirmed (sat_add last_seen MAX_BLOCKS_PER_SCAN);
                     (n, fetched) = fetch_shrinking A (sv_node ev) (so_outbox_override source) from_block to_block 0;
                     st1 = st\<lparr>sc_progress := sc_progress st + n\<rparr>
                 in (case fetched of
                       Inl e \<Rightarrow> (finality', last_seen, st1, Inl e)
                     | Inr (to_block, logs) \<Rightarrow>
                         (case scan_logs A C source ev from_block to_block 0 logs ([], []) st1 of
                            (st2, NextLog) \<Rightarrow> (finality', to_block, st2, Inr ())
                          | (st2, StopOk) \<Rightarrow> (finality', last_seen, st2, Inr ())
                          | (st2, StopErr e) \<Rightarrow> (finality', last_seen, st2, Inl e)))))"

section \<open>The watcher\<close>

definition chain_key_to_bytes32 :: "u64 \<Rightarrow> b256" where
  "chain_key_to_bytes32 v = of_nat (be_nat (replicate 24 0 @ to_be_bytes 8 (unat v)))"

definition checkpoint_key :: "(address \<Rightarrow> string) \<Rightarrow> u64 \<Rightarrow> address option \<Rightarrow> string" where
  "checkpoint_key show_address chain_key outbox_override =
     (case outbox_override of
        Some a \<Rightarrow> ''outbox-pinned:'' @ decimal (unat chain_key) @ '':'' @ show_address a
      | None \<Rightarrow> ''outboxes:'' @ decimal (unat chain_key))"

definition resume_cursor :: "u64 option \<Rightarrow> bool \<Rightarrow> u64 option \<Rightarrow> u64 \<Rightarrow> u64" where
  "resume_cursor checkpoint durable_work start_block lookback =
     (case (if durable_work then checkpoint else None) of
        None \<Rightarrow> sat_sub (case start_block of None \<Rightarrow> 1 | Some b \<Rightarrow> b) 1
      | Some block \<Rightarrow> sat_sub block lookback)"

text \<open>The part of the route's configuration the watcher reads, and the scan lookback.\<close>

record watch_config =
  wc_chain_key :: u64
  wc_outbox_address :: "address option"
  wc_start_block :: "u64 option"
  wc_lookback :: u64

record watcher =
  wt_last_seen :: u64
  wt_finality :: finality_tracker
  wt_rpc :: "unit reconnecting"
  wt_checkpoint :: "checkpoint_store option"
  wt_scan :: scan_state
  wt_beats :: nat
  wt_errors :: nat
  wt_write_failures :: nat

record start_env =
  sx_dial :: "unit option"
  sx_chain_id :: "u64 reply"
  sx_io :: io_faults
  sx_now :: instant

definition watch_start ::
  "(address \<Rightarrow> string) \<Rightarrow> watch_config \<Rightarrow> start_env \<Rightarrow> checkpoint_store option \<Rightarrow> work_store option
    \<Rightarrow> work_store option \<times> (scan_error + source_route \<times> watcher)" where
  "watch_start sa cfg ev checkpoint work =
     (if (checkpoint \<noteq> None) \<noteq> (work \<noteq> None) then (work, Inl PersistenceMismatch)
      else if wc_outbox_address cfg = None \<and> isl (registry_chain_key (wc_chain_key cfg))
      then (work, Inl ChainKeyTooLarge)
      else if wc_outbox_address cfg = Some 0 then (work, Inl ZeroOutbox)
      else
        let key = checkpoint_key sa (wc_chain_key cfg) (wc_outbox_address cfg);
            (rpc, provider) = rpc_connect (sx_dial ev) reconnecting_new
        in if provider = None then (work, Inl ConnectFailed)
        else (case answered (sx_chain_id ev) of
                Inl e \<Rightarrow> (work, Inl e)
              | Inr creditcoin_chain_id \<Rightarrow>
                  let source = \<lparr>so_chain_key = wc_chain_key cfg,
                        so_destination_chain_key = chain_key_to_bytes32 (wc_chain_key cfg),
                        so_creditcoin_chain_id = creditcoin_chain_id, so_outbox_override = wc_outbox_address cfg\<rparr>;
                      persisted = Option.bind checkpoint (cp_get key);
                      durable_work = (case checkpoint of None \<Rightarrow> False | Some c \<Rightarrow> has_durable_work key c);
                      (work', prepared) =
                        (case work of
                           None \<Rightarrow> (None, Inr ())
                         | Some w \<Rightarrow> let (w', r) = prepare_route (sx_io ev) (wc_chain_key cfg) durable_work w in (Some w', r))
                  in (case prepared of
                        Inl e \<Rightarrow> (work', Inl (RecordFailed e))
                      | Inr _ \<Rightarrow>
                          (work', Inr (source,
                            \<lparr>wt_last_seen = resume_cursor persisted durable_work (wc_start_block cfg) (wc_lookback cfg),
                             wt_finality = tracker_new (sx_now ev), wt_rpc = rpc, wt_checkpoint = checkpoint,
                             wt_scan = \<lparr>sc_work = work', sc_sent = [], sc_indexed = 0, sc_progress = 0\<rparr>,
                             wt_beats = 1, wt_errors = 0, wt_write_failures = 0\<rparr>)))))"

record tick_env =
  tk_dial :: "unit option"
  tk_scan :: scan_env
  tk_fault :: write_fault

definition save_cursor :: "cp_codec \<Rightarrow> write_fault \<Rightarrow> string \<Rightarrow> watcher \<Rightarrow> watcher" where
  "save_cursor K fault key w =
     (case wt_checkpoint w of
        None \<Rightarrow> w
      | Some cp \<Rightarrow>
          let (cp', ok) = (if sc_work (wt_scan w) \<noteq> None then set_journaled K fault key (wt_last_seen w) None cp
                           else cp_set K fault key (wt_last_seen w) cp)
          in w\<lparr>wt_checkpoint := Some cp',
               wt_write_failures := wt_write_failures w + (if ok then 0 else 1)\<rparr>)"

definition watch_tick ::
  "source_abi \<Rightarrow> work_codec \<Rightarrow> cp_codec \<Rightarrow> string \<Rightarrow> source_route \<Rightarrow> tick_env \<Rightarrow> watcher \<Rightarrow> watcher" where
  "watch_tick A C K key source ev w =
     (let (rpc, provider) = rpc_connect (tk_dial ev) (wt_rpc w);
          (finality, last_seen, st, res) =
            (if provider = None then (wt_finality w, wt_last_seen w, wt_scan w, Inl ConnectFailed)
             else poll_once A C source Finalized (tk_scan ev) (wt_finality w) (wt_last_seen w) (wt_scan w));
          w1 = w\<lparr>wt_rpc := rpc, wt_finality := finality, wt_last_seen := last_seen, wt_scan := st\<rparr>
      in (case res of
            Inr _ \<Rightarrow> save_cursor K (tk_fault ev) key
                      (w1\<lparr>wt_rpc := note_ok rpc, wt_beats := wt_beats w + 1\<rparr>)
          | Inl _ \<Rightarrow> w1\<lparr>wt_rpc := fst (note_err rpc), wt_errors := wt_errors w + 1\<rparr>))"

end
