(* ===== verification/Scanner_System.thy ===== *)
theory Scanner_System
  imports Scanner_Correct
begin

text \<open>
  The watcher of one route with its durable state, as a transition system: polls against truthful
  nodes with any fault, completions by the rest of the relayer, cursors other workers save in the
  same checkpoint file, crashes and restarts.
\<close>

section \<open>Coverage\<close>

definition route_of :: "watch_config \<Rightarrow> u64 \<Rightarrow> source_route" where
  "route_of cfg chain_id = \<lparr>so_chain_key = wc_chain_key cfg,
     so_destination_chain_key = chain_key_to_bytes32 (wc_chain_key cfg),
     so_creditcoin_chain_id = chain_id, so_outbox_override = wc_outbox_address cfg\<rparr>"

definition key_of :: "(address \<Rightarrow> string) \<Rightarrow> watch_config \<Rightarrow> string" where
  "key_of sa cfg = checkpoint_key sa (wc_chain_key cfg) (wc_outbox_address cfg)"

definition first_cursor :: "watch_config \<Rightarrow> u64" where
  "first_cursor cfg = sat_sub (case wc_start_block cfg of None \<Rightarrow> 1 | Some b \<Rightarrow> b) 1"

text \<open>A log of the history that must be relayed: the event, from an Outbox authorized at its block.\<close>

definition relevant :: "source_abi \<Rightarrow> source_world \<Rightarrow> watch_config \<Rightarrow> u64 \<Rightarrow> src_log \<Rightarrow> bool" where
  "relevant A world cfg b l \<longleftrightarrow> l \<in> set (sw_logs world b) \<and> wanted A (wc_outbox_address cfg) l
     \<and> authorization A (world_node world) (route_of cfg 0) b (sl_address l) = Inr True"

definition covered :: "source_abi \<Rightarrow> source_world \<Rightarrow> watch_config \<Rightarrow> u64 \<Rightarrow> b256 set \<Rightarrow> bool" where
  "covered A world cfg bound got \<longleftrightarrow>
     (\<forall>b l. first_cursor cfg < b \<and> b \<le> bound \<and> relevant A world cfg b l \<longrightarrow>
        (\<exists>d. sa_dec_published A (sl_topics l) (sl_data l) = Some d \<and> pb_message_id d \<in> got))"

definition world_ok :: "source_world \<Rightarrow> bool" where
  "world_ok world \<longleftrightarrow> (\<forall>b. \<forall>l \<in> set (sw_logs world b). sl_block_number l = Some b)"

lemma covered_mono: "covered A world cfg n got \<Longrightarrow> m \<le> n \<Longrightarrow> got \<subseteq> got' \<Longrightarrow> covered A world cfg m got'"
  unfolding covered_def by (meson order_trans subsetD)

lemma covered_first: "covered A world cfg (first_cursor cfg) got"
  by (auto simp: covered_def)

lemma route_fields [simp]:
  "so_chain_key (route_of cfg i) = wc_chain_key cfg" "so_outbox_override (route_of cfg i) = wc_outbox_address cfg"
  by (simp_all add: route_of_def)

lemma authorization_route:
  "authorization A node (route_of cfg i) b ob = authorization A node (route_of cfg 0) b ob"
  unfolding authorization_def route_fields by (rule refl)

text \<open>A poll that moves the cursor extends the coverage to it.\<close>

lemma scanned_covered:
  assumes "world_ok world" and "truthful A world (wc_chain_key cfg) node"
    and "scanned_to A (route_of cfg i) node last_seen to_block st' ms" and "last_seen < to_block"
    and "sc_work st' = Some ws" and "covered A world cfg last_seen (contents (wc_chain_key cfg) ws \<union> got)"
  shows "covered A world cfg to_block (contents (wc_chain_key cfg) ws \<union> got)"
  unfolding covered_def
proof (intro allI impI)
  fix b l
  assume a: "first_cursor cfg < b \<and> b \<le> to_block \<and> relevant A world cfg b l"
  let ?src = "route_of cfg i"
  show "\<exists>d. sa_dec_published A (sl_topics l) (sl_data l) = Some d \<and> pb_message_id d \<in> contents (wc_chain_key cfg) ws \<union> got"
  proof (cases "b \<le> last_seen")
    case True
    with a assms(6) show ?thesis by (auto simp: covered_def)
  next
    case False
    then have range: "last_seen + 1 \<le> b" using assms(4) by (simp add: succ_le_less)
    from assms(3) obtain j logs where f: "fetch_message_logs A node (last_seen + 1) to_block (wc_outbox_address cfg) = (j, Inr logs)"
      and s: "\<forall>l \<in> set logs. settles_log A node ?src (last_seen + 1) to_block st' ms l"
      by (auto simp: scanned_to_def route_of_def)
    have log: "l \<in> set logs"
      using fetch_complete [OF assms(2) f range] a by (simp add: relevant_def)
    have auth: "authorization A (world_node world) ?src b (sl_address l) = Inr True"
      using a by (simp add: relevant_def authorization_route [of _ _ _ i])
    have num: "sl_block_number l = Some b" using assms(1) a by (auto simp: world_ok_def relevant_def)
    have "\<not> out_of_scope A node ?src (last_seen + 1) to_block l"
      using authorization_world [of A world ?src node b "sl_address l" False] assms(2) auth num
      by (auto simp: out_of_scope_def route_of_def)
    with s log assms(5) obtain m where "log_message A ?src l = Some m" "im_message_id m \<in> contents (wc_chain_key cfg) ws"
      by (auto simp: settles_log_def scan_held_def route_of_def)
    then show ?thesis by (auto simp: log_message_def to_indexed_def split: option.splits)
  qed
qed

section \<open>The transition system\<close>

datatype scanner_sys =
    Down "cp_file files" work_store "b256 set"
  | Up source_route watcher "b256 set"

inductive scanner_step ::
  "source_abi \<Rightarrow> work_codec \<Rightarrow> cp_codec \<Rightarrow> (address \<Rightarrow> string) \<Rightarrow> watch_config \<Rightarrow> source_world
    \<Rightarrow> scanner_sys \<Rightarrow> unit \<Rightarrow> scanner_sys \<Rightarrow> bool"
  for A C K sa cfg world where
  tick: "truthful A world (wc_chain_key cfg) (sv_node (tk_scan ev)) \<Longrightarrow>
    scanner_step A C K sa cfg world (Up src w got) () (Up src (watch_tick A C K (key_of sa cfg) src ev w) got)"
| completed: "sc_work (wt_scan w) = Some ws \<Longrightarrow> work_complete io (wc_chain_key cfg) mid ws = (ws', r) \<Longrightarrow>
    scanner_step A C K sa cfg world (Up src w got) ()
      (Up src (w\<lparr>wt_scan := (wt_scan w)\<lparr>sc_work := Some ws'\<rparr>\<rparr>) (Set.insert mid got))"
| other_cursor: "wt_checkpoint w = Some cs \<Longrightarrow> key' \<noteq> key_of sa cfg \<Longrightarrow> persist_entry K fault key' e cs = (cs', ok) \<Longrightarrow>
    scanner_step A C K sa cfg world (Up src w got) () (Up src (w\<lparr>wt_checkpoint := Some cs'\<rparr>) got)"
| crash: "wt_checkpoint w = Some cs \<Longrightarrow> sc_work (wt_scan w) = Some ws \<Longrightarrow>
    scanner_step A C K sa cfg world (Up src w got) () (Down (cs_files cs) (work_restart ws) got)"
| starts: "cp_load K readable files = Inr cs \<Longrightarrow>
    watch_start sa cfg ev (Some cs) (Some ws) = (Some ws', Inr (src, w)) \<Longrightarrow>
    scanner_step A C K sa cfg world (Down files ws got) () (Up src w got)"
| start_fails: "cp_load K readable files = Inr cs \<Longrightarrow>
    watch_start sa cfg ev (Some cs) (Some ws) = (Some ws', Inl err) \<Longrightarrow>
    scanner_step A C K sa cfg world (Down files ws got) () (Down files ws' got)"

inductive_cases scanner_step_E: "scanner_step A C K sa cfg world s e t"

definition cursor_covered ::
  "source_abi \<Rightarrow> source_world \<Rightarrow> watch_config \<Rightarrow> string \<Rightarrow> checkpoint_store \<Rightarrow> b256 set \<Rightarrow> bool" where
  "cursor_covered A world cfg key cs got \<longleftrightarrow>
     (\<forall>n. has_durable_work key cs \<and> cp_get key cs = Some n \<longrightarrow> covered A world cfg n got)"

definition scanner_starts ::
  "cp_codec \<Rightarrow> (address \<Rightarrow> string) \<Rightarrow> watch_config \<Rightarrow> source_world \<Rightarrow> scanner_sys \<Rightarrow> bool" where
  "scanner_starts K sa cfg world s \<longleftrightarrow> codec_ok K \<and> world_ok world \<and>
     (\<exists>cs ws. s = Down (cs_files cs) ws {} \<and> cs_synced K cs \<and> \<not> has_durable_work (key_of sa cfg) cs \<and> store_ok ws)"

fun scanner_inv ::
  "source_abi \<Rightarrow> cp_codec \<Rightarrow> (address \<Rightarrow> string) \<Rightarrow> watch_config \<Rightarrow> source_world \<Rightarrow> scanner_sys \<Rightarrow> bool" where
  "scanner_inv A K sa cfg world (Down files ws got) \<longleftrightarrow> codec_ok K \<and> world_ok world \<and> store_ok ws \<and>
     (\<exists>cs. files = cs_files cs \<and> cs_synced K cs
        \<and> cursor_covered A world cfg (key_of sa cfg) cs (contents (wc_chain_key cfg) ws \<union> got))"
| "scanner_inv A K sa cfg world (Up src w got) \<longleftrightarrow> codec_ok K \<and> world_ok world \<and>
     (\<exists>cs ws i. src = route_of cfg i \<and> wt_checkpoint w = Some cs \<and> sc_work (wt_scan w) = Some ws \<and> store_ok ws \<and> cs_synced K cs
        \<and> cursor_covered A world cfg (key_of sa cfg) cs (contents (wc_chain_key cfg) ws \<union> got)
        \<and> covered A world cfg (wt_last_seen w) (contents (wc_chain_key cfg) ws \<union> got))"

section \<open>The invariant\<close>

lemma cursor_covered_persist:
  assumes "cursor_covered A world cfg key cs got" and "persist_entry K fault key' e cs = (cs', ok)"
    and "key' = key \<longrightarrow> covered A world cfg (ce_block e) got"
  shows "cursor_covered A world cfg key cs' got"
  using assms(1,3) persist_entry_lookup [OF assms(2), of key]
  by (auto simp: cursor_covered_def has_durable_work_def cp_get_def split: option.splits if_splits)

lemma cursor_covered_mono:
  "cursor_covered A world cfg key cs got \<Longrightarrow> got \<subseteq> got' \<Longrightarrow> cursor_covered A world cfg key cs got'"
  unfolding cursor_covered_def by (meson covered_mono order_refl)

lemma save_cursor_spec:
  assumes "wt_checkpoint w = Some cs" and "sc_work (wt_scan w) = Some ws" and "cs_synced K cs"
    and "cursor_covered A world cfg key cs got" and "covered A world cfg (wt_last_seen w) got"
  shows "\<exists>cs'. wt_checkpoint (save_cursor K fault key w) = Some cs' \<and> cs_synced K cs' \<and> cursor_covered A world cfg key cs' got
    \<and> wt_scan (save_cursor K fault key w) = wt_scan w \<and> wt_last_seen (save_cursor K fault key w) = wt_last_seen w"
proof -
  let ?e = "\<lparr>ce_block = wt_last_seen w, ce_outbox = None, ce_durable_work = True\<rparr>"
  obtain cs' ok where p: "persist_entry K fault key ?e cs = (cs', ok)" by force
  have "cs_synced K cs'" using persist_entry_synced [OF assms(3), of fault key ?e] p by simp
  moreover have "cursor_covered A world cfg key cs' got" using cursor_covered_persist [OF assms(4) p] assms(5) by simp
  ultimately show ?thesis using assms(1,2) p by (simp add: save_cursor_def set_journaled_def)
qed

lemma watch_tick_inv:
  assumes "scanner_inv A K sa cfg world (Up src w got)" and "truthful A world (wc_chain_key cfg) (sv_node (tk_scan ev))"
  shows "scanner_inv A K sa cfg world (Up src (watch_tick A C K (key_of sa cfg) src ev w) got)"
proof -
  let ?ck = "wc_chain_key cfg" and ?key = "key_of sa cfg"
  from assms(1) obtain cs ws i where src: "src = route_of cfg i" and w: "wt_checkpoint w = Some cs" "sc_work (wt_scan w) = Some ws"
    "store_ok ws" "cs_synced K cs" and cov: "cursor_covered A world cfg ?key cs (contents ?ck ws \<union> got)"
    "covered A world cfg (wt_last_seen w) (contents ?ck ws \<union> got)" and K: "codec_ok K" "world_ok world" by auto
  obtain rpc p where rpc: "rpc_connect (tk_dial ev) (wt_rpc w) = (rpc, p)" by force
  obtain fin last' st' res where poll: "(if p = None then (wt_finality w, wt_last_seen w, wt_scan w, Inl ConnectFailed)
      else poll_once A C src Finalized (tk_scan ev) (wt_finality w) (wt_last_seen w) (wt_scan w)) = (fin, last', st', res)"
    by (rule prod_cases4)
  have ok: "scan_ok (wt_scan w)" using w by (simp add: scan_ok_def)
  have step: "scan_grows (wt_scan w) st' \<and> (last' = wt_last_seen w \<or> wt_last_seen w < last' \<and>
      (\<exists>ms. scanned_to A src (sv_node (tk_scan ev)) (wt_last_seen w) last' st' ms))"
  proof (cases "p = None")
    case True
    with poll ok show ?thesis by simp
  next
    case False
    with poll have "poll_once A C src Finalized (tk_scan ev) (wt_finality w) (wt_last_seen w) (wt_scan w) = (fin, last', st', res)"
      by simp
    from poll_once_spec [OF ok this] show ?thesis by blast
  qed
  then obtain ws' where ws': "sc_work st' = Some ws'" "store_ok ws'" "contents ?ck ws \<subseteq> contents ?ck ws'"
    using w by (auto simp: scan_grows_def scan_ok_def scan_held_def split: option.splits)
  let ?got = "contents ?ck ws' \<union> got"
  have cov': "cursor_covered A world cfg ?key cs ?got" "covered A world cfg (wt_last_seen w) ?got"
    using cov ws'(3) by (auto intro: cursor_covered_mono covered_mono)
  have new: "covered A world cfg last' ?got"
    using step scanned_covered [OF K(2) assms(2) _ _ ws'(1) cov'(2)] cov'(2) src by blast
  define w1 where "w1 = w\<lparr>wt_rpc := rpc, wt_finality := fin, wt_last_seen := last', wt_scan := st'\<rparr>"
  define w2 where "w2 = w1\<lparr>wt_rpc := note_ok rpc, wt_beats := wt_beats w + 1\<rparr>"
  have tick: "watch_tick A C K ?key src ev w = (case res of Inr _ \<Rightarrow> save_cursor K (tk_fault ev) ?key w2
      | Inl _ \<Rightarrow> w1\<lparr>wt_rpc := fst (note_err rpc), wt_errors := wt_errors w + 1\<rparr>)"
    using rpc poll by (cases res) (simp_all add: watch_tick_def w1_def w2_def Let_def)
  have f: "wt_checkpoint w2 = Some cs" "sc_work (wt_scan w2) = Some ws'" "wt_last_seen w2 = last'" "wt_scan w2 = st'"
    using w ws' by (simp_all add: w1_def w2_def)
  show ?thesis
  proof (cases res)
    case (Inl e)
    with tick new cov' ws' w src K show ?thesis by (auto simp: w1_def)
  next
    case (Inr u)
    from save_cursor_spec [OF f(1,2) w(4) cov'(1), of "tk_fault ev"] new f obtain cs' where
      "wt_checkpoint (save_cursor K (tk_fault ev) ?key w2) = Some cs'" "cs_synced K cs'"
      "cursor_covered A world cfg ?key cs' ?got" "wt_scan (save_cursor K (tk_fault ev) ?key w2) = st'"
      "wt_last_seen (save_cursor K (tk_fault ev) ?key w2) = last'" by auto
    with Inr tick new ws' src K show ?thesis by auto
  qed
qed

lemma prepare_route_frame:
  assumes "prepare_route io ck resuming ws = (ws', r)" and "store_ok ws"
  shows "store_ok ws'" and "contents k ws' = contents k ws"
proof -
  have same: "dir_of k' (ws\<lparr>ws_dirs := hm_insert ck [] (ws_dirs ws)\<rparr>) = dir_of k' ws" if "map_of (ws_dirs ws) ck = None" for k'
    using that by (simp add: dir_of_def update_conv')
  have "ws' = ws \<or> map_of (ws_dirs ws) ck = None \<and> ws' = ws\<lparr>ws_dirs := hm_insert ck [] (ws_dirs ws)\<rparr>"
    using assms(1) by (auto simp: prepare_route_def split: if_splits)
  then show "store_ok ws'" and "contents k ws' = contents k ws"
    using assms(2) by (elim disjE conjE; simp add: store_ok_def contents_def same hash.invar_insert)+
qed

lemma watch_start_spec:
  assumes "watch_start sa cfg ev (Some cs) (Some ws) = (Some ws', r)" and "store_ok ws"
  shows "store_ok ws'" and "contents k ws' = contents k ws"
    and "r = Inr (src, w) \<Longrightarrow> (\<exists>i. src = route_of cfg i) \<and> wt_checkpoint w = Some cs \<and> sc_work (wt_scan w) = Some ws'
      \<and> wt_last_seen w = resume_cursor (cp_get (key_of sa cfg) cs) (has_durable_work (key_of sa cfg) cs) (wc_start_block cfg) (wc_lookback cfg)"
proof -
  let ?key = "key_of sa cfg"
  obtain wsp rp where p: "prepare_route (sx_io ev) (wc_chain_key cfg) (has_durable_work ?key cs) ws = (wsp, rp)" by force
  obtain rpc prov where c: "rpc_connect (sx_dial ev) (reconnecting_new :: unit reconnecting) = (rpc, prov)" by force
  have "ws' = ws \<or> ws' = wsp"
    using assms(1) p c by (auto simp: watch_start_def Let_def key_of_def split: if_splits sum.splits)
  then show "store_ok ws'" and "contents k ws' = contents k ws"
    using prepare_route_frame [OF p assms(2)] assms(2) by (elim disjE; simp)+
  show "(\<exists>i. src = route_of cfg i) \<and> wt_checkpoint w = Some cs \<and> sc_work (wt_scan w) = Some ws'
      \<and> wt_last_seen w = resume_cursor (cp_get ?key cs) (has_durable_work ?key cs) (wc_start_block cfg) (wc_lookback cfg)"
    if "r = Inr (src, w)"
    using assms(1) that p c
    by (auto simp: watch_start_def Let_def key_of_def route_of_def split: if_splits sum.splits)
qed

text \<open>The cursor a start resumes from is covered.\<close>

lemma resume_covered:
  assumes "cursor_covered A world cfg key cs got"
  shows "covered A world cfg (resume_cursor (cp_get key cs) (has_durable_work key cs) (wc_start_block cfg) (wc_lookback cfg)) got"
proof (cases "has_durable_work key cs")
  case True
  then obtain n where n: "cp_get key cs = Some n"
    by (auto simp: has_durable_work_def cp_get_def split: option.splits)
  with True assms have "covered A world cfg n got" by (simp add: cursor_covered_def)
  with True n show ?thesis using covered_mono [OF _ sat_sub_le order_refl] by (simp add: resume_cursor_def)
next
  case False
  then show ?thesis using covered_first [of A world cfg got] by (simp add: resume_cursor_def first_cursor_def)
qed

lemma cursor_covered_cong:
  "map_of (cs_inner a) = map_of (cs_inner b) \<Longrightarrow> cursor_covered A world cfg key a got = cursor_covered A world cfg key b got"
  by (simp add: cursor_covered_def cp_lookups_cong [of a b])

interpretation scanner: invariant_system
  "scanner_starts K sa cfg world" "scanner_step A C K sa cfg world" "scanner_inv A K sa cfg world" for A C K sa cfg world
proof unfold_locales
  fix s
  assume "scanner_starts K sa cfg world s"
  then show "scanner_inv A K sa cfg world s" by (auto simp: scanner_starts_def cursor_covered_def)
next
  fix s e t
  assume inv: "scanner_inv A K sa cfg world s" and "scanner_step A C K sa cfg world s e t"
  from this(2) show "scanner_inv A K sa cfg world t"
  proof cases
    case (tick ev src w got)
    with inv watch_tick_inv [of A K sa cfg world src w got ev C] show ?thesis by simp
  next
    case (completed w ws io mid ws' r src got)
    let ?ck = "wc_chain_key cfg"
    from inv completed have ok: "store_ok ws" by auto
    from work.complete_held [OF ok completed(5), of ?ck] have "store_ok ws'" "contents ?ck ws \<union> got \<subseteq> contents ?ck ws' \<union> Set.insert mid got"
      by (auto split: if_splits)
    with inv completed show ?thesis
      by (auto intro: cursor_covered_mono covered_mono)
  next
    case (other_cursor w cs key' fault e cs' ok src got)
    from inv other_cursor have "cs_synced K cs'" using persist_entry_synced [of K cs fault key' e] by auto
    moreover from inv other_cursor have "cursor_covered A world cfg (key_of sa cfg) cs (contents (wc_chain_key cfg) (the (sc_work (wt_scan w))) \<union> got)"
      by auto
    from cursor_covered_persist [OF this other_cursor(6)] other_cursor(5)
    have "cursor_covered A world cfg (key_of sa cfg) cs' (contents (wc_chain_key cfg) (the (sc_work (wt_scan w))) \<union> got)" by simp
    ultimately show ?thesis using inv other_cursor by auto
  next
    case (crash w cs ws src got)
    with inv work_restart_ok [of ws] show ?thesis by (auto simp: work_restart_def)
  next
    case (starts readable files cs ev ws ws' src w got)
    from inv starts obtain cs0 where cs0: "files = cs_files cs0" "cs_synced K cs0" "codec_ok K" "store_ok ws"
      "cursor_covered A world cfg (key_of sa cfg) cs0 (contents (wc_chain_key cfg) ws \<union> got)" by auto
    note l = load_keeps [OF cs0(3,2) starts(4) [unfolded cs0(1)]]
    note s = watch_start_spec [OF starts(5) cs0(4)]
    have "cursor_covered A world cfg (key_of sa cfg) cs (contents (wc_chain_key cfg) ws' \<union> got)"
      using cs0(5) cursor_covered_cong [OF l(1)] s(2) by simp
    with resume_covered [OF this] s(1) s(3) [OF refl] l(2) inv starts show ?thesis by auto
  next
    case (start_fails readable files cs ev ws ws' err got)
    from inv start_fails have "store_ok ws" by auto
    note s = watch_start_spec(1,2) [OF start_fails(5) this]
    with inv start_fails show ?thesis by auto
  qed
qed

end
