(* ===== verification/Settlement.thy ===== *)
theory Settlement
  imports Scanner Pending
begin

text \<open>
  What the two proof submitters share (\<^verbatim>\<open>claim/mod.rs\<close> and \<^verbatim>\<open>ack/mod.rs\<close>): a scan that queues the
  transactions of a chain's events, a queue whose oldest block holds the persisted cursor back, and
  a process that may crash and restart. The obligation each meets is proved once, in a locale, for
  any worker that keeps the laws.
\<close>

section \<open>The held-back cursor\<close>

definition held_back :: "u64 \<Rightarrow> 'm pending_txs \<Rightarrow> u64" where
  "held_back last_seen pending =
     (case oldest_pending_block pending of None \<Rightarrow> last_seen | Some b \<Rightarrow> min last_seen (sat_sub b 1))"

section \<open>The scanned chain\<close>

text \<open>The matching events of the scanned chain, block by block, and what a truthful node returns of them.\<close>

type_synonym client_world = "u64 \<Rightarrow> src_log list"

definition due :: "(src_log \<Rightarrow> bool) \<Rightarrow> client_world \<Rightarrow> u64 \<Rightarrow> b256 \<Rightarrow> bool" where
  "due relevant world b tx \<longleftrightarrow> (\<exists>l \<in> set (world b). sl_tx_hash l = Some tx \<and> relevant l)"

definition client_world_ok :: "client_world \<Rightarrow> bool" where
  "client_world_ok world \<longleftrightarrow>
     (\<forall>b. \<forall>l \<in> set (world b). sl_block_number l = None \<or> sl_block_number l = Some b)
     \<and> (\<forall>b b'. \<forall>l \<in> set (world b). \<forall>l' \<in> set (world b'). sl_tx_hash l \<noteq> None \<and> sl_tx_hash l = sl_tx_hash l' \<longrightarrow> b = b')"

definition client_truthful :: "client_world \<Rightarrow> (u64 \<Rightarrow> u64 \<Rightarrow> string + src_log list) \<Rightarrow> bool" where
  "client_truthful world get_logs \<longleftrightarrow>
     (\<forall>from_block to_block ls. get_logs from_block to_block = Inr ls \<longrightarrow>
        (\<forall>b. from_block \<le> b \<and> b \<le> to_block \<longrightarrow> set (world b) \<subseteq> set ls)
        \<and> (\<forall>l \<in> set ls. \<exists>b. from_block \<le> b \<and> b \<le> to_block \<and> l \<in> set (world b)))"

text \<open>A queued transaction's block is not above the block its events are in.\<close>

definition queue_blocks :: "client_world \<Rightarrow> 'm pending_txs \<Rightarrow> bool" where
  "queue_blocks world q \<longleftrightarrow> (\<forall>(tx, e) \<in> set (pq_seen q). \<exists>b. \<exists>l \<in> set (world b). sl_tx_hash l = Some tx \<and> pt_block e \<le> b)"

lemma queue_blocks_blocks:
  assumes "queue_blocks world q" and "\<And>tx e. (tx, e) \<in> set (pq_seen q') \<Longrightarrow> \<exists>e'. (tx, e') \<in> set (pq_seen q) \<and> pt_block e' = pt_block e"
  shows "queue_blocks world q'"
  using assms unfolding queue_blocks_def by fastforce

lemma hm_modify_set: "(k', v) \<in> set (hm_modify k f m) \<longleftrightarrow> (\<exists>w. (k', w) \<in> set m \<and> v = (if k' = k then f w else w))"
  by (induction m) (auto simp: hm_modify_def)

lemma queue_blocks_modify:
  assumes "queue_blocks world q" and "\<And>e. pt_block (f e) = pt_block e"
  shows "queue_blocks world (q\<lparr>pq_seen := hm_modify tx f (pq_seen q)\<rparr>)"
  using assms(1) by (rule queue_blocks_blocks) (auto simp: hm_modify_set assms(2) split: if_splits)

lemma queue_blocks_ops:
  assumes "queue_blocks world q"
  shows "queue_blocks world (note_meta tx item q)" "queue_blocks world (pending_defer tx until q)"
    "queue_blocks world (fst (record_transient_failure tx now q))" "queue_blocks world (pending_remove tx q)"
proof -
  show "queue_blocks world (note_meta tx item q)"
    unfolding note_meta_def using assms by (rule queue_blocks_modify) simp
  show "queue_blocks world (pending_defer tx until q)"
    unfolding pending_defer_def using assms by (rule queue_blocks_modify) simp
  show "queue_blocks world (fst (record_transient_failure tx now q))"
    using assms queue_blocks_modify [OF assms] by (auto simp: record_transient_failure_def Let_def split: option.splits)
  show "queue_blocks world (pending_remove tx q)"
    using assms by (rule queue_blocks_blocks) (auto simp: pending_remove_def set_delete_sub)
qed

lemma pending_contains_ops [simp]:
  "pending_contains x (note_meta tx item q) = pending_contains x q"
  "pending_contains x (pending_defer tx until q) = pending_contains x q"
  "pending_contains x (fst (record_transient_failure tx now q)) = pending_contains x q"
  "pending_contains x (pending_remove tx q) \<longleftrightarrow> pending_contains x q \<and> x \<noteq> tx"
  by (auto simp: pending_contains_def note_meta_def pending_defer_def record_transient_failure_def pending_remove_def
      Let_def hm_set_remove hm_keys_modify simp del: set_map split: option.splits)

lemma pending_age_ops [simp]:
  "pending_age x t (pending_defer tx until q) = pending_age x t q"
  "pending_age x t (fst (record_transient_failure tx now q)) = pending_age x t q"
  "pending_age x t (pending_remove tx q) = (if x = tx then None else pending_age x t q)"
  by (auto simp: pending_age_def pending_defer_def record_transient_failure_def pending_remove_def hm_get_modify
      delete_conv' Let_def option.map_comp comp_def split: option.splits)

lemma seen_insert_sub: "bs_set (seen_insert tx s) \<subseteq> Set.insert tx (bs_set s)"
  by (auto simp: seen_insert_def Let_def split: list.splits if_splits)

text \<open>The held-back cursor stays below the block of every queued transaction.\<close>

lemma held_back_below:
  assumes "queue_blocks world q" and "client_world_ok world" and "due rel world b tx" and "pending_contains tx q" and "0 < b"
  shows "held_back n q < b"
proof -
  from assms(4) obtain e where e: "(tx, e) \<in> set (pq_seen q)" by (auto simp: pending_contains_def)
  with assms(1) obtain b' l where l: "l \<in> set (world b')" "sl_tx_hash l = Some tx" "pt_block e \<le> b'"
    by (auto simp: queue_blocks_def)
  from assms(3) obtain l' where l': "l' \<in> set (world b)" "sl_tx_hash l' = Some tx" by (auto simp: due_def)
  have b: "b' = b" using assms(2) l l' unfolding client_world_ok_def by (metis option.discI)
  from e have "pq_seen q \<noteq> []" by auto
  then obtain o' where o': "oldest_pending_block q = Some o'" using oldest_pending_block_min(2) [of q] by (cases "oldest_pending_block q") auto
  from oldest_pending_block_min(1) [OF o'] e have "o' \<le> pt_block e" by force
  with l(3) b have "o' \<le> b" by simp
  then have "sat_sub o' 1 < b" using assms(5) by (simp add: word_less_nat_alt word_le_nat_alt unat_sat_sub)
  with o' show ?thesis by (simp add: held_back_def min_less_iff_disj)
qed

lemma held_back_le: "held_back n q \<le> n"
  by (simp add: held_back_def split: option.splits)

section \<open>Obligations\<close>

definition owed_in :: "(u64 \<Rightarrow> b256 \<Rightarrow> bool) \<Rightarrow> u64 \<Rightarrow> u64 \<Rightarrow> b256 set \<Rightarrow> bool" where
  "owed_in owed base n got \<longleftrightarrow> (\<forall>b tx. base < b \<and> b \<le> n \<and> owed b tx \<longrightarrow> tx \<in> got)"

definition disk_ok :: "(u64 \<Rightarrow> b256 \<Rightarrow> bool) \<Rightarrow> u64 \<Rightarrow> string \<Rightarrow> checkpoint_store \<Rightarrow> b256 set \<Rightarrow> bool" where
  "disk_ok owed base key cs got \<longleftrightarrow> (\<forall>n. cp_get key cs = Some n \<longrightarrow> owed_in owed base n got)"

lemma owed_in_mono: "owed_in owed base n got \<Longrightarrow> m \<le> n \<Longrightarrow> got \<subseteq> got' \<Longrightarrow> owed_in owed base m got'"
  unfolding owed_in_def by (meson order_trans subsetD)

lemma owed_in_base: "owed_in owed base base got"
  by (auto simp: owed_in_def)

lemma disk_ok_mono: "disk_ok owed base key cs got \<Longrightarrow> got \<subseteq> got' \<Longrightarrow> disk_ok owed base key cs got'"
  unfolding disk_ok_def by (meson owed_in_mono order_refl)

lemma disk_ok_persist:
  assumes "disk_ok owed base key cs got" and "persist_entry K fault key' e cs = (cs', ok)"
    and "key' = key \<longrightarrow> owed_in owed base (ce_block e) got"
  shows "disk_ok owed base key cs' got"
  using assms(1,3) persist_entry_lookup [OF assms(2), of key]
  by (auto simp: disk_ok_def cp_get_def split: if_splits)

text \<open>What is below the held-back cursor has ended.\<close>

lemma held_back_ended:
  assumes "queue_blocks world q" and "client_world_ok world"
    and "owed_in (due rel world) base n ({tx. pending_contains tx q} \<union> got)"
  shows "owed_in (due rel world) base (held_back n q) got"
  unfolding owed_in_def
proof (intro allI impI)
  fix b tx
  assume a: "base < b \<and> b \<le> held_back n q \<and> due rel world b tx"
  then have "b \<le> n" using held_back_le [of n q] by (meson order_trans)
  with a assms(3) have k: "tx \<in> {tx. pending_contains tx q} \<union> got" unfolding owed_in_def by blast
  have "0 < b" using a by (auto simp: word_less_nat_alt)
  with held_back_below [OF assms(1,2), of rel b tx n] a have "\<not> pending_contains tx q" by (auto simp: not_le [symmetric])
  with k show "tx \<in> got" by auto
qed

lemma cp_set_held_back:
  assumes "cs_synced K cs" and "disk_ok owed base key cs got" and "owed_in owed base n got"
    and "cp_set K fault key n cs = (cs', ok)"
  shows "cs_synced K cs' \<and> disk_ok owed base key cs' got"
proof -
  obtain e where e: "persist_entry K fault key e cs = (cs', ok)" "ce_block e = n"
    using assms(4) by (simp add: cp_set_def)
  have "cs_synced K cs'" using persist_entry_synced [OF assms(1), of fault key e] e(1) by simp
  with disk_ok_persist [OF assms(2) e(1)] assms(3) e(2) show ?thesis by simp
qed

section \<open>The process\<close>

datatype 'w settle_sys = SDown "cp_file files" "b256 set" | SUp 'w "b256 set"

text \<open>
  Ticks of the worker, cursors other workers save in the same file, crashes (which lose all but the
  file) and restarts. The set carries what earlier runs reported as ended.
\<close>

inductive settle_step ::
  "cp_codec \<Rightarrow> string \<Rightarrow> (checkpoint_store \<Rightarrow> 'w \<Rightarrow> bool) \<Rightarrow> ('w \<Rightarrow> 'w \<Rightarrow> bool) \<Rightarrow> ('w \<Rightarrow> checkpoint_store option)
    \<Rightarrow> (checkpoint_store \<Rightarrow> 'w \<Rightarrow> 'w) \<Rightarrow> ('w \<Rightarrow> b256 set) \<Rightarrow> 'w settle_sys \<Rightarrow> unit \<Rightarrow> 'w settle_sys \<Rightarrow> bool"
  for K key starts ticks store put_store ended where
  settle_ticks: "ticks w w' \<Longrightarrow> settle_step K key starts ticks store put_store ended (SUp w got) () (SUp w' got)"
| settle_other: "store w = Some cs \<Longrightarrow> key' \<noteq> key \<Longrightarrow> persist_entry K fault key' e cs = (cs', ok) \<Longrightarrow>
    settle_step K key starts ticks store put_store ended (SUp w got) () (SUp (put_store cs' w) got)"
| settle_crash: "store w = Some cs \<Longrightarrow>
    settle_step K key starts ticks store put_store ended (SUp w got) () (SDown (cs_files cs) (got \<union> ended w))"
| settle_starts: "cp_load K readable files = Inr cs \<Longrightarrow> starts cs w \<Longrightarrow>
    settle_step K key starts ticks store put_store ended (SDown files got) () (SUp w got)"

definition settle_begins :: "cp_codec \<Rightarrow> string \<Rightarrow> 'w settle_sys \<Rightarrow> bool" where
  "settle_begins K key s \<longleftrightarrow> codec_ok K \<and> (\<exists>cs. s = SDown (cs_files cs) {} \<and> cs_synced K cs \<and> cp_get key cs = None)"

locale settlement_worker =
  fixes owed :: "u64 \<Rightarrow> b256 \<Rightarrow> bool" and base :: u64 and K :: cp_codec and key :: string
    and starts :: "checkpoint_store \<Rightarrow> 'w \<Rightarrow> bool" and ticks :: "'w \<Rightarrow> 'w \<Rightarrow> bool"
    and store :: "'w \<Rightarrow> checkpoint_store option" and put_store :: "checkpoint_store \<Rightarrow> 'w \<Rightarrow> 'w"
    and cursor :: "'w \<Rightarrow> u64" and queued :: "'w \<Rightarrow> b256 set" and ended :: "'w \<Rightarrow> b256 set" and good :: "'w \<Rightarrow> bool"
  assumes starts_good: "starts cs w \<Longrightarrow> good w \<and> store w = Some cs \<and> ended w = {}
      \<and> cursor w \<le> (case cp_get key cs of None \<Rightarrow> base | Some n \<Rightarrow> n)"
    and ticks_keep: "ticks w w' \<Longrightarrow> good w \<Longrightarrow> store w = Some cs \<Longrightarrow> cs_synced K cs \<Longrightarrow>
      owed_in owed base (cursor w) (queued w \<union> ended w \<union> got) \<Longrightarrow> disk_ok owed base key cs (ended w \<union> got) \<Longrightarrow>
      good w' \<and> owed_in owed base (cursor w') (queued w' \<union> ended w' \<union> got)
      \<and> (\<exists>cs'. store w' = Some cs' \<and> cs_synced K cs' \<and> disk_ok owed base key cs' (ended w' \<union> got))"
    and put_frame: "store (put_store cs w) = Some cs" "cursor (put_store cs w) = cursor w" "queued (put_store cs w) = queued w"
      "ended (put_store cs w) = ended w" "good (put_store cs w) = good w"
begin

fun settle_inv :: "'w settle_sys \<Rightarrow> bool" where
  "settle_inv (SDown files got) \<longleftrightarrow> codec_ok K \<and> (\<exists>cs. files = cs_files cs \<and> cs_synced K cs \<and> disk_ok owed base key cs got)"
| "settle_inv (SUp w got) \<longleftrightarrow> codec_ok K \<and> good w \<and> owed_in owed base (cursor w) (queued w \<union> ended w \<union> got)
     \<and> (\<exists>cs. store w = Some cs \<and> cs_synced K cs \<and> disk_ok owed base key cs (ended w \<union> got))"

lemma settle_inv_start:
  assumes "settle_begins K key s"
  shows "settle_inv s"
proof -
  from assms obtain cs where "codec_ok K" "s = SDown (cs_files cs) {}" "cs_synced K cs" "disk_ok owed base key cs {}"
    by (auto simp: settle_begins_def disk_ok_def)
  then show ?thesis by auto
qed

lemma settle_inv_starts:
  assumes "settle_inv (SDown files got)" and "cp_load K readable files = Inr cs" and "starts cs w"
  shows "settle_inv (SUp w got)"
proof -
  from assms(1) obtain cs0 where cs0: "files = cs_files cs0" "cs_synced K cs0" "codec_ok K" "disk_ok owed base key cs0 got" by auto
  note l = load_keeps [OF cs0(3,2) assms(2) [unfolded cs0(1)]]
  have disk: "disk_ok owed base key cs got" using cs0(4) cp_lookups_cong(1) [OF l(1)] by (simp add: disk_ok_def)
  note g = starts_good [OF assms(3)]
  have "owed_in owed base (case cp_get key cs of None \<Rightarrow> base | Some n \<Rightarrow> n) got"
    using disk owed_in_base by (simp add: disk_ok_def split: option.splits)
  with g have "owed_in owed base (cursor w) (queued w \<union> ended w \<union> got)" by (blast intro: owed_in_mono)
  with g cs0(3) l(2) disk show ?thesis by simp
qed

lemma settle_inv_step:
  assumes "settle_inv s" and "settle_step K key starts ticks store put_store ended s e t"
  shows "settle_inv t"
  using assms(2)
proof cases
  case (settle_ticks w w' got)
  with assms(1) ticks_keep show ?thesis by fastforce
next
  case (settle_other w cs key' fault e cs' ok got)
  from assms(1) settle_other have cs: "cs_synced K cs" "disk_ok owed base key cs (ended w \<union> got)" by auto
  have "cs_synced K cs'" using persist_entry_synced [OF cs(1), of fault key' e] settle_other by simp
  moreover have "disk_ok owed base key cs' (ended w \<union> got)" using disk_ok_persist [OF cs(2)] settle_other by blast
  ultimately show ?thesis using assms(1) settle_other by (auto simp: put_frame)
next
  case (settle_crash w cs got)
  with assms(1) show ?thesis by (auto simp: Un_commute)
next
  case (settle_starts readable files cs w got)
  then show ?thesis using assms(1) settle_inv_starts [of files got readable cs w] by blast
qed

lemma no_obligation_lost:
  assumes "reach (settle_begins K key) (settle_step K key starts ticks store put_store ended) (SUp w got)"
    and "base < b" and "owed b tx"
  shows "(b \<le> cursor w \<longrightarrow> tx \<in> queued w \<union> ended w \<union> got)
    \<and> (\<exists>cs. store w = Some cs \<and> (\<forall>n. cp_get key cs = Some n \<and> b \<le> n \<longrightarrow> tx \<in> ended w \<union> got))"
proof -
  have "reach (settle_begins K key) (settle_step K key starts ticks store put_store ended) s \<Longrightarrow> settle_inv s" for s
    by (induction rule: reach.induct) (auto intro: settle_inv_start settle_inv_step)
  from this [OF assms(1)] obtain cs where run: "owed_in owed base (cursor w) (queued w \<union> ended w \<union> got)"
    and cs: "store w = Some cs" "disk_ok owed base key cs (ended w \<union> got)" by auto
  have "b \<le> cursor w \<Longrightarrow> tx \<in> queued w \<union> ended w \<union> got" using run assms(2,3) unfolding owed_in_def by blast
  moreover have "cp_get key cs = Some n \<Longrightarrow> b \<le> n \<Longrightarrow> tx \<in> ended w \<union> got" for n
    using cs(2) assms(2,3) unfolding disk_ok_def owed_in_def by blast
  ultimately show ?thesis using cs(1) by blast
qed

end

end
