(* ===== verification/Proofgen.thy ===== *)
theory Proofgen
  imports Text
begin

text \<open>
  The proof-gen client (\<^verbatim>\<open>message-relayer/src/proofgen.rs\<close>): the classification of one HTTP
  response and the conversion of a proof bundle into the arguments of the on-chain verifiers. The
  JSON decoders, the canonical reason phrases, the hexadecimal parser of a 32-byte value and the ABI
  encoder are parameters.
\<close>

section \<open>Responses\<close>

record proof_not_ready =
  nr_status :: nat
  nr_code :: string
  nr_message :: string

record proof_rejected =
  rj_status :: nat
  rj_code :: string
  rj_message :: string

record error_body =
  eb_code :: "string option"
  eb_message :: "string option"
  eb_retriable :: "bool option"

record merkle_proof_entry =
  me_hash :: b256
  me_is_left :: bool

record merkle_proof =
  mp_root :: b256
  mp_siblings :: "merkle_proof_entry list"

record continuity_proof =
  cp_lower_endpoint_digest :: b256
  cp_roots :: "b256 list"

record inclusion_proof =
  ip_kind :: u8
  ip_root :: b256
  ip_data :: bytes

record single_continuity =
  sc_header_number :: u64
  sc_tx_bytes :: "string option"
  sc_lower_endpoint_digest :: string
  sc_roots :: "string list"
  sc_root :: string
  sc_siblings :: "(string \<times> bool) list"

datatype proof_fetch = ProofReady single_continuity | ProofNotReady proof_not_ready | ProofRejected proof_rejected

record proof_json =
  pj_error :: "string \<Rightarrow> error_body option"
  pj_response :: "string \<Rightarrow> single_continuity option"
  pj_reason :: "nat \<Rightarrow> string option"

definition is_client_error :: "nat \<Rightarrow> bool" where "is_client_error status \<longleftrightarrow> 400 \<le> status \<and> status < 500"
definition is_server_error :: "nat \<Rightarrow> bool" where "is_server_error status \<longleftrightarrow> 500 \<le> status \<and> status < 600"
definition is_success :: "nat \<Rightarrow> bool" where "is_success status \<longleftrightarrow> 200 \<le> status \<and> status < 300"

text \<open>\<^verbatim>\<open>str::trim\<close> on ASCII text, and the filter for a code that says something.\<close>

definition is_space :: "char \<Rightarrow> bool" where
  "is_space c \<longleftrightarrow> code_of c \<in> {9, 10, 11, 12, 13, 32}"

definition trim :: "string \<Rightarrow> string" where
  "trim s = rev (dropWhile is_space (rev (dropWhile is_space s)))"

definition named :: "string option \<Rightarrow> string option" where
  "named code = (case code of Some c \<Rightarrow> if trim c \<noteq> [] then Some c else None | None \<Rightarrow> None)"

definition unwrap_or :: "'a \<Rightarrow> 'a option \<Rightarrow> 'a" where
  "unwrap_or d x = (case x of None \<Rightarrow> d | Some v \<Rightarrow> v)"

definition rejection :: "proof_json \<Rightarrow> nat \<Rightarrow> string \<Rightarrow> proof_rejected option" where
  "rejection J status body =
     (if \<not> is_client_error status then None
      else case pj_error J body of
             None \<Rightarrow> None
           | Some parsed \<Rightarrow>
               if eb_retriable parsed \<noteq> Some False then None
               else map_option (\<lambda>code. \<lparr>rj_status = status, rj_code = code, rj_message = unwrap_or [] (eb_message parsed)\<rparr>)
                      (named (eb_code parsed)))"

definition retriable_server_error :: "proof_json \<Rightarrow> nat \<Rightarrow> string \<Rightarrow> proof_not_ready option" where
  "retriable_server_error J status body =
     (if \<not> is_server_error status then None
      else case pj_error J body of
             None \<Rightarrow> None
           | Some parsed \<Rightarrow>
               if eb_retriable parsed \<noteq> Some True then None
               else map_option (\<lambda>code. \<lparr>nr_status = status, nr_code = code, nr_message = unwrap_or [] (eb_message parsed)\<rparr>)
                      (named (eb_code parsed)))"

definition classify_proof_response :: "proof_json \<Rightarrow> nat \<Rightarrow> string \<Rightarrow> proof_fetch option" where
  "classify_proof_response J status body =
     (if status = 422 \<or> status = 404
      then let parsed = pj_error J body;
               code = (case named (Option.bind parsed eb_code) of
                         Some c \<Rightarrow> c
                       | None \<Rightarrow> filter (\<lambda>c. c \<noteq> CHR '' '') (unwrap_or ''not ready'' (pj_reason J status)));
               message = unwrap_or [] (Option.bind parsed eb_message)
           in Some (ProofNotReady \<lparr>nr_status = status, nr_code = code, nr_message = message\<rparr>)
      else case retriable_server_error J status body of
             Some not_ready \<Rightarrow> Some (ProofNotReady not_ready)
           | None \<Rightarrow>
               (case rejection J status body of
                  Some rejected \<Rightarrow> Some (ProofRejected rejected)
                | None \<Rightarrow>
                    if \<not> is_success status then None
                    else map_option ProofReady (pj_response J body)))"

text \<open>One request: \<open>None\<close> when it cannot be sent or its body not read.\<close>

definition proof_by_tx :: "proof_json \<Rightarrow> (nat \<times> string) option \<Rightarrow> proof_fetch option" where
  "proof_by_tx J http = (case http of None \<Rightarrow> None | Some (status, body) \<Rightarrow> classify_proof_response J status body)"

section \<open>Proof bundles\<close>

definition parse_b256 :: "(string \<Rightarrow> b256 option) \<Rightarrow> string \<Rightarrow> b256 option" where
  "parse_b256 from_str s = from_str (trim s)"

fun collect :: "'a option list \<Rightarrow> 'a list option" where
  "collect [] = Some []"
| "collect (x # xs) = (case x of None \<Rightarrow> None | Some v \<Rightarrow> map_option (Cons v) (collect xs))"

text \<open>\<^verbatim>\<open>trim_start_matches("0x")\<close> strips the prefix as often as it repeats.\<close>

fun strip_0x :: "string \<Rightarrow> string" where
  "strip_0x (a # b # s) = (if a = CHR ''0'' \<and> b = CHR ''x'' then strip_0x s else a # b # s)"
| "strip_0x s = s"

definition encoded_transaction :: "single_continuity \<Rightarrow> bytes option" where
  "encoded_transaction r = Option.bind (sc_tx_bytes r) (\<lambda>raw. hex_decode (strip_0x raw))"

definition to_proofs :: "(string \<Rightarrow> b256 option) \<Rightarrow> single_continuity \<Rightarrow> (merkle_proof \<times> continuity_proof) option" where
  "to_proofs from_str r =
     (case (parse_b256 from_str (sc_root r),
            collect (map (\<lambda>(h, left). map_option (\<lambda>x. \<lparr>me_hash = x, me_is_left = left\<rparr>) (parse_b256 from_str h)) (sc_siblings r)),
            parse_b256 from_str (sc_lower_endpoint_digest r),
            collect (map (parse_b256 from_str) (sc_roots r))) of
        (Some root, Some siblings, Some digest, Some roots) \<Rightarrow>
          Some (\<lparr>mp_root = root, mp_siblings = siblings\<rparr>, \<lparr>cp_lower_endpoint_digest = digest, cp_roots = roots\<rparr>)
      | _ \<Rightarrow> None)"

definition to_inclusion_and_continuity ::
  "(string \<Rightarrow> b256 option) \<Rightarrow> (bytes \<Rightarrow> merkle_proof_entry list \<Rightarrow> bytes) \<Rightarrow> single_continuity
    \<Rightarrow> (inclusion_proof \<times> continuity_proof) option" where
  "to_inclusion_and_continuity from_str encode r =
     (case (encoded_transaction r, to_proofs from_str r) of
        (Some tx_bytes, Some (merkle, continuity)) \<Rightarrow>
          Some (\<lparr>ip_kind = 0, ip_root = mp_root merkle, ip_data = encode tx_bytes (mp_siblings merkle)\<rparr>, continuity)
      | _ \<Rightarrow> None)"

section \<open>Correctness\<close>

lemma collect_Some: "collect xs = Some ys \<longleftrightarrow> xs = map Some ys"
  by (induction xs arbitrary: ys) (auto split: option.splits)

text \<open>Only proof-gen's own word makes an answer final or a server error ordinary.\<close>

lemma rejected_iff:
  "classify_proof_response J status body = Some (ProofRejected r) \<longleftrightarrow>
     status \<noteq> 422 \<and> status \<noteq> 404 \<and> rejection J status body = Some r"
  by (auto simp: classify_proof_response_def rejection_def retriable_server_error_def is_client_error_def is_server_error_def
      Let_def split: option.splits if_splits)

lemma ready_iff:
  "classify_proof_response J status body = Some (ProofReady p) \<longleftrightarrow> is_success status \<and> pj_response J body = Some p"
  by (auto simp: classify_proof_response_def rejection_def retriable_server_error_def is_client_error_def is_server_error_def
      is_success_def Let_def split: option.splits if_splits)

lemma not_ready_status:
  "classify_proof_response J status body = Some (ProofNotReady r) \<Longrightarrow>
     nr_status r = status \<and> (status = 422 \<or> status = 404
       \<or> is_server_error status \<and> (\<exists>e. pj_error J body = Some e \<and> eb_retriable e = Some True))"
  by (auto simp: classify_proof_response_def retriable_server_error_def Let_def split: option.splits if_splits)

end
