(* ===== verification/Claim.thy ===== *)
theory Claim
  imports Settlement Pacing Revert Proofgen
begin

text \<open>
  The claim submitter (\<^verbatim>\<open>message-relayer/src/claim/mod.rs\<close>): it discovers \<^verbatim>\<open>Locked\<close> events on the
  client chain, fetches a proof for each transaction and submits it on Creditcoin. The client node,
  the proof server, the Creditcoin node and the broadcast slot answer through an environment; the
  ABI codec, keccak and the error selectors are the record \<open>claim_abi\<close>. What the source reports of a
  transaction's end (claimed, terminal, given up, evicted) is kept as a list of events.
\<close>

section \<open>Constants and types\<close>

definition MAX_ENCODED_TRANSACTION_BYTES :: nat where "MAX_ENCODED_TRANSACTION_BYTES = 500000"
definition MAX_PENDING_CLAIMS :: nat where "MAX_PENDING_CLAIMS = 10000"
definition MAX_DONE_TRACKED :: nat where "MAX_DONE_TRACKED = 10000"
definition MAX_CLAIMS_PER_TICK :: nat where "MAX_CLAIMS_PER_TICK = 256"
definition CLAIM_MAX_BLOCKS_PER_SCAN :: u64 where "CLAIM_MAX_BLOCKS_PER_SCAN = 2000"
definition NOT_READY_RETRY :: duration where "NOT_READY_RETRY = secs 15"
definition MAX_CLAIM_AGE :: duration where "MAX_CLAIM_AGE = secs (24 * 60 * 60)"

record locked =
  lk_recipient :: address
  lk_amount :: u256
  lk_nonce :: u256

record claim_abi =
  cb_dec_locked :: "b256 list \<Rightarrow> bytes \<Rightarrow> locked option"
  cb_encode_lock :: "locked \<Rightarrow> bytes"
  cb_keccak :: "bytes \<Rightarrow> b256"
  cb_selector :: "string \<Rightarrow> bytes"
  cb_from_str :: "string \<Rightarrow> b256 option"
  cb_json :: proof_json

definition claim_key :: "claim_abi \<Rightarrow> locked \<Rightarrow> b256" where
  "claim_key B l = cb_keccak B (cb_encode_lock B l)"

datatype claim_outcome =
    Claimed
  | ClaimNotReady
  | ClaimRejected proof_rejected
  | ClaimTerminal string

datatype claim_event =
    LockClaimed b256
  | LockTerminal b256 string
  | LockGivenUp b256
  | LockEvicted b256

fun event_tx :: "claim_event \<Rightarrow> b256" where
  "event_tx (LockClaimed tx) = tx"
| "event_tx (LockTerminal tx _) = tx"
| "event_tx (LockGivenUp tx) = tx"
| "event_tx (LockEvicted tx) = tx"

section \<open>Discovery\<close>

text \<open>The client node's answers in one scan; an error carries its text.\<close>

record claim_node =
  cn_tip :: "string + u64"
  cn_logs :: "u64 \<Rightarrow> u64 \<Rightarrow> string + src_log list"

type_synonym claim_queue = "b256 pending_txs \<times> claim_event list"

definition queue_lock ::
  "claim_abi \<Rightarrow> instant \<Rightarrow> u64 \<Rightarrow> bounded_seen \<Rightarrow> src_log \<Rightarrow> claim_queue \<Rightarrow> claim_queue" where
  "queue_lock B now from_block seen l st =
     (let (pending, evs) = st in
      case sl_tx_hash l of
        None \<Rightarrow> (pending, evs)
      | Some tx_hash \<Rightarrow>
          (case cb_dec_locked B (sl_topics l) (sl_data l) of
             None \<Rightarrow> (pending, evs)
           | Some lk \<Rightarrow>
               let key = claim_key B lk in
               if seen_contains tx_hash seen then (pending, evs)
               else if pending_contains tx_hash pending then (note_meta tx_hash key pending, evs)
               else let block = unwrap_or from_block (sl_block_number l);
                        (pending', evicted) = pending_insert tx_hash now block [key] pending
                    in (pending', case evicted of None \<Rightarrow> evs | Some old \<Rightarrow> evs @ [LockEvicted old])))"

text \<open>The context the source adds to a failed log query is part of the error's text.\<close>

definition scan_context :: "u64 \<Rightarrow> u64 \<Rightarrow> string \<Rightarrow> string" where
  "scan_context from_block to_block err =
     ''eth_getLogs Locked from '' @ decimal (unat from_block) @ '' to '' @ decimal (unat to_block) @ '' failed: '' @ err"

definition discover_locks ::
  "claim_abi \<Rightarrow> u64 \<Rightarrow> claim_node \<Rightarrow> instant \<Rightarrow> bounded_seen \<Rightarrow> u64 \<Rightarrow> claim_queue \<Rightarrow> u64 \<times> claim_queue \<times> (string + unit)" where
  "discover_locks B confirmation_depth node now seen last_seen st =
     (case cn_tip node of
        Inl err \<Rightarrow> (last_seen, st, Inl err)
      | Inr tip \<Rightarrow>
          let confirmed = sat_sub tip confirmation_depth in
          if confirmed \<le> last_seen then (last_seen, st, Inr ())
          else
            let from_block = last_seen + 1;
                to_block = min confirmed (sat_add last_seen CLAIM_MAX_BLOCKS_PER_SCAN)
            in (case cn_logs node from_block to_block of
                  Inl err \<Rightarrow> (last_seen, st, Inl (scan_context from_block to_block err))
                | Inr logs \<Rightarrow> (to_block, fold (queue_lock B now from_block seen) logs st, Inr ())))"

section \<open>One claim\<close>

datatype claim_receipt = NoReceipt | ReceiptFailed string | Mined bool

datatype claim_send = Stalled string | SendErr string | SendOk claim_receipt

record claim_try =
  ct_claimed :: "b256 \<Rightarrow> string + bool"
  ct_http :: "(nat \<times> string) option"
  ct_send :: claim_send
  ct_done_at :: nat

text \<open>\<open>None\<close> when a view call fails.\<close>

fun any_unclaimed :: "claim_try \<Rightarrow> b256 list \<Rightarrow> bool option" where
  "any_unclaimed t [] = Some False"
| "any_unclaimed t (key # keys) =
     (case ct_claimed t key of
        Inl _ \<Rightarrow> None
      | Inr claimed \<Rightarrow> if \<not> claimed then Some True else any_unclaimed t keys)"

definition claim_errors :: "string list" where
  "claim_errors = [''AlreadyClaimed'', ''ProofVerificationFailed'', ''NoLockedLogs'', ''WrongEmitter'',
     ''MalformedLockedLog'', ''UnsupportedTxType'', ''EncodedTransactionTooLarge'']"

definition claim_revert_name :: "claim_abi \<Rightarrow> bytes \<Rightarrow> string option" where
  "claim_revert_name B sel = find (\<lambda>name. sel = cb_selector B name) claim_errors"

definition claim_terminal_revert :: "string \<Rightarrow> bool" where
  "claim_terminal_revert s \<longleftrightarrow> is_revert s \<or> contains_sub ''AlreadyClaimed'' s
     \<or> contains_sub ''ProofVerificationFailed'' s \<or> contains_sub ''NoLockedLogs'' s \<or> contains_sub ''WrongEmitter'' s"

definition describe_revert :: "claim_abi \<Rightarrow> string \<Rightarrow> string" where
  "describe_revert B s =
     (case Option.bind (revert_selector s) (claim_revert_name B) of
        Some name \<Rightarrow> name @ '': '' @ s
      | None \<Rightarrow> s)"

definition submit_claim :: "claim_abi \<Rightarrow> claim_try \<Rightarrow> string + claim_outcome" where
  "submit_claim B t =
     (case ct_send t of
        Stalled s \<Rightarrow> Inl (''claim '' @ s)
      | SendErr err \<Rightarrow>
          if claim_terminal_revert err then Inr (ClaimTerminal (describe_revert B err))
          else Inl (''claim send failed: '' @ err)
      | SendOk NoReceipt \<Rightarrow> Inl ''no receipt within 120s (claim tx possibly stuck)''
      | SendOk (ReceiptFailed err) \<Rightarrow> Inl (''receipt fetch failed: '' @ err)
      | SendOk (Mined True) \<Rightarrow> Inr Claimed
      | SendOk (Mined False) \<Rightarrow> Inr (ClaimTerminal ''tx mined but reverted''))"

definition claim_tx :: "claim_abi \<Rightarrow> b256 list \<Rightarrow> claim_try \<Rightarrow> string + claim_outcome" where
  "claim_tx B keys t =
     (if keys \<noteq> [] \<and> any_unclaimed t keys = Some False
      then Inr (ClaimTerminal ''every lock in this tx is already claimed'')
      else case proof_by_tx (cb_json B) (ct_http t) of
             None \<Rightarrow> Inl ''proof-gen request failed''
           | Some (ProofNotReady _) \<Rightarrow> Inr ClaimNotReady
           | Some (ProofRejected reason) \<Rightarrow> Inr (ClaimRejected reason)
           | Some (ProofReady proof) \<Rightarrow>
               (case encoded_transaction proof of
                  None \<Rightarrow> Inl ''bad txBytes''
                | Some encoded_tx \<Rightarrow>
                    if MAX_ENCODED_TRANSACTION_BYTES < length encoded_tx
                    then Inr (ClaimTerminal (''encodedTransaction '' @ decimal (length encoded_tx)
                           @ '' bytes exceeds on-chain max '' @ decimal MAX_ENCODED_TRANSACTION_BYTES @ '' bytes''))
                    else if to_proofs (cb_from_str B) proof = None then Inl ''bad proof''
                    else submit_claim B t))"

section \<open>The queue\<close>

record claim_state =
  cs_pending :: "b256 pending_txs"
  cs_done :: bounded_seen
  cs_events :: "claim_event list"

definition finish_claim :: "b256 \<Rightarrow> claim_event \<Rightarrow> claim_state \<Rightarrow> claim_state" where
  "finish_claim tx ev st =
     st\<lparr>cs_pending := pending_remove tx (cs_pending st), cs_done := seen_insert tx (cs_done st), cs_events := cs_events st @ [ev]\<rparr>"

definition older_than :: "duration option \<Rightarrow> duration \<Rightarrow> bool" where
  "older_than age limit = (case age of None \<Rightarrow> False | Some a \<Rightarrow> limit < a)"

definition settle_claim :: "instant \<Rightarrow> b256 \<times> (string + claim_outcome) \<Rightarrow> claim_state \<Rightarrow> claim_state" where
  "settle_claim now r st =
     (let (tx, outcome) = r in
      case outcome of
        Inr Claimed \<Rightarrow> finish_claim tx (LockClaimed tx) st
      | Inr (ClaimTerminal reason) \<Rightarrow> finish_claim tx (LockTerminal tx reason) st
      | Inr ClaimNotReady \<Rightarrow>
          if older_than (pending_age tx now (cs_pending st)) MAX_CLAIM_AGE then finish_claim tx (LockGivenUp tx) st
          else st\<lparr>cs_pending := pending_defer tx (now + NOT_READY_RETRY) (cs_pending st)\<rparr>
      | Inr (ClaimRejected _) \<Rightarrow> st\<lparr>cs_pending := pending_defer tx (now + TRANSIENT_BACKOFF_MAX) (cs_pending st)\<rparr>
      | Inl _ \<Rightarrow> st\<lparr>cs_pending := fst (record_transient_failure tx now (cs_pending st))\<rparr>)"

text \<open>
  The concurrent attempts of a batch finish in the order of \<open>ct_done_at\<close>, which is the order the
  results are settled in.
\<close>

definition claim_results ::
  "claim_abi \<Rightarrow> (b256 \<Rightarrow> claim_try) \<Rightarrow> (b256 \<times> b256 list) list \<Rightarrow> (b256 \<times> (string + claim_outcome)) list" where
  "claim_results B tries batch =
     sort_key (\<lambda>(tx, _). ct_done_at (tries tx)) (map (\<lambda>(tx, keys). (tx, claim_tx B keys (tries tx))) batch)"

definition process_pending ::
  "claim_abi \<Rightarrow> (b256 \<Rightarrow> claim_try) \<Rightarrow> instant \<Rightarrow> instant \<Rightarrow> claim_state \<Rightarrow> claim_state" where
  "process_pending B tries now later st =
     (let batch = pending_ready MAX_CLAIMS_PER_TICK now (cs_pending st) in
      if batch = [] then st
      else fold (settle_claim later) (claim_results B tries batch) st)"

section \<open>The worker\<close>

record claim_config =
  cc_chain_key :: u64
  cc_confirmation_depth :: u64
  cc_start_block :: "u64 option"
  cc_lookback :: u64

record claim_worker =
  cw_last_seen :: u64
  cw_state :: claim_state
  cw_pacer :: rate_limit_pacer
  cw_rpc :: "unit reconnecting"
  cw_checkpoint :: "checkpoint_store option"
  cw_beats :: nat
  cw_errors :: nat
  cw_write_failures :: nat

definition claim_checkpoint_key :: "u64 \<Rightarrow> string" where
  "claim_checkpoint_key chain_key = ''claim:'' @ decimal (unat chain_key)"

record claim_start_env =
  cx_dial :: "unit option"
  cx_signer_ok :: bool
  cx_creditcoin_ok :: bool
  cx_client_ok :: bool
  cx_head :: "u64 option"

text \<open>\<open>None\<close> when the setup fails; a route without a claim section starts no worker at all.\<close>

definition claim_start :: "claim_config \<Rightarrow> claim_start_env \<Rightarrow> checkpoint_store option \<Rightarrow> claim_worker option" where
  "claim_start cfg ev checkpoint =
     (let (rpc, provider) = rpc_connect (cx_dial ev) reconnecting_new;
          cursor = (case Option.bind checkpoint (cp_get (claim_checkpoint_key (cc_chain_key cfg))) of
                      Some block \<Rightarrow> Some (sat_sub block (cc_lookback cfg))
                    | None \<Rightarrow> (case cc_start_block cfg of
                                 Some start \<Rightarrow> Some (sat_sub start 1)
                               | None \<Rightarrow> cx_head ev))
      in if provider = None \<or> \<not> cx_signer_ok ev \<or> \<not> cx_creditcoin_ok ev \<or> \<not> cx_client_ok ev then None
         else map_option (\<lambda>last_seen.
                \<lparr>cw_last_seen = last_seen,
                 cw_state = \<lparr>cs_pending = pending_new MAX_PENDING_CLAIMS, cs_done = seen_new MAX_DONE_TRACKED, cs_events = []\<rparr>,
                 cw_pacer = pacer_default, cw_rpc = rpc, cw_checkpoint = checkpoint,
                 cw_beats = 1, cw_errors = 0, cw_write_failures = 0\<rparr>) cursor)"

record claim_tick_env =
  cv_now :: instant
  cv_dial :: "unit option"
  cv_dial_error :: string
  cv_node :: claim_node
  cv_discovered_at :: instant
  cv_fault :: write_fault
  cv_tries :: "b256 \<Rightarrow> claim_try"
  cv_batch_at :: instant
  cv_settled_at :: instant
  cv_end :: instant

definition claim_save :: "cp_codec \<Rightarrow> write_fault \<Rightarrow> string \<Rightarrow> claim_worker \<Rightarrow> claim_worker" where
  "claim_save K fault key w =
     (case cw_checkpoint w of
        None \<Rightarrow> w
      | Some cp \<Rightarrow>
          let (cp', ok) = cp_set K fault key (held_back (cw_last_seen w) (cs_pending (cw_state w))) cp
          in w\<lparr>cw_checkpoint := Some cp', cw_write_failures := cw_write_failures w + (if ok then 0 else 1)\<rparr>)"

definition claim_discover ::
  "claim_abi \<Rightarrow> cp_codec \<Rightarrow> claim_config \<Rightarrow> claim_tick_env \<Rightarrow> claim_worker \<Rightarrow> claim_worker \<times> bool" where
  "claim_discover B K cfg ev w =
     (let (rpc, provider) = rpc_connect (cv_dial ev) (cw_rpc w);
          st = cw_state w;
          (last_seen, (pending, evs), res) =
            (if provider = None then (cw_last_seen w, (cs_pending st, cs_events st), Inl (cv_dial_error ev))
             else discover_locks B (cc_confirmation_depth cfg) (cv_node ev) (cv_discovered_at ev) (cs_done st)
                    (cw_last_seen w) (cs_pending st, cs_events st));
          w1 = w\<lparr>cw_last_seen := last_seen, cw_state := st\<lparr>cs_pending := pending, cs_events := evs\<rparr>\<rparr>
      in (case res of
            Inr _ \<Rightarrow> (claim_save K (cv_fault ev) (claim_checkpoint_key (cc_chain_key cfg))
                        (w1\<lparr>cw_rpc := note_ok rpc, cw_beats := cw_beats w + 1\<rparr>), False)
          | Inl err \<Rightarrow> (w1\<lparr>cw_rpc := fst (note_err rpc), cw_errors := cw_errors w + 1\<rparr>, error_looks_rate_limited err)))"

definition claim_tick ::
  "claim_abi \<Rightarrow> cp_codec \<Rightarrow> claim_config \<Rightarrow> claim_tick_env \<Rightarrow> claim_worker \<Rightarrow> claim_worker" where
  "claim_tick B K cfg ev w =
     (if pacer_deferring (cv_now ev) (cw_pacer w) \<noteq> None then w
      else let (w1, rate_limited) = claim_discover B K cfg ev w;
               w2 = w1\<lparr>cw_state := process_pending B (cv_tries ev) (cv_batch_at ev) (cv_settled_at ev) (cw_state w1)\<rparr>
           in w2\<lparr>cw_pacer := pacer_after rate_limited (cv_end ev) (cw_pacer w2)\<rparr>)"

end
