(* ===== verification/Claim_Correct.thy ===== *)
theory Claim_Correct
  imports Claim
begin

text \<open>
  The claim submitter loses no lock: a transaction leaves the queue only for a reason the worker
  reports, and the cursor on disk stays below every transaction still queued, so that a restart
  finds it again.
\<close>

section \<open>The queue\<close>

text \<open>The client chain's events are the \<^verbatim>\<open>Locked\<close> logs of the source bridge that decode.\<close>

definition is_lock :: "claim_abi \<Rightarrow> src_log \<Rightarrow> bool" where
  "is_lock B l \<longleftrightarrow> cb_dec_locked B (sl_topics l) (sl_data l) \<noteq> None"

abbreviation lock_at :: "claim_abi \<Rightarrow> client_world \<Rightarrow> u64 \<Rightarrow> b256 \<Rightarrow> bool" where
  "lock_at B world \<equiv> due (is_lock B) world"

definition tracked :: "claim_queue \<Rightarrow> b256 \<Rightarrow> bool" where
  "tracked st tx \<longleftrightarrow> pending_contains tx (fst st) \<or> tx \<in> event_tx ` set (snd st)"

definition queue_ok :: "client_world \<Rightarrow> claim_queue \<Rightarrow> bool" where
  "queue_ok world st \<longleftrightarrow> pending_ok (fst st) \<and> queue_blocks world (fst st)"

lemma queue_lock_ok:
  assumes "queue_ok world st" and "client_world_ok world" and "l \<in> set (world b)" and "from_block \<le> b"
  shows "queue_ok world (queue_lock B now from_block seen l st)"
    and "tracked st tx \<Longrightarrow> tracked (queue_lock B now from_block seen l st) tx"
    and "sl_tx_hash l = Some tx \<Longrightarrow> cb_dec_locked B (sl_topics l) (sl_data l) \<noteq> None \<Longrightarrow>
      seen_contains tx seen \<or> tracked (queue_lock B now from_block seen l st) tx"
    and "set (snd st) \<subseteq> set (snd (queue_lock B now from_block seen l st))"
proof -
  let ?st = "queue_lock B now from_block seen l st"
  obtain q evs where st: "st = (q, evs)" by force
  have ok: "pending_ok q" "queue_blocks world q" using assms(1) by (simp_all add: queue_ok_def st)
  have "queue_ok world ?st \<and> (\<forall>tx. tracked st tx \<longrightarrow> tracked ?st tx)
      \<and> (\<forall>tx. sl_tx_hash l = Some tx \<longrightarrow> cb_dec_locked B (sl_topics l) (sl_data l) \<noteq> None \<longrightarrow> seen_contains tx seen \<or> tracked ?st tx)
      \<and> set evs \<subseteq> set (snd ?st)"
  proof (cases "sl_tx_hash l = None \<or> cb_dec_locked B (sl_topics l) (sl_data l) = None")
    case True
    with assms(1) show ?thesis by (auto simp: queue_lock_def st split: option.splits)
  next
    case False
    then obtain h lk where h: "sl_tx_hash l = Some h" "cb_dec_locked B (sl_topics l) (sl_data l) = Some lk" by auto
    consider (seen) "seen_contains h seen" | (known) "\<not> seen_contains h seen" "pending_contains h q"
      | (new) "\<not> seen_contains h seen" "\<not> pending_contains h q" by blast
    then show ?thesis
    proof cases
      case seen
      with h assms(1) show ?thesis by (simp add: queue_lock_def st)
    next
      case known
      with h have "?st = (note_meta h (claim_key B lk) q, evs)" by (simp add: queue_lock_def st Let_def)
      with ok known h pending_ops_ok(2) [OF ok(1)] queue_blocks_ops(1) [OF ok(2)] show ?thesis
        by (auto simp: queue_ok_def tracked_def st)
    next
      case new
      obtain q' ev where ins: "pending_insert h now (unwrap_or from_block (sl_block_number l)) [claim_key B lk] q = (q', ev)" by force
      have eq: "?st = (q', case ev of None \<Rightarrow> evs | Some old \<Rightarrow> evs @ [LockEvicted old])"
        using new h ins by (simp add: queue_lock_def st Let_def)
      define e where "e = \<lparr>pt_first_seen = now, pt_block = unwrap_or from_block (sl_block_number l), pt_next_attempt_at = now,
        pt_transient_attempts = 0, pt_meta = [claim_key B lk]\<rparr>"
      have "sl_block_number l = None \<or> sl_block_number l = Some b" using assms(2,3) by (simp add: client_world_ok_def)
      then have le: "pt_block e \<le> b" using assms(4) by (auto simp: e_def unwrap_or_def)
      have both: "queue_blocks world (q\<lparr>pq_seen := pq_seen q @ [(h, e)]\<rparr>)"
        using ok(2) le h(1) assms(3) by (auto simp: queue_blocks_def)
      from ok(1) ins show ?thesis
      proof (cases rule: pending_insert_cases)
        case 1
        with new show ?thesis by (simp add: pending_contains_def)
      next
        case (2 e')
        then have "q' = q\<lparr>pq_seen := pq_seen q @ [(h, e)]\<rparr>" "ev = None" by (simp_all add: e_def)
        with both eq pending_insert_ok [OF ok(1) ins] h show ?thesis
          by (auto simp: queue_ok_def tracked_def st pending_contains_def)
      next
        case (3 e' old oe)
        then have q': "q' = q\<lparr>pq_seen := hm_remove old (pq_seen q @ [(h, e)])\<rparr>" "ev = Some old" by (simp_all add: e_def)
        have "queue_blocks world q'"
          using both by (rule queue_blocks_blocks) (auto simp: q' set_delete_sub)
        with q' eq pending_insert_ok [OF ok(1) ins] h show ?thesis
          by (auto simp: queue_ok_def tracked_def st pending_contains_def hm_set_remove simp del: set_map)
      qed
    qed
  qed
  then show "queue_ok world ?st" and "tracked st tx \<Longrightarrow> tracked ?st tx"
    and "sl_tx_hash l = Some tx \<Longrightarrow> cb_dec_locked B (sl_topics l) (sl_data l) \<noteq> None \<Longrightarrow> seen_contains tx seen \<or> tracked ?st tx"
    and "set (snd st) \<subseteq> set (snd ?st)"
    by (auto simp: st)
qed

lemma queue_locks_ok:
  assumes "queue_ok world st" and "client_world_ok world" and "\<forall>l \<in> set ls. \<exists>b \<ge> from_block. l \<in> set (world b)"
  shows "queue_ok world (fold (queue_lock B now from_block seen) ls st)
    \<and> (tracked st tx \<longrightarrow> tracked (fold (queue_lock B now from_block seen) ls st) tx)
    \<and> (\<forall>l \<in> set ls. sl_tx_hash l = Some tx \<and> cb_dec_locked B (sl_topics l) (sl_data l) \<noteq> None \<longrightarrow>
        seen_contains tx seen \<or> tracked (fold (queue_lock B now from_block seen) ls st) tx)
    \<and> set (snd st) \<subseteq> set (snd (fold (queue_lock B now from_block seen) ls st))"
  using assms
proof (induction ls arbitrary: st)
  case Nil
  then show ?case by simp
next
  case (Cons l ls)
  from Cons.prems(3) obtain b where b: "l \<in> set (world b)" "from_block \<le> b" by auto
  note one = queue_lock_ok [OF Cons.prems(1,2) b]
  let ?st = "queue_lock B now from_block seen l st"
  have keep: "tracked st tx \<Longrightarrow> tracked ?st tx" and new: "sl_tx_hash l = Some tx \<Longrightarrow>
      cb_dec_locked B (sl_topics l) (sl_data l) \<noteq> None \<Longrightarrow> seen_contains tx seen \<or> tracked ?st tx"
    and evs: "set (snd st) \<subseteq> set (snd ?st)" and ok: "queue_ok world ?st"
    by (rule one; assumption)+
  from Cons.prems(3) have "\<forall>l \<in> set ls. \<exists>b \<ge> from_block. l \<in> set (world b)" by simp
  note rest = Cons.IH [OF ok Cons.prems(2) this]
  from rest keep new evs show ?case by auto
qed

section \<open>Settling\<close>

definition known :: "claim_state \<Rightarrow> b256 \<Rightarrow> bool" where
  "known st tx \<longleftrightarrow> pending_contains tx (cs_pending st) \<or> tx \<in> event_tx ` set (cs_events st)"

definition claim_ok :: "client_world \<Rightarrow> claim_state \<Rightarrow> bool" where
  "claim_ok world st \<longleftrightarrow> pending_ok (cs_pending st) \<and> queue_blocks world (cs_pending st)
     \<and> bs_set (cs_done st) \<subseteq> event_tx ` set (cs_events st)"

lemma finish_claim_ok:
  assumes "claim_ok world st" and "event_tx ev = tx"
  shows "claim_ok world (finish_claim tx ev st) \<and> (known st x \<longrightarrow> known (finish_claim tx ev st) x)
    \<and> set (cs_events st) \<subseteq> set (cs_events (finish_claim tx ev st))"
  using assms seen_insert_sub [of tx "cs_done st"]
  by (auto simp: claim_ok_def finish_claim_def known_def queue_blocks_ops(4) pending_ops_ok(1))

lemma settle_claim_ok:
  assumes "claim_ok world st"
  shows "claim_ok world (settle_claim now r st) \<and> (known st x \<longrightarrow> known (settle_claim now r st) x)
    \<and> set (cs_events st) \<subseteq> set (cs_events (settle_claim now r st))"
proof -
  obtain tx out where r: "r = (tx, out)" by force
  have keep: ?thesis if "settle_claim now r st = st\<lparr>cs_pending := q\<rparr>" "pending_ok q" "queue_blocks world q"
      "\<And>x. pending_contains x q = pending_contains x (cs_pending st)" for q
    using that assms by (simp add: claim_ok_def known_def)
  have ok: "pending_ok (cs_pending st)" "queue_blocks world (cs_pending st)" using assms by (simp_all add: claim_ok_def)
  have fin: ?thesis if "settle_claim now r st = finish_claim tx ev st" "event_tx ev = tx" for ev
    using finish_claim_ok [OF assms that(2), of x] that(1) by simp
  show ?thesis
  proof (cases out)
    case (Inl err)
    then show ?thesis
      by (intro keep [of "fst (record_transient_failure tx now (cs_pending st))"])
        (simp_all add: settle_claim_def r pending_ops_ok(4) ok queue_blocks_ops(3))
  next
    case (Inr o')
    show ?thesis
    proof (cases o')
      case Claimed
      with Inr show ?thesis by (intro fin [of "LockClaimed tx"]) (simp_all add: settle_claim_def r)
    next
      case (ClaimTerminal reason)
      with Inr show ?thesis by (intro fin [of "LockTerminal tx reason"]) (simp_all add: settle_claim_def r)
    next
      case (ClaimRejected x)
      with Inr show ?thesis
        by (intro keep [of "pending_defer tx (now + TRANSIENT_BACKOFF_MAX) (cs_pending st)"])
          (simp_all add: settle_claim_def r pending_ops_ok(3) ok queue_blocks_ops(2))
    next
      case ClaimNotReady
      show ?thesis
      proof (cases "older_than (pending_age tx now (cs_pending st)) MAX_CLAIM_AGE")
        case True
        with Inr ClaimNotReady show ?thesis by (intro fin [of "LockGivenUp tx"]) (simp_all add: settle_claim_def r)
      next
        case False
        with Inr ClaimNotReady show ?thesis
          by (intro keep [of "pending_defer tx (now + NOT_READY_RETRY) (cs_pending st)"])
            (simp_all add: settle_claim_def r pending_ops_ok(3) ok queue_blocks_ops(2))
      qed
    qed
  qed
qed

lemma settle_claims_ok:
  "claim_ok world st \<Longrightarrow> claim_ok world (fold (settle_claim now) rs st) \<and> (known st x \<longrightarrow> known (fold (settle_claim now) rs st) x)
    \<and> set (cs_events st) \<subseteq> set (cs_events (fold (settle_claim now) rs st))"
proof (induction rs arbitrary: st)
  case (Cons r rs)
  from settle_claim_ok [OF Cons.prems, of now r x] Cons.IH [of "settle_claim now r st"] show ?case by auto
qed simp

lemma process_pending_ok:
  "claim_ok world st \<Longrightarrow> claim_ok world (process_pending B tries now later st)
    \<and> (known st x \<longrightarrow> known (process_pending B tries now later st) x)
    \<and> set (cs_events st) \<subseteq> set (cs_events (process_pending B tries now later st))"
  using settle_claims_ok [of world st later _ x] by (simp add: process_pending_def Let_def)

section \<open>The cursor\<close>

definition claim_base :: "claim_config \<Rightarrow> u64" where
  "claim_base cfg = (case cc_start_block cfg of None \<Rightarrow> 0 | Some start \<Rightarrow> sat_sub start 1)"

definition known_set :: "claim_state \<Rightarrow> b256 set" where
  "known_set st = {tx. known st tx}"

definition ended :: "claim_state \<Rightarrow> b256 set" where
  "ended st = event_tx ` set (cs_events st)"

lemma known_set_eq: "known_set st = {tx. pending_contains tx (cs_pending st)} \<union> ended st"
  by (auto simp: known_set_def known_def ended_def)

lemma discover_locks_cases:
  assumes "discover_locks B depth node now seen last_seen st = (last', st', res)"
  obtains (same) "last' = last_seen" "st' = st"
  | (scanned) logs where "last_seen < last'" "res = Inr ()" "cn_logs node (last_seen + 1) last' = Inr logs"
      "st' = fold (queue_lock B now (last_seen + 1) seen) logs st"
proof (cases "cn_tip node")
  case (Inl err)
  with assms show ?thesis by (intro same) (simp_all add: discover_locks_def)
next
  case (Inr tip)
  let ?to = "min (sat_sub tip depth) (sat_add last_seen CLAIM_MAX_BLOCKS_PER_SCAN)"
  show ?thesis
  proof (cases "sat_sub tip depth \<le> last_seen")
    case True
    with Inr assms show ?thesis by (intro same) (simp_all add: discover_locks_def Let_def)
  next
    case False
    then have lt: "last_seen < sat_sub tip depth" by simp
    show ?thesis
    proof (cases "cn_logs node (last_seen + 1) ?to")
      case (Inl err)
      with \<open>cn_tip node = Inr tip\<close> False assms show ?thesis by (intro same) (simp_all add: discover_locks_def Let_def)
    next
      case (Inr logs)
      have "unat (sat_sub tip depth) < 2 ^ LENGTH(64)" by (rule unsigned_less)
      then have "last_seen < sat_add last_seen CLAIM_MAX_BLOCKS_PER_SCAN"
        using lt by (simp add: word_less_nat_alt unat_sat_add CLAIM_MAX_BLOCKS_PER_SCAN_def)
      with lt have "last_seen < ?to" by simp
      with \<open>cn_tip node = Inr tip\<close> False Inr assms show ?thesis
        by (intro scanned [of logs]) (simp_all add: discover_locks_def Let_def)
    qed
  qed
qed

lemma discover_locks_ok:
  assumes "claim_ok world st" and "client_world_ok world" and "client_truthful world (cn_logs node)"
    and "owed_in (lock_at B world) (claim_base cfg) last_seen (known_set st \<union> got)"
    and "discover_locks B depth node now (cs_done st) last_seen (cs_pending st, cs_events st) = (last', (q, evs), res)"
  shows "claim_ok world (st\<lparr>cs_pending := q, cs_events := evs\<rparr>)"
    and "ended st \<subseteq> ended (st\<lparr>cs_pending := q, cs_events := evs\<rparr>)"
    and "owed_in (lock_at B world) (claim_base cfg) last' (known_set (st\<lparr>cs_pending := q, cs_events := evs\<rparr>) \<union> got)"
proof -
  let ?st = "st\<lparr>cs_pending := q, cs_events := evs\<rparr>"
  have "claim_ok world ?st \<and> ended st \<subseteq> ended ?st \<and> owed_in (lock_at B world) (claim_base cfg) last' (known_set ?st \<union> got)"
  using assms(5)
  proof (cases rule: discover_locks_cases)
    case same
    then show ?thesis using assms(1,4) by simp
  next
    case (scanned logs)
    note c = scanned(3) and q = scanned(4)
    have qok: "queue_ok world (cs_pending st, cs_events st)" using assms(1) by (simp add: claim_ok_def queue_ok_def)
    have sound: "\<forall>l \<in> set logs. \<exists>b \<ge> last_seen + 1. l \<in> set (world b)"
      using assms(3) c unfolding client_truthful_def by blast
    note f = queue_locks_ok [OF qok assms(2) sound, where B = B and now = now and seen = "cs_done st", folded q]
    have track: "tracked (q, evs) tx \<longleftrightarrow> known ?st tx" for tx by (simp add: tracked_def known_def)
    have qok': "queue_ok world (q, evs)" and evs: "set (cs_events st) \<subseteq> set evs" using f [of undefined] by simp_all
    then have sub: "ended st \<subseteq> ended ?st" by (auto simp: ended_def)
    have keep: "known st tx \<Longrightarrow> known ?st tx" for tx
      using f [of tx] by (simp add: track) (simp add: tracked_def known_def)
    have "tx \<in> known_set ?st \<union> got" if b: "claim_base cfg < b" "b \<le> last'" "lock_at B world b tx" for b tx
    proof (cases "b \<le> last_seen")
      case True
      with b assms(4) keep show ?thesis by (auto simp: owed_in_def known_set_def)
    next
      case False
      then have "last_seen + 1 \<le> b" using succ_le_less [of last_seen b b] by simp
      with assms(3) c b(2) have "set (world b) \<subseteq> set logs" unfolding client_truthful_def by blast
      with b(3) obtain l where "l \<in> set logs" "sl_tx_hash l = Some tx" "cb_dec_locked B (sl_topics l) (sl_data l) \<noteq> None"
        by (auto simp: due_def is_lock_def)
      with f [of tx] have "seen_contains tx (cs_done st) \<or> tracked (q, evs) tx" by blast
      moreover have "tx \<in> ended ?st" if "seen_contains tx (cs_done st)"
        using that assms(1) sub by (auto simp: seen_contains_def claim_ok_def ended_def)
      ultimately show ?thesis by (auto simp: track known_set_eq) (auto simp: known_def ended_def)
    qed
    then have "owed_in (lock_at B world) (claim_base cfg) last' (known_set ?st \<union> got)" unfolding owed_in_def by blast
    moreover have "claim_ok world ?st" using qok' assms(1) sub by (auto simp: queue_ok_def claim_ok_def ended_def)
    ultimately show ?thesis using sub by blast
  qed
  then show "claim_ok world ?st" and "ended st \<subseteq> ended ?st" and "owed_in (lock_at B world) (claim_base cfg) last' (known_set ?st \<union> got)" by auto
qed

section \<open>The worker keeps the laws of a settlement worker\<close>

definition claim_good :: "claim_abi \<Rightarrow> cp_codec \<Rightarrow> claim_config \<Rightarrow> client_world \<Rightarrow> claim_worker \<Rightarrow> b256 set \<Rightarrow> bool" where
  "claim_good B K cfg world w got \<longleftrightarrow> claim_ok world (cw_state w) \<and> client_world_ok world
     \<and> owed_in (lock_at B world) (claim_base cfg) (cw_last_seen w) (known_set (cw_state w) \<union> got)
     \<and> (\<exists>cs. cw_checkpoint w = Some cs \<and> cs_synced K cs
          \<and> disk_ok (lock_at B world) (claim_base cfg) (claim_checkpoint_key (cc_chain_key cfg)) cs (ended (cw_state w) \<union> got))"

lemma claim_save_ok:
  assumes "claim_good B K cfg world w got"
  shows "claim_good B K cfg world (claim_save K fault (claim_checkpoint_key (cc_chain_key cfg)) w) got"
proof -
  let ?key = "claim_checkpoint_key (cc_chain_key cfg)" and ?q = "cs_pending (cw_state w)"
  let ?got = "ended (cw_state w) \<union> got"
  from assms obtain cs where cs: "cw_checkpoint w = Some cs" "cs_synced K cs" "disk_ok (lock_at B world) (claim_base cfg) ?key cs ?got"
    by (auto simp: claim_good_def)
  obtain cs' ok where p: "cp_set K fault ?key (held_back (cw_last_seen w) ?q) cs = (cs', ok)" by force
  have "queue_blocks world ?q" "client_world_ok world" using assms by (auto simp: claim_good_def claim_ok_def)
  moreover have "owed_in (lock_at B world) (claim_base cfg) (cw_last_seen w) ({tx. pending_contains tx ?q} \<union> ?got)"
    using assms by (simp add: claim_good_def known_set_eq Un_assoc)
  ultimately have "owed_in (lock_at B world) (claim_base cfg) (held_back (cw_last_seen w) ?q) ?got" by (rule held_back_ended)
  from cp_set_held_back [OF cs(2,3) this p] assms cs(1) p show ?thesis by (auto simp: claim_good_def claim_save_def)
qed

lemma claim_discover_ok:
  assumes "claim_good B K cfg world w got" and "client_truthful world (cn_logs (cv_node ev))"
  shows "claim_good B K cfg world (fst (claim_discover B K cfg ev w)) got"
proof -
  let ?st = "cw_state w"
  obtain rpc p where rpc: "rpc_connect (cv_dial ev) (cw_rpc w) = (rpc, p)" by force
  obtain last' q evs res where d: "(if p = None then (cw_last_seen w, (cs_pending ?st, cs_events ?st), Inl (cv_dial_error ev))
      else discover_locks B (cc_confirmation_depth cfg) (cv_node ev) (cv_discovered_at ev) (cs_done ?st)
             (cw_last_seen w) (cs_pending ?st, cs_events ?st)) = (last', (q, evs), res)"
    by (metis prod.exhaust)
  let ?st' = "?st\<lparr>cs_pending := q, cs_events := evs\<rparr>"
  from assms(1) have inv: "claim_ok world ?st" "client_world_ok world"
    "owed_in (lock_at B world) (claim_base cfg) (cw_last_seen w) (known_set ?st \<union> got)" by (auto simp: claim_good_def)
  have new: "claim_ok world ?st' \<and> ended ?st \<subseteq> ended ?st'
      \<and> owed_in (lock_at B world) (claim_base cfg) last' (known_set ?st' \<union> got)"
  proof (cases "p = None")
    case True
    with d inv show ?thesis by auto
  next
    case False
    with d have "discover_locks B (cc_confirmation_depth cfg) (cv_node ev) (cv_discovered_at ev) (cs_done ?st)
             (cw_last_seen w) (cs_pending ?st, cs_events ?st) = (last', (q, evs), res)" by simp
    from discover_locks_ok [OF inv(1,2) assms(2) inv(3) this] show ?thesis by blast
  qed
  have all: "claim_good B K cfg world w' got"
    if "cw_last_seen w' = last'" "cw_state w' = ?st'" "cw_checkpoint w' = cw_checkpoint w" for w'
  proof -
    have "ended ?st \<union> got \<subseteq> ended ?st' \<union> got" using new by blast
    with assms(1) new that show ?thesis by (auto simp: claim_good_def intro: disk_ok_mono)
  qed
  show ?thesis
  proof (cases res)
    case (Inl err)
    with rpc d have "fst (claim_discover B K cfg ev w) = w\<lparr>cw_last_seen := last', cw_state := ?st',
        cw_rpc := fst (note_err rpc), cw_errors := cw_errors w + 1\<rparr>" by (simp add: claim_discover_def Let_def)
    then show ?thesis by (simp only:) (rule all; simp)
  next
    case (Inr u)
    with rpc d have "fst (claim_discover B K cfg ev w) = claim_save K (cv_fault ev) (claim_checkpoint_key (cc_chain_key cfg))
        (w\<lparr>cw_last_seen := last', cw_state := ?st', cw_rpc := note_ok rpc, cw_beats := cw_beats w + 1\<rparr>)"
      by (simp add: claim_discover_def Let_def)
    then show ?thesis by (simp only:) (rule claim_save_ok, rule all; simp)
  qed
qed

lemma claim_tick_ok:
  assumes "claim_good B K cfg world w got" and "client_truthful world (cn_logs (cv_node ev))"
  shows "claim_good B K cfg world (claim_tick B K cfg ev w) got"
proof (cases "pacer_deferring (cv_now ev) (cw_pacer w) = None")
  case False
  with assms(1) show ?thesis by (simp add: claim_tick_def)
next
  case True
  obtain w1 limited where d: "claim_discover B K cfg ev w = (w1, limited)" by force
  have inv: "claim_good B K cfg world w1 got" using claim_discover_ok [OF assms] d by simp
  let ?st = "process_pending B (cv_tries ev) (cv_batch_at ev) (cv_settled_at ev) (cw_state w1)"
  have ok: "claim_ok world (cw_state w1)" using inv by (simp add: claim_good_def)
  note p = process_pending_ok [OF ok, of B "cv_tries ev" "cv_batch_at ev" "cv_settled_at ev"]
  have sub: "known_set (cw_state w1) \<union> got \<subseteq> known_set ?st \<union> got" "ended (cw_state w1) \<union> got \<subseteq> ended ?st \<union> got" "claim_ok world ?st"
    using p by (auto simp: known_set_def ended_def)
  have "claim_tick B K cfg ev w = w1\<lparr>cw_state := ?st, cw_pacer := pacer_after limited (cv_end ev) (cw_pacer w1)\<rparr>"
    using True d by (simp add: claim_tick_def)
  with inv sub show ?thesis by (auto simp: claim_good_def intro: disk_ok_mono owed_in_mono [OF _ order_refl])
qed

text \<open>Starts from a configured block, over a consistent history; ticks against truthful nodes.\<close>

definition claim_starts :: "claim_config \<Rightarrow> client_world \<Rightarrow> checkpoint_store \<Rightarrow> claim_worker \<Rightarrow> bool" where
  "claim_starts cfg world cs w \<longleftrightarrow> client_world_ok world \<and> cc_start_block cfg \<noteq> None \<and> (\<exists>ev. claim_start cfg ev (Some cs) = Some w)"

definition claim_ticks :: "claim_abi \<Rightarrow> cp_codec \<Rightarrow> claim_config \<Rightarrow> client_world \<Rightarrow> claim_worker \<Rightarrow> claim_worker \<Rightarrow> bool" where
  "claim_ticks B K cfg world w w' \<longleftrightarrow> (\<exists>ev. client_truthful world (cn_logs (cv_node ev)) \<and> w' = claim_tick B K cfg ev w)"

abbreviation claim_step where
  "claim_step B K cfg world \<equiv> settle_step K (claim_checkpoint_key (cc_chain_key cfg)) (claim_starts cfg world)
     (claim_ticks B K cfg world) cw_checkpoint (\<lambda>cs w. w\<lparr>cw_checkpoint := Some cs\<rparr>) (\<lambda>w. ended (cw_state w))"

lemma claim_start_state:
  assumes "claim_start cfg ev (Some cs) = Some w" and "cc_start_block cfg \<noteq> None"
  shows "cw_state w = \<lparr>cs_pending = pending_new MAX_PENDING_CLAIMS, cs_done = seen_new MAX_DONE_TRACKED, cs_events = []\<rparr>"
    and "cw_checkpoint w = Some cs"
    and "cw_last_seen w \<le> (case cp_get (claim_checkpoint_key (cc_chain_key cfg)) cs of None \<Rightarrow> claim_base cfg | Some n \<Rightarrow> n)"
  using assms
  by (auto simp: claim_start_def claim_base_def Let_def sat_sub_le split: prod.splits if_splits option.splits)

interpretation claims: settlement_worker "lock_at B world" "claim_base cfg" K "claim_checkpoint_key (cc_chain_key cfg)"
  "claim_starts cfg world" "claim_ticks B K cfg world" cw_checkpoint "\<lambda>cs w. w\<lparr>cw_checkpoint := Some cs\<rparr>" cw_last_seen
  "\<lambda>w. {tx. pending_contains tx (cs_pending (cw_state w))}" "\<lambda>w. ended (cw_state w)"
  "\<lambda>w. claim_ok world (cw_state w) \<and> client_world_ok world" for B world cfg K
proof unfold_locales
  fix cs w
  assume a: "claim_starts cfg world cs w"
  then obtain ev where s: "claim_start cfg ev (Some cs) = Some w" "cc_start_block cfg \<noteq> None" by (auto simp: claim_starts_def)
  note st = claim_start_state [OF s]
  show "(claim_ok world (cw_state w) \<and> client_world_ok world) \<and> cw_checkpoint w = Some cs \<and> ended (cw_state w) = {}
      \<and> cw_last_seen w \<le> (case cp_get (claim_checkpoint_key (cc_chain_key cfg)) cs of None \<Rightarrow> claim_base cfg | Some n \<Rightarrow> n)"
    using a st by (simp add: claim_starts_def claim_ok_def pending_new_def pending_ok_def queue_blocks_def seen_new_def ended_def)
next
  fix w w' cs got
  assume t: "claim_ticks B K cfg world w w'" and g: "claim_ok world (cw_state w) \<and> client_world_ok world"
    "cw_checkpoint w = Some cs" "cs_synced K cs"
    "owed_in (lock_at B world) (claim_base cfg) (cw_last_seen w)
       ({tx. pending_contains tx (cs_pending (cw_state w))} \<union> ended (cw_state w) \<union> got)"
    "disk_ok (lock_at B world) (claim_base cfg) (claim_checkpoint_key (cc_chain_key cfg)) cs (ended (cw_state w) \<union> got)"
  from t obtain ev where ev: "client_truthful world (cn_logs (cv_node ev))" "w' = claim_tick B K cfg ev w" by (auto simp: claim_ticks_def)
  have "claim_good B K cfg world w got" using g by (simp add: claim_good_def known_set_eq)
  from claim_tick_ok [OF this ev(1)] ev(2)
  show "(claim_ok world (cw_state w') \<and> client_world_ok world)
      \<and> owed_in (lock_at B world) (claim_base cfg) (cw_last_seen w')
          ({tx. pending_contains tx (cs_pending (cw_state w'))} \<union> ended (cw_state w') \<union> got)
      \<and> (\<exists>cs'. cw_checkpoint w' = Some cs' \<and> cs_synced K cs'
           \<and> disk_ok (lock_at B world) (claim_base cfg) (claim_checkpoint_key (cc_chain_key cfg)) cs' (ended (cw_state w') \<union> got))"
    by (simp add: claim_good_def known_set_eq)
qed simp_all

section \<open>Why a lock leaves the queue\<close>

text \<open>
  One settled result: a transaction leaves exactly when its claim was confirmed, is impossible, or
  its proof is not available a day after discovery.
\<close>

lemma settle_claim_leaves:
  assumes "pending_contains tx (cs_pending st)"
  shows "pending_contains tx (cs_pending (settle_claim now (tx, outcome) st)) \<longleftrightarrow>
     \<not> (outcome = Inr Claimed \<or> (\<exists>reason. outcome = Inr (ClaimTerminal reason))
        \<or> outcome = Inr ClaimNotReady \<and> older_than (pending_age tx now (cs_pending st)) (secs 86400))"
  using assms
  by (auto simp: settle_claim_def finish_claim_def MAX_CLAIM_AGE_def split: sum.splits claim_outcome.splits)

lemma settle_claim_other:
  "x \<noteq> tx \<Longrightarrow> pending_contains x (cs_pending (settle_claim now (tx, outcome) st)) = pending_contains x (cs_pending st)"
  by (auto simp: settle_claim_def finish_claim_def split: sum.splits claim_outcome.splits)

lemma settle_claim_age:
  assumes "pending_contains x (cs_pending (settle_claim now r st))"
  shows "pending_age x t (cs_pending (settle_claim now r st)) = pending_age x t (cs_pending st)"
  using assms by (cases r) (auto simp: settle_claim_def finish_claim_def split: sum.splits claim_outcome.splits)

definition ends_claim :: "instant \<Rightarrow> claim_state \<Rightarrow> b256 \<Rightarrow> string + claim_outcome \<Rightarrow> bool" where
  "ends_claim now st tx outcome \<longleftrightarrow> outcome = Inr Claimed \<or> (\<exists>reason. outcome = Inr (ClaimTerminal reason))
     \<or> outcome = Inr ClaimNotReady \<and> older_than (pending_age tx now (cs_pending st)) (secs 86400)"

lemma settle_claims_leave:
  "pending_contains tx (cs_pending st) \<Longrightarrow> \<not> pending_contains tx (cs_pending (fold (settle_claim now) rs st)) \<Longrightarrow>
     \<exists>outcome. (tx, outcome) \<in> set rs \<and> ends_claim now st tx outcome"
proof (induction rs arbitrary: st)
  case (Cons r rs)
  obtain x o' where r: "r = (x, o')" by force
  show ?case
  proof (cases "pending_contains tx (cs_pending (settle_claim now r st))")
    case True
    from Cons.IH [OF True] Cons.prems(2) obtain outcome where "(tx, outcome) \<in> set rs" "ends_claim now (settle_claim now r st) tx outcome"
      by auto
    with settle_claim_age [OF True] show ?thesis by (auto simp: ends_claim_def)
  next
    case False
    with Cons.prems(1) settle_claim_other [of tx x now o' st] r have "x = tx" by auto
    with False Cons.prems(1) settle_claim_leaves [of tx st now o'] r show ?thesis by (auto simp: ends_claim_def)
  qed
qed simp

end
