(* ===== verification/Claim_Theorems.thy ===== *)
theory Claim_Theorems
  imports Claim_Correct
begin

text \<open>The properties of the claim submitter and of the proof client it shares with the ack submitter.\<close>

section \<open>No lock is lost\<close>

text \<open>C7. The claim submitter forgets no lock. Take any history of scans against truthful client nodes, failing
  or succeeding claims, failing checkpoint writes, crashes and restarts, from a configured first block.
  While it runs, every transaction with a \<^verbatim>\<open>Locked\<close> event up to its cursor is queued or was reported as
  claimed, terminal, given up or evicted; and up to the cursor on disk, where a restart may resume, it
  was so reported: a queued lock holds the persisted cursor back below its block.\<close>

theorem claim_no_lock_lost:
  assumes "reach (settle_begins K (claim_checkpoint_key (cc_chain_key cfg))) (claim_step B K cfg world) (SUp w got)"
    and "claim_base cfg < b" and "lock_at B world b tx"
  shows "(b \<le> cw_last_seen w \<longrightarrow> pending_contains tx (cs_pending (cw_state w)) \<or> tx \<in> ended (cw_state w) \<union> got)
    \<and> (\<exists>cs. cw_checkpoint w = Some cs
        \<and> (\<forall>n. cp_get (claim_checkpoint_key (cc_chain_key cfg)) cs = Some n \<and> b \<le> n \<longrightarrow> tx \<in> ended (cw_state w) \<union> got))"
  using claims.no_obligation_lost [OF assms] by simp

definition lock_log :: src_log where
  "lock_log = \<lparr>sl_block_number = Some 1, sl_removed = False, sl_address = 3, sl_tx_hash = Some 4,
     sl_block_hash = Some 6, sl_topics = [], sl_data = []\<rparr>"

definition lock_world :: client_world where
  "lock_world b = (if b = 1 then [lock_log] else [])"

definition lock_node :: claim_node where
  "lock_node = \<lparr>cn_tip = Inr 1, cn_logs = (\<lambda>from_block to_block. Inr (if from_block \<le> 1 \<and> 1 \<le> to_block then [lock_log] else []))\<rparr>"

definition lock_abi :: claim_abi where
  "lock_abi = \<lparr>cb_dec_locked = (\<lambda>_ _. Some \<lparr>lk_recipient = 1, lk_amount = 2, lk_nonce = 3\<rparr>), cb_encode_lock = (\<lambda>_. []),
     cb_keccak = (\<lambda>_. 8), cb_selector = (\<lambda>_. []), cb_from_str = (\<lambda>_. None),
     cb_json = \<lparr>pj_error = (\<lambda>_. None), pj_response = (\<lambda>_. None), pj_reason = (\<lambda>_. None)\<rparr>\<rparr>"

definition lock_config :: claim_config where
  "lock_config = \<lparr>cc_chain_key = 7, cc_confirmation_depth = 0, cc_start_block = Some 1, cc_lookback = 0\<rparr>"

definition lock_try :: claim_try where
  "lock_try = \<lparr>ct_claimed = (\<lambda>_. Inr False), ct_http = Some (422, []), ct_send = Stalled [], ct_done_at = 0\<rparr>"

definition lock_tick :: claim_tick_env where
  "lock_tick = \<lparr>cv_now = 0, cv_dial = None, cv_dial_error = [], cv_node = lock_node, cv_discovered_at = 0, cv_fault = CreateFails,
     cv_tries = (\<lambda>_. lock_try), cv_batch_at = 0, cv_settled_at = 0, cv_end = 0\<rparr>"

definition lock_start :: claim_start_env where
  "lock_start = \<lparr>cx_dial = Some (), cx_signer_ok = True, cx_creditcoin_ok = True, cx_client_ok = True, cx_head = None\<rparr>"

definition no_cp_codec :: cp_codec where
  "no_cp_codec = \<lparr>cp_render = (\<lambda>m. if m = [] then Some [123] else None), cp_parse = (\<lambda>_. Some [])\<rparr>"

definition lock_worker :: claim_worker where
  "lock_worker = \<lparr>cw_last_seen = 0,
     cw_state = \<lparr>cs_pending = pending_new MAX_PENDING_CLAIMS, cs_done = seen_new MAX_DONE_TRACKED, cs_events = []\<rparr>,
     cw_pacer = pacer_default, cw_rpc = \<lparr>rn_provider = Some (), rn_consecutive_failures = 0, rn_rebuilds = 0\<rparr>,
     cw_checkpoint = Some \<lparr>cs_inner = [], cs_files = []\<rparr>, cw_beats = 1, cw_errors = 0, cw_write_failures = 0\<rparr>"

lemma lock_started: "claim_start lock_config lock_start (Some \<lparr>cs_inner = [], cs_files = []\<rparr>) = Some lock_worker"
  by (simp add: claim_start_def lock_start_def rpc_connect_def reconnecting_new_def lock_config_def cp_get_def sat_sub_def lock_worker_def)

lemma lock_min: "min 1 (sat_add 0 CLAIM_MAX_BLOCKS_PER_SCAN) = (1 :: u64)"
  by (simp add: sat_add_def CLAIM_MAX_BLOCKS_PER_SCAN_def min_def)

lemma lock_discovered:
  "\<exists>q. discover_locks lock_abi 0 lock_node 0 (seen_new MAX_DONE_TRACKED) 0 (pending_new MAX_PENDING_CLAIMS, []) = (1, (q, []), Inr ())"
  by (simp add: discover_locks_def lock_node_def sat_sub_def lock_min Let_def queue_lock_def lock_log_def lock_abi_def
      seen_contains_def seen_new_def pending_contains_def pending_new_def pending_insert_def MAX_PENDING_CLAIMS_def)

lemma lock_ticked: "cw_last_seen (claim_tick lock_abi no_cp_codec lock_config lock_tick lock_worker) = 1"
proof -
  obtain q where "discover_locks lock_abi 0 lock_node 0 (seen_new MAX_DONE_TRACKED) 0 (pending_new MAX_PENDING_CLAIMS, []) = (1, (q, []), Inr ())"
    using lock_discovered by blast
  then have "cw_last_seen (fst (claim_discover lock_abi no_cp_codec lock_config lock_tick lock_worker)) = 1"
    by (simp add: claim_discover_def lock_worker_def rpc_connect_def lock_tick_def lock_config_def claim_save_def split: prod.splits)
  moreover have "pacer_deferring (cv_now lock_tick) (cw_pacer lock_worker) = None"
    by (simp add: lock_worker_def pacer_default_def pacer_deferring_def)
  ultimately show ?thesis by (auto simp: claim_tick_def split: prod.splits)
qed

theorem claim_no_lock_lost_witness:
  "\<exists>w. reach (settle_begins no_cp_codec (claim_checkpoint_key (cc_chain_key lock_config)))
        (claim_step lock_abi no_cp_codec lock_config lock_world) (SUp w {})
     \<and> cw_last_seen w = 1 \<and> (pending_contains 4 (cs_pending (cw_state w)) \<or> 4 \<in> ended (cw_state w))"
proof -
  let ?begins = "settle_begins no_cp_codec (claim_checkpoint_key (cc_chain_key lock_config)) :: claim_worker settle_sys \<Rightarrow> bool"
  let ?step = "claim_step lock_abi no_cp_codec lock_config lock_world"
  let ?w = "claim_tick lock_abi no_cp_codec lock_config lock_tick lock_worker"
  have codec: "codec_ok no_cp_codec"
    by (auto simp: codec_ok_def no_cp_codec_def is_blank_def hm_map_values_def split: if_splits)
  have "?begins (SDown (cs_files \<lparr>cs_inner = [], cs_files = []\<rparr>) {})"
    unfolding settle_begins_def
    by (intro conjI exI [of _ "\<lparr>cs_inner = [], cs_files = []\<rparr>"]) (simp_all add: codec cs_synced_def cp_get_def)
  then have r0: "reach ?begins ?step (SDown [] {})" by (simp add: reach_start)
  have "claim_starts lock_config lock_world \<lparr>cs_inner = [], cs_files = []\<rparr> lock_worker"
    using lock_started by (auto simp: claim_starts_def client_world_ok_def lock_world_def lock_log_def lock_config_def split: if_splits)
  then have s1: "?step (SDown [] {}) () (SUp lock_worker {})"
    by (intro settle_starts [where readable = True]) (auto simp: cp_load_def)
  have "client_truthful lock_world (cn_logs lock_node)"
    by (auto simp: client_truthful_def lock_world_def lock_node_def split: if_splits)
  then have s2: "?step (SUp lock_worker {}) () (SUp ?w {})"
    by (intro settle_ticks) (auto simp: claim_ticks_def lock_tick_def intro!: exI [of _ lock_tick])
  have run: "reach ?begins ?step (SUp ?w {})" using r0 s1 s2 by (meson reach_step)
  have base: "claim_base lock_config < 1" by (simp add: claim_base_def lock_config_def sat_sub_def)
  have lock: "lock_at lock_abi lock_world 1 4" by (simp add: due_def is_lock_def lock_world_def lock_log_def lock_abi_def)
  have "pending_contains 4 (cs_pending (cw_state ?w)) \<or> 4 \<in> ended (cw_state ?w)"
    using claim_no_lock_lost [OF run base lock] lock_ticked by simp
  with run lock_ticked show ?thesis by blast
qed

section \<open>Why a lock leaves the queue\<close>


definition one_lock :: claim_state where
  "one_lock = \<lparr>cs_pending = \<lparr>pq_seen = [(4, \<lparr>pt_first_seen = 0, pt_block = 1, pt_next_attempt_at = 0, pt_transient_attempts = 0, pt_meta = [8]\<rparr>)],
     pq_cap = 2\<rparr>, cs_done = seen_new 2, cs_events = []\<rparr>"


section \<open>Proof responses\<close>

text \<open>The proof client takes a response at its word and no further. It reports a proof exactly for a
  success status with a decodable bundle; a permanent refusal exactly when a client error other than 404
  and 422 says \<^verbatim>\<open>retriable: false\<close> with a code; "not ready" only for 404, 422 or a server error that says
  \<^verbatim>\<open>retriable: true\<close>; everything else is an error, in particular any server error without that word.\<close>

theorem proof_response_classes:
  "(classify_proof_response J status body = Some (ProofReady p) \<longleftrightarrow> is_success status \<and> pj_response J body = Some p)
   \<and> (classify_proof_response J status body = Some (ProofRejected r) \<longleftrightarrow>
        status \<noteq> 404 \<and> status \<noteq> 422 \<and> is_client_error status
        \<and> (\<exists>e c. pj_error J body = Some e \<and> eb_retriable e = Some False \<and> eb_code e = Some c \<and> trim c \<noteq> []
             \<and> r = \<lparr>rj_status = status, rj_code = c, rj_message = unwrap_or [] (eb_message e)\<rparr>))
   \<and> ((\<exists>n. classify_proof_response J status body = Some (ProofNotReady n)) \<longleftrightarrow>
        status = 404 \<or> status = 422
        \<or> is_server_error status \<and> (\<exists>e c. pj_error J body = Some e \<and> eb_retriable e = Some True \<and> eb_code e = Some c \<and> trim c \<noteq> []))"
proof (intro conjI)
  show "classify_proof_response J status body = Some (ProofReady p) \<longleftrightarrow> is_success status \<and> pj_response J body = Some p"
    by (rule ready_iff)
  show "classify_proof_response J status body = Some (ProofRejected r) \<longleftrightarrow>
        status \<noteq> 404 \<and> status \<noteq> 422 \<and> is_client_error status
        \<and> (\<exists>e c. pj_error J body = Some e \<and> eb_retriable e = Some False \<and> eb_code e = Some c \<and> trim c \<noteq> []
             \<and> r = \<lparr>rj_status = status, rj_code = c, rj_message = unwrap_or [] (eb_message e)\<rparr>)"
    unfolding rejected_iff by (auto simp: rejection_def named_def split: option.splits if_splits)
  show "(\<exists>n. classify_proof_response J status body = Some (ProofNotReady n)) \<longleftrightarrow>
        status = 404 \<or> status = 422
        \<or> is_server_error status \<and> (\<exists>e c. pj_error J body = Some e \<and> eb_retriable e = Some True \<and> eb_code e = Some c \<and> trim c \<noteq> [])"
    by (auto simp: classify_proof_response_def retriable_server_error_def named_def Let_def split: option.splits if_splits)
qed

section \<open>A misread block number\<close>

text \<open>
  The text that decides whether a failure is rate limiting contains the block numbers of the
  failed query: a scan that starts at block 429 is read as rate limited whatever the error was.
\<close>

lemma scan_context_misread:
  "error_looks_rate_limited (scan_context 429 500 ''connection refused'')"
proof -
  have d: "decimal 429 = ''429''" "decimal 500 = ''500''" by (code_simp+)
  have "standalone_at (map to_ascii_lower (scan_context 429 500 ''connection refused'')) ''429'' 24"
    by (simp add: scan_context_def d standalone_at_def occurs_at_def to_ascii_lower_def code_of_def is_ascii_alphanumeric_def is_digit_def)
  then show ?thesis
    using standalone_from_iff [of "''429''" 0 "map to_ascii_lower (scan_context 429 500 ''connection refused'')"]
    by (auto simp: error_looks_rate_limited_def Let_def contains_standalone_def)
qed

end
