(* ===== verification/Ack_Routes.thy ===== *)
theory Ack_Routes
  imports Settlement Revert
begin

text \<open>
  Settlement routes of the ack submitter (\<^verbatim>\<open>message-relayer/src/ack/routes.rs\<close>): the history of Outboxes
  an Inbox ever supported, scanned forward and backward to genesis and kept in one file, and the
  resolution of a message to the Outbox that published it and that Outbox's current validator. A
  \<^verbatim>\<open>BTreeSet\<close> is a finite set, iterated in ascending order. The nodes, the ABI codec, keccak and the JSON
  codec are parameters.
\<close>

section \<open>The support history\<close>

definition HISTORY_SCAN_BLOCKS :: u64 where "HISTORY_SCAN_BLOCKS = 2000"

record history =
  hi_inbox :: address
  hi_source_chain_id :: u64
  hi_scanned :: "(u64 \<times> u64) option"
  hi_outboxes :: "address set"

datatype rt_file = RtFile | RtTemp

record rt_codec =
  rc_render :: "history \<Rightarrow> bytes option"
  rc_parse :: "bytes \<Rightarrow> history option"

record route_history =
  rh_files :: "rt_file files option"
  rh_state :: history
  rh_inbox_seeded :: bool
  rh_validator_seeded :: bool

datatype route_error =
    HistoryUnreadable
  | HistoryInvalid
  | HistoryForeign
  | HistoryBadRange
  | HistoryWriteFailed
  | HintFailed
  | HeadFailed
  | RangeFailed
  | NoMessageIds
  | RecordUnreadable
  | ValidatorUnreadable
  | NoValidator
  | ValidatorElsewhere
  | ValidatorOtherChain
  | OutboxUnknown

definition new_history :: "address \<Rightarrow> u64 \<Rightarrow> history" where
  "new_history inbox source_chain_id =
     \<lparr>hi_inbox = inbox, hi_source_chain_id = source_chain_id, hi_scanned = None, hi_outboxes = {}\<rparr>"

definition history_load ::
  "rt_codec \<Rightarrow> bool \<Rightarrow> rt_file files option \<Rightarrow> address \<Rightarrow> u64 \<Rightarrow> route_error + route_history" where
  "history_load H readable files inbox source_chain_id =
     (let wrap = (\<lambda>state. \<lparr>rh_files = files, rh_state = state, rh_inbox_seeded = False, rh_validator_seeded = False\<rparr>) in
      case Option.bind files (\<lambda>fs. hm_get fs RtFile) of
        None \<Rightarrow> Inr (wrap (new_history inbox source_chain_id))
      | Some bs \<Rightarrow>
          if \<not> readable then Inl HistoryUnreadable
          else case rc_parse H bs of
                 None \<Rightarrow> Inl HistoryInvalid
               | Some state \<Rightarrow>
                   if hi_inbox state \<noteq> inbox \<or> hi_source_chain_id state \<noteq> source_chain_id then Inl HistoryForeign
                   else if (case hi_scanned state of None \<Rightarrow> False | Some (from_block, to_block) \<Rightarrow> to_block < from_block)
                   then Inl HistoryBadRange
                   else Inr (wrap state))"

definition history_commit ::
  "rt_codec \<Rightarrow> write_fault \<Rightarrow> history \<Rightarrow> route_history \<Rightarrow> route_history \<times> (route_error + unit)" where
  "history_commit H fault nxt rh =
     (case rh_files rh of
        None \<Rightarrow> (rh\<lparr>rh_state := nxt\<rparr>, Inr ())
      | Some fs \<Rightarrow>
          (case rc_render H nxt of
             None \<Rightarrow> (rh, Inl HistoryWriteFailed)
           | Some bs \<Rightarrow>
               let (fs', ok) = write_atomic fault RtTemp RtFile bs fs;
                   rh' = rh\<lparr>rh_files := Some fs'\<rparr>
               in if ok then (rh'\<lparr>rh_state := nxt\<rparr>, Inr ()) else (rh', Inl HistoryWriteFailed)))"

text \<open>The hints: \<open>None\<close> when the call times out or fails.\<close>

definition history_seed ::
  "rt_codec \<Rightarrow> write_fault \<Rightarrow> address list option \<Rightarrow> route_history \<Rightarrow> route_history \<times> (route_error + unit)" where
  "history_seed H fault supported rh =
     (if rh_inbox_seeded rh then (rh, Inr ())
      else case supported of
             None \<Rightarrow> (rh, Inl HintFailed)
           | Some outboxes \<Rightarrow>
               (case history_commit H fault ((rh_state rh)\<lparr>hi_outboxes := hi_outboxes (rh_state rh) \<union> set outboxes\<rparr>) rh of
                  (rh', Inl e) \<Rightarrow> (rh', Inl e)
                | (rh', Inr _) \<Rightarrow> (rh'\<lparr>rh_inbox_seeded := True\<rparr>, Inr ())))"

definition seed_validator ::
  "rt_codec \<Rightarrow> write_fault \<Rightarrow> address option \<Rightarrow> route_history \<Rightarrow> route_history \<times> (route_error + unit)" where
  "seed_validator H fault bound rh =
     (if rh_validator_seeded rh then (rh, Inr ())
      else case bound of
             None \<Rightarrow> (rh, Inl HintFailed)
           | Some outbox \<Rightarrow>
               if outbox = 0 then (rh\<lparr>rh_validator_seeded := True\<rparr>, Inr ())
               else (case history_commit H fault ((rh_state rh)\<lparr>hi_outboxes := Set.insert outbox (hi_outboxes (rh_state rh))\<rparr>) rh of
                       (rh', Inl e) \<Rightarrow> (rh', Inl e)
                     | (rh', Inr _) \<Rightarrow> (rh'\<lparr>rh_validator_seeded := True\<rparr>, Inr ())))"

section \<open>Reading a range\<close>

record hist_log = src_log +
  hl_tx_index :: "u64 option"
  hl_log_index :: "u64 option"

record hist_receipt =
  hr_tx_hash :: b256
  hr_block_number :: "u64 option"
  hr_block_hash :: "b256 option"
  hr_tx_index :: "u64 option"
  hr_logs :: "hist_log list"

record hist_node =
  hn_head :: "u64 option"
  hn_logs :: "u64 \<Rightarrow> u64 \<Rightarrow> hist_log list option"
  hn_block :: "u64 \<Rightarrow> src_block option option"
  hn_receipts :: "u64 \<Rightarrow> hist_receipt list option option"

record hist_abi =
  ha_signature :: b256
  ha_dec_set :: "b256 list \<Rightarrow> bytes \<Rightarrow> address option"

fun own_logs :: "hist_abi \<Rightarrow> address \<Rightarrow> hist_receipt \<Rightarrow> hist_log list \<Rightarrow> hist_log list option" where
  "own_logs A inbox r [] = Some []"
| "own_logs A inbox r (l # ls) =
     (if sl_block_hash l \<noteq> hr_block_hash r \<or> sl_block_number l \<noteq> hr_block_number r
         \<or> sl_tx_hash l \<noteq> Some (hr_tx_hash r) \<or> hl_tx_index l \<noteq> hr_tx_index r then None
      else map_option (\<lambda>rest. if sl_address l = inbox \<and> sl_topics l \<noteq> [] \<and> hd (sl_topics l) = ha_signature A then l # rest else rest)
             (own_logs A inbox r ls))"

fun receipts_cover ::
  "hist_abi \<Rightarrow> address \<Rightarrow> u64 \<Rightarrow> b256 \<Rightarrow> b256 list \<Rightarrow> b256 set \<Rightarrow> hist_receipt list \<Rightarrow> hist_log list option" where
  "receipts_cover A inbox number block_hash expected seen [] = Some []"
| "receipts_cover A inbox number block_hash expected seen (r # rs) =
     (let expected_hash = (case hr_tx_index r of None \<Rightarrow> None
            | Some i \<Rightarrow> if unat i < length expected then Some (expected ! unat i) else None) in
      if hr_block_number r \<noteq> Some number \<or> hr_block_hash r \<noteq> Some block_hash
         \<or> expected_hash \<noteq> Some (hr_tx_hash r) \<or> hr_tx_hash r \<in> seen then None
      else case own_logs A inbox r (hr_logs r) of
             None \<Rightarrow> None
           | Some ls \<Rightarrow> map_option (\<lambda>rest. ls @ rest)
               (receipts_cover A inbox number block_hash expected (Set.insert (hr_tx_hash r) seen) rs))"

definition fallback_logs :: "hist_abi \<Rightarrow> hist_node \<Rightarrow> address \<Rightarrow> u64 \<Rightarrow> hist_log list option" where
  "fallback_logs A node inbox number =
     (case hn_block node number of
        None \<Rightarrow> None
      | Some None \<Rightarrow> None
      | Some (Some block) \<Rightarrow>
          let expected = sb_transactions block in
          if sb_number block \<noteq> number \<or> sb_hash block = 0 \<or> expected = [] \<or> \<not> distinct expected then None
          else (case hn_receipts node number of
                  None \<Rightarrow> None
                | Some None \<Rightarrow> None
                | Some (Some receipts) \<Rightarrow>
                    if length receipts \<noteq> length expected then None
                    else receipts_cover A inbox number (sb_hash block) expected {} receipts))"

fun log_outboxes :: "hist_abi \<Rightarrow> address \<Rightarrow> u64 \<Rightarrow> u64 \<Rightarrow> hist_log list \<Rightarrow> address set option" where
  "log_outboxes A inbox from_block to_block [] = Some {}"
| "log_outboxes A inbox from_block to_block (l # ls) =
     (if sl_address l \<noteq> inbox then None
      else if sl_removed l
           \<or> (case sl_block_number l of None \<Rightarrow> True | Some b \<Rightarrow> b < from_block \<or> to_block < b)
           \<or> sl_block_hash l = None \<or> sl_tx_hash l = None \<or> hl_tx_index l = None \<or> hl_log_index l = None then None
      else case ha_dec_set A (sl_topics l) (sl_data l) of
             None \<Rightarrow> None
           | Some outbox \<Rightarrow>
               map_option (\<lambda>rest. if outbox \<noteq> 0 then Set.insert outbox rest else rest)
                 (log_outboxes A inbox from_block to_block ls))"

definition read_range :: "hist_abi \<Rightarrow> hist_node \<Rightarrow> address \<Rightarrow> u64 \<Rightarrow> u64 \<Rightarrow> address set option" where
  "read_range A node inbox from_block to_block =
     (case (case hn_logs node from_block to_block of
              Some logs \<Rightarrow> Some logs
            | None \<Rightarrow> if from_block = to_block then fallback_logs A node inbox from_block else None) of
        None \<Rightarrow> None
      | Some logs \<Rightarrow> log_outboxes A inbox from_block to_block logs)"

text \<open>
  The two shrinking loops: forward from the low end, backward from the high end. A range of one
  block that cannot be read ends the loop with the error. The callers never pass an empty range,
  for which the test below, \<^verbatim>\<open>from == to\<close> in the source, ends the loop as well.
\<close>

definition div_ceil2 :: "u64 \<Rightarrow> u64" where
  "div_ceil2 n = n div 2 + (if n mod 2 > 0 then 1 else 0)"

lemma unat_div_ceil2: "unat (div_ceil2 n) = (unat n + 1) div 2"
proof -
  have lt: "unat n < 2 ^ LENGTH(64)" by (rule unsigned_less)
  have m: "unat (n mod 2) = unat n mod 2" "unat (n div 2) = unat n div 2" by (simp_all add: unat_mod unat_div)
  have z: "n mod 2 > 0 \<longleftrightarrow> unat n mod 2 > 0" using m(1) by (simp add: word_less_nat_alt)
  show ?thesis
  proof (cases "unat n mod 2 > 0")
    case True
    with lt m z show ?thesis by (simp add: div_ceil2_def unat_word_ariths) presburger
  next
    case False
    with m z show ?thesis by (simp add: div_ceil2_def) presburger
  qed
qed

function history_scan :: "hist_abi \<Rightarrow> hist_node \<Rightarrow> address \<Rightarrow> u64 \<Rightarrow> u64 \<Rightarrow> (u64 \<times> address set) option" where
  "history_scan A node inbox from_block to_block =
     (case read_range A node inbox from_block to_block of
        Some outboxes \<Rightarrow> Some (to_block, outboxes)
      | None \<Rightarrow>
          if to_block \<le> from_block then None
          else history_scan A node inbox from_block (from_block + (to_block - from_block) div 2))"
  by pat_completeness auto
termination
proof (relation "measure (\<lambda>(_, _, _, from_block, to_block). unat to_block - unat from_block)")
  fix A node inbox from_block to_block
  assume "\<not> to_block \<le> (from_block :: u64)"
  then have lt: "from_block < to_block" by simp
  from halved_range [OF lt] lt
  show "((A, node, inbox, from_block, from_block + (to_block - from_block) div 2), A, node, inbox, from_block, to_block)
      \<in> measure (\<lambda>(_, _, _, from_block, to_block). unat to_block - unat from_block)"
    by (simp add: word_less_nat_alt)
qed simp

declare history_scan.simps [simp del]

lemma raised_range:
  assumes "from_block < (to_block :: u64)"
  shows "unat (from_block + div_ceil2 (to_block - from_block)) = unat from_block + (unat to_block - unat from_block + 1) div 2"
proof -
  have lt: "unat from_block < unat to_block" using assms by (simp add: word_less_nat_alt)
  have "unat to_block < 2 ^ LENGTH(64)" by (rule unsigned_less)
  moreover have u: "unat (div_ceil2 (to_block - from_block)) = (unat to_block - unat from_block + 1) div 2"
    using lt by (simp add: unat_div_ceil2 unat_sub_if')
  ultimately show ?thesis using lt by (simp add: unat_word_ariths)
qed

function history_scan_backwards :: "hist_abi \<Rightarrow> hist_node \<Rightarrow> address \<Rightarrow> u64 \<Rightarrow> u64 \<Rightarrow> (u64 \<times> address set) option" where
  "history_scan_backwards A node inbox from_block to_block =
     (case read_range A node inbox from_block to_block of
        Some outboxes \<Rightarrow> Some (from_block, outboxes)
      | None \<Rightarrow>
          if to_block \<le> from_block then None
          else history_scan_backwards A node inbox (from_block + div_ceil2 (to_block - from_block)) to_block)"
  by pat_completeness auto
termination
proof (relation "measure (\<lambda>(_, _, _, from_block, to_block). unat to_block - unat from_block)")
  fix A node inbox from_block to_block
  assume "\<not> to_block \<le> (from_block :: u64)"
  then have lt: "from_block < to_block" by simp
  from raised_range [OF lt] lt
  show "((A, node, inbox, from_block + div_ceil2 (to_block - from_block), to_block), A, node, inbox, from_block, to_block)
      \<in> measure (\<lambda>(_, _, _, from_block, to_block). unat to_block - unat from_block)"
    by (simp add: word_less_nat_alt)
qed simp

declare history_scan_backwards.simps [simp del]

section \<open>Refreshing the history\<close>

text \<open>The two writes of one refresh have their own faults.\<close>

definition refresh_forward ::
  "hist_abi \<Rightarrow> rt_codec \<Rightarrow> write_fault \<Rightarrow> hist_node \<Rightarrow> u64 \<Rightarrow> u64 \<times> u64 \<Rightarrow> route_history \<Rightarrow> route_history \<times> (route_error + unit)" where
  "refresh_forward A H fault node confirmed scanned rh =
     (let (low, high) = scanned; nxt = rh_state rh in
      if high < confirmed
      then let to_block = min confirmed (sat_add high HISTORY_SCAN_BLOCKS) in
           case history_scan A node (hi_inbox nxt) (high + 1) to_block of
             None \<Rightarrow> (rh, Inl RangeFailed)
           | Some (end_block, outboxes) \<Rightarrow>
               history_commit H fault (nxt\<lparr>hi_outboxes := hi_outboxes nxt \<union> outboxes, hi_scanned := Some (low, end_block)\<rparr>) rh
      else (rh, Inr ()))"

definition refresh_backward ::
  "hist_abi \<Rightarrow> rt_codec \<Rightarrow> write_fault \<Rightarrow> hist_node \<Rightarrow> u64 \<Rightarrow> route_history \<Rightarrow> route_history \<times> (route_error + unit)" where
  "refresh_backward A H fault node low rh =
     (let nxt = rh_state rh in
      if 0 < low
      then let from_block = sat_sub low HISTORY_SCAN_BLOCKS in
           case history_scan_backwards A node (hi_inbox nxt) from_block (low - 1) of
             None \<Rightarrow> (rh, Inl RangeFailed)
           | Some (start, outboxes) \<Rightarrow>
               history_commit H fault (nxt\<lparr>hi_outboxes := hi_outboxes nxt \<union> outboxes,
                 hi_scanned := Some (start, snd (the (hi_scanned nxt)))\<rparr>) rh
      else (rh, Inr ()))"

definition refresh ::
  "hist_abi \<Rightarrow> rt_codec \<Rightarrow> write_fault \<Rightarrow> write_fault \<Rightarrow> hist_node \<Rightarrow> u64 \<Rightarrow> route_history \<Rightarrow> route_history \<times> (route_error + unit)" where
  "refresh A H fault1 fault2 node confirmation_depth rh =
     (case hn_head node of
        None \<Rightarrow> (rh, Inl HeadFailed)
      | Some head \<Rightarrow>
          let confirmed = sat_sub head confirmation_depth; nxt = rh_state rh in
          case hi_scanned nxt of
            Some (low, high) \<Rightarrow>
              (case refresh_forward A H fault1 node confirmed (low, high) rh of
                 (rh', Inl e) \<Rightarrow> (rh', Inl e)
               | (rh', Inr _) \<Rightarrow> refresh_backward A H fault2 node low rh')
          | None \<Rightarrow>
              let from_block = sat_sub confirmed (HISTORY_SCAN_BLOCKS - 1) in
              (case history_scan_backwards A node (hi_inbox nxt) from_block confirmed of
                 None \<Rightarrow> (rh, Inl RangeFailed)
               | Some (start, outboxes) \<Rightarrow>
                   history_commit H fault1 (nxt\<lparr>hi_outboxes := hi_outboxes nxt \<union> outboxes, hi_scanned := Some (start, confirmed)\<rparr>) rh))"

section \<open>Resolving a message\<close>

record outbox_message =
  om_emitter :: address
  om_sequence :: u64
  om_can_ack :: bool
  om_acknowledged :: bool
  om_payload_hash :: b256

record route_abi =
  ra_keccak :: "bytes \<Rightarrow> b256"
  ra_encode :: "address \<Rightarrow> address \<Rightarrow> u64 \<Rightarrow> b256 \<Rightarrow> u256 \<Rightarrow> bytes"
  ra_not_found :: bytes

text \<open>What the source chain answers: records as of the finalized block; \<open>None\<close> is a failed call.\<close>

record ack_node =
  an_message :: "address \<Rightarrow> b256 \<Rightarrow> string + outbox_message"
  an_validator :: "address \<Rightarrow> address option"
  an_outbox :: "address \<Rightarrow> address option"
  an_destination :: "address \<Rightarrow> u64 option"

definition route_message_id :: "route_abi \<Rightarrow> address \<Rightarrow> outbox_message \<Rightarrow> u64 \<Rightarrow> b256" where
  "route_message_id R outbox message source_chain_id =
     ra_keccak R (ra_encode R outbox (om_emitter message) (om_sequence message) (om_payload_hash message) (ucast source_chain_id))"

definition bound_validator :: "ack_node \<Rightarrow> u64 \<Rightarrow> address \<Rightarrow> route_error + address option" where
  "bound_validator node destination_chain_key outbox =
     (case an_validator node outbox of
        None \<Rightarrow> Inl ValidatorUnreadable
      | Some authority \<Rightarrow>
          if authority = 0 then Inl NoValidator
          else (case an_outbox node authority of
                  None \<Rightarrow> Inl ValidatorUnreadable
                | Some ob \<Rightarrow>
                    if ob \<noteq> outbox then Inl ValidatorElsewhere
                    else (case an_destination node authority of
                            None \<Rightarrow> Inl ValidatorUnreadable
                          | Some key \<Rightarrow>
                              if key \<noteq> destination_chain_key then Inl ValidatorOtherChain
                              else Inr (Some authority))))"

fun validator_among ::
  "route_abi \<Rightarrow> ack_node \<Rightarrow> u64 \<Rightarrow> u64 \<Rightarrow> b256 \<Rightarrow> address list \<Rightarrow> bool \<Rightarrow> route_error + address option" where
  "validator_among R node scid dck i [] failed = Inl (if failed then RecordUnreadable else OutboxUnknown)"
| "validator_among R node scid dck i (ob # obs) failed =
     (case an_message node ob i of
        Inl err \<Rightarrow>
          if revert_selector err = Some (ra_not_found R) then validator_among R node scid dck i obs failed
          else validator_among R node scid dck i obs True
      | Inr message \<Rightarrow>
          if om_emitter message = 0 \<or> route_message_id R ob message scid \<noteq> i
          then validator_among R node scid dck i obs failed
          else if om_can_ack message \<and> \<not> om_acknowledged message then bound_validator node dck ob
          else Inr None)"

definition validator_for ::
  "route_abi \<Rightarrow> ack_node \<Rightarrow> u64 \<Rightarrow> u64 \<Rightarrow> address set \<Rightarrow> b256 \<Rightarrow> route_error + address option" where
  "validator_for R node scid dck candidates i = validator_among R node scid dck i (sorted_list_of_set candidates) False"

record resolution =
  rs_authorities :: "address set"
  rs_failure :: "route_error option"

definition get_or_insert :: "'e \<Rightarrow> 'e option \<Rightarrow> 'e option" where
  "get_or_insert e failure = (case failure of None \<Rightarrow> Some e | Some x \<Rightarrow> Some x)"

definition note_validator :: "route_error + address option \<Rightarrow> resolution \<Rightarrow> resolution" where
  "note_validator r res =
     (case r of
        Inr (Some authority) \<Rightarrow> res\<lparr>rs_authorities := Set.insert authority (rs_authorities res)\<rparr>
      | Inr None \<Rightarrow> res
      | Inl e \<Rightarrow> res\<lparr>rs_failure := get_or_insert e (rs_failure res)\<rparr>)"

definition validators ::
  "route_abi \<Rightarrow> ack_node \<Rightarrow> u64 \<Rightarrow> u64 \<Rightarrow> address set \<Rightarrow> b256 list \<Rightarrow> resolution" where
  "validators R node scid dck candidates ids =
     fold (\<lambda>i. note_validator (validator_for R node scid dck candidates i)) ids
       \<lparr>rs_authorities = {}, rs_failure = (if ids = [] then Some NoMessageIds else None)\<rparr>"

section \<open>A resolved message is settled\<close>

text \<open>
  The finalized source state settles a message: some candidate Outbox holds the record the id
  commits to, and that record needs no acknowledgment or has it.
\<close>

definition ack_settled :: "route_abi \<Rightarrow> ack_node \<Rightarrow> u64 \<Rightarrow> address set \<Rightarrow> b256 \<Rightarrow> bool" where
  "ack_settled R node scid candidates i \<longleftrightarrow>
     (\<exists>ob \<in> candidates. \<exists>m. an_message node ob i = Inr m \<and> om_emitter m \<noteq> 0 \<and> route_message_id R ob m scid = i
        \<and> (om_can_ack m \<longrightarrow> om_acknowledged m))"

lemma bound_validator_not_none: "bound_validator node dck ob \<noteq> Inr None"
  by (auto simp: bound_validator_def split: option.splits)

lemma validator_among_none:
  "validator_among R node scid dck i obs failed = Inr None \<Longrightarrow>
     \<exists>ob \<in> set obs. \<exists>m. an_message node ob i = Inr m \<and> om_emitter m \<noteq> 0 \<and> route_message_id R ob m scid = i
        \<and> (om_can_ack m \<longrightarrow> om_acknowledged m)"
proof (induction obs arbitrary: failed)
  case (Cons ob obs)
  then show ?case
    by (auto simp: bound_validator_not_none split: sum.splits if_splits)
qed simp

lemma note_validator_mono:
  "rs_authorities res \<subseteq> rs_authorities (note_validator r res)"
  "rs_failure res \<noteq> None \<Longrightarrow> rs_failure (note_validator r res) \<noteq> None"
  by (auto simp: note_validator_def get_or_insert_def split: sum.splits option.splits)

lemma fold_note_mono:
  "rs_authorities res \<subseteq> rs_authorities (fold (\<lambda>i. note_validator (f i)) ids res)
   \<and> (rs_failure res \<noteq> None \<longrightarrow> rs_failure (fold (\<lambda>i. note_validator (f i)) ids res) \<noteq> None)"
proof (induction ids arbitrary: res)
  case (Cons i ids)
  from Cons.IH [of "note_validator (f i) res"] note_validator_mono [of res "f i"] show ?case by auto
qed simp

lemma fold_note_clear:
  "rs_authorities (fold (\<lambda>i. note_validator (f i)) ids res) = {} \<Longrightarrow>
   rs_failure (fold (\<lambda>i. note_validator (f i)) ids res) = None \<Longrightarrow> i \<in> set ids \<Longrightarrow> f i = Inr None"
proof (induction ids arbitrary: res)
  case (Cons j ids)
  show ?case
  proof (cases "i = j")
    case True
    let ?res = "note_validator (f j) res"
    from Cons.prems fold_note_mono [of ?res f ids] have "rs_authorities ?res = {}" "rs_failure ?res = None" by auto
    with True show ?thesis
      by (auto simp: note_validator_def get_or_insert_def split: sum.splits option.splits)
  next
    case False
    with Cons show ?thesis by simp
  qed
qed simp

lemma validators_clear:
  assumes "rs_authorities (validators R node scid dck candidates ids) = {}"
    and "rs_failure (validators R node scid dck candidates ids) = None" and "finite candidates" and "i \<in> set ids"
  shows "ack_settled R node scid candidates i"
proof -
  have "validator_for R node scid dck candidates i = Inr None"
    using assms(1,2,4) unfolding validators_def
    by (intro fold_note_clear [of "validator_for R node scid dck candidates" ids])
  from validator_among_none [OF this [unfolded validator_for_def]] assms(3) show ?thesis
    by (simp add: ack_settled_def)
qed

section \<open>The history is complete\<close>

text \<open>The Inbox's support events, block by block, and a node whose answers agree with them.\<close>

type_synonym support_world = "u64 \<Rightarrow> hist_log list"

definition support_world_ok :: "hist_abi \<Rightarrow> address \<Rightarrow> support_world \<Rightarrow> bool" where
  "support_world_ok A inbox world \<longleftrightarrow>
     (\<forall>b. \<forall>l \<in> set (world b). sl_address l = inbox \<and> sl_topics l \<noteq> [] \<and> hd (sl_topics l) = ha_signature A)"

definition support_truthful :: "support_world \<Rightarrow> hist_node \<Rightarrow> bool" where
  "support_truthful world node \<longleftrightarrow>
     (\<forall>from_block to_block ls. hn_logs node from_block to_block = Some ls \<longrightarrow>
        (\<forall>b. from_block \<le> b \<and> b \<le> to_block \<longrightarrow> set (world b) \<subseteq> set ls))
     \<and> (\<forall>n rs. hn_receipts node n = Some (Some rs) \<longrightarrow> (\<forall>l \<in> set (world n). \<exists>r \<in> set rs. l \<in> set (hr_logs r)))"

definition supported :: "hist_abi \<Rightarrow> support_world \<Rightarrow> u64 \<Rightarrow> address set" where
  "supported A world b = {ob. ob \<noteq> 0 \<and> (\<exists>l \<in> set (world b). ha_dec_set A (sl_topics l) (sl_data l) = Some ob)}"

definition history_covers :: "hist_abi \<Rightarrow> support_world \<Rightarrow> history \<Rightarrow> bool" where
  "history_covers A world h \<longleftrightarrow>
     (\<forall>low high. hi_scanned h = Some (low, high) \<longrightarrow>
        low \<le> high \<and> (\<forall>b. low \<le> b \<and> b \<le> high \<longrightarrow> supported A world b \<subseteq> hi_outboxes h))"

lemma own_logs_keeps:
  "own_logs A inbox r ls = Some out \<Longrightarrow> l \<in> set ls \<Longrightarrow> sl_address l = inbox \<Longrightarrow> sl_topics l \<noteq> [] \<Longrightarrow>
     hd (sl_topics l) = ha_signature A \<Longrightarrow> l \<in> set out"
  by (induction ls arbitrary: out) (auto split: if_splits)

lemma receipts_cover_keeps:
  "receipts_cover A inbox n bh expected seen rs = Some out \<Longrightarrow> r \<in> set rs \<Longrightarrow> l \<in> set (hr_logs r) \<Longrightarrow>
     sl_address l = inbox \<Longrightarrow> sl_topics l \<noteq> [] \<Longrightarrow> hd (sl_topics l) = ha_signature A \<Longrightarrow> l \<in> set out"
proof (induction rs arbitrary: seen out)
  case (Cons x rs)
  from Cons.prems(1) obtain ls rest where ls: "own_logs A inbox x (hr_logs x) = Some ls" and out: "out = ls @ rest"
    and rest: "receipts_cover A inbox n bh expected (Set.insert (hr_tx_hash x) seen) rs = Some rest"
    by (auto simp: Let_def split: if_splits option.splits)
  show ?case
  proof (cases "r = x")
    case True
    with own_logs_keeps [OF ls] Cons.prems out show ?thesis by simp
  next
    case False
    with Cons.IH [OF rest] Cons.prems out show ?thesis by simp
  qed
qed simp

lemma log_outboxes_keeps:
  "log_outboxes A inbox f t ls = Some S \<Longrightarrow> l \<in> set ls \<Longrightarrow> ha_dec_set A (sl_topics l) (sl_data l) = Some ob \<Longrightarrow> ob \<noteq> 0 \<Longrightarrow> ob \<in> S"
  by (induction ls arbitrary: S) (auto split: if_splits option.splits)

lemma read_range_complete:
  assumes "support_world_ok A inbox world" and "support_truthful world node"
    and "read_range A node inbox f t = Some S" and "f \<le> b" and "b \<le> t"
  shows "supported A world b \<subseteq> S"
proof
  fix ob
  assume "ob \<in> supported A world b"
  then obtain l where l: "l \<in> set (world b)" "ha_dec_set A (sl_topics l) (sl_data l) = Some ob" "ob \<noteq> 0"
    by (auto simp: supported_def)
  from assms(1) l(1) have own: "sl_address l = inbox" "sl_topics l \<noteq> []" "hd (sl_topics l) = ha_signature A"
    by (auto simp: support_world_ok_def)
  have "\<exists>ls. l \<in> set ls \<and> log_outboxes A inbox f t ls = Some S"
  proof (cases "hn_logs node f t")
    case (Some ls)
    with assms(2,4,5) l(1) have "l \<in> set ls" unfolding support_truthful_def by blast
    with Some assms(3) show ?thesis by (auto simp: read_range_def)
  next
    case None
    with assms(3) obtain ls where ls: "f = t" "fallback_logs A node inbox f = Some ls" "log_outboxes A inbox f t ls = Some S"
      by (auto simp: read_range_def split: if_splits option.splits)
    then obtain bh expected rs where rs: "hn_receipts node f = Some (Some rs)" "receipts_cover A inbox f bh expected {} rs = Some ls"
      by (auto simp: fallback_logs_def Let_def split: option.splits if_splits)
    have "b = f" using assms(4,5) ls(1) by simp
    with assms(2) l(1) rs(1) obtain r where "r \<in> set rs" "l \<in> set (hr_logs r)"
      unfolding support_truthful_def by blast
    with receipts_cover_keeps [OF rs(2)] own ls(3) show ?thesis by blast
  qed
  with log_outboxes_keeps l show "ob \<in> S" by blast
qed

lemma history_scan_range:
  "history_scan A node inbox f t = Some (e, S) \<Longrightarrow> f \<le> t \<Longrightarrow> f \<le> e \<and> e \<le> t \<and> read_range A node inbox f e = Some S"
proof (induction A node inbox f t rule: history_scan.induct)
  case (1 A node inbox f t)
  show ?case
  proof (cases "read_range A node inbox f t")
    case (Some x)
    with "1.prems" show ?thesis by (simp add: history_scan.simps [of A node inbox f t])
  next
    case None
    with "1.prems"(1) have lt: "f < t" and rec: "history_scan A node inbox f (f + (t - f) div 2) = Some (e, S)"
      by (auto simp: history_scan.simps [of A node inbox f t] split: if_splits)
    have le: "f \<le> f + (t - f) div 2" "f + (t - f) div 2 \<le> t"
      using halved_range [OF lt] lt by (simp_all add: word_le_nat_alt word_less_nat_alt)
    from lt have "\<not> t \<le> f" by simp
    from "1.IH" [OF None this rec] le show ?thesis by (auto intro: order_trans)
  qed
qed

lemma history_scan_backwards_range:
  "history_scan_backwards A node inbox f t = Some (s, S) \<Longrightarrow> f \<le> t \<Longrightarrow> f \<le> s \<and> s \<le> t \<and> read_range A node inbox s t = Some S"
proof (induction A node inbox f t rule: history_scan_backwards.induct)
  case (1 A node inbox f t)
  show ?case
  proof (cases "read_range A node inbox f t")
    case (Some x)
    with "1.prems" show ?thesis by (simp add: history_scan_backwards.simps [of A node inbox f t])
  next
    case None
    with "1.prems"(1) have lt: "f < t" and rec: "history_scan_backwards A node inbox (f + div_ceil2 (t - f)) t = Some (s, S)"
      by (auto simp: history_scan_backwards.simps [of A node inbox f t] split: if_splits)
    have le: "f \<le> f + div_ceil2 (t - f)" "f + div_ceil2 (t - f) \<le> t"
      using raised_range [OF lt] lt by (simp_all add: word_le_nat_alt word_less_nat_alt)
    from lt have "\<not> t \<le> f" by simp
    from "1.IH" [OF None this rec] le show ?thesis by (auto intro: order_trans)
  qed
qed

text \<open>Memory and file of a route history cover what they claim.\<close>

definition rt_codec_ok :: "rt_codec \<Rightarrow> bool" where
  "rt_codec_ok H \<longleftrightarrow> (\<forall>h bs. rc_render H h = Some bs \<longrightarrow> rc_parse H bs = Some h)"

definition file_covers :: "hist_abi \<Rightarrow> rt_codec \<Rightarrow> support_world \<Rightarrow> rt_file files option \<Rightarrow> bool" where
  "file_covers A H world files \<longleftrightarrow>
     (\<forall>fs bs h. files = Some fs \<and> map_of fs RtFile = Some bs \<and> rc_parse H bs = Some h \<longrightarrow> history_covers A world h)"

definition routes_ok :: "hist_abi \<Rightarrow> rt_codec \<Rightarrow> support_world \<Rightarrow> address \<Rightarrow> route_history \<Rightarrow> bool" where
  "routes_ok A H world inbox rh \<longleftrightarrow> history_covers A world (rh_state rh) \<and> file_covers A H world (rh_files rh)
     \<and> hi_inbox (rh_state rh) = inbox"

lemma history_commit_ok:
  assumes "routes_ok A H world inbox rh" and "rt_codec_ok H" and "history_covers A world nxt" and "hi_inbox nxt = inbox"
    and "history_commit H fault nxt rh = (rh', res)"
  shows "routes_ok A H world inbox rh'" and "res = Inr () \<Longrightarrow> rh_state rh' = nxt" and "res \<noteq> Inr () \<Longrightarrow> rh_state rh' = rh_state rh"
proof -
  have "routes_ok A H world inbox rh' \<and> (if res = Inr () then rh_state rh' = nxt else rh_state rh' = rh_state rh)"
  proof (cases "rh_files rh")
    case None
    with assms show ?thesis by (auto simp: history_commit_def routes_ok_def file_covers_def)
  next
    case (Some fs)
    show ?thesis
    proof (cases "rc_render H nxt")
      case None
      with Some assms show ?thesis by (auto simp: history_commit_def)
    next
      case render: (Some bs)
      let ?fs = "fst (write_atomic fault RtTemp RtFile bs fs)"
      have look: "map_of ?fs RtFile = (if fault = NoFault then Some bs else map_of fs RtFile)"
        by (rule write_atomic_lookup) simp
      have parse: "rc_parse H bs = Some nxt" using assms(2) render by (simp add: rt_codec_ok_def)
      have "file_covers A H world (Some ?fs)"
        using assms(1,3) look parse Some by (auto simp: file_covers_def routes_ok_def split: if_splits)
      moreover have "rh' = (if fault = NoFault then rh\<lparr>rh_files := Some ?fs, rh_state := nxt\<rparr> else rh\<lparr>rh_files := Some ?fs\<rparr>)"
        "res = (if fault = NoFault then Inr () else Inl HistoryWriteFailed)"
        using assms(5) Some render by (auto simp: history_commit_def Let_def split: prod.splits if_splits dest: arg_cong [where f = snd])
      ultimately show ?thesis using assms by (auto simp: routes_ok_def)
    qed
  qed
  then show "routes_ok A H world inbox rh'" and "res = Inr () \<Longrightarrow> rh_state rh' = nxt" and "res \<noteq> Inr () \<Longrightarrow> rh_state rh' = rh_state rh"
    by (auto split: if_splits)
qed

lemma covers_more: "history_covers A world h \<Longrightarrow> hi_outboxes h \<subseteq> S \<Longrightarrow> history_covers A world (h\<lparr>hi_outboxes := S\<rparr>)"
  by (fastforce simp: history_covers_def)

lemma covers_extend:
  assumes "history_covers A world h"
    and "\<And>b. low \<le> b \<Longrightarrow> b \<le> high \<Longrightarrow> (case hi_scanned h of None \<Rightarrow> False | Some (l, u) \<Rightarrow> l \<le> b \<and> b \<le> u) \<or> supported A world b \<subseteq> S"
    and "low \<le> high"
  shows "history_covers A world (h\<lparr>hi_outboxes := hi_outboxes h \<union> S, hi_scanned := Some (low, high)\<rparr>)"
  using assms by (fastforce simp: history_covers_def split: option.splits)

lemma seeds_ok:
  assumes "routes_ok A H world inbox rh" and "rt_codec_ok H"
  shows "routes_ok A H world inbox (fst (history_seed H fault hint rh))"
    and "routes_ok A H world inbox (fst (seed_validator H fault bound rh))"
proof -
  have flag: "routes_ok A H world inbox (rh'\<lparr>rh_inbox_seeded := x\<rparr>) = routes_ok A H world inbox rh'"
    "routes_ok A H world inbox (rh'\<lparr>rh_validator_seeded := x\<rparr>) = routes_ok A H world inbox rh'" for rh' x
    by (simp_all add: routes_ok_def)
  have more: "routes_ok A H world inbox (fst (history_commit H fault ((rh_state rh)\<lparr>hi_outboxes := S\<rparr>) rh))"
    if "hi_outboxes (rh_state rh) \<subseteq> S" for S
  proof -
    obtain rh' res where c: "history_commit H fault ((rh_state rh)\<lparr>hi_outboxes := S\<rparr>) rh = (rh', res)" by force
    have "history_covers A world ((rh_state rh)\<lparr>hi_outboxes := S\<rparr>)" "hi_inbox ((rh_state rh)\<lparr>hi_outboxes := S\<rparr>) = inbox"
      using assms(1) that by (simp_all add: routes_ok_def covers_more)
    from history_commit_ok(1) [OF assms this c] c show ?thesis by simp
  qed
  show "routes_ok A H world inbox (fst (history_seed H fault hint rh))"
    using assms(1) more [of "hi_outboxes (rh_state rh) \<union> set (the hint)"]
    by (auto simp: history_seed_def flag split: option.splits prod.splits sum.splits)
  show "routes_ok A H world inbox (fst (seed_validator H fault bound rh))"
    using assms(1) more [of "Set.insert (the bound) (hi_outboxes (rh_state rh))", OF subset_insertI]
    by (auto simp: seed_validator_def flag split: option.splits prod.splits sum.splits)
qed

text \<open>Each write of a refresh extends the covered range by blocks the node has answered for.\<close>

lemma commit_scanned:
  assumes "routes_ok A H world inbox rh" and "rt_codec_ok H" and "low \<le> high"
    and "\<And>b. low \<le> b \<Longrightarrow> b \<le> high \<Longrightarrow>
           (case hi_scanned (rh_state rh) of None \<Rightarrow> False | Some (l, u) \<Rightarrow> l \<le> b \<and> b \<le> u) \<or> supported A world b \<subseteq> S"
  shows "routes_ok A H world inbox
           (fst (history_commit H fault ((rh_state rh)\<lparr>hi_outboxes := hi_outboxes (rh_state rh) \<union> S, hi_scanned := Some (low, high)\<rparr>) rh))"
    (is "routes_ok A H world inbox (fst (history_commit H fault ?nxt rh))")
proof -
  obtain rh' res where c: "history_commit H fault ?nxt rh = (rh', res)" by (rule prod.exhaust)
  have "history_covers A world ?nxt"
    using assms(1) by (intro covers_extend assms(3,4)) (simp add: routes_ok_def)
  moreover have "hi_inbox ?nxt = inbox" using assms(1) by (simp add: routes_ok_def)
  ultimately show ?thesis using history_commit_ok(1) [OF assms(1,2) _ _ c] c by simp
qed

lemma refresh_forward_ok:
  assumes "support_world_ok A inbox world" and "support_truthful world node" and "rt_codec_ok H"
    and "routes_ok A H world inbox rh" and "hi_scanned (rh_state rh) = Some (low, high)"
  shows "routes_ok A H world inbox (fst (refresh_forward A H fault node confirmed (low, high) rh))"
proof (cases "high < confirmed")
  case False
  then show ?thesis using assms(4) by (simp add: refresh_forward_def)
next
  case True
  let ?to = "min confirmed (sat_add high HISTORY_SCAN_BLOCKS)"
  have ib: "hi_inbox (rh_state rh) = inbox" and lh: "low \<le> high"
    using assms(4,5) by (auto simp: routes_ok_def history_covers_def)
  show ?thesis
  proof (cases "history_scan A node inbox (high + 1) ?to")
    case None
    then show ?thesis using True ib assms(4) by (simp add: refresh_forward_def Let_def)
  next
    case (Some p)
    obtain e S where p: "p = (e, S)" by (rule prod.exhaust)
    have "unat confirmed < 2 ^ LENGTH(64)" by (rule unsigned_less)
    then have "high < sat_add high HISTORY_SCAN_BLOCKS"
      using True by (simp add: word_less_nat_alt unat_sat_add HISTORY_SCAN_BLOCKS_def)
    with True have "high < ?to" by simp
    then have "high + 1 \<le> ?to" using succ_le_less [OF True] by blast
    from history_scan_range [OF Some [unfolded p] this]
    have e: "high + 1 \<le> e" "read_range A node inbox (high + 1) e = Some S" by auto
    have "high \<le> e" using e(1) succ_le_less [OF True] by (simp add: less_imp_le)
    have "routes_ok A H world inbox (fst (history_commit H fault
        ((rh_state rh)\<lparr>hi_outboxes := hi_outboxes (rh_state rh) \<union> S, hi_scanned := Some (low, e)\<rparr>) rh))"
    proof (rule commit_scanned [OF assms(4,3)])
      show "low \<le> e" using lh \<open>high \<le> e\<close> by (rule order_trans)
      fix b
      assume b: "low \<le> b" "b \<le> e"
      show "(case hi_scanned (rh_state rh) of None \<Rightarrow> False | Some (l, u) \<Rightarrow> l \<le> b \<and> b \<le> u) \<or> supported A world b \<subseteq> S"
      proof (cases "b \<le> high")
        case below: True
        with b assms(5) show ?thesis by simp
      next
        case False
        then have "high + 1 \<le> b" using succ_le_less [OF True] by simp
        from read_range_complete [OF assms(1,2) e(2) this b(2)] show ?thesis ..
      qed
    qed
    then show ?thesis using True ib Some p by (simp add: refresh_forward_def Let_def)
  qed
qed

lemma refresh_backward_ok:
  assumes "support_world_ok A inbox world" and "support_truthful world node" and "rt_codec_ok H"
    and "routes_ok A H world inbox rh" and "hi_scanned (rh_state rh) = Some (low, high)"
  shows "routes_ok A H world inbox (fst (refresh_backward A H fault node low rh))"
proof (cases "0 < low")
  case False
  then show ?thesis using assms(4) by (simp add: refresh_backward_def)
next
  case True
  let ?from = "sat_sub low HISTORY_SCAN_BLOCKS"
  have ib: "hi_inbox (rh_state rh) = inbox" and lh: "low \<le> high"
    using assms(4,5) by (auto simp: routes_ok_def history_covers_def)
  have pred: "unat (low - 1) = unat low - 1" using True by (simp add: unat_sub_if' word_less_nat_alt)
  show ?thesis
  proof (cases "history_scan_backwards A node inbox ?from (low - 1)")
    case None
    then show ?thesis using True ib assms(4) by (simp add: refresh_backward_def Let_def)
  next
    case (Some p)
    obtain e S where p: "p = (e, S)" by (rule prod.exhaust)
    have "?from \<le> low - 1"
      using True by (simp add: word_le_nat_alt pred unat_sat_sub HISTORY_SCAN_BLOCKS_def)
    from history_scan_backwards_range [OF Some [unfolded p] this]
    have e: "e \<le> low - 1" "read_range A node inbox e (low - 1) = Some S" by auto
    have "e \<le> low" using e(1) by (simp add: word_le_nat_alt pred)
    have "routes_ok A H world inbox (fst (history_commit H fault
        ((rh_state rh)\<lparr>hi_outboxes := hi_outboxes (rh_state rh) \<union> S, hi_scanned := Some (e, high)\<rparr>) rh))"
    proof (rule commit_scanned [OF assms(4,3)])
      show "e \<le> high" using \<open>e \<le> low\<close> lh by (rule order_trans)
      fix b
      assume b: "e \<le> b" "b \<le> high"
      show "(case hi_scanned (rh_state rh) of None \<Rightarrow> False | Some (l, u) \<Rightarrow> l \<le> b \<and> b \<le> u) \<or> supported A world b \<subseteq> S"
      proof (cases "low \<le> b")
        case True
        with b assms(5) show ?thesis by simp
      next
        case False
        then have "b \<le> low - 1" by (simp add: word_le_nat_alt pred)
        from read_range_complete [OF assms(1,2) e(2) b(1) this] show ?thesis ..
      qed
    qed
    then show ?thesis using True ib Some p assms(5) by (simp add: refresh_backward_def Let_def)
  qed
qed

lemma refresh_forward_low:
  assumes "refresh_forward A H fault node confirmed (low, high) rh = (rh', Inr ())"
    and "hi_scanned (rh_state rh) = Some (low, high)"
  shows "\<exists>e. hi_scanned (rh_state rh') = Some (low, e)"
  using assms
  by (auto simp: refresh_forward_def history_commit_def Let_def split: if_splits option.splits prod.splits)

lemma refresh_ok:
  assumes "support_world_ok A inbox world" and "support_truthful world node" and "rt_codec_ok H"
    and "routes_ok A H world inbox rh"
  shows "routes_ok A H world inbox (fst (refresh A H fault1 fault2 node depth rh))"
proof (cases "hn_head node")
  case None
  then show ?thesis using assms(4) by (simp add: refresh_def)
next
  case head: (Some head)
  let ?confirmed = "sat_sub head depth"
  have ib: "hi_inbox (rh_state rh) = inbox" using assms(4) by (simp add: routes_ok_def)
  show ?thesis
  proof (cases "hi_scanned (rh_state rh)")
    case (Some range)
    obtain low high where lh: "range = (low, high)" by (rule prod.exhaust)
    with Some have sc: "hi_scanned (rh_state rh) = Some (low, high)" by simp
    obtain rh' res where f: "refresh_forward A H fault1 node ?confirmed (low, high) rh = (rh', res)" by (rule prod.exhaust)
    from refresh_forward_ok [OF assms sc, of fault1 ?confirmed] f have ok: "routes_ok A H world inbox rh'" by simp
    show ?thesis
    proof (cases res)
      case (Inl e)
      with head sc f ok show ?thesis by (simp add: refresh_def Let_def)
    next
      case (Inr u)
      with f have "refresh_forward A H fault1 node ?confirmed (low, high) rh = (rh', Inr ())" by simp
      from refresh_forward_low [OF this sc] obtain e where "hi_scanned (rh_state rh') = Some (low, e)" ..
      from refresh_backward_ok [OF assms(1-3) ok this] head sc f Inr show ?thesis by (simp add: refresh_def Let_def)
    qed
  next
    case None
    let ?from = "sat_sub ?confirmed (HISTORY_SCAN_BLOCKS - 1)"
    show ?thesis
    proof (cases "history_scan_backwards A node inbox ?from ?confirmed")
      case none: None
      then show ?thesis using head None ib assms(4) by (simp add: refresh_def Let_def)
    next
      case (Some p)
      obtain e S where p: "p = (e, S)" by (rule prod.exhaust)
      from history_scan_backwards_range [OF Some [unfolded p] sat_sub_le]
      have e: "e \<le> ?confirmed" "read_range A node inbox e ?confirmed = Some S" by auto
      have "routes_ok A H world inbox (fst (history_commit H fault1
          ((rh_state rh)\<lparr>hi_outboxes := hi_outboxes (rh_state rh) \<union> S, hi_scanned := Some (e, ?confirmed)\<rparr>) rh))"
        using read_range_complete [OF assms(1,2) e(2)] by (intro commit_scanned [OF assms(4,3) e(1)]) blast
      then show ?thesis using head None ib Some p by (simp add: refresh_def Let_def)
    qed
  qed
qed

lemma history_load_ok:
  assumes "file_covers A H world files" and "history_load H readable files inbox scid = Inr rh"
  shows "routes_ok A H world inbox rh" and "rh_files rh = files"
proof -
  show "routes_ok A H world inbox rh"
  proof (cases "Option.bind files (\<lambda>fs. hm_get fs RtFile)")
    case None
    with assms show ?thesis
      by (auto simp: history_load_def routes_ok_def new_history_def history_covers_def)
  next
    case (Some bs)
    then obtain fs where fs: "files = Some fs" "map_of fs RtFile = Some bs" by (auto simp: bind_eq_Some_conv)
    from assms(2) Some obtain st where st: "rc_parse H bs = Some st" "hi_inbox st = inbox"
      "rh = \<lparr>rh_files = files, rh_state = st, rh_inbox_seeded = False, rh_validator_seeded = False\<rparr>"
      by (auto simp: history_load_def Let_def split: if_splits option.splits)
    with assms(1) fs show ?thesis unfolding routes_ok_def file_covers_def by auto
  qed
  show "rh_files rh = files"
    using assms(2) by (auto simp: history_load_def Let_def split: if_splits option.splits)
qed

end
