(* ===== verification/Ack.thy ===== *)
theory Ack
  imports Ack_Routes Pacing Proofgen
begin

text \<open>
  The acknowledgment submitter (\<^verbatim>\<open>message-relayer/src/ack/mod.rs\<close>): it discovers delivery events on the
  destination Inbox, fetches a proof of each transaction and settles it on the source chain: an
  acknowledgment with the validator of every Outbox concerned and, with a fee ledger, a claim per
  message. Nodes, proof server and broadcast slot answer through an environment; the metrics a
  settlement reports and the transactions it finishes are lists of events.
\<close>

section \<open>Constants and types\<close>

definition ACK_MAX_ENCODED_TRANSACTION_BYTES :: nat where "ACK_MAX_ENCODED_TRANSACTION_BYTES = 500000"
definition MAX_PENDING_ACKS :: nat where "MAX_PENDING_ACKS = 10000"
definition ACK_MAX_DONE_TRACKED :: nat where "ACK_MAX_DONE_TRACKED = 10000"
definition MAX_ACKS_PER_TICK :: nat where "MAX_ACKS_PER_TICK = 256"
definition ACK_MAX_BLOCKS_PER_SCAN :: u64 where "ACK_MAX_BLOCKS_PER_SCAN = 2000"

type_synonym u128 = "128 word"

record delivery_event =
  de_message_id :: b256
  de_executed :: bool

datatype settlement_mode = AckOnly | AckAndClaim address b256

datatype ack_outcome =
    Acknowledged
  | AckNotReady proof_not_ready
  | AckRejected proof_rejected
  | AckTerminal string

datatype submit_outcome =
    Confirmed u128 u128 u128 b256
  | SubmitTerminal string

datatype ack_error =
    RouteFailed route_error
  | LedgerUnreadable
  | ProofFailed
  | BadProofBundle
  | SubmitFailed string
  | StillUnacknowledged
  | FeesUnsettled
  | AlsoNotReady ack_error proof_not_ready
  | AlsoRejected ack_error proof_rejected

datatype proof_metric = MReady | MNotReady | MRejected | MError
datatype settlement_metric = MConfirmed | MTerminal | MFailed | MNothingToSettle
datatype ack_metric = ProofFetched proof_metric | AckSubmission settlement_metric | ClaimSubmission settlement_metric

datatype delivery_kind = MessageReceived | MessageQueued | MessageDeferred | MessageExecuted

record ack_abi =
  ab_route :: route_abi
  ab_signature :: "delivery_kind \<Rightarrow> b256"
  ab_dec :: "delivery_kind \<Rightarrow> b256 list \<Rightarrow> bytes \<Rightarrow> string + b256"
  ab_selector :: "string \<Rightarrow> bytes"
  ab_from_str :: "string \<Rightarrow> b256 option"
  ab_encode_inclusion :: "bytes \<Rightarrow> merkle_proof_entry list \<Rightarrow> bytes"
  ab_json :: proof_json

section \<open>Discovery\<close>

definition decode_delivery_log :: "ack_abi \<Rightarrow> src_log \<Rightarrow> string + (delivery_kind \<times> b256) option" where
  "decode_delivery_log B l =
     (let decode = (\<lambda>kind. case ab_dec B kind (sl_topics l) (sl_data l) of
                             Inl err \<Rightarrow> Inl err
                           | Inr message_id \<Rightarrow> Inr (Some (kind, message_id)))
      in case sl_topics l of
           [] \<Rightarrow> Inr None
         | sig # _ \<Rightarrow>
             if sig = ab_signature B MessageReceived then decode MessageReceived
             else if sig = ab_signature B MessageQueued then decode MessageQueued
             else if sig = ab_signature B MessageDeferred then decode MessageDeferred
             else if sig = ab_signature B MessageExecuted then decode MessageExecuted
             else Inr None)"

type_synonym delivery = "b256 \<times> u64 \<times> delivery_kind \<times> b256"

fun decode_deliveries :: "ack_abi \<Rightarrow> address \<Rightarrow> u64 \<Rightarrow> u64 \<Rightarrow> src_log list \<Rightarrow> string + delivery list" where
  "decode_deliveries B inbox from_block to_block [] = Inr []"
| "decode_deliveries B inbox from_block to_block (l # ls) =
     (if sl_address l \<noteq> inbox \<or> sl_removed l then Inl ''delivery RPC returned a removed log or a different Inbox''
      else case sl_tx_hash l of
             None \<Rightarrow> Inl ''delivery log without transaction hash''
           | Some tx_hash \<Rightarrow>
               (case sl_block_number l of
                  None \<Rightarrow> Inl ''delivery log without block number''
                | Some block \<Rightarrow>
                    if block < from_block \<or> to_block < block
                    then Inl ''delivery RPC returned a log outside the requested range''
                    else (case decode_delivery_log B l of
                            Inl err \<Rightarrow> Inl (''decoding delivery log: '' @ err)
                          | Inr decoded \<Rightarrow>
                              (case decode_deliveries B inbox from_block to_block ls of
                                 Inl err \<Rightarrow> Inl err
                               | Inr rest \<Rightarrow>
                                   Inr (case decoded of
                                          None \<Rightarrow> rest
                                        | Some (kind, message_id) \<Rightarrow> (tx_hash, block, kind, message_id) # rest)))))"

type_synonym admission = "delivery_event pending_txs \<times> u64 option"

definition admit_delivery :: "instant \<Rightarrow> bounded_seen \<Rightarrow> delivery \<Rightarrow> admission \<Rightarrow> admission" where
  "admit_delivery now finished d st =
     (let (tx_hash, block, kind, message_id) = d;
          (pending, first_unadmitted) = st;
          event = \<lparr>de_message_id = message_id, de_executed = (kind = MessageExecuted)\<rparr>
      in if seen_contains tx_hash finished then st
         else if pending_contains tx_hash pending then (note_meta tx_hash event pending, first_unadmitted)
         else if pending_is_full pending
         then (pending, Some (case first_unadmitted of None \<Rightarrow> block | Some old \<Rightarrow> min old block))
         else (fst (pending_insert tx_hash now block [event] pending), first_unadmitted))"

record ack_dest_node =
  ad_tip :: "string + u64"
  ad_logs :: "u64 \<Rightarrow> u64 \<Rightarrow> string + src_log list"

definition ack_scan_context :: "u64 \<Rightarrow> u64 \<Rightarrow> string \<Rightarrow> string" where
  "ack_scan_context from_block to_block err =
     ''eth_getLogs MessageReceived/MessageQueued/MessageDeferred/MessageExecuted from '' @ decimal (unat from_block)
     @ '' to '' @ decimal (unat to_block) @ '' failed: '' @ err"

definition discover_delivered ::
  "ack_abi \<Rightarrow> address \<Rightarrow> u64 \<Rightarrow> ack_dest_node \<Rightarrow> instant \<Rightarrow> bounded_seen \<Rightarrow> u64 \<Rightarrow> delivery_event pending_txs
    \<Rightarrow> u64 \<times> delivery_event pending_txs \<times> (string + unit)" where
  "discover_delivered B inbox confirmation_depth node now finished last_seen pending =
     (case ad_tip node of
        Inl err \<Rightarrow> (last_seen, pending, Inl err)
      | Inr tip \<Rightarrow>
          let confirmed = sat_sub tip confirmation_depth in
          if confirmed \<le> last_seen then (last_seen, pending, Inr ())
          else
            let from_block = last_seen + 1;
                to_block = min confirmed (sat_add last_seen ACK_MAX_BLOCKS_PER_SCAN)
            in (case ad_logs node from_block to_block of
                  Inl err \<Rightarrow> (last_seen, pending, Inl (ack_scan_context from_block to_block err))
                | Inr logs \<Rightarrow>
                    (case decode_deliveries B inbox from_block to_block logs of
                       Inl err \<Rightarrow> (last_seen, pending, Inl err)
                     | Inr decoded \<Rightarrow>
                         let (pending', first_unadmitted) = fold (admit_delivery now finished) decoded (pending, None)
                         in (case first_unadmitted of None \<Rightarrow> to_block | Some block \<Rightarrow> sat_sub block 1, pending', Inr ()))))"

section \<open>Submissions\<close>

datatype ack_receipt =
    ReceiptTimeout
  | ReceiptError string
  | Receipt bool u64 u128 b256

datatype ack_broadcast = BroadcastStalled string | Broadcast "string + ack_receipt"

definition ack_errors :: "string list" where
  "ack_errors = [''MessageCannotBeAcknowledged'', ''MessageAlreadyAcknowledged'', ''MessageNotFound'', ''ProofInvalid'',
     ''NoMessageExecutedLogs'', ''RelayAlreadySettled'', ''UnknownOperation'']"

definition ack_revert_name :: "ack_abi \<Rightarrow> bytes \<Rightarrow> string option" where
  "ack_revert_name B sel = find (\<lambda>name. sel = ab_selector B name) ack_errors"

definition is_terminal_revert :: "ack_abi \<Rightarrow> string \<Rightarrow> bool" where
  "is_terminal_revert B s =
     (if revert_selector s = Some (ab_selector B ''NativeTransferFailed'') \<or> contains_sub ''NativeTransferFailed'' s then False
      else is_revert s
        \<or> contains_sub ''AlreadyAcknowledged'' s \<or> contains_sub ''CannotBeAcknowledged'' s
        \<or> contains_sub ''DoesNotRequireAck'' s \<or> contains_sub ''MessageNotFound'' s
        \<or> contains_sub ''ProofInvalid'' s \<or> contains_sub ''NoMessageExecutedLogs'' s
        \<or> contains_sub ''RelayAlreadySettled'' s \<or> contains_sub ''UnknownOperation'' s)"

definition ack_describe_revert :: "ack_abi \<Rightarrow> string \<Rightarrow> string" where
  "ack_describe_revert B s =
     (case Option.bind (revert_selector s) (ack_revert_name B) of
        Some name \<Rightarrow> name @ '': '' @ s
      | None \<Rightarrow> s)"

definition classify_submit :: "ack_abi \<Rightarrow> string \<Rightarrow> string + ack_receipt \<Rightarrow> ack_error + submit_outcome" where
  "classify_submit B call pending_tx =
     (case pending_tx of
        Inr ReceiptTimeout \<Rightarrow> Inl (SubmitFailed (''no receipt within 120s ('' @ call @ '' tx possibly stuck)''))
      | Inr (Receipt True gas price tx) \<Rightarrow>
          Inr (Confirmed (ucast gas) price (sat_mul (ucast gas) price) tx)
      | Inr (Receipt False _ _ _) \<Rightarrow> Inr (SubmitTerminal ''tx mined but reverted'')
      | Inr (ReceiptError err) \<Rightarrow> Inl (SubmitFailed (''receipt fetch failed: '' @ err))
      | Inl err \<Rightarrow>
          if is_terminal_revert B err then Inr (SubmitTerminal (ack_describe_revert B err))
          else Inl (SubmitFailed (call @ '' send failed: '' @ err)))"

type_synonym settling = "ack_metric list \<times> ack_error option"

text \<open>One submission of either loop: a stall and a transient failure keep the first failure seen.\<close>

definition note_submission ::
  "ack_abi \<Rightarrow> (settlement_metric \<Rightarrow> ack_metric) \<Rightarrow> string \<Rightarrow> ack_broadcast \<Rightarrow> settling \<Rightarrow> settling" where
  "note_submission B metric call sent st =
     (let (ms, failure) = st in
      case sent of
        BroadcastStalled s \<Rightarrow> (ms @ [metric MFailed], get_or_insert (SubmitFailed (call @ '' '' @ s)) failure)
      | Broadcast pending_tx \<Rightarrow>
          (case classify_submit B call pending_tx of
             Inr (Confirmed _ _ _ _) \<Rightarrow> (ms @ [metric MConfirmed], failure)
           | Inr (SubmitTerminal _) \<Rightarrow> (ms @ [metric MTerminal], failure)
           | Inl err \<Rightarrow> (ms @ [metric MFailed], get_or_insert err failure)))"

section \<open>One transaction\<close>

text \<open>
  The source chain before and after the submissions: what it answers about messages, and the fee
  ledger's payer and settlement flag of a message; \<open>None\<close> is a failed call.
\<close>

record ack_try =
  at_node :: ack_node
  at_ledger :: "b256 \<Rightarrow> (address \<times> bool) option"
  at_http :: "(nat \<times> string) option"
  at_ack :: "address \<Rightarrow> ack_broadcast"
  at_claim :: "b256 \<Rightarrow> ack_broadcast"
  at_node_after :: ack_node
  at_ledger_after :: "b256 \<Rightarrow> (address \<times> bool) option"
  at_done_at :: nat

fun relay_claimable_ids :: "(b256 \<Rightarrow> (address \<times> bool) option) \<Rightarrow> b256 list \<Rightarrow> b256 list option" where
  "relay_claimable_ids ledger [] = Some []"
| "relay_claimable_ids ledger (i # ids) =
     (case ledger i of
        None \<Rightarrow> None
      | Some (payer, settled) \<Rightarrow>
          map_option (\<lambda>rest. if payer \<noteq> 0 \<and> \<not> settled then i # rest else rest) (relay_claimable_ids ledger ids))"

definition message_ids :: "delivery_event list \<Rightarrow> b256 list" where
  "message_ids events = sorted_list_of_set (de_message_id ` {e \<in> set events. \<not> de_executed e})"

definition executed_ids :: "delivery_event list \<Rightarrow> b256 list" where
  "executed_ids events = sorted_list_of_set (de_message_id ` {e \<in> set events. de_executed e})"

definition claim_ids :: "settlement_mode \<Rightarrow> (b256 \<Rightarrow> (address \<times> bool) option) \<Rightarrow> b256 list \<Rightarrow> b256 list" where
  "claim_ids mode ledger ids =
     (case mode of
        AckOnly \<Rightarrow> []
      | AckAndClaim _ _ \<Rightarrow> (case relay_claimable_ids ledger ids of Some claimable \<Rightarrow> claimable | None \<Rightarrow> ids))"

definition ack_routes :: "ack_abi \<Rightarrow> ack_node \<Rightarrow> u64 \<Rightarrow> u64 \<Rightarrow> address set \<Rightarrow> b256 list \<Rightarrow> resolution" where
  "ack_routes B node scid dck outboxes executed =
     (if executed = [] then \<lparr>rs_authorities = {}, rs_failure = None\<rparr>
      else validators (ab_route B) node scid dck outboxes executed)"

text \<open>The submissions; each converts the proof again, and a bundle that does not convert ends the attempt.\<close>

definition ack_submit ::
  "ack_abi \<Rightarrow> settlement_mode \<Rightarrow> ack_try \<Rightarrow> single_continuity \<Rightarrow> address list \<Rightarrow> b256 list \<Rightarrow> settling \<Rightarrow> settling \<times> bool" where
  "ack_submit B mode t proof authorities ids st =
     (let converts = to_inclusion_and_continuity (ab_from_str B) (ab_encode_inclusion B) proof \<noteq> None in
      if authorities \<noteq> [] \<and> \<not> converts then (st, False)
      else let acked = fold (\<lambda>a. note_submission B AckSubmission ''submitAcknowledgment'' (at_ack t a)) authorities st in
           case mode of
             AckOnly \<Rightarrow> (acked, True)
           | AckAndClaim _ _ \<Rightarrow>
               if ids \<noteq> [] \<and> \<not> converts then (acked, False)
               else (fold (\<lambda>i. note_submission B ClaimSubmission ''claimDelivery'' (at_claim t i)) ids acked, True))"

text \<open>Only source state releases a transaction.\<close>

definition ack_verify ::
  "ack_abi \<Rightarrow> settlement_mode \<Rightarrow> u64 \<Rightarrow> u64 \<Rightarrow> address set \<Rightarrow> ack_try \<Rightarrow> b256 list \<Rightarrow> b256 list \<Rightarrow> ack_error option \<Rightarrow> ack_error option" where
  "ack_verify B mode scid dck outboxes t executed ids failure =
     (let failure1 =
            (if executed = [] then failure
             else let remaining = validators (ab_route B) (at_node_after t) scid dck outboxes executed;
                      f1 = (case rs_failure remaining of None \<Rightarrow> failure | Some e \<Rightarrow> get_or_insert (RouteFailed e) failure)
                  in if rs_authorities remaining \<noteq> {} then get_or_insert StillUnacknowledged f1 else f1)
      in case mode of
           AckOnly \<Rightarrow> failure1
         | AckAndClaim _ _ \<Rightarrow>
             (case relay_claimable_ids (at_ledger_after t) ids of
                None \<Rightarrow> get_or_insert LedgerUnreadable failure1
              | Some remaining \<Rightarrow> if remaining \<noteq> [] then get_or_insert FeesUnsettled failure1 else failure1))"

definition failed_metrics :: "bool \<Rightarrow> b256 list \<Rightarrow> ack_metric list" where
  "failed_metrics needs_ack ids =
     (if needs_ack then [AckSubmission MFailed] else []) @ (if ids \<noteq> [] then [ClaimSubmission MFailed] else [])"

definition settle_with_proof ::
  "ack_abi \<Rightarrow> settlement_mode \<Rightarrow> u64 \<Rightarrow> u64 \<Rightarrow> address set \<Rightarrow> ack_try \<Rightarrow> b256 list \<Rightarrow> b256 list \<Rightarrow> resolution
    \<Rightarrow> single_continuity \<Rightarrow> ack_metric list \<times> (ack_error + ack_outcome)" where
  "settle_with_proof B mode scid dck outboxes t executed ids routes proof =
     (case encoded_transaction proof of
        None \<Rightarrow> ([ProofFetched MReady], Inl BadProofBundle)
      | Some encoded_tx \<Rightarrow>
          if ACK_MAX_ENCODED_TRANSACTION_BYTES < length encoded_tx
          then ([ProofFetched MReady],
                Inr (AckTerminal (''encodedTransaction '' @ decimal (length encoded_tx)
                  @ '' bytes exceeds on-chain max '' @ decimal ACK_MAX_ENCODED_TRANSACTION_BYTES @ '' bytes'')))
          else case ack_submit B mode t proof (sorted_list_of_set (rs_authorities routes)) ids
                      ([ProofFetched MReady], map_option RouteFailed (rs_failure routes)) of
                 ((ms, failure), converted) \<Rightarrow>
                   if \<not> converted then (ms, Inl BadProofBundle)
                   else (ms, case ack_verify B mode scid dck outboxes t executed ids failure of
                               Some err \<Rightarrow> Inl err
                             | None \<Rightarrow> Inr Acknowledged))"

definition acknowledge_tx ::
  "ack_abi \<Rightarrow> settlement_mode \<Rightarrow> u64 \<Rightarrow> u64 \<Rightarrow> address set \<Rightarrow> delivery_event list \<Rightarrow> ack_try
    \<Rightarrow> ack_metric list \<times> (ack_error + ack_outcome)" where
  "acknowledge_tx B mode scid dck outboxes events t =
     (let executed = executed_ids events;
          routes = ack_routes B (at_node t) scid dck outboxes executed;
          needs_ack = (rs_authorities routes \<noteq> {} \<or> rs_failure routes \<noteq> None);
          failure = map_option RouteFailed (rs_failure routes);
          ids = claim_ids mode (at_ledger t) (message_ids events)
      in if ids = [] \<and> rs_authorities routes = {} \<and> failure \<noteq> None then ([], Inl (the failure))
         else if \<not> needs_ack \<and> ids = []
         then (AckSubmission MNothingToSettle # (case mode of AckOnly \<Rightarrow> [] | AckAndClaim _ _ \<Rightarrow> [ClaimSubmission MNothingToSettle]),
               Inr (AckTerminal ''nothing left to settle (no message requires an ack, no unsettled relay fee)''))
         else case proof_by_tx (ab_json B) (at_http t) of
                Some (ProofReady proof) \<Rightarrow> settle_with_proof B mode scid dck outboxes t executed ids routes proof
              | Some (ProofNotReady reason) \<Rightarrow>
                  ([ProofFetched MNotReady],
                   case failure of Some err \<Rightarrow> Inl (AlsoNotReady err reason) | None \<Rightarrow> Inr (AckNotReady reason))
              | Some (ProofRejected reason) \<Rightarrow>
                  (ProofFetched MRejected # failed_metrics needs_ack ids,
                   case failure of Some err \<Rightarrow> Inl (AlsoRejected err reason) | None \<Rightarrow> Inr (AckRejected reason))
              | None \<Rightarrow> (ProofFetched MError # failed_metrics needs_ack ids, Inl ProofFailed))"

section \<open>The queue\<close>

datatype ack_event = DeliverySettled b256 | DeliveryTerminal b256 string

fun ack_event_tx :: "ack_event \<Rightarrow> b256" where
  "ack_event_tx (DeliverySettled tx) = tx"
| "ack_event_tx (DeliveryTerminal tx _) = tx"

record ack_state =
  as_pending :: "delivery_event pending_txs"
  as_done :: bounded_seen
  as_events :: "ack_event list"
  as_metrics :: "ack_metric list"

definition finish_delivery :: "b256 \<Rightarrow> ack_event \<Rightarrow> ack_state \<Rightarrow> ack_state" where
  "finish_delivery tx ev st =
     st\<lparr>as_pending := pending_remove tx (as_pending st), as_done := seen_insert tx (as_done st), as_events := as_events st @ [ev]\<rparr>"

definition settle_delivery :: "not_ready_policy \<Rightarrow> instant \<Rightarrow> b256 \<times> (ack_error + ack_outcome) \<Rightarrow> ack_state \<Rightarrow> ack_state" where
  "settle_delivery policy now r st =
     (let (tx, outcome) = r in
      case outcome of
        Inr Acknowledged \<Rightarrow> finish_delivery tx (DeliverySettled tx) st
      | Inr (AckTerminal reason) \<Rightarrow> finish_delivery tx (DeliveryTerminal tx reason) st
      | Inr (AckNotReady _) \<Rightarrow>
          let waited = unwrap_or 0 (pending_age tx now (as_pending st))
          in st\<lparr>as_pending := pending_defer tx (now + next_delay policy waited) (as_pending st)\<rparr>
      | Inr (AckRejected _) \<Rightarrow> st\<lparr>as_pending := pending_defer tx (now + TRANSIENT_BACKOFF_MAX) (as_pending st)\<rparr>
      | Inl _ \<Rightarrow> st\<lparr>as_pending := fst (record_transient_failure tx now (as_pending st))\<rparr>)"

record ack_config =
  ac_chain_key :: u64
  ac_inbox :: address
  ac_mode :: settlement_mode
  ac_confirmation_depth :: u64
  ac_start_block :: "u64 option"
  ac_lookback :: u64
  ac_policy :: not_ready_policy

text \<open>The attempts of a batch run concurrently and are collected in the order they finish.\<close>

definition ack_results ::
  "ack_abi \<Rightarrow> ack_config \<Rightarrow> u64 \<Rightarrow> address set \<Rightarrow> (b256 \<Rightarrow> ack_try) \<Rightarrow> (b256 \<times> delivery_event list) list
    \<Rightarrow> (b256 \<times> ack_metric list \<times> (ack_error + ack_outcome)) list" where
  "ack_results B cfg scid outboxes tries batch =
     sort_key (\<lambda>(tx, _). at_done_at (tries tx))
       (map (\<lambda>(tx, events). (tx, acknowledge_tx B (ac_mode cfg) scid (ac_chain_key cfg) outboxes events (tries tx))) batch)"

definition ack_process_pending ::
  "ack_abi \<Rightarrow> ack_config \<Rightarrow> u64 \<Rightarrow> address set \<Rightarrow> (b256 \<Rightarrow> ack_try) \<Rightarrow> instant \<Rightarrow> instant \<Rightarrow> ack_state \<Rightarrow> ack_state" where
  "ack_process_pending B cfg scid outboxes tries now later st =
     (let batch = pending_ready MAX_ACKS_PER_TICK now (as_pending st) in
      if batch = [] then st
      else let results = ack_results B cfg scid outboxes tries batch;
               st1 = st\<lparr>as_metrics := as_metrics st @ concat (map (\<lambda>(_, ms, _). ms) results)\<rparr>
           in fold (\<lambda>(tx, _, outcome). settle_delivery (ac_policy cfg) later (tx, outcome)) results st1)"

section \<open>The worker\<close>

record ack_worker =
  aw_last_seen :: u64
  aw_state :: ack_state
  aw_routes :: route_history
  aw_pacer :: rate_limit_pacer
  aw_rpc :: "unit reconnecting"
  aw_checkpoint :: "checkpoint_store option"
  aw_beats :: nat
  aw_errors :: nat
  aw_write_failures :: nat
  aw_queue_depth :: nat

definition ack_checkpoint_key :: "u64 \<Rightarrow> string" where
  "ack_checkpoint_key chain_key = ''ack:'' @ decimal (unat chain_key)"

text \<open>What the two hints return and how their writes go; a tick has a scan of the history as well.\<close>

record hint_env =
  he_supported :: "address list option"
  he_bound :: "address option"
  he_seed_fault :: write_fault
  he_bound_fault :: write_fault

record ack_start_env =
  ax_dial :: "unit option"
  ax_signer_ok :: bool
  ax_creditcoin_ok :: bool
  ax_client_ok :: bool
  ax_chain_id :: "u64 option"
  ax_readable :: bool
  ax_hints :: hint_env
  ax_head :: "u64 option"

definition load_from_source ::
  "rt_codec \<Rightarrow> bool \<Rightarrow> rt_file files option \<Rightarrow> address \<Rightarrow> u64 option \<Rightarrow> route_history option" where
  "load_from_source H readable files inbox chain_id =
     (case chain_id of
        None \<Rightarrow> None
      | Some scid \<Rightarrow> (case history_load H readable files inbox scid of Inl _ \<Rightarrow> None | Inr rh \<Rightarrow> Some rh))"

definition ack_start ::
  "rt_codec \<Rightarrow> ack_config \<Rightarrow> ack_start_env \<Rightarrow> rt_file files option \<Rightarrow> checkpoint_store option \<Rightarrow> ack_worker option" where
  "ack_start H cfg ev route_files checkpoint =
     (let (rpc, provider) = rpc_connect (ax_dial ev) reconnecting_new;
          hints = ax_hints ev
      in if provider = None \<or> \<not> ax_signer_ok ev \<or> \<not> ax_creditcoin_ok ev \<or> \<not> ax_client_ok ev then None
         else case load_from_source H (ax_readable ev) route_files (ac_inbox cfg) (ax_chain_id ev) of
                None \<Rightarrow> None
              | Some routes \<Rightarrow>
                  let routes1 = fst (history_seed H (he_seed_fault hints) (he_supported hints) routes);
                      routes2 = fst (seed_validator H (he_bound_fault hints) (he_bound hints) routes1);
                      cursor = (case Option.bind checkpoint (cp_get (ack_checkpoint_key (ac_chain_key cfg))) of
                                  Some block \<Rightarrow> Some (sat_sub block (ac_lookback cfg))
                                | None \<Rightarrow> (case ac_start_block cfg of
                                             Some start \<Rightarrow> Some (sat_sub start 1)
                                           | None \<Rightarrow> ax_head ev))
                  in map_option (\<lambda>last_seen.
                       \<lparr>aw_last_seen = last_seen,
                        aw_state = \<lparr>as_pending = pending_new MAX_PENDING_ACKS, as_done = seen_new ACK_MAX_DONE_TRACKED,
                          as_events = [], as_metrics = []\<rparr>,
                        aw_routes = routes2, aw_pacer = pacer_default, aw_rpc = rpc, aw_checkpoint = checkpoint,
                        aw_beats = 1, aw_errors = 0, aw_write_failures = 0, aw_queue_depth = 0\<rparr>) cursor)"

record ack_tick_env =
  av_now :: instant
  av_hints :: hint_env
  av_dial :: "unit option"
  av_dial_error :: string
  av_history :: hist_node
  av_forward_fault :: write_fault
  av_backward_fault :: write_fault
  av_node :: ack_dest_node
  av_discovered_at :: instant
  av_fault :: write_fault
  av_tries :: "b256 \<Rightarrow> ack_try"
  av_batch_at :: instant
  av_settled_at :: instant
  av_end :: instant

definition ack_save :: "cp_codec \<Rightarrow> write_fault \<Rightarrow> string \<Rightarrow> ack_worker \<Rightarrow> ack_worker" where
  "ack_save K fault key w =
     (case aw_checkpoint w of
        None \<Rightarrow> w
      | Some cp \<Rightarrow>
          let (cp', ok) = cp_set K fault key (held_back (aw_last_seen w) (as_pending (aw_state w))) cp
          in w\<lparr>aw_checkpoint := Some cp', aw_write_failures := aw_write_failures w + (if ok then 0 else 1)\<rparr>)"

definition ack_refresh_routes ::
  "hist_abi \<Rightarrow> rt_codec \<Rightarrow> ack_config \<Rightarrow> ack_tick_env \<Rightarrow> bool \<Rightarrow> route_history \<Rightarrow> route_history" where
  "ack_refresh_routes A H cfg ev connected routes =
     (let hints = av_hints ev;
          routes1 = fst (seed_validator H (he_bound_fault hints) (he_bound hints) routes)
      in if \<not> connected then routes1
         else fst (refresh A H (av_forward_fault ev) (av_backward_fault ev) (av_history ev) (ac_confirmation_depth cfg)
                    (fst (history_seed H (he_seed_fault hints) (he_supported hints) routes1))))"

definition ack_discover ::
  "ack_abi \<Rightarrow> hist_abi \<Rightarrow> rt_codec \<Rightarrow> cp_codec \<Rightarrow> ack_config \<Rightarrow> ack_tick_env \<Rightarrow> ack_worker \<Rightarrow> ack_worker \<times> bool" where
  "ack_discover B A H K cfg ev w =
     (let (rpc, provider) = rpc_connect (av_dial ev) (aw_rpc w);
          st = aw_state w;
          routes = ack_refresh_routes A H cfg ev (provider \<noteq> None) (aw_routes w);
          (last_seen, pending, res) =
            (if provider = None then (aw_last_seen w, as_pending st, Inl (av_dial_error ev))
             else discover_delivered B (ac_inbox cfg) (ac_confirmation_depth cfg) (av_node ev) (av_discovered_at ev) (as_done st)
                    (aw_last_seen w) (as_pending st));
          w1 = w\<lparr>aw_last_seen := last_seen, aw_state := st\<lparr>as_pending := pending\<rparr>, aw_routes := routes\<rparr>
      in (case res of
            Inr _ \<Rightarrow> (ack_save K (av_fault ev) (ack_checkpoint_key (ac_chain_key cfg))
                        (w1\<lparr>aw_rpc := note_ok rpc, aw_beats := aw_beats w + 1\<rparr>), False)
          | Inl err \<Rightarrow> (w1\<lparr>aw_rpc := fst (note_err rpc), aw_errors := aw_errors w + 1\<rparr>, error_looks_rate_limited err)))"

definition ack_tick ::
  "ack_abi \<Rightarrow> hist_abi \<Rightarrow> rt_codec \<Rightarrow> cp_codec \<Rightarrow> ack_config \<Rightarrow> ack_tick_env \<Rightarrow> ack_worker \<Rightarrow> ack_worker" where
  "ack_tick B A H K cfg ev w =
     (if pacer_deferring (av_now ev) (aw_pacer w) \<noteq> None then w
      else let (w1, rate_limited) = ack_discover B A H K cfg ev w;
               state = rh_state (aw_routes w1);
               st = ack_process_pending B cfg (hi_source_chain_id state) (hi_outboxes state) (av_tries ev)
                      (av_batch_at ev) (av_settled_at ev) (aw_state w1)
           in w1\<lparr>aw_state := st, aw_queue_depth := pending_len (as_pending st),
                 aw_pacer := pacer_after rate_limited (av_end ev) (aw_pacer w1)\<rparr>)"

end
