(* ===== verification/Ack_Correct.thy ===== *)
theory Ack_Correct
  imports Ack
begin

text \<open>
  The ack submitter loses no delivery: an admitted transaction stays queued until the worker reports
  it settled or terminal, an unadmitted one holds the cursor back, and the cursor on disk stays below
  every queued transaction. It reports a transaction settled only on finalized source state.
\<close>

section \<open>Decoding a range\<close>

definition is_delivery :: "ack_abi \<Rightarrow> src_log \<Rightarrow> bool" where
  "is_delivery B l \<longleftrightarrow> (\<exists>d. decode_delivery_log B l = Inr (Some d))"

abbreviation delivery_at :: "ack_abi \<Rightarrow> client_world \<Rightarrow> u64 \<Rightarrow> b256 \<Rightarrow> bool" where
  "delivery_at B world \<equiv> due (is_delivery B) world"

lemma decode_deliveries_Cons:
  assumes "decode_deliveries B inbox f t (x # ls) = Inr ds"
  obtains h b dec rest where "sl_tx_hash x = Some h" "sl_block_number x = Some b" "f \<le> b" "b \<le> t"
    "decode_delivery_log B x = Inr dec" "decode_deliveries B inbox f t ls = Inr rest"
    "ds = (case dec of None \<Rightarrow> rest | Some (k, i) \<Rightarrow> (h, b, k, i) # rest)"
  using assms by (simp add: not_less split: if_splits option.splits sum.splits)

text \<open>A decoded range is exactly the delivery logs of the response, each inside the range.\<close>

lemma decode_deliveries_complete:
  "decode_deliveries B inbox f t ls = Inr ds \<Longrightarrow> l \<in> set ls \<Longrightarrow> is_delivery B l \<Longrightarrow> sl_tx_hash l = Some tx \<Longrightarrow>
     \<exists>b k i. sl_block_number l = Some b \<and> (tx, b, k, i) \<in> set ds"
proof (induction ls arbitrary: ds)
  case (Cons x ls)
  from Cons.prems(1) obtain h b dec rest where x: "sl_tx_hash x = Some h" "sl_block_number x = Some b"
    "decode_delivery_log B x = Inr dec" and rest: "decode_deliveries B inbox f t ls = Inr rest"
    and ds: "ds = (case dec of None \<Rightarrow> rest | Some (k, i) \<Rightarrow> (h, b, k, i) # rest)"
    by (rule decode_deliveries_Cons)
  show ?case
  proof (cases "l = x")
    case True
    with Cons.prems(3) x obtain k i where "dec = Some (k, i)" by (auto simp: is_delivery_def)
    with True Cons.prems(4) x ds have "sl_block_number l = Some b" "(tx, b, k, i) \<in> set ds" by auto
    then show ?thesis by blast
  next
    case False
    with Cons.IH [OF rest] Cons.prems(2-4) obtain b k i where "sl_block_number l = Some b" "(tx, b, k, i) \<in> set rest" by auto
    with ds show ?thesis by (auto split: option.splits)
  qed
qed simp

lemma decode_deliveries_sound:
  "decode_deliveries B inbox f t ls = Inr ds \<Longrightarrow> (tx, b, k, i) \<in> set ds \<Longrightarrow>
     f \<le> b \<and> b \<le> t \<and> (\<exists>l \<in> set ls. sl_tx_hash l = Some tx \<and> sl_block_number l = Some b)"
proof (induction ls arbitrary: ds)
  case (Cons x ls)
  from Cons.prems(1) obtain h b' dec rest where x: "sl_tx_hash x = Some h" "sl_block_number x = Some b'" "f \<le> b'" "b' \<le> t"
    and rest: "decode_deliveries B inbox f t ls = Inr rest"
    and ds: "ds = (case dec of None \<Rightarrow> rest | Some (k, i) \<Rightarrow> (h, b', k, i) # rest)"
    by (rule decode_deliveries_Cons)
  show ?case
  proof (cases "(tx, b, k, i) \<in> set rest")
    case True
    with Cons.IH [OF rest] show ?thesis by auto
  next
    case False
    with Cons.prems(2) ds have "tx = h" "b = b'" by (auto split: option.splits)
    with x show ?thesis by auto
  qed
qed simp

section \<open>Admission\<close>

text \<open>A fully decoded range: each entry is an event of the world at its block.\<close>

definition from_world :: "client_world \<Rightarrow> delivery \<Rightarrow> bool" where
  "from_world world d \<longleftrightarrow> (\<exists>l \<in> set (world (fst (snd d))). sl_tx_hash l = Some (fst d))"

definition queue_fine :: "client_world \<Rightarrow> delivery_event pending_txs \<Rightarrow> bool" where
  "queue_fine world q \<longleftrightarrow> pending_ok q \<and> queue_blocks world q"

text \<open>What holds back the cursor: the least block of a transaction not admitted.\<close>

definition held_at :: "u64 option \<Rightarrow> u64 \<Rightarrow> bool" where
  "held_at first b \<longleftrightarrow> (\<exists>n. first = Some n \<and> n \<le> b)"

lemma pending_not_full_insert:
  assumes "pending_ok q" and "\<not> pending_is_full q" and "\<not> pending_contains tx q"
  shows "pending_insert tx now b m q = (q\<lparr>pq_seen := pq_seen q @ [(tx, \<lparr>pt_first_seen = now, pt_block = b, pt_next_attempt_at = now,
     pt_transient_attempts = 0, pt_meta = m\<rparr>)]\<rparr>, None)"
proof -
  obtain q' ev where ins: "pending_insert tx now b m q = (q', ev)" by (rule prod.exhaust)
  from assms(1) ins show ?thesis
    by (cases rule: pending_insert_cases) (use assms ins in \<open>auto simp: pending_contains_def pending_is_full_def\<close>)
qed

lemma admit_delivery_ok:
  assumes "queue_fine world q" and "from_world world (tx, b, k, i)"
    and "admit_delivery now fin (tx, b, k, i) (q, first) = (q', first')"
  shows "queue_fine world q' \<and> (\<forall>x. pending_contains x q \<longrightarrow> pending_contains x q')
    \<and> (\<forall>n. held_at first n \<longrightarrow> held_at first' n)
    \<and> (seen_contains tx fin \<or> pending_contains tx q' \<or> held_at first' b)"
proof -
  let ?e = "\<lparr>de_message_id = i, de_executed = (k = MessageExecuted)\<rparr>"
  have q: "pending_ok q" "queue_blocks world q" using assms(1) by (simp_all add: queue_fine_def)
  consider (seen) "seen_contains tx fin" | (known) "\<not> seen_contains tx fin" "pending_contains tx q"
    | (full) "\<not> seen_contains tx fin" "\<not> pending_contains tx q" "pending_is_full q"
    | (new) "\<not> seen_contains tx fin" "\<not> pending_contains tx q" "\<not> pending_is_full q" by blast
  then show ?thesis
  proof cases
    case seen
    with assms show ?thesis by (simp add: admit_delivery_def)
  next
    case known
    with assms(3) have "q' = note_meta tx ?e q" "first' = first" by (simp_all add: admit_delivery_def Let_def)
    with known q show ?thesis by (simp add: queue_fine_def pending_ops_ok(2) queue_blocks_ops(1))
  next
    case full
    with assms(3) have "q' = q" "first' = Some (case first of None \<Rightarrow> b | Some old \<Rightarrow> min old b)"
      by (simp_all add: admit_delivery_def Let_def)
    with assms(1) show ?thesis by (auto simp: held_at_def min_le_iff_disj split: option.splits)
  next
    case new
    let ?x = "\<lparr>pt_first_seen = now, pt_block = b, pt_next_attempt_at = now, pt_transient_attempts = 0, pt_meta = [?e]\<rparr>"
    note ins = pending_not_full_insert [OF q(1) new(3,2), of now b "[?e]"]
    with assms(3) new have eq: "q' = q\<lparr>pq_seen := pq_seen q @ [(tx, ?x)]\<rparr>" "first' = first"
      by (simp_all add: admit_delivery_def Let_def)
    have "pending_ok q'" using pending_insert_ok [OF q(1) ins] eq(1) by simp
    moreover have "queue_blocks world q'"
      using q(2) assms(2) by (force simp: eq(1) queue_blocks_def from_world_def)
    ultimately show ?thesis by (auto simp: eq queue_fine_def pending_contains_def)
  qed
qed

lemma admit_deliveries_ok:
  "queue_fine world q \<Longrightarrow> \<forall>d \<in> set ds. from_world world d \<Longrightarrow> fold (admit_delivery now fin) ds (q, first) = (q', first') \<Longrightarrow>
     queue_fine world q' \<and> (\<forall>x. pending_contains x q \<longrightarrow> pending_contains x q') \<and> (\<forall>n. held_at first n \<longrightarrow> held_at first' n)
     \<and> (\<forall>(tx, b, k, i) \<in> set ds. seen_contains tx fin \<or> pending_contains tx q' \<or> held_at first' b)"
proof (induction ds arbitrary: q first)
  case (Cons d ds)
  obtain tx b k i where d: "d = (tx, b, k, i)" by (rule prod_cases4)
  obtain q1 f1 where a: "admit_delivery now fin (tx, b, k, i) (q, first) = (q1, f1)" by (rule prod.exhaust)
  from Cons.prems(2) have "from_world world (tx, b, k, i)" by (simp add: d)
  from admit_delivery_ok [OF Cons.prems(1) this a] have one: "queue_fine world q1"
    "\<forall>x. pending_contains x q \<longrightarrow> pending_contains x q1" "\<forall>n. held_at first n \<longrightarrow> held_at f1 n"
    "seen_contains tx fin \<or> pending_contains tx q1 \<or> held_at f1 b" by auto
  from Cons.prems(3) a have "fold (admit_delivery now fin) ds (q1, f1) = (q', first')" by (simp add: d)
  from Cons.IH [OF one(1) _ this] Cons.prems(2) one show ?case by (auto simp: d)
qed simp

text \<open>The cursor is held at a block of the range.\<close>

lemma admit_first_le:
  assumes "\<forall>(tx, b, k, i) \<in> set ds. b \<le> t" and "\<forall>n. snd st = Some n \<longrightarrow> n \<le> t"
    and "snd (fold (admit_delivery now fin) ds st) = Some n"
  shows "n \<le> t"
  using assms
proof (induction ds arbitrary: st)
  case (Cons d ds)
  obtain tx b k i where d: "d = (tx, b, k, i)" by (rule prod_cases4)
  have "\<forall>n. snd (admit_delivery now fin d st) = Some n \<longrightarrow> n \<le> t"
    using Cons.prems(1,2) by (auto simp: d admit_delivery_def Let_def min_le_iff_disj split: prod.splits if_splits option.splits)
  with Cons show ?case by simp
qed simp

section \<open>Discovery\<close>

definition ack_base :: "ack_config \<Rightarrow> u64" where
  "ack_base cfg = (case ac_start_block cfg of None \<Rightarrow> 0 | Some start \<Rightarrow> sat_sub start 1)"

definition ack_ended :: "ack_state \<Rightarrow> b256 set" where
  "ack_ended st = ack_event_tx ` set (as_events st)"

definition ack_known :: "ack_state \<Rightarrow> b256 set" where
  "ack_known st = {tx. pending_contains tx (as_pending st)} \<union> ack_ended st"

definition ack_ok :: "client_world \<Rightarrow> ack_state \<Rightarrow> bool" where
  "ack_ok world st \<longleftrightarrow> queue_fine world (as_pending st) \<and> bs_set (as_done st) \<subseteq> ack_ended st"

lemma world_block: "client_world_ok world \<Longrightarrow> l \<in> set (world b) \<Longrightarrow> sl_block_number l = Some b' \<Longrightarrow> b' = b"
  unfolding client_world_ok_def by (metis option.distinct(1) option.inject)

lemma discover_delivered_cases:
  assumes "discover_delivered B inbox depth node now fin last_seen q = (last', q', res)"
  obtains (same) "last' = last_seen" "q' = q"
  | (scanned) to_block logs ds first where "last_seen < to_block" "res = Inr ()" "ad_logs node (last_seen + 1) to_block = Inr logs"
      "decode_deliveries B inbox (last_seen + 1) to_block logs = Inr ds"
      "fold (admit_delivery now fin) ds (q, None) = (q', first)"
      "last' = (case first of None \<Rightarrow> to_block | Some b \<Rightarrow> sat_sub b 1)"
proof (cases "ad_tip node")
  case (Inl err)
  with assms show ?thesis by (intro same) (simp_all add: discover_delivered_def)
next
  case tip: (Inr tip)
  let ?to = "min (sat_sub tip depth) (sat_add last_seen ACK_MAX_BLOCKS_PER_SCAN)"
  show ?thesis
  proof (cases "sat_sub tip depth \<le> last_seen")
    case True
    with tip assms show ?thesis by (intro same) (simp_all add: discover_delivered_def Let_def)
  next
    case False
    then have lt: "last_seen < sat_sub tip depth" by simp
    show ?thesis
    proof (cases "ad_logs node (last_seen + 1) ?to")
      case (Inl err)
      with tip False assms show ?thesis by (intro same) (simp_all add: discover_delivered_def Let_def)
    next
      case logs: (Inr logs)
      show ?thesis
      proof (cases "decode_deliveries B inbox (last_seen + 1) ?to logs")
        case (Inl err)
        with tip logs False assms show ?thesis by (intro same) (simp_all add: discover_delivered_def Let_def)
      next
        case (Inr ds)
        obtain q1 first where a: "fold (admit_delivery now fin) ds (q, None) = (q1, first)" by (rule prod.exhaust)
        have "unat (sat_sub tip depth) < 2 ^ LENGTH(64)" by (rule unsigned_less)
        then have "last_seen < sat_add last_seen ACK_MAX_BLOCKS_PER_SCAN"
          using lt by (simp add: word_less_nat_alt unat_sat_add ACK_MAX_BLOCKS_PER_SCAN_def)
        with lt have "last_seen < ?to" by simp
        with tip False logs Inr a assms show ?thesis
          by (intro scanned [of ?to logs ds first]) (simp_all add: discover_delivered_def Let_def)
      qed
    qed
  qed
qed

lemma discover_delivered_ok:
  assumes "ack_ok world st" and "client_world_ok world" and "client_truthful world (ad_logs node)"
    and "owed_in (delivery_at B world) base last_seen (ack_known st \<union> got)"
    and "discover_delivered B inbox depth node now (as_done st) last_seen (as_pending st) = (last', q, res)"
  shows "ack_ok world (st\<lparr>as_pending := q\<rparr>)"
    and "owed_in (delivery_at B world) base last' (ack_known (st\<lparr>as_pending := q\<rparr>) \<union> got)"
proof -
  let ?st = "st\<lparr>as_pending := q\<rparr>"
  have ended: "ack_ended ?st = ack_ended st" by (simp add: ack_ended_def)
  have "ack_ok world ?st \<and> owed_in (delivery_at B world) base last' (ack_known ?st \<union> got)"
  using assms(5)
  proof (cases rule: discover_delivered_cases)
    case same
    then show ?thesis using assms(1,4) by simp
  next
    case (scanned to_block logs ds first)
    have fine: "queue_fine world (as_pending st)" using assms(1) by (simp add: ack_ok_def)
    have from_logs: "\<exists>b. l \<in> set (world b)" if "l \<in> set logs" for l
      using that assms(3) scanned(3) unfolding client_truthful_def by blast
    have src: "\<forall>d \<in> set ds. from_world world d"
    proof
      fix d
      assume d: "d \<in> set ds"
      obtain tx b k i where e: "d = (tx, b, k, i)" by (rule prod_cases4)
      from decode_deliveries_sound [OF scanned(4) d [unfolded e]] obtain l where
        l: "l \<in> set logs" "sl_tx_hash l = Some tx" "sl_block_number l = Some b" by blast
      from from_logs [OF l(1)] obtain b' where b': "l \<in> set (world b')" ..
      from world_block [OF assms(2) b' l(3)] have "b' = b" by simp
      with b' l(2) show "from_world world d" by (auto simp: from_world_def e)
    qed
    note a = admit_deliveries_ok [OF fine src scanned(5)]
    have "tx \<in> ack_known ?st \<union> got" if b: "base < b" "b \<le> last'" "delivery_at B world b tx" for b tx
    proof (cases "b \<le> last_seen")
      case True
      with b assms(4) a show ?thesis by (auto simp: owed_in_def ack_known_def ended)
    next
      case False
      then have low: "last_seen + 1 \<le> b" using succ_le_less [of last_seen b b] by simp
      have not_held: "\<not> held_at first b"
      proof
        assume "held_at first b"
        then obtain n where n: "first = Some n" "n \<le> b" by (auto simp: held_at_def)
        with b(2) scanned(6) have "b \<le> sat_sub n 1" by simp
        with n(2) low False show False by (auto simp: word_le_nat_alt unat_sat_sub)
      qed
      have "last' \<le> to_block"
      proof (cases first)
        case (Some n)
        have "\<forall>(tx, b, k, i) \<in> set ds. b \<le> to_block" using decode_deliveries_sound [OF scanned(4)] by blast
        from admit_first_le [OF this, of "(as_pending st, None)" now "as_done st" n] scanned(5) Some have "n \<le> to_block" by simp
        with Some scanned(6) show ?thesis using sat_sub_le [of n 1] by simp
      qed (use scanned(6) in simp)
      with b(2) have "b \<le> to_block" by (rule order_trans)
      with assms(3) scanned(3) low have "set (world b) \<subseteq> set logs" unfolding client_truthful_def by blast
      with b(3) obtain l where l: "l \<in> set logs" "l \<in> set (world b)" "sl_tx_hash l = Some tx" "is_delivery B l"
        by (auto simp: due_def)
      from decode_deliveries_complete [OF scanned(4) l(1,4,3)] obtain b' k i where
        d: "sl_block_number l = Some b'" "(tx, b', k, i) \<in> set ds" by blast
      from world_block [OF assms(2) l(2) d(1)] have "b' = b" .
      with a d(2) not_held have "seen_contains tx (as_done st) \<or> pending_contains tx q" by auto
      with assms(1) show ?thesis by (auto simp: ack_known_def seen_contains_def ack_ok_def ended)
    qed
    then have "owed_in (delivery_at B world) base last' (ack_known ?st \<union> got)" unfolding owed_in_def by blast
    moreover have "ack_ok world ?st" using a assms(1) by (simp add: ack_ok_def ended)
    ultimately show ?thesis by blast
  qed
  then show "ack_ok world ?st" and "owed_in (delivery_at B world) base last' (ack_known ?st \<union> got)" by auto
qed

section \<open>Settling\<close>

text \<open>
  One settled result keeps the queue, removes at most its own transaction, and removes it only when
  it reports it.
\<close>

definition releases :: "ack_error + ack_outcome \<Rightarrow> bool" where
  "releases outcome \<longleftrightarrow> outcome = Inr Acknowledged \<or> (\<exists>reason. outcome = Inr (AckTerminal reason))"

lemma settle_delivery_cases:
  obtains (finish) ev where "releases outcome" "ack_event_tx ev = tx" "settle_delivery policy now (tx, outcome) st = finish_delivery tx ev st"
  | (keep) q where "\<not> releases outcome" "settle_delivery policy now (tx, outcome) st = st\<lparr>as_pending := q\<rparr>"
      "q \<in> {pending_defer tx until (as_pending st) | until. True} \<union> {fst (record_transient_failure tx now (as_pending st))}"
proof (cases outcome)
  case (Inl e)
  then show ?thesis by (intro keep) (auto simp: settle_delivery_def releases_def)
next
  case (Inr o')
  then show ?thesis
  proof (cases o')
    case Acknowledged
    with Inr show ?thesis by (intro finish [of "DeliverySettled tx"]) (auto simp: settle_delivery_def releases_def)
  next
    case (AckTerminal reason)
    with Inr show ?thesis by (intro finish [of "DeliveryTerminal tx reason"]) (auto simp: settle_delivery_def releases_def)
  next
    case (AckNotReady x)
    with Inr show ?thesis by (intro keep) (auto simp: settle_delivery_def releases_def Let_def)
  next
    case (AckRejected x)
    with Inr show ?thesis by (intro keep) (auto simp: settle_delivery_def releases_def)
  qed
qed

lemma settle_delivery_ok:
  assumes "ack_ok world st"
  shows "ack_ok world (settle_delivery policy now (tx, outcome) st)
    \<and> ack_known st \<subseteq> ack_known (settle_delivery policy now (tx, outcome) st)
    \<and> ack_ended st \<subseteq> ack_ended (settle_delivery policy now (tx, outcome) st)"
proof (cases rule: settle_delivery_cases [of outcome tx policy now st])
  case (finish ev)
  with assms seen_insert_sub [of tx "as_done st"] show ?thesis
    by (auto simp: ack_ok_def queue_fine_def finish_delivery_def ack_known_def ack_ended_def queue_blocks_ops(4) pending_ops_ok(1))
next
  case (keep q)
  from assms have ok: "pending_ok (as_pending st)" "queue_blocks world (as_pending st)" by (simp_all add: ack_ok_def queue_fine_def)
  from keep(3) have "pending_ok q \<and> queue_blocks world q \<and> (\<forall>x. pending_contains x q = pending_contains x (as_pending st))"
    using pending_ops_ok(3,4) [OF ok(1)] queue_blocks_ops(2,3) [OF ok(2)] by auto
  with keep(2) assms show ?thesis by (auto simp: ack_ok_def queue_fine_def ack_known_def ack_ended_def)
qed

lemma settle_deliveries_ok:
  "ack_ok world st \<Longrightarrow> ack_ok world (fold (\<lambda>(tx, _, outcome). settle_delivery policy now (tx, outcome)) rs st)
    \<and> ack_known st \<subseteq> ack_known (fold (\<lambda>(tx, _, outcome). settle_delivery policy now (tx, outcome)) rs st)
    \<and> ack_ended st \<subseteq> ack_ended (fold (\<lambda>(tx, _, outcome). settle_delivery policy now (tx, outcome)) rs st)"
proof (induction rs arbitrary: st)
  case (Cons r rs)
  obtain tx ms outcome where r: "r = (tx, ms, outcome)" by (rule prod_cases3)
  note one = settle_delivery_ok [OF Cons.prems, of policy now tx outcome]
  from Cons.IH [of "settle_delivery policy now (tx, outcome) st"] one show ?case unfolding r by auto
qed simp

lemma ack_metrics_only [simp]:
  "ack_ok world (st\<lparr>as_metrics := ms\<rparr>) = ack_ok world st" "ack_known (st\<lparr>as_metrics := ms\<rparr>) = ack_known st"
  "ack_ended (st\<lparr>as_metrics := ms\<rparr>) = ack_ended st"
  by (simp_all add: ack_ok_def ack_known_def ack_ended_def)

lemma ack_process_pending_ok:
  assumes "ack_ok world st"
  shows "ack_ok world (ack_process_pending B cfg scid obs tries now later st)
    \<and> ack_known st \<subseteq> ack_known (ack_process_pending B cfg scid obs tries now later st)
    \<and> ack_ended st \<subseteq> ack_ended (ack_process_pending B cfg scid obs tries now later st)"
proof -
  have "ack_ok world (fold (\<lambda>(tx, _, outcome). settle_delivery policy later (tx, outcome)) rs (st\<lparr>as_metrics := ms\<rparr>))
    \<and> ack_known st \<subseteq> ack_known (fold (\<lambda>(tx, _, outcome). settle_delivery policy later (tx, outcome)) rs (st\<lparr>as_metrics := ms\<rparr>))
    \<and> ack_ended st \<subseteq> ack_ended (fold (\<lambda>(tx, _, outcome). settle_delivery policy later (tx, outcome)) rs (st\<lparr>as_metrics := ms\<rparr>))"
    for policy ms and rs :: "(b256 \<times> ack_metric list \<times> (ack_error + ack_outcome)) list" using settle_deliveries_ok [of world "st\<lparr>as_metrics := ms\<rparr>" policy later rs] assms by simp
  with assms show ?thesis by (simp add: ack_process_pending_def Let_def)
qed

section \<open>The worker keeps the laws of a settlement worker\<close>

definition ack_good :: "ack_abi \<Rightarrow> cp_codec \<Rightarrow> ack_config \<Rightarrow> client_world \<Rightarrow> ack_worker \<Rightarrow> b256 set \<Rightarrow> bool" where
  "ack_good B K cfg world w got \<longleftrightarrow> ack_ok world (aw_state w) \<and> client_world_ok world
     \<and> owed_in (delivery_at B world) (ack_base cfg) (aw_last_seen w) (ack_known (aw_state w) \<union> got)
     \<and> (\<exists>cs. aw_checkpoint w = Some cs \<and> cs_synced K cs
          \<and> disk_ok (delivery_at B world) (ack_base cfg) (ack_checkpoint_key (ac_chain_key cfg)) cs (ack_ended (aw_state w) \<union> got))"

lemma ack_save_ok:
  assumes "ack_good B K cfg world w got"
  shows "ack_good B K cfg world (ack_save K fault (ack_checkpoint_key (ac_chain_key cfg)) w) got"
proof -
  let ?key = "ack_checkpoint_key (ac_chain_key cfg)" and ?q = "as_pending (aw_state w)"
  let ?got = "ack_ended (aw_state w) \<union> got"
  from assms obtain cs where cs: "aw_checkpoint w = Some cs" "cs_synced K cs" "disk_ok (delivery_at B world) (ack_base cfg) ?key cs ?got"
    by (auto simp: ack_good_def)
  obtain cs' ok where p: "cp_set K fault ?key (held_back (aw_last_seen w) ?q) cs = (cs', ok)" by (rule prod.exhaust)
  have "queue_blocks world ?q" "client_world_ok world" using assms by (auto simp: ack_good_def ack_ok_def queue_fine_def)
  moreover have "owed_in (delivery_at B world) (ack_base cfg) (aw_last_seen w) ({tx. pending_contains tx ?q} \<union> ?got)"
    using assms by (simp add: ack_good_def ack_known_def Un_assoc)
  ultimately have "owed_in (delivery_at B world) (ack_base cfg) (held_back (aw_last_seen w) ?q) ?got" by (rule held_back_ended)
  from cp_set_held_back [OF cs(2,3) this p] assms cs(1) p show ?thesis by (auto simp: ack_good_def ack_save_def)
qed

lemma ack_discover_ok:
  assumes "ack_good B K cfg world w got" and "client_truthful world (ad_logs (av_node ev))"
  shows "ack_good B K cfg world (fst (ack_discover B A H K cfg ev w)) got"
proof -
  let ?st = "aw_state w"
  obtain rpc p where rpc: "rpc_connect (av_dial ev) (aw_rpc w) = (rpc, p)" by (rule prod.exhaust)
  obtain last' q res where d: "(if p = None then (aw_last_seen w, as_pending ?st, Inl (av_dial_error ev))
      else discover_delivered B (ac_inbox cfg) (ac_confirmation_depth cfg) (av_node ev) (av_discovered_at ev) (as_done ?st)
             (aw_last_seen w) (as_pending ?st)) = (last', q, res)"
    by (rule prod_cases3)
  let ?st' = "?st\<lparr>as_pending := q\<rparr>"
  from assms(1) have inv: "ack_ok world ?st" "client_world_ok world"
    "owed_in (delivery_at B world) (ack_base cfg) (aw_last_seen w) (ack_known ?st \<union> got)" by (auto simp: ack_good_def)
  have new: "ack_ok world ?st' \<and> owed_in (delivery_at B world) (ack_base cfg) last' (ack_known ?st' \<union> got)"
  proof (cases "p = None")
    case True
    with d inv show ?thesis by auto
  next
    case False
    with d have "discover_delivered B (ac_inbox cfg) (ac_confirmation_depth cfg) (av_node ev) (av_discovered_at ev) (as_done ?st)
             (aw_last_seen w) (as_pending ?st) = (last', q, res)" by simp
    from discover_delivered_ok [OF inv(1,2) assms(2) inv(3) this] show ?thesis by blast
  qed
  have all: "ack_good B K cfg world w' got"
    if "aw_last_seen w' = last'" "aw_state w' = ?st'" "aw_checkpoint w' = aw_checkpoint w" for w'
    using assms(1) new that by (simp add: ack_good_def ack_ended_def)
  let ?w = "w\<lparr>aw_last_seen := last', aw_state := ?st', aw_routes := ack_refresh_routes A H cfg ev (p \<noteq> None) (aw_routes w)\<rparr>"
  show ?thesis
  proof (cases res)
    case (Inl err)
    with rpc d have "fst (ack_discover B A H K cfg ev w) = ?w\<lparr>aw_rpc := fst (note_err rpc), aw_errors := aw_errors w + 1\<rparr>"
      by (simp add: ack_discover_def Let_def)
    then show ?thesis by (simp only:) (rule all; simp)
  next
    case (Inr u)
    with rpc d have "fst (ack_discover B A H K cfg ev w) = ack_save K (av_fault ev) (ack_checkpoint_key (ac_chain_key cfg))
        (?w\<lparr>aw_rpc := note_ok rpc, aw_beats := aw_beats w + 1\<rparr>)"
      by (simp add: ack_discover_def Let_def)
    then show ?thesis by (simp only:) (rule ack_save_ok, rule all; simp)
  qed
qed

lemma ack_tick_ok:
  assumes "ack_good B K cfg world w got" and "client_truthful world (ad_logs (av_node ev))"
  shows "ack_good B K cfg world (ack_tick B A H K cfg ev w) got"
proof (cases "pacer_deferring (av_now ev) (aw_pacer w) = None")
  case False
  with assms(1) show ?thesis by (simp add: ack_tick_def)
next
  case True
  obtain w1 limited where d: "ack_discover B A H K cfg ev w = (w1, limited)" by (rule prod.exhaust)
  have inv: "ack_good B K cfg world w1 got" using ack_discover_ok [OF assms] d by (metis fst_conv)
  let ?st = "ack_process_pending B cfg (hi_source_chain_id (rh_state (aw_routes w1))) (hi_outboxes (rh_state (aw_routes w1)))
    (av_tries ev) (av_batch_at ev) (av_settled_at ev) (aw_state w1)"
  have ok: "ack_ok world (aw_state w1)" using inv by (simp add: ack_good_def)
  note p = ack_process_pending_ok [OF ok, of B cfg "hi_source_chain_id (rh_state (aw_routes w1))" "hi_outboxes (rh_state (aw_routes w1))"
      "av_tries ev" "av_batch_at ev" "av_settled_at ev"]
  have sub: "ack_known (aw_state w1) \<union> got \<subseteq> ack_known ?st \<union> got" "ack_ended (aw_state w1) \<union> got \<subseteq> ack_ended ?st \<union> got" "ack_ok world ?st"
    using p by auto
  have "ack_tick B A H K cfg ev w = w1\<lparr>aw_state := ?st, aw_queue_depth := pending_len (as_pending ?st),
      aw_pacer := pacer_after limited (av_end ev) (aw_pacer w1)\<rparr>"
    using True d by (simp add: ack_tick_def Let_def)
  with inv sub show ?thesis by (auto simp: ack_good_def intro: disk_ok_mono owed_in_mono [OF _ order_refl])
qed

text \<open>Starts from a configured block, over a consistent history; ticks against truthful nodes.\<close>

definition ack_starts :: "rt_codec \<Rightarrow> ack_config \<Rightarrow> client_world \<Rightarrow> checkpoint_store \<Rightarrow> ack_worker \<Rightarrow> bool" where
  "ack_starts H cfg world cs w \<longleftrightarrow> client_world_ok world \<and> ac_start_block cfg \<noteq> None
     \<and> (\<exists>ev files. ack_start H cfg ev files (Some cs) = Some w)"

definition ack_ticks :: "ack_abi \<Rightarrow> hist_abi \<Rightarrow> rt_codec \<Rightarrow> cp_codec \<Rightarrow> ack_config \<Rightarrow> client_world \<Rightarrow> ack_worker \<Rightarrow> ack_worker \<Rightarrow> bool" where
  "ack_ticks B A H K cfg world w w' \<longleftrightarrow> (\<exists>ev. client_truthful world (ad_logs (av_node ev)) \<and> w' = ack_tick B A H K cfg ev w)"

abbreviation ack_step where
  "ack_step B A H K cfg world \<equiv> settle_step K (ack_checkpoint_key (ac_chain_key cfg)) (ack_starts H cfg world)
     (ack_ticks B A H K cfg world) aw_checkpoint (\<lambda>cs w. w\<lparr>aw_checkpoint := Some cs\<rparr>) (\<lambda>w. ack_ended (aw_state w))"

lemma ack_start_state:
  assumes "ack_start H cfg ev files (Some cs) = Some w" and "ac_start_block cfg \<noteq> None"
  shows "aw_state w = \<lparr>as_pending = pending_new MAX_PENDING_ACKS, as_done = seen_new ACK_MAX_DONE_TRACKED, as_events = [], as_metrics = []\<rparr>"
    and "aw_checkpoint w = Some cs"
    and "aw_last_seen w \<le> (case cp_get (ack_checkpoint_key (ac_chain_key cfg)) cs of None \<Rightarrow> ack_base cfg | Some n \<Rightarrow> n)"
  using assms
  by (auto simp: ack_start_def ack_base_def Let_def sat_sub_le split: prod.splits if_splits option.splits)

interpretation acks: settlement_worker "delivery_at B world" "ack_base cfg" K "ack_checkpoint_key (ac_chain_key cfg)"
  "ack_starts H cfg world" "ack_ticks B A H K cfg world" aw_checkpoint "\<lambda>cs w. w\<lparr>aw_checkpoint := Some cs\<rparr>" aw_last_seen
  "\<lambda>w. {tx. pending_contains tx (as_pending (aw_state w))}" "\<lambda>w. ack_ended (aw_state w)"
  "\<lambda>w. ack_ok world (aw_state w) \<and> client_world_ok world" for B A H world cfg K
proof unfold_locales
  fix cs w
  assume a: "ack_starts H cfg world cs w"
  then obtain ev files where s: "ack_start H cfg ev files (Some cs) = Some w" "ac_start_block cfg \<noteq> None" by (auto simp: ack_starts_def)
  note st = ack_start_state [OF s]
  show "(ack_ok world (aw_state w) \<and> client_world_ok world) \<and> aw_checkpoint w = Some cs \<and> ack_ended (aw_state w) = {}
      \<and> aw_last_seen w \<le> (case cp_get (ack_checkpoint_key (ac_chain_key cfg)) cs of None \<Rightarrow> ack_base cfg | Some n \<Rightarrow> n)"
    using a st by (simp add: ack_starts_def ack_ok_def queue_fine_def pending_new_def pending_ok_def queue_blocks_def seen_new_def ack_ended_def)
next
  fix w w' cs got
  assume t: "ack_ticks B A H K cfg world w w'" and g: "ack_ok world (aw_state w) \<and> client_world_ok world"
    "aw_checkpoint w = Some cs" "cs_synced K cs"
    "owed_in (delivery_at B world) (ack_base cfg) (aw_last_seen w)
       ({tx. pending_contains tx (as_pending (aw_state w))} \<union> ack_ended (aw_state w) \<union> got)"
    "disk_ok (delivery_at B world) (ack_base cfg) (ack_checkpoint_key (ac_chain_key cfg)) cs (ack_ended (aw_state w) \<union> got)"
  from t obtain ev where ev: "client_truthful world (ad_logs (av_node ev))" "w' = ack_tick B A H K cfg ev w" by (auto simp: ack_ticks_def)
  have "ack_good B K cfg world w got" using g by (simp add: ack_good_def ack_known_def)
  from ack_tick_ok [OF this ev(1)] ev(2)
  show "(ack_ok world (aw_state w') \<and> client_world_ok world)
      \<and> owed_in (delivery_at B world) (ack_base cfg) (aw_last_seen w')
          ({tx. pending_contains tx (as_pending (aw_state w'))} \<union> ack_ended (aw_state w') \<union> got)
      \<and> (\<exists>cs'. aw_checkpoint w' = Some cs' \<and> cs_synced K cs'
           \<and> disk_ok (delivery_at B world) (ack_base cfg) (ack_checkpoint_key (ac_chain_key cfg)) cs' (ack_ended (aw_state w') \<union> got))"
    by (simp add: ack_good_def ack_known_def)
qed simp_all

section \<open>Why a delivery leaves the queue\<close>

text \<open>The fee ledger owes nothing for a message: it is not funded there or its fee was paid.\<close>

definition fee_settled :: "(b256 \<Rightarrow> (address \<times> bool) option) \<Rightarrow> b256 \<Rightarrow> bool" where
  "fee_settled ledger i \<longleftrightarrow> (\<exists>payer settled. ledger i = Some (payer, settled) \<and> (payer = 0 \<or> settled))"

definition fees_settled :: "settlement_mode \<Rightarrow> (b256 \<Rightarrow> bool) \<Rightarrow> delivery_event list \<Rightarrow> bool" where
  "fees_settled mode paid events \<longleftrightarrow> mode = AckOnly \<or> (\<forall>e \<in> set events. \<not> de_executed e \<longrightarrow> paid (de_message_id e))"

definition acks_settled :: "ack_abi \<Rightarrow> ack_node \<Rightarrow> u64 \<Rightarrow> address set \<Rightarrow> delivery_event list \<Rightarrow> bool" where
  "acks_settled B node scid outboxes events \<longleftrightarrow>
     (\<forall>e \<in> set events. de_executed e \<longrightarrow> ack_settled (ab_route B) node scid outboxes (de_message_id e))"

lemma get_or_insert_None [simp]: "get_or_insert e f \<noteq> None"
  by (simp add: get_or_insert_def split: option.splits)

lemma claimable_unpaid:
  "relay_claimable_ids ledger ids = Some c \<Longrightarrow> i \<in> set ids \<Longrightarrow> i \<notin> set c \<Longrightarrow> fee_settled ledger i"
  by (induction ids arbitrary: c) (auto simp: fee_settled_def split: option.splits if_splits)

lemma claim_ids_unpaid: "mode \<noteq> AckOnly \<Longrightarrow> i \<in> set ids \<Longrightarrow> i \<notin> set (claim_ids mode ledger ids) \<Longrightarrow> fee_settled ledger i"
  by (cases mode) (auto simp: claim_ids_def claimable_unpaid split: option.splits)

lemma ids_events:
  "set (message_ids events) = de_message_id ` {e \<in> set events. \<not> de_executed e}"
  "set (executed_ids events) = de_message_id ` {e \<in> set events. de_executed e}"
  by (simp_all add: message_ids_def executed_ids_def)

lemma ack_routes_clear:
  assumes "finite outboxes" and "rs_authorities (ack_routes B node scid dck outboxes (executed_ids events)) = {}"
    and "rs_failure (ack_routes B node scid dck outboxes (executed_ids events)) = None"
  shows "acks_settled B node scid outboxes events"
  unfolding acks_settled_def
proof (intro ballI impI)
  fix e
  assume e: "e \<in> set events" "de_executed e"
  then have i: "de_message_id e \<in> set (executed_ids events)" by (simp add: ids_events)
  then have "executed_ids events \<noteq> []" by auto
  with validators_clear [OF _ _ assms(1) i] assms(2,3) show "ack_settled (ab_route B) node scid outboxes (de_message_id e)"
    by (simp add: ack_routes_def)
qed

lemma ack_verify_clear:
  assumes "finite outboxes" and "ack_verify B mode scid dck outboxes t (executed_ids events) ids failure = None"
  shows "acks_settled B (at_node_after t) scid outboxes events"
    and "mode \<noteq> AckOnly \<Longrightarrow> \<forall>i \<in> set ids. fee_settled (at_ledger_after t) i"
proof -
  let ?v = "validators (ab_route B) (at_node_after t) scid dck outboxes (executed_ids events)"
  have "executed_ids events = [] \<or> rs_authorities ?v = {} \<and> rs_failure ?v = None"
    using assms(2) by (auto simp: ack_verify_def Let_def split: settlement_mode.splits option.splits if_splits)
  then have "rs_authorities (ack_routes B (at_node_after t) scid dck outboxes (executed_ids events)) = {}"
    "rs_failure (ack_routes B (at_node_after t) scid dck outboxes (executed_ids events)) = None"
    by (auto simp: ack_routes_def)
  with ack_routes_clear [OF assms(1)] show "acks_settled B (at_node_after t) scid outboxes events" by blast
  assume "mode \<noteq> AckOnly"
  with assms(2) have "relay_claimable_ids (at_ledger_after t) ids = Some []"
    by (auto simp: ack_verify_def Let_def split: settlement_mode.splits option.splits if_splits)
  with claimable_unpaid show "\<forall>i \<in> set ids. fee_settled (at_ledger_after t) i" by fastforce
qed

definition oversized :: "ack_abi \<Rightarrow> ack_try \<Rightarrow> bool" where
  "oversized B t \<longleftrightarrow> (\<exists>proof tx. proof_by_tx (ab_json B) (at_http t) = Some (ProofReady proof)
     \<and> encoded_transaction proof = Some tx \<and> 500000 < length tx)"

text \<open>
  A transaction is released when the source chain shows after the submissions that nothing is owed,
  when it showed so before, or when its proof can never be submitted.
\<close>

definition release_reason :: "ack_abi \<Rightarrow> settlement_mode \<Rightarrow> u64 \<Rightarrow> address set \<Rightarrow> delivery_event list \<Rightarrow> ack_try \<Rightarrow> bool" where
  "release_reason B mode scid outboxes events t \<longleftrightarrow>
     acks_settled B (at_node_after t) scid outboxes events
       \<and> fees_settled mode (\<lambda>i. fee_settled (at_ledger t) i \<or> fee_settled (at_ledger_after t) i) events
     \<or> acks_settled B (at_node t) scid outboxes events \<and> fees_settled mode (fee_settled (at_ledger t)) events
     \<or> oversized B t"

lemma settle_with_proof_released:
  assumes "finite outboxes" and "snd (settle_with_proof B mode scid dck outboxes t (executed_ids events) ids routes proof) = outcome"
    and "releases outcome" and "proof_by_tx (ab_json B) (at_http t) = Some (ProofReady proof)"
  shows "acks_settled B (at_node_after t) scid outboxes events \<and> (mode \<noteq> AckOnly \<longrightarrow> (\<forall>i \<in> set ids. fee_settled (at_ledger_after t) i))
     \<or> oversized B t"
proof (cases "encoded_transaction proof")
  case None
  with assms(2,3) show ?thesis by (auto simp: settle_with_proof_def releases_def)
next
  case (Some tx)
  show ?thesis
  proof (cases "ACK_MAX_ENCODED_TRANSACTION_BYTES < length tx")
    case True
    with assms(4) Some show ?thesis by (auto simp: oversized_def ACK_MAX_ENCODED_TRANSACTION_BYTES_def)
  next
    case False
    obtain ms failure conv where "ack_submit B mode t proof (sorted_list_of_set (rs_authorities routes)) ids
        ([ProofFetched MReady], map_option RouteFailed (rs_failure routes)) = ((ms, failure), conv)"
      by (metis prod.exhaust)
    with False Some assms(2,3) have "ack_verify B mode scid dck outboxes t (executed_ids events) ids failure = None"
      by (auto simp: settle_with_proof_def releases_def split: if_splits option.splits)
    from ack_verify_clear [OF assms(1) this] show ?thesis by blast
  qed
qed

lemma acknowledge_tx_released:
  assumes "finite outboxes" and "snd (acknowledge_tx B mode scid dck outboxes events t) = outcome" and "releases outcome"
  shows "release_reason B mode scid outboxes events t"
proof -
  let ?routes = "ack_routes B (at_node t) scid dck outboxes (executed_ids events)"
  let ?ids = "claim_ids mode (at_ledger t) (message_ids events)"
  have fees: "fees_settled mode (\<lambda>i. fee_settled (at_ledger t) i \<or> P i) events" if "mode \<noteq> AckOnly \<longrightarrow> (\<forall>i \<in> set ?ids. P i)" for P
  proof (cases "mode = AckOnly")
    case False
    have "fee_settled (at_ledger t) (de_message_id e) \<or> P (de_message_id e)" if "e \<in> set events" "\<not> de_executed e" for e
    proof -
      from that have "de_message_id e \<in> set (message_ids events)" by (simp add: ids_events)
      with claim_ids_unpaid [OF False] \<open>mode \<noteq> AckOnly \<longrightarrow> _\<close> False show ?thesis by blast
    qed
    then show ?thesis by (simp add: fees_settled_def)
  qed (simp add: fees_settled_def)
  consider (blocked) "?ids = []" "rs_authorities ?routes = {}" "rs_failure ?routes \<noteq> None"
    | (idle) "?ids = []" "rs_authorities ?routes = {}" "rs_failure ?routes = None"
    | (go) "?ids \<noteq> [] \<or> rs_authorities ?routes \<noteq> {}" by blast
  then show ?thesis
  proof cases
    case blocked
    with assms(2,3) show ?thesis by (auto simp: acknowledge_tx_def Let_def releases_def)
  next
    case idle
    have "fees_settled mode (fee_settled (at_ledger t)) events" using fees [of "\<lambda>_. False"] idle(1) by simp
    with ack_routes_clear [OF assms(1) idle(2,3)] show ?thesis by (simp add: release_reason_def)
  next
    case go
    show ?thesis
    proof (cases "\<exists>proof. proof_by_tx (ab_json B) (at_http t) = Some (ProofReady proof)")
      case True
      then obtain pr where p: "proof_by_tx (ab_json B) (at_http t) = Some (ProofReady pr)" ..
      with go assms(2) have "snd (settle_with_proof B mode scid dck outboxes t (executed_ids events) ?ids ?routes pr) = outcome"
        by (auto simp: acknowledge_tx_def Let_def split: if_splits)
      from settle_with_proof_released [OF assms(1) this assms(3) p] fees show ?thesis by (auto simp: release_reason_def)
    next
      case False
      with go assms(2,3) show ?thesis
        by (auto simp: acknowledge_tx_def Let_def releases_def split: if_splits option.splits proof_fetch.splits)
    qed
  qed
qed

lemma settle_delivery_leaves:
  assumes "pending_contains x (as_pending st)" and "\<not> pending_contains x (as_pending (settle_delivery policy now (tx, outcome) st))"
  shows "x = tx \<and> releases outcome"
proof (cases rule: settle_delivery_cases [of outcome tx policy now st])
  case (finish ev)
  with assms show ?thesis by (simp add: finish_delivery_def)
next
  case (keep q)
  with assms show ?thesis by auto
qed

lemma settle_deliveries_leave:
  "pending_contains x (as_pending st) \<Longrightarrow>
   \<not> pending_contains x (as_pending (fold (\<lambda>(tx, _, outcome). settle_delivery policy now (tx, outcome)) rs st)) \<Longrightarrow>
     \<exists>ms outcome. (x, ms, outcome) \<in> set rs \<and> releases outcome"
proof (induction rs arbitrary: st)
  case (Cons r rs)
  obtain tx ms outcome where r: "r = (tx, ms, outcome)" by (rule prod_cases3)
  show ?case
  proof (cases "pending_contains x (as_pending (settle_delivery policy now (tx, outcome) st))")
    case True
    from Cons.IH [OF True] Cons.prems(2) show ?thesis by (auto simp: r)
  next
    case False
    from settle_delivery_leaves [OF Cons.prems(1) False] show ?thesis by (auto simp: r)
  qed
qed simp

end
