(* ===== verification/Ack_Theorems.thy ===== *)
theory Ack_Theorems
  imports Ack_Correct
begin

text \<open>The properties of the acknowledgment submitter: its queue, what releases a delivery, and its route history.\<close>

section \<open>The route history as a process\<close>

text \<open>
  One process reads the history's file, seeds and refreshes it against truthful nodes with any disk
  faults, and may crash at any time, which loses all but the file.
\<close>

datatype routes_sys = RDown "rt_file files option" | RUp route_history

inductive routes_step :: "hist_abi \<Rightarrow> rt_codec \<Rightarrow> support_world \<Rightarrow> address \<Rightarrow> routes_sys \<Rightarrow> unit \<Rightarrow> routes_sys \<Rightarrow> bool"
  for A H world inbox where
  routes_load: "history_load H readable files inbox scid = Inr rh \<Longrightarrow> routes_step A H world inbox (RDown files) () (RUp rh)"
| routes_seed: "routes_step A H world inbox (RUp rh) () (RUp (fst (history_seed H fault hint rh)))"
| routes_seed_validator: "routes_step A H world inbox (RUp rh) () (RUp (fst (seed_validator H fault bound rh)))"
| routes_refresh: "support_truthful world node \<Longrightarrow>
    routes_step A H world inbox (RUp rh) () (RUp (fst (refresh A H fault1 fault2 node depth rh)))"
| routes_crash: "routes_step A H world inbox (RUp rh) () (RDown (rh_files rh))"

definition routes_begins :: "hist_abi \<Rightarrow> rt_codec \<Rightarrow> support_world \<Rightarrow> address \<Rightarrow> routes_sys \<Rightarrow> bool" where
  "routes_begins A H world inbox s \<longleftrightarrow> support_world_ok A inbox world \<and> rt_codec_ok H
     \<and> (\<exists>files. s = RDown files \<and> Option.bind files (\<lambda>fs. hm_get fs RtFile) = None)"

fun routes_inv :: "hist_abi \<Rightarrow> rt_codec \<Rightarrow> support_world \<Rightarrow> address \<Rightarrow> routes_sys \<Rightarrow> bool" where
  "routes_inv A H world inbox (RDown files) \<longleftrightarrow> support_world_ok A inbox world \<and> rt_codec_ok H \<and> file_covers A H world files"
| "routes_inv A H world inbox (RUp rh) \<longleftrightarrow> support_world_ok A inbox world \<and> rt_codec_ok H \<and> routes_ok A H world inbox rh"

interpretation routes: invariant_system "routes_begins A H world inbox" "routes_step A H world inbox" "routes_inv A H world inbox"
  for A H world inbox
proof unfold_locales
  fix s
  assume "routes_begins A H world inbox s"
  then show "routes_inv A H world inbox s" by (auto simp: routes_begins_def file_covers_def)
next
  fix s e t
  assume inv: "routes_inv A H world inbox s" and "routes_step A H world inbox s e t"
  from this(2) show "routes_inv A H world inbox t"
  proof cases
    case (routes_load readable files scid rh)
    with inv history_load_ok(1) [of A H world files readable inbox scid rh] show ?thesis by simp
  next
    case (routes_seed rh fault hint)
    with inv seeds_ok(1) [of A H world inbox rh fault hint] show ?thesis by simp
  next
    case (routes_seed_validator rh fault bound)
    with inv seeds_ok(2) [of A H world inbox rh fault bound] show ?thesis by simp
  next
    case (routes_refresh node rh fault1 fault2 depth)
    with inv refresh_ok [of A inbox world node H rh fault1 fault2 depth] show ?thesis by simp
  next
    case (routes_crash rh)
    with inv show ?thesis by (simp add: routes_ok_def)
  qed
qed

text \<open>C11. The route history never claims a block it has not read. Whatever a process did before, through
  unreadable ranges, receipt fallbacks, failing writes, crashes and restarts, every Outbox the Inbox ever
  supported (added or removed) in the recorded block range is among the candidates a message is resolved
  against, so that a retired Outbox still settles its messages.\<close>

theorem route_history_complete:
  assumes "reach (routes_begins A H world inbox) (routes_step A H world inbox) (RUp rh)"
    and "hi_scanned (rh_state rh) = Some (low, high)" and "low \<le> b" and "b \<le> high"
  shows "supported A world b \<subseteq> hi_outboxes (rh_state rh)"
  using routes.reach_inv [OF assms(1)] assms(2-4) by (simp add: routes_ok_def history_covers_def)

text \<open>A history with one support event in block 1, recovered by one refresh.\<close>

definition support_log :: hist_log where
  "support_log = \<lparr>sl_block_number = Some 1, sl_removed = False, sl_address = 3, sl_tx_hash = Some 4,
     sl_block_hash = Some 6, sl_topics = [9], sl_data = [], hl_tx_index = Some 0, hl_log_index = Some 0\<rparr>"

definition support_abi :: hist_abi where
  "support_abi = \<lparr>ha_signature = 9, ha_dec_set = (\<lambda>_ _. Some 5)\<rparr>"

definition one_support :: support_world where
  "one_support b = (if b = 1 then [support_log] else [])"

definition support_node :: hist_node where
  "support_node = \<lparr>hn_head = Some 1, hn_logs = (\<lambda>from_block to_block. Some (if from_block \<le> 1 \<and> 1 \<le> to_block then [support_log] else [])),
     hn_block = (\<lambda>_. None), hn_receipts = (\<lambda>_. None)\<rparr>"

definition no_rt_codec :: rt_codec where
  "no_rt_codec = \<lparr>rc_render = (\<lambda>_. None), rc_parse = (\<lambda>_. None)\<rparr>"

definition fresh_routes :: route_history where
  "fresh_routes = \<lparr>rh_files = None, rh_state = new_history 3 7, rh_inbox_seeded = False, rh_validator_seeded = False\<rparr>"

lemma support_read:
  "read_range support_abi support_node 3 f t = Some (if f \<le> 1 \<and> 1 \<le> t then {5} else {})"
  by (auto simp: read_range_def support_node_def support_log_def support_abi_def)

lemma support_scanned: "history_scan_backwards support_abi support_node 3 f t = Some (f, if f \<le> 1 \<and> 1 \<le> t then {5} else {})"
  by (simp add: history_scan_backwards.simps [of support_abi support_node 3 f t] support_read)

lemma support_refreshed:
  "rh_state (fst (refresh support_abi H NoFault NoFault support_node 0 fresh_routes))
     = \<lparr>hi_inbox = 3, hi_source_chain_id = 7, hi_scanned = Some (0, 1), hi_outboxes = {5}\<rparr>"
proof -
  have "hn_head support_node = Some 1" by (simp add: support_node_def)
  then show ?thesis
    by (simp add: refresh_def fresh_routes_def new_history_def support_scanned history_commit_def Let_def sat_sub_def
      HISTORY_SCAN_BLOCKS_def)
qed

lemma support_ok: "support_world_ok support_abi 3 one_support" "support_truthful one_support support_node"
  by (auto simp: support_world_ok_def support_truthful_def one_support_def support_log_def support_abi_def support_node_def)

theorem route_history_complete_witness:
  "\<exists>rh. reach (routes_begins support_abi no_rt_codec one_support 3) (routes_step support_abi no_rt_codec one_support 3) (RUp rh)
     \<and> hi_scanned (rh_state rh) = Some (0, 1) \<and> 5 \<in> supported support_abi one_support 1 \<and> 5 \<in> hi_outboxes (rh_state rh)"
proof -
  let ?begins = "routes_begins support_abi no_rt_codec one_support 3"
  let ?step = "routes_step support_abi no_rt_codec one_support 3"
  let ?rh = "fst (refresh support_abi no_rt_codec NoFault NoFault support_node 0 fresh_routes)"
  have "?begins (RDown None)" using support_ok(1) by (simp add: routes_begins_def rt_codec_ok_def no_rt_codec_def)
  then have "reach ?begins ?step (RDown None)" by (rule reach_start)
  moreover have "?step (RDown None) () (RUp fresh_routes)"
    by (rule routes_load [where readable = True and scid = 7]) (simp add: history_load_def fresh_routes_def)
  moreover have "?step (RUp fresh_routes) () (RUp ?rh)" by (rule routes_refresh) (rule support_ok(2))
  ultimately have run: "reach ?begins ?step (RUp ?rh)" by (meson reach_step)
  have scanned: "hi_scanned (rh_state ?rh) = Some (0, 1)" by (simp add: support_refreshed)
  have "5 \<in> supported support_abi one_support 1"
    by (simp add: supported_def one_support_def support_log_def support_abi_def)
  with route_history_complete [OF run scanned, of 1] run scanned show ?thesis by auto
qed

section \<open>Backfill\<close>

text \<open>A node that can answer every range, on its own or through the receipts of a block.\<close>

definition responsive :: "hist_abi \<Rightarrow> address \<Rightarrow> hist_node \<Rightarrow> bool" where
  "responsive A inbox node \<longleftrightarrow> hn_head node \<noteq> None \<and> (\<forall>f t. read_range A node inbox f t \<noteq> None)"

lemma responsive_scans:
  assumes "responsive A inbox node"
  shows "\<exists>S. history_scan A node inbox f t = Some (t, S)" and "\<exists>S. history_scan_backwards A node inbox f t = Some (f, S)"
proof -
  from assms obtain S where "read_range A node inbox f t = Some S" by (auto simp: responsive_def)
  then show "\<exists>S. history_scan A node inbox f t = Some (t, S)" and "\<exists>S. history_scan_backwards A node inbox f t = Some (f, S)"
    by (simp_all add: history_scan.simps [of A node inbox f t] history_scan_backwards.simps [of A node inbox f t])
qed

lemma commit_writes:
  assumes "\<forall>h. rc_render H h \<noteq> None"
  shows "\<exists>fs. history_commit H NoFault nxt rh = (rh\<lparr>rh_files := fs, rh_state := nxt\<rparr>, Inr ())"
proof (cases "rh_files rh")
  case None
  then show ?thesis by (intro exI [of _ None]) (simp add: history_commit_def)
next
  case (Some fs)
  obtain bs where "rc_render H nxt = Some bs" using assms by blast
  with Some show ?thesis
    by (intro exI [of _ "Some (hm_insert RtFile bs (hm_remove RtTemp fs))"]) (simp add: history_commit_def Let_def)
qed

lemma refresh_backfills:
  assumes "responsive A (hi_inbox (rh_state rh)) node" and "\<forall>h. rc_render H h \<noteq> None"
    and "hi_scanned (rh_state rh) = Some (low, high)"
  shows "\<exists>high'. hi_scanned (rh_state (fst (refresh A H NoFault NoFault node depth rh))) = Some (sat_sub low HISTORY_SCAN_BLOCKS, high')
    \<and> high \<le> high' \<and> hi_inbox (rh_state (fst (refresh A H NoFault NoFault node depth rh))) = hi_inbox (rh_state rh)"
proof -
  let ?inbox = "hi_inbox (rh_state rh)"
  from assms(1) obtain head where head: "hn_head node = Some head" by (auto simp: responsive_def)
  let ?confirmed = "sat_sub head depth"
  have fwd: "\<exists>rh' high'. refresh_forward A H NoFault node ?confirmed (low, high) rh = (rh', Inr ())
      \<and> hi_scanned (rh_state rh') = Some (low, high') \<and> high \<le> high' \<and> hi_inbox (rh_state rh') = ?inbox"
  proof (cases "high < ?confirmed")
    case False
    with assms(3) show ?thesis by (simp add: refresh_forward_def)
  next
    case True
    let ?to = "min ?confirmed (sat_add high HISTORY_SCAN_BLOCKS)"
    obtain S where S: "history_scan A node ?inbox (high + 1) ?to = Some (?to, S)" using responsive_scans(1) [OF assms(1)] by blast
    obtain fs where "history_commit H NoFault ((rh_state rh)\<lparr>hi_outboxes := hi_outboxes (rh_state rh) \<union> S, hi_scanned := Some (low, ?to)\<rparr>) rh
        = (rh\<lparr>rh_files := fs, rh_state := (rh_state rh)\<lparr>hi_outboxes := hi_outboxes (rh_state rh) \<union> S, hi_scanned := Some (low, ?to)\<rparr>\<rparr>, Inr ())"
      using commit_writes [OF assms(2)] by blast
    moreover have "high \<le> ?to" using True sat_add_ge [of high HISTORY_SCAN_BLOCKS] by simp
    ultimately show ?thesis using True S by (simp add: refresh_forward_def Let_def)
  qed
  then obtain rh' high' where f: "refresh_forward A H NoFault node ?confirmed (low, high) rh = (rh', Inr ())"
    "hi_scanned (rh_state rh') = Some (low, high')" "high \<le> high'" "hi_inbox (rh_state rh') = ?inbox" by blast
  have eq: "refresh A H NoFault NoFault node depth rh = refresh_backward A H NoFault node low rh'"
    using head assms(3) f(1) by (simp add: refresh_def Let_def)
  show ?thesis
  proof (cases "0 < low")
    case False
    then have "low = 0" by (simp add: word_gt_0)
    with f eq show ?thesis by (simp add: refresh_backward_def sat_sub_def HISTORY_SCAN_BLOCKS_def)
  next
    case True
    let ?from = "sat_sub low HISTORY_SCAN_BLOCKS"
    obtain S where S: "history_scan_backwards A node ?inbox ?from (low - 1) = Some (?from, S)"
      using responsive_scans(2) [OF assms(1)] by blast
    let ?nxt = "(rh_state rh')\<lparr>hi_outboxes := hi_outboxes (rh_state rh') \<union> S, hi_scanned := Some (?from, high')\<rparr>"
    obtain fs where "history_commit H NoFault ?nxt rh' = (rh'\<lparr>rh_files := fs, rh_state := ?nxt\<rparr>, Inr ())"
      using commit_writes [OF assms(2)] by blast
    then show ?thesis using True S f eq by (simp add: refresh_backward_def Let_def)
  qed
qed

text \<open>C12. The backfill reaches genesis. Once a range is recorded, every refresh against a node that can
  answer moves its lower end 2000 blocks down, whatever the head does: after as many refreshes as the
  lower end has 2000-block chunks, the history is complete from block zero and none of the range above
  was given up.\<close>

theorem backfill_reaches_genesis:
  assumes "\<forall>node \<in> set nodes. responsive A (hi_inbox (rh_state rh)) node" and "\<forall>h. rc_render H h \<noteq> None"
    and "hi_scanned (rh_state rh) = Some (low, high)" and "unat low \<le> 2000 * length nodes"
  shows "\<exists>high'. high \<le> high'
    \<and> hi_scanned (rh_state (fold (\<lambda>node rh. fst (refresh A H NoFault NoFault node depth rh)) nodes rh)) = Some (0, high')"
  using assms
proof (induction nodes arbitrary: rh low high)
  case Nil
  then have "low = 0" by (simp add: unat_eq_zero)
  with Nil(3) show ?case by simp
next
  case (Cons node nodes)
  let ?rh = "fst (refresh A H NoFault NoFault node depth rh)"
  have "responsive A (hi_inbox (rh_state rh)) node" using Cons.prems(1) by simp
  from refresh_backfills [OF this Cons.prems(2,3), of depth] obtain high1 where
    one: "hi_scanned (rh_state ?rh) = Some (sat_sub low HISTORY_SCAN_BLOCKS, high1)" "high \<le> high1"
      "hi_inbox (rh_state ?rh) = hi_inbox (rh_state rh)" by auto
  have "unat (sat_sub low HISTORY_SCAN_BLOCKS) \<le> 2000 * length nodes"
    using Cons.prems(4) by (simp add: unat_sat_sub HISTORY_SCAN_BLOCKS_def)
  from Cons.IH [OF _ Cons.prems(2) one(1) this] Cons.prems(1) one(2,3) show ?case by (auto intro: order_trans)
qed

theorem backfill_reaches_genesis_witness:
  "\<exists>high'. hi_scanned (rh_state (fold (\<lambda>node rh. fst (refresh support_abi \<lparr>rc_render = \<lambda>_. Some [], rc_parse = \<lambda>_. None\<rparr> NoFault NoFault node 0 rh))
      [support_node, support_node] (fresh_routes\<lparr>rh_state := \<lparr>hi_inbox = 3, hi_source_chain_id = 7, hi_scanned = Some (3000, 4000), hi_outboxes = {}\<rparr>\<rparr>)))
    = Some (0, high')"
proof -
  have ok: "responsive support_abi 3 support_node"
    by (simp add: responsive_def support_read) (simp add: support_node_def)
  show ?thesis
    using backfill_reaches_genesis [where nodes = "[support_node, support_node]" and A = support_abi and low = 3000 and high = 4000 and depth = 0
        and rh = "fresh_routes\<lparr>rh_state := \<lparr>hi_inbox = 3, hi_source_chain_id = 7, hi_scanned = Some (3000, 4000), hi_outboxes = {}\<rparr>\<rparr>"
        and H = "\<lparr>rc_render = \<lambda>_. Some [], rc_parse = \<lambda>_. None\<rparr>"] ok
    by auto
qed

section \<open>No delivery is lost\<close>

text \<open>C9. The acknowledgment submitter forgets no delivery. Take any history of scans against truthful
  destination nodes, a full queue, failing or succeeding settlements, failing checkpoint writes, crashes
  and restarts, from a configured first block. While it runs, every transaction with a delivery event up
  to its cursor is queued or was reported settled or terminal; and up to the cursor on disk, where a
  restart may resume, it was so reported. A queue at capacity never drops one: it holds the cursor back.\<close>

theorem ack_no_delivery_lost:
  assumes "reach (settle_begins K (ack_checkpoint_key (ac_chain_key cfg))) (ack_step B A H K cfg world) (SUp w got)"
    and "ack_base cfg < b" and "delivery_at B world b tx"
  shows "(b \<le> aw_last_seen w \<longrightarrow> pending_contains tx (as_pending (aw_state w)) \<or> tx \<in> ack_ended (aw_state w) \<union> got)
    \<and> (\<exists>cs. aw_checkpoint w = Some cs
        \<and> (\<forall>n. cp_get (ack_checkpoint_key (ac_chain_key cfg)) cs = Some n \<and> b \<le> n \<longrightarrow> tx \<in> ack_ended (aw_state w) \<union> got))"
  using acks.no_obligation_lost [OF assms] by simp

definition ackd_abi :: ack_abi where
  "ackd_abi = \<lparr>ab_route = \<lparr>ra_keccak = (\<lambda>_. 8), ra_encode = (\<lambda>_ _ _ _ _. []), ra_not_found = []\<rparr>,
     ab_signature = (\<lambda>k. case k of MessageReceived \<Rightarrow> 1 | MessageQueued \<Rightarrow> 2 | MessageDeferred \<Rightarrow> 3 | MessageExecuted \<Rightarrow> 4),
     ab_dec = (\<lambda>_ _ _. Inr 8), ab_selector = (\<lambda>_. []), ab_from_str = (\<lambda>_. None), ab_encode_inclusion = (\<lambda>_ _. []),
     ab_json = \<lparr>pj_error = (\<lambda>_. None), pj_response = (\<lambda>_. None), pj_reason = (\<lambda>_. None)\<rparr>\<rparr>"

definition ackd_log :: src_log where
  "ackd_log = \<lparr>sl_block_number = Some 1, sl_removed = False, sl_address = 3, sl_tx_hash = Some 4,
     sl_block_hash = Some 6, sl_topics = [4], sl_data = []\<rparr>"

definition ackd_world :: client_world where
  "ackd_world b = (if b = 1 then [ackd_log] else [])"

definition ackd_node :: ack_dest_node where
  "ackd_node = \<lparr>ad_tip = Inr 1, ad_logs = (\<lambda>from_block to_block. Inr (if from_block \<le> 1 \<and> 1 \<le> to_block then [ackd_log] else []))\<rparr>"

definition ackd_config :: ack_config where
  "ackd_config = \<lparr>ac_chain_key = 7, ac_inbox = 3, ac_mode = AckOnly, ac_confirmation_depth = 0, ac_start_block = Some 1,
     ac_lookback = 0, ac_policy = \<lparr>np_poll_interval = secs 15, np_poll_window = secs 600\<rparr>\<rparr>"

text \<open>The source chain knows message 8 on Outbox 5, acknowledged.\<close>

definition acked_node :: ack_node where
  "acked_node = \<lparr>an_message = (\<lambda>_ _. Inr \<lparr>om_emitter = 1, om_sequence = 0, om_can_ack = True, om_acknowledged = True, om_payload_hash = 0\<rparr>),
     an_validator = (\<lambda>_. None), an_outbox = (\<lambda>_. None), an_destination = (\<lambda>_. None)\<rparr>"

definition ackd_try :: ack_try where
  "ackd_try = \<lparr>at_node = acked_node, at_ledger = (\<lambda>_. None), at_http = None, at_ack = (\<lambda>_. BroadcastStalled []),
     at_claim = (\<lambda>_. BroadcastStalled []), at_node_after = acked_node, at_ledger_after = (\<lambda>_. None), at_done_at = 0\<rparr>"

definition no_hints :: hint_env where
  "no_hints = \<lparr>he_supported = None, he_bound = None, he_seed_fault = NoFault, he_bound_fault = NoFault\<rparr>"

definition ackd_tick :: ack_tick_env where
  "ackd_tick = \<lparr>av_now = 0, av_hints = no_hints, av_dial = None, av_dial_error = [], av_history = support_node,
     av_forward_fault = NoFault, av_backward_fault = NoFault, av_node = ackd_node, av_discovered_at = 0, av_fault = CreateFails,
     av_tries = (\<lambda>_. ackd_try), av_batch_at = 0, av_settled_at = 0, av_end = 0\<rparr>"

definition ackd_start :: ack_start_env where
  "ackd_start = \<lparr>ax_dial = Some (), ax_signer_ok = True, ax_creditcoin_ok = True, ax_client_ok = True, ax_chain_id = Some 7,
     ax_readable = True, ax_hints = no_hints, ax_head = None\<rparr>"

definition blank_cp_codec :: cp_codec where
  "blank_cp_codec = \<lparr>cp_render = (\<lambda>m. if m = [] then Some [123] else None), cp_parse = (\<lambda>_. Some [])\<rparr>"

definition ackd_worker :: ack_worker where
  "ackd_worker = \<lparr>aw_last_seen = 0,
     aw_state = \<lparr>as_pending = pending_new MAX_PENDING_ACKS, as_done = seen_new ACK_MAX_DONE_TRACKED, as_events = [], as_metrics = []\<rparr>,
     aw_routes = fresh_routes, aw_pacer = pacer_default, aw_rpc = \<lparr>rn_provider = Some (), rn_consecutive_failures = 0, rn_rebuilds = 0\<rparr>,
     aw_checkpoint = Some \<lparr>cs_inner = [], cs_files = []\<rparr>, aw_beats = 1, aw_errors = 0, aw_write_failures = 0, aw_queue_depth = 0\<rparr>"

lemma ackd_started:
  "ack_start no_rt_codec ackd_config ackd_start None (Some \<lparr>cs_inner = [], cs_files = []\<rparr>) = Some ackd_worker"
  by (simp add: ack_start_def ackd_start_def rpc_connect_def reconnecting_new_def ackd_config_def cp_get_def sat_sub_def
      ackd_worker_def load_from_source_def history_load_def fresh_routes_def history_seed_def seed_validator_def no_hints_def)

lemma ackd_min: "min 1 (sat_add 0 ACK_MAX_BLOCKS_PER_SCAN) = (1 :: u64)"
  by (simp add: sat_add_def ACK_MAX_BLOCKS_PER_SCAN_def min_def)

lemma ackd_decoded: "decode_deliveries ackd_abi 3 1 1 [ackd_log] = Inr [(4, 1, MessageExecuted, 8)]"
  by (simp add: ackd_log_def decode_delivery_log_def ackd_abi_def Let_def)

lemma ackd_discovered:
  "\<exists>q. discover_delivered ackd_abi 3 0 ackd_node 0 (seen_new ACK_MAX_DONE_TRACKED) 0 (pending_new MAX_PENDING_ACKS) = (1, q, Inr ())"
proof -
  have node: "ad_tip ackd_node = Inr 1" "ad_logs ackd_node 1 1 = Inr [ackd_log]" by (simp_all add: ackd_node_def)
  have new: "\<not> seen_contains 4 (seen_new n)" "\<not> pending_contains 4 (pending_new MAX_PENDING_ACKS)" "\<not> pending_is_full (pending_new MAX_PENDING_ACKS)" for n
    by (simp_all add: seen_contains_def seen_new_def pending_contains_def pending_new_def pending_is_full_def MAX_PENDING_ACKS_def)
  show ?thesis
    by (simp add: discover_delivered_def node sat_sub_def ackd_min Let_def ackd_decoded admit_delivery_def new
        del: decode_deliveries.simps)
qed

lemma ackd_ticked: "aw_last_seen (ack_tick ackd_abi support_abi no_rt_codec blank_cp_codec ackd_config ackd_tick ackd_worker) = 1"
proof -
  obtain q where "discover_delivered ackd_abi 3 0 ackd_node 0 (seen_new ACK_MAX_DONE_TRACKED) 0 (pending_new MAX_PENDING_ACKS) = (1, q, Inr ())"
    using ackd_discovered by blast
  then have "aw_last_seen (fst (ack_discover ackd_abi support_abi no_rt_codec blank_cp_codec ackd_config ackd_tick ackd_worker)) = 1"
    by (simp add: ack_discover_def ackd_worker_def rpc_connect_def ackd_tick_def ackd_config_def ack_save_def Let_def
        split: prod.splits)
  moreover have "pacer_deferring (av_now ackd_tick) (aw_pacer ackd_worker) = None"
    by (simp add: ackd_worker_def pacer_default_def pacer_deferring_def)
  ultimately show ?thesis by (auto simp: ack_tick_def Let_def split: prod.splits)
qed

theorem ack_no_delivery_lost_witness:
  "\<exists>w. reach (settle_begins blank_cp_codec (ack_checkpoint_key (ac_chain_key ackd_config)))
        (ack_step ackd_abi support_abi no_rt_codec blank_cp_codec ackd_config ackd_world) (SUp w {})
     \<and> aw_last_seen w = 1 \<and> (pending_contains 4 (as_pending (aw_state w)) \<or> 4 \<in> ack_ended (aw_state w))"
proof -
  let ?begins = "settle_begins blank_cp_codec (ack_checkpoint_key (ac_chain_key ackd_config)) :: ack_worker settle_sys \<Rightarrow> bool"
  let ?step = "ack_step ackd_abi support_abi no_rt_codec blank_cp_codec ackd_config ackd_world"
  let ?w = "ack_tick ackd_abi support_abi no_rt_codec blank_cp_codec ackd_config ackd_tick ackd_worker"
  have codec: "codec_ok blank_cp_codec"
    by (auto simp: codec_ok_def blank_cp_codec_def is_blank_def hm_map_values_def split: if_splits)
  have "?begins (SDown (cs_files \<lparr>cs_inner = [], cs_files = []\<rparr>) {})"
    unfolding settle_begins_def
    by (intro conjI exI [of _ "\<lparr>cs_inner = [], cs_files = []\<rparr>"]) (simp_all add: codec cs_synced_def cp_get_def)
  then have r0: "reach ?begins ?step (SDown [] {})" by (simp add: reach_start)
  have "ack_starts no_rt_codec ackd_config ackd_world \<lparr>cs_inner = [], cs_files = []\<rparr> ackd_worker"
    using ackd_started
    by (auto simp: ack_starts_def client_world_ok_def ackd_world_def ackd_log_def ackd_config_def split: if_splits)
  then have s1: "?step (SDown [] {}) () (SUp ackd_worker {})"
    by (intro settle_starts [where readable = True]) (auto simp: cp_load_def)
  have "client_truthful ackd_world (ad_logs ackd_node)"
    by (auto simp: client_truthful_def ackd_world_def ackd_node_def split: if_splits)
  then have s2: "?step (SUp ackd_worker {}) () (SUp ?w {})"
    by (intro settle_ticks) (auto simp: ack_ticks_def ackd_tick_def intro!: exI [of _ ackd_tick])
  have run: "reach ?begins ?step (SUp ?w {})" using r0 s1 s2 by (meson reach_step)
  have base: "ack_base ackd_config < 1" by (simp add: ack_base_def ackd_config_def sat_sub_def)
  have due: "delivery_at ackd_abi ackd_world 1 4"
    by (simp add: due_def is_delivery_def ackd_world_def ackd_log_def decode_delivery_log_def ackd_abi_def Let_def)
  have "pending_contains 4 (as_pending (aw_state ?w)) \<or> 4 \<in> ack_ended (aw_state ?w)"
    using ack_no_delivery_lost [OF run base due] ackd_ticked by simp
  with run ackd_ticked show ?thesis by blast
qed

section \<open>What releases a delivery\<close>

text \<open>C10. A delivery leaves the queue only on the word of the source chain. If a pass over the queue removes
  a transaction, the pass attempted it, and either the finalized source state read after the submissions
  shows every executed message verified on a candidate Outbox and needing no acknowledgment, and no relay
  fee owed for the received ones; or the state read before already showed all that; or the prover's
  transaction is larger than the validator accepts. Receipts, reverts and unreachable nodes alone never
  release it, nor does a message no candidate Outbox knows.\<close>

theorem ack_released_only_when_settled:
  assumes "finite outboxes" and "pending_contains tx (as_pending st)"
    and "\<not> pending_contains tx (as_pending (ack_process_pending B cfg scid outboxes tries now later st))"
  shows "\<exists>events. (tx, events) \<in> set (pending_ready MAX_ACKS_PER_TICK now (as_pending st))
    \<and> release_reason B (ac_mode cfg) scid outboxes events (tries tx)"
proof -
  let ?batch = "pending_ready MAX_ACKS_PER_TICK now (as_pending st)"
  let ?results = "ack_results B cfg scid outboxes tries ?batch"
  from assms(2,3) obtain ms outcome where "(tx, ms, outcome) \<in> set ?results" and r: "releases outcome"
    using settle_deliveries_leave [of tx "st\<lparr>as_metrics := as_metrics st @ concat (map (\<lambda>(_, ms, _). ms) ?results)\<rparr>"
        "ac_policy cfg" later ?results]
    by (auto simp: ack_process_pending_def Let_def split: if_splits)
  then obtain events where e: "(tx, events) \<in> set ?batch"
    "acknowledge_tx B (ac_mode cfg) scid (ac_chain_key cfg) outboxes events (tries tx) = (ms, outcome)"
    by (auto simp: ack_results_def)
  from acknowledge_tx_released [OF assms(1) _ r] e(2) have "release_reason B (ac_mode cfg) scid outboxes events (tries tx)"
    by (metis snd_conv)
  with e(1) show ?thesis by blast
qed

definition one_delivery :: ack_state where
  "one_delivery = \<lparr>as_pending = \<lparr>pq_seen = [(4, \<lparr>pt_first_seen = 0, pt_block = 1, pt_next_attempt_at = 0, pt_transient_attempts = 0,
       pt_meta = [\<lparr>de_message_id = 8, de_executed = True\<rparr>]\<rparr>)], pq_cap = 2\<rparr>, as_done = seen_new 2, as_events = [], as_metrics = []\<rparr>"

theorem ack_released_only_when_settled_witness:
  "\<not> pending_contains 4 (as_pending (ack_process_pending ackd_abi ackd_config 7 {5} (\<lambda>_. ackd_try) 0 0 one_delivery))
   \<and> release_reason ackd_abi AckOnly 7 {5} [\<lparr>de_message_id = 8, de_executed = True\<rparr>] ackd_try"
proof -
  let ?events = "[\<lparr>de_message_id = 8 :: b256, de_executed = True\<rparr>]"
  have ready: "pending_ready MAX_ACKS_PER_TICK 0 (as_pending one_delivery) = [(4, ?events)]"
    by (simp add: pending_ready_def one_delivery_def MAX_ACKS_PER_TICK_def)
  have executed: "executed_ids ?events = [8]" "message_ids ?events = []"
    by (simp_all add: executed_ids_def message_ids_def conj_commute cong: conj_cong)
  have node: "validator_for (ab_route ackd_abi) acked_node 7 7 {5} 8 = Inr None"
    by (simp add: validator_for_def acked_node_def route_message_id_def ackd_abi_def)
  have tx: "\<exists>ms reason. acknowledge_tx ackd_abi AckOnly 7 7 {5} ?events ackd_try = (ms, Inr (AckTerminal reason))"
    by (simp add: acknowledge_tx_def executed ack_routes_def validators_def ackd_try_def node note_validator_def claim_ids_def Let_def)
  then obtain ms reason where t: "acknowledge_tx ackd_abi AckOnly 7 7 {5} ?events ackd_try = (ms, Inr (AckTerminal reason))" by blast
  have gone: "\<not> pending_contains 4 (as_pending (ack_process_pending ackd_abi ackd_config 7 {5} (\<lambda>_. ackd_try) 0 0 one_delivery))"
    by (simp add: ack_process_pending_def ready ack_results_def Let_def ackd_config_def t settle_delivery_def finish_delivery_def)
  have here: "pending_contains 4 (as_pending one_delivery)" by (simp add: one_delivery_def pending_contains_def)
  have "finite {5 :: address}" by simp
  from ack_released_only_when_settled [OF this here gone] ready gone show ?thesis by (simp add: ackd_config_def)
qed

end
