(* ===== verification/Config.thy ===== *)
theory Config
  imports Failed_Retry Proofgen Messages Pending
begin

text \<open>
  The configuration (\<^verbatim>\<open>message-relayer/src/config.rs\<close> and \<^verbatim>\<open>message-relayer/bin/relayer.rs\<close>): what the
  document or the command line may say, the serde defaults, and the conversion into the validated
  runtime values with every rejection. The YAML reader and alloy's parsers of addresses and integers
  are the parameters \<open>config_codec\<close>. A floating-point number is kept as its bit pattern.
\<close>

type_synonym u16 = "16 word"
type_synonym f64 = "64 word"

section \<open>Results\<close>

definition and_then :: "'e + 'a \<Rightarrow> ('a \<Rightarrow> 'e + 'b) \<Rightarrow> 'e + 'b" where
  "and_then r f = (case r of Inl e \<Rightarrow> Inl e | Inr x \<Rightarrow> f x)"

lemma and_then_simps [simp]: "and_then (Inl e) f = Inl e" "and_then (Inr x) f = f x"
  by (simp_all add: and_then_def)

lemma and_then_Inr: "and_then r f = Inr y \<longleftrightarrow> (\<exists>x. r = Inr x \<and> f x = Inr y)"
  by (cases r) simp_all

text \<open>\<^verbatim>\<open>Option<Result>::transpose\<close> after a map, and the loop that converts a vector and stops at the first error.\<close>

definition traverse_option :: "('a \<Rightarrow> 'e + 'b) \<Rightarrow> 'a option \<Rightarrow> 'e + 'b option" where
  "traverse_option f x = (case x of None \<Rightarrow> Inr None | Some a \<Rightarrow> and_then (f a) (\<lambda>b. Inr (Some b)))"

fun traverse_list :: "('a \<Rightarrow> 'e + 'b) \<Rightarrow> 'a list \<Rightarrow> 'e + 'b list" where
  "traverse_list f [] = Inr []"
| "traverse_list f (a # as) = and_then (f a) (\<lambda>b. and_then (traverse_list f as) (\<lambda>bs. Inr (b # bs)))"

lemma traverse_option_Inr: "traverse_option f x = Inr y \<longleftrightarrow> rel_option (\<lambda>a b. f a = Inr b) x y"
  by (cases x; cases y) (auto simp: traverse_option_def and_then_Inr)

lemma traverse_list_Inr: "traverse_list f xs = Inr ys \<longleftrightarrow> list_all2 (\<lambda>a b. f a = Inr b) xs ys"
  by (induction xs arbitrary: ys) (auto simp: and_then_Inr list_all2_Cons1)

text \<open>Whether a conversion succeeds at all.\<close>

definition converts :: "'e + 'a \<Rightarrow> bool" where "converts r \<longleftrightarrow> \<not> isl r"

lemma converts_simps [simp]: "converts (Inr x)" "\<not> converts (Inl e)"
  by (simp_all add: converts_def)

lemma converts_and_then [simp]: "converts (and_then r f) \<longleftrightarrow> converts r \<and> converts (f (projr r))"
  by (cases r) simp_all

lemma converts_traverse_option [simp]: "converts (traverse_option f x) \<longleftrightarrow> pred_option (\<lambda>a. converts (f a)) x"
  by (cases x) (simp_all add: traverse_option_def)

lemma converts_traverse_list [simp]: "converts (traverse_list f xs) \<longleftrightarrow> list_all (\<lambda>a. converts (f a)) xs"
  by (induction xs) simp_all

lemma converts_ex: "converts r \<longleftrightarrow> (\<exists>x. r = Inr x)"
  by (cases r) simp_all

section \<open>Defaults\<close>

definition DEFAULT_VOTE_CACHE_TTL_SECS :: nat where "DEFAULT_VOTE_CACHE_TTL_SECS = 30 * 60"
definition DEFAULT_VOTE_CACHE_MAX_MESSAGES :: nat where "DEFAULT_VOTE_CACHE_MAX_MESSAGES = 10000"
definition DEFAULT_SIMULATE_BEFORE_SEND :: bool where "DEFAULT_SIMULATE_BEFORE_SEND = True"
definition DEFAULT_DELIVERY_MAX_RETRIES :: u32 where "DEFAULT_DELIVERY_MAX_RETRIES = 5"
definition DEFAULT_GAS_MULTIPLIER :: f64 where "DEFAULT_GAS_MULTIPLIER = 0x3FF3333333333333"
definition DEFAULT_P2P_PORT :: u16 where "DEFAULT_P2P_PORT = 9100"
definition DEFAULT_BLOCK_CONFIRMATION_DEPTH :: u64 where "DEFAULT_BLOCK_CONFIRMATION_DEPTH = 0"
definition DEFAULT_SCAN_LOOKBACK_BLOCKS :: u64 where "DEFAULT_SCAN_LOOKBACK_BLOCKS = 600"
definition DEFAULT_ACK_NOT_READY_POLL_SECS :: u64 where "DEFAULT_ACK_NOT_READY_POLL_SECS = 20"
definition DEFAULT_ACK_NOT_READY_POLL_WINDOW_SECS :: u64 where "DEFAULT_ACK_NOT_READY_POLL_WINDOW_SECS = 30 * 60"
definition DEFAULT_MAX_NATIVE_COIN_VALUE_WEI :: u256 where "DEFAULT_MAX_NATIVE_COIN_VALUE_WEI = 0"
definition DEFAULT_MAX_GAS_LIMIT :: u64 where "DEFAULT_MAX_GAS_LIMIT = 5000000"

lemmas default_defs =
  DEFAULT_VOTE_CACHE_TTL_SECS_def DEFAULT_VOTE_CACHE_MAX_MESSAGES_def DEFAULT_SIMULATE_BEFORE_SEND_def
  DEFAULT_DELIVERY_MAX_RETRIES_def DEFAULT_GAS_MULTIPLIER_def DEFAULT_P2P_PORT_def
  DEFAULT_BLOCK_CONFIRMATION_DEPTH_def DEFAULT_SCAN_LOOKBACK_BLOCKS_def DEFAULT_ACK_NOT_READY_POLL_SECS_def
  DEFAULT_ACK_NOT_READY_POLL_WINDOW_SECS_def DEFAULT_MAX_NATIVE_COIN_VALUE_WEI_def DEFAULT_MAX_GAS_LIMIT_def

section \<open>Runtime values\<close>

record ack_section =
  as_proof_gen_url :: string
  as_validator_address :: address
  as_signer_key :: string
  as_confirmation_depth :: u64
  as_start_block :: "u64 option"
  as_not_ready_poll_secs :: u64
  as_not_ready_poll_window_secs :: u64

record claim_section =
  cs_proof_gen_url :: string
  cs_source_bridge_address :: address
  cs_target_address :: address
  cs_signer_key :: string
  cs_confirmation_depth :: u64
  cs_start_block :: "u64 option"

datatype attestor_source = EvmSource address | Cc3Source u64

datatype attestor_set = StaticSet "address list" | OnChainSet attestor_source

record route_config =
  rg_chain_key :: u64
  rg_creditcoin_chain_id :: u64
  rg_destination_rpc_url :: string
  rg_inbox_address :: address
  rg_signer_key :: "string option"
  rg_outbox_address :: "address option"
  rg_relayer_contract_address :: "address option"
  rg_block_confirmation_depth :: u64
  rg_start_block :: "u64 option"
  rg_attestor_set :: attestor_set
  rg_threshold_override :: "u32 option"
  rg_ack :: "ack_section option"
  rg_claim :: "claim_section option"
  rg_max_native_coin_value_wei :: u256
  rg_max_gas_limit :: u64
  rg_auto_request_top_up :: bool
  rg_failed_retry :: failed_retry_policy

record p2p_config =
  pp_port :: u16
  pp_public_addr :: "string option"
  pp_boot_nodes :: "string list"
  pp_no_mdns :: bool
  pp_identity :: "string option"

record delivery_section =
  ds_simulate_before_send :: bool
  ds_max_retries :: u32
  ds_gas_multiplier :: f64
  ds_failed_retry :: failed_retry_policy

record config =
  cg_bind_host :: string
  cg_bind_port :: u16
  cg_cc3_rpc_url :: string
  cg_creditcoin_eth_rpc_url :: string
  cg_p2p :: p2p_config
  cg_observer :: "string option"
  cg_vote_cache :: vote_cache_config
  cg_delivery :: delivery_section
  cg_routes :: "route_config list"
  cg_checkpoint_path :: "string option"
  cg_scan_lookback_blocks :: u64

definition default_p2p_config :: p2p_config where
  "default_p2p_config = \<lparr>pp_port = DEFAULT_P2P_PORT, pp_public_addr = None, pp_boot_nodes = [], pp_no_mdns = False, pp_identity = None\<rparr>"

definition default_vote_cache_config :: vote_cache_config where
  "default_vote_cache_config = \<lparr>vc_ttl_seconds = DEFAULT_VOTE_CACHE_TTL_SECS, vc_max_messages = DEFAULT_VOTE_CACHE_MAX_MESSAGES\<rparr>"

definition default_delivery_section :: delivery_section where
  "default_delivery_section =
     \<lparr>ds_simulate_before_send = DEFAULT_SIMULATE_BEFORE_SEND, ds_max_retries = DEFAULT_DELIVERY_MAX_RETRIES,
      ds_gas_multiplier = DEFAULT_GAS_MULTIPLIER, ds_failed_retry = default_failed_retry_policy\<rparr>"

definition chain_keys :: "config \<Rightarrow> u64 set" where
  "chain_keys c = set (map rg_chain_key (cg_routes c))"

section \<open>Rejections and checks\<close>

text \<open>Where a message of a rejection points: the delivery section, a route, or a flag.\<close>

datatype origin = OfDelivery | OfRoute u64 | OfFlag string

datatype wei_error = EmptyWei | BadWei string

datatype config_error =
    NoRoutes
  | DuplicateChainKey u64
  | PolicyInvalid origin policy_error
  | InvalidAddress string origin string
  | NoAttestors origin
  | InvalidWei origin wei_error
  | ZeroGasLimit origin
  | ZeroPollSecs origin
  | TopUpNeedsContract origin
  | TopUpNeedsSigner origin
  | MissingFlag string
  | PartialAckFlags
  | PartialClaimFlags
  | ConfigAndSingleRoute
  | NoMode
  | UnreadableFile string
  | InvalidYaml

definition top_up_signer_key :: "route_config \<Rightarrow> string option" where
  "top_up_signer_key r =
     (case rg_ack r of Some a \<Rightarrow> Some (as_signer_key a) | None \<Rightarrow> map_option cs_signer_key (rg_claim r))"

definition validate_max_gas_limit :: "u64 \<Rightarrow> origin \<Rightarrow> config_error + unit" where
  "validate_max_gas_limit cap origin = (if cap = 0 then Inl (ZeroGasLimit origin) else Inr ())"

definition validate_ack_not_ready_poll_secs :: "u64 \<Rightarrow> origin \<Rightarrow> config_error + unit" where
  "validate_ack_not_ready_poll_secs s origin = (if s = 0 then Inl (ZeroPollSecs origin) else Inr ())"

definition validate_policy :: "failed_retry_policy \<Rightarrow> origin \<Rightarrow> config_error + unit" where
  "validate_policy p origin = (case policy_validate p of Inl e \<Rightarrow> Inl (PolicyInvalid origin e) | Inr _ \<Rightarrow> Inr ())"

definition validate_route :: "route_config \<Rightarrow> config_error + unit" where
  "validate_route r =
     (let origin = OfRoute (rg_chain_key r) in
      and_then (validate_max_gas_limit (rg_max_gas_limit r) origin) (\<lambda>_.
      and_then (validate_policy (rg_failed_retry r) origin) (\<lambda>_.
      if rg_auto_request_top_up r
      then if rg_relayer_contract_address r = None then Inl (TopUpNeedsContract origin)
           else if top_up_signer_key r = None then Inl (TopUpNeedsSigner origin)
           else Inr ()
      else Inr ())))"

text \<open>\<^verbatim>\<open>AckConfig::not_ready_policy\<close>.\<close>

definition section_policy :: "ack_section \<Rightarrow> not_ready_policy" where
  "section_policy a =
     \<lparr>np_poll_interval = secs (unat (as_not_ready_poll_secs a)), np_poll_window = secs (unat (as_not_ready_poll_window_secs a))\<rparr>"

section \<open>The document\<close>

text \<open>
  A section of the document, with \<open>None\<close> for a key that is absent and has a serde default. The
  conversions below give the file records: an absent section is the section's \<open>Default\<close>, an absent key
  of a present section the default named at that key.
\<close>

record p2p_doc =
  pd_port :: "u16 option"
  pd_public_addr :: "string option"
  pd_boot_nodes :: "string list option"
  pd_no_mdns :: "bool option"
  pd_identity :: "string option"

record p2p_config_file =
  pf_port :: u16
  pf_public_addr :: "string option"
  pf_boot_nodes :: "string list"
  pf_no_mdns :: bool
  pf_identity :: "string option"

text \<open>\<^verbatim>\<open>P2pConfigFile\<close> derives \<^verbatim>\<open>Default\<close>: an absent section has port zero.\<close>

definition p2p_file :: "p2p_doc option \<Rightarrow> p2p_config_file" where
  "p2p_file doc =
     (case doc of
        None \<Rightarrow> \<lparr>pf_port = 0, pf_public_addr = None, pf_boot_nodes = [], pf_no_mdns = False, pf_identity = None\<rparr>
      | Some d \<Rightarrow> \<lparr>pf_port = unwrap_or DEFAULT_P2P_PORT (pd_port d), pf_public_addr = pd_public_addr d,
                   pf_boot_nodes = unwrap_or [] (pd_boot_nodes d), pf_no_mdns = unwrap_or False (pd_no_mdns d),
                   pf_identity = pd_identity d\<rparr>)"

record vote_cache_doc =
  vd_ttl_seconds :: "nat option"
  vd_max_messages :: "nat option"

record vote_cache_config_file =
  vf_ttl_seconds :: nat
  vf_max_messages :: nat

definition vote_cache_file :: "vote_cache_doc option \<Rightarrow> vote_cache_config_file" where
  "vote_cache_file doc =
     (case doc of
        None \<Rightarrow> \<lparr>vf_ttl_seconds = DEFAULT_VOTE_CACHE_TTL_SECS, vf_max_messages = DEFAULT_VOTE_CACHE_MAX_MESSAGES\<rparr>
      | Some d \<Rightarrow> \<lparr>vf_ttl_seconds = unwrap_or DEFAULT_VOTE_CACHE_TTL_SECS (vd_ttl_seconds d),
                   vf_max_messages = unwrap_or DEFAULT_VOTE_CACHE_MAX_MESSAGES (vd_max_messages d)\<rparr>)"

record delivery_doc =
  dd_simulate_before_send :: "bool option"
  dd_max_retries :: "u32 option"
  dd_gas_multiplier :: "f64 option"
  dd_failed_retry_max_attempts :: "u32 option"
  dd_failed_retry_initial_backoff_secs :: "u64 option"
  dd_failed_retry_max_backoff_secs :: "u64 option"

record delivery_config_file =
  df_simulate_before_send :: bool
  df_max_retries :: u32
  df_gas_multiplier :: f64
  df_failed_retry_max_attempts :: u32
  df_failed_retry_initial_backoff_secs :: u64
  df_failed_retry_max_backoff_secs :: u64

definition default_delivery_config_file :: delivery_config_file where
  "default_delivery_config_file =
     \<lparr>df_simulate_before_send = DEFAULT_SIMULATE_BEFORE_SEND, df_max_retries = DEFAULT_DELIVERY_MAX_RETRIES,
      df_gas_multiplier = DEFAULT_GAS_MULTIPLIER,
      df_failed_retry_max_attempts = fp_max_attempts default_failed_retry_policy,
      df_failed_retry_initial_backoff_secs = fp_initial_backoff_secs default_failed_retry_policy,
      df_failed_retry_max_backoff_secs = fp_max_backoff_secs default_failed_retry_policy\<rparr>"

definition delivery_file :: "delivery_doc option \<Rightarrow> delivery_config_file" where
  "delivery_file doc =
     (case doc of
        None \<Rightarrow> default_delivery_config_file
      | Some d \<Rightarrow>
          \<lparr>df_simulate_before_send = unwrap_or DEFAULT_SIMULATE_BEFORE_SEND (dd_simulate_before_send d),
           df_max_retries = unwrap_or DEFAULT_DELIVERY_MAX_RETRIES (dd_max_retries d),
           df_gas_multiplier = unwrap_or DEFAULT_GAS_MULTIPLIER (dd_gas_multiplier d),
           df_failed_retry_max_attempts = unwrap_or (fp_max_attempts default_failed_retry_policy) (dd_failed_retry_max_attempts d),
           df_failed_retry_initial_backoff_secs =
             unwrap_or (fp_initial_backoff_secs default_failed_retry_policy) (dd_failed_retry_initial_backoff_secs d),
           df_failed_retry_max_backoff_secs =
             unwrap_or (fp_max_backoff_secs default_failed_retry_policy) (dd_failed_retry_max_backoff_secs d)\<rparr>)"

definition file_failed_retry :: "delivery_config_file \<Rightarrow> failed_retry_policy" where
  "file_failed_retry d =
     \<lparr>fp_max_attempts = df_failed_retry_max_attempts d, fp_initial_backoff_secs = df_failed_retry_initial_backoff_secs d,
      fp_max_backoff_secs = df_failed_retry_max_backoff_secs d\<rparr>"

datatype wei_file = WeiInt u64 | WeiStr string

datatype attestor_set_file =
    StaticFile "string list"
  | EvmContractFile string
  | Cc3ActiveSetFile u64

record ack_doc =
  ad_proof_gen_url :: string
  ad_validator_address :: string
  ad_signer_key :: string
  ad_confirmation_depth :: "u64 option"
  ad_start_block :: "u64 option"
  ad_not_ready_poll_secs :: "u64 option"
  ad_not_ready_poll_window_secs :: "u64 option"

record ack_config_file =
  af_proof_gen_url :: string
  af_validator_address :: string
  af_signer_key :: string
  af_confirmation_depth :: u64
  af_start_block :: "u64 option"
  af_not_ready_poll_secs :: u64
  af_not_ready_poll_window_secs :: u64

definition ack_file :: "ack_doc \<Rightarrow> ack_config_file" where
  "ack_file d =
     \<lparr>af_proof_gen_url = ad_proof_gen_url d, af_validator_address = ad_validator_address d, af_signer_key = ad_signer_key d,
      af_confirmation_depth = unwrap_or 0 (ad_confirmation_depth d), af_start_block = ad_start_block d,
      af_not_ready_poll_secs = unwrap_or DEFAULT_ACK_NOT_READY_POLL_SECS (ad_not_ready_poll_secs d),
      af_not_ready_poll_window_secs = unwrap_or DEFAULT_ACK_NOT_READY_POLL_WINDOW_SECS (ad_not_ready_poll_window_secs d)\<rparr>"

record claim_doc =
  kd_proof_gen_url :: string
  kd_source_bridge_address :: string
  kd_target_address :: string
  kd_signer_key :: string
  kd_confirmation_depth :: "u64 option"
  kd_start_block :: "u64 option"

record claim_config_file =
  kf_proof_gen_url :: string
  kf_source_bridge_address :: string
  kf_target_address :: string
  kf_signer_key :: string
  kf_confirmation_depth :: u64
  kf_start_block :: "u64 option"

definition claim_file :: "claim_doc \<Rightarrow> claim_config_file" where
  "claim_file d =
     \<lparr>kf_proof_gen_url = kd_proof_gen_url d, kf_source_bridge_address = kd_source_bridge_address d,
      kf_target_address = kd_target_address d, kf_signer_key = kd_signer_key d,
      kf_confirmation_depth = unwrap_or 0 (kd_confirmation_depth d), kf_start_block = kd_start_block d\<rparr>"

record route_doc =
  rd_chain_key :: u64
  rd_creditcoin_chain_id :: u64
  rd_destination_rpc_url :: string
  rd_inbox_address :: string
  rd_signer_key :: "string option"
  rd_outbox_address :: "string option"
  rd_relayer_contract_address :: "string option"
  rd_block_confirmation_depth :: "u64 option"
  rd_start_block :: "u64 option"
  rd_attestor_set :: attestor_set_file
  rd_threshold_override :: "u32 option"
  rd_ack :: "ack_doc option"
  rd_claim :: "claim_doc option"
  rd_max_native_coin_value_wei :: "wei_file option"
  rd_max_gas_limit :: "u64 option"
  rd_auto_request_top_up :: "bool option"
  rd_failed_retry_max_attempts :: "u32 option"
  rd_failed_retry_initial_backoff_secs :: "u64 option"
  rd_failed_retry_max_backoff_secs :: "u64 option"

record chain_route_file =
  rf_chain_key :: u64
  rf_creditcoin_chain_id :: u64
  rf_destination_rpc_url :: string
  rf_inbox_address :: string
  rf_signer_key :: "string option"
  rf_outbox_address :: "string option"
  rf_relayer_contract_address :: "string option"
  rf_block_confirmation_depth :: u64
  rf_start_block :: "u64 option"
  rf_attestor_set :: attestor_set_file
  rf_threshold_override :: "u32 option"
  rf_ack :: "ack_config_file option"
  rf_claim :: "claim_config_file option"
  rf_max_native_coin_value_wei :: "wei_file option"
  rf_max_gas_limit :: u64
  rf_auto_request_top_up :: bool
  rf_failed_retry_max_attempts :: "u32 option"
  rf_failed_retry_initial_backoff_secs :: "u64 option"
  rf_failed_retry_max_backoff_secs :: "u64 option"

definition route_file :: "route_doc \<Rightarrow> chain_route_file" where
  "route_file d =
     \<lparr>rf_chain_key = rd_chain_key d, rf_creditcoin_chain_id = rd_creditcoin_chain_id d,
      rf_destination_rpc_url = rd_destination_rpc_url d, rf_inbox_address = rd_inbox_address d,
      rf_signer_key = rd_signer_key d, rf_outbox_address = rd_outbox_address d,
      rf_relayer_contract_address = rd_relayer_contract_address d,
      rf_block_confirmation_depth = unwrap_or 0 (rd_block_confirmation_depth d),
      rf_start_block = rd_start_block d, rf_attestor_set = rd_attestor_set d,
      rf_threshold_override = rd_threshold_override d, rf_ack = map_option ack_file (rd_ack d),
      rf_claim = map_option claim_file (rd_claim d), rf_max_native_coin_value_wei = rd_max_native_coin_value_wei d,
      rf_max_gas_limit = unwrap_or DEFAULT_MAX_GAS_LIMIT (rd_max_gas_limit d),
      rf_auto_request_top_up = unwrap_or False (rd_auto_request_top_up d),
      rf_failed_retry_max_attempts = rd_failed_retry_max_attempts d,
      rf_failed_retry_initial_backoff_secs = rd_failed_retry_initial_backoff_secs d,
      rf_failed_retry_max_backoff_secs = rd_failed_retry_max_backoff_secs d\<rparr>"

record config_doc =
  gd_bind_host :: string
  gd_bind_port :: u16
  gd_p2p :: "p2p_doc option"
  gd_observer :: "string option"
  gd_vote_cache :: "vote_cache_doc option"
  gd_delivery :: "delivery_doc option"
  gd_scan_lookback_blocks :: "u64 option"
  gd_routes :: "route_doc list"

record config_file =
  gf_bind_host :: string
  gf_bind_port :: u16
  gf_p2p :: p2p_config_file
  gf_observer :: "string option"
  gf_vote_cache :: vote_cache_config_file
  gf_delivery :: delivery_config_file
  gf_scan_lookback_blocks :: u64
  gf_routes :: "chain_route_file list"

definition file_of :: "config_doc \<Rightarrow> config_file" where
  "file_of d =
     \<lparr>gf_bind_host = gd_bind_host d, gf_bind_port = gd_bind_port d, gf_p2p = p2p_file (gd_p2p d),
      gf_observer = gd_observer d, gf_vote_cache = vote_cache_file (gd_vote_cache d),
      gf_delivery = delivery_file (gd_delivery d),
      gf_scan_lookback_blocks = unwrap_or DEFAULT_SCAN_LOOKBACK_BLOCKS (gd_scan_lookback_blocks d),
      gf_routes = map route_file (gd_routes d)\<rparr>"

end
