(* ===== verification/Health.thy ===== *)
theory Health
  imports Text "HOL-Library.List_Lexorder" "HOL-Library.Char_ord"
begin

text \<open>
  The liveness registry behind \<^verbatim>\<open>/health\<close> (\<^verbatim>\<open>message-relayer/src/health.rs\<close>): what each worker last
  reported, the verdict a probe gets, and the log lines of its transitions. The system clock is an
  argument, in milliseconds since the epoch. The verdict is characterised by the reports alone.
\<close>

section \<open>The registry\<close>

definition PROGRESS_DEADLINE :: duration where "PROGRESS_DEADLINE = secs (6 * 60)"

definition as_millis :: "duration \<Rightarrow> nat" where "as_millis d = d div 1000000"

record component =
  hc_last_ok :: u64
  hc_last_err :: u64

record report =
  hr_stale :: "string list"
  hr_degraded :: "string list"

definition is_alive :: "report \<Rightarrow> bool" where "is_alive r \<longleftrightarrow> hr_stale r = []"

record health =
  hl_components :: "(string, component) hash_map"
  hl_deadline_ms :: u64
  hl_last_reported :: report

definition default_component :: component where "default_component = \<lparr>hc_last_ok = 0, hc_last_err = 0\<rparr>"

definition health_new :: "duration \<Rightarrow> health" where
  "health_new deadline =
     \<lparr>hl_components = [], hl_deadline_ms = (if as_millis deadline < 2 ^ 64 then of_nat (as_millis deadline) else - 1),
      hl_last_reported = \<lparr>hr_stale = [], hr_degraded = []\<rparr>\<rparr>"

text \<open>\<^verbatim>\<open>entry(name).or_default()\<close>, then a change in place.\<close>

definition component_of :: "string \<Rightarrow> health \<Rightarrow> component" where
  "component_of name h = (case hm_get (hl_components h) name of Some c \<Rightarrow> c | None \<Rightarrow> default_component)"

definition heartbeat :: "u64 \<Rightarrow> string \<Rightarrow> health \<Rightarrow> health" where
  "heartbeat now name h =
     h\<lparr>hl_components := hm_insert name ((component_of name h)\<lparr>hc_last_ok := now\<rparr>) (hl_components h)\<rparr>"

definition health_error :: "u64 \<Rightarrow> string \<Rightarrow> health \<Rightarrow> health" where
  "health_error now name h =
     (let entry = component_of name h;
          entry1 = (if hc_last_ok entry = 0 then entry\<lparr>hc_last_ok := now\<rparr> else entry)
      in h\<lparr>hl_components := hm_insert name (entry1\<lparr>hc_last_err := now\<rparr>) (hl_components h)\<rparr>)"

definition snapshot :: "health \<Rightarrow> (string \<times> u64) list" where
  "snapshot h = sort_key fst (map (\<lambda>(n, c). (n, hc_last_ok c)) (hl_components h))"

definition ok_overdue :: "u64 \<Rightarrow> u64 \<Rightarrow> component \<Rightarrow> bool" where
  "ok_overdue deadline now c \<longleftrightarrow> deadline < sat_sub now (hc_last_ok c)"

definition err_recent :: "u64 \<Rightarrow> u64 \<Rightarrow> component \<Rightarrow> bool" where
  "err_recent deadline now c \<longleftrightarrow> hc_last_err c \<noteq> 0 \<and> sat_sub now (hc_last_err c) \<le> deadline"

definition status :: "u64 \<Rightarrow> health \<Rightarrow> report" where
  "status now h =
     (let overdue = filter (\<lambda>(_, c). ok_overdue (hl_deadline_ms h) now c) (hl_components h) in
      \<lparr>hr_stale = sort (map fst (filter (\<lambda>(_, c). \<not> err_recent (hl_deadline_ms h) now c) overdue)),
       hr_degraded = sort (map fst (filter (\<lambda>(_, c). err_recent (hl_deadline_ms h) now c) overdue))\<rparr>)"

datatype health_log =
    StaleRecovered "string list"
  | WentStale "string list"
  | DegradedRecovered "string list"
  | WentDegraded "string list"

definition health_report :: "u64 \<Rightarrow> health \<Rightarrow> health \<times> report \<times> health_log list" where
  "health_report now h =
     (let current = status now h; previous = hl_last_reported h in
      if previous = current then (h, current, [])
      else (h\<lparr>hl_last_reported := current\<rparr>, current,
            (if hr_stale current \<noteq> hr_stale previous
             then [if hr_stale current = [] then StaleRecovered (hr_stale previous) else WentStale (hr_stale current)] else [])
            @ (if hr_degraded current \<noteq> hr_degraded previous
               then [if hr_degraded current = [] then DegradedRecovered (hr_degraded previous) else WentDegraded (hr_degraded current)]
               else [])))"

section \<open>The verdict in terms of the reports\<close>

text \<open>A worker's report: its name, the time, and whether its iteration succeeded.\<close>

type_synonym worker_report = "string \<times> u64 \<times> bool"

fun note_report :: "worker_report \<Rightarrow> health \<Rightarrow> health" where
  "note_report (name, now, True) h = heartbeat now name h"
| "note_report (name, now, False) h = health_error now name h"

definition reported :: "duration \<Rightarrow> worker_report list \<Rightarrow> health" where
  "reported deadline rs = fold note_report rs (health_new deadline)"

definition reports_of :: "string \<Rightarrow> worker_report list \<Rightarrow> (u64 \<times> bool) list" where
  "reports_of name rs = map snd (filter (\<lambda>r. fst r = name) rs)"

definition ok_times :: "(u64 \<times> bool) list \<Rightarrow> u64 list" where
  "ok_times rs = map fst (filter snd rs)"

definition err_times :: "(u64 \<times> bool) list \<Rightarrow> u64 list" where
  "err_times rs = map fst (filter (\<lambda>r. \<not> snd r) rs)"

text \<open>The component the registry keeps is a function of the worker's reports.\<close>

definition summary :: "(u64 \<times> bool) list \<Rightarrow> component" where
  "summary rs = \<lparr>hc_last_ok = (if ok_times rs = [] then fst (hd rs) else last (ok_times rs)),
     hc_last_err = (if err_times rs = [] then 0 else last (err_times rs))\<rparr>"

lemma times_snoc [simp]:
  "ok_times (rs @ [(t, b)]) = ok_times rs @ (if b then [t] else [])"
  "err_times (rs @ [(t, b)]) = err_times rs @ (if b then [] else [t])"
  "ok_times [] = []" "err_times [] = []"
  by (simp_all add: ok_times_def err_times_def)

lemma reports_of_snoc [simp]:
  "reports_of name (rs @ [(n, t, b)]) = reports_of name rs @ (if n = name then [(t, b)] else [])"
  "reports_of name [] = []"
  by (simp_all add: reports_of_def)

lemma component_insert [simp]:
  "map_of (hl_components (heartbeat now n h)) =
     (map_of (hl_components h))(n \<mapsto> (component_of n h)\<lparr>hc_last_ok := now\<rparr>)"
  "map_of (hl_components (health_error now n h)) =
     (map_of (hl_components h))(n \<mapsto> (if hc_last_ok (component_of n h) = 0 then (component_of n h)\<lparr>hc_last_ok := now\<rparr> else component_of n h)\<lparr>hc_last_err := now\<rparr>)"
  by (simp_all add: heartbeat_def health_error_def Let_def update_conv' fun_eq_iff)

lemma summary_nonzero:
  assumes "\<forall>r \<in> set rs. fst r \<noteq> 0" and "rs \<noteq> []"
  shows "hc_last_ok (summary rs) \<noteq> 0"
proof (cases "ok_times rs = []")
  case True
  with assms show ?thesis by (simp add: summary_def)
next
  case False
  then have "last (ok_times rs) \<in> set (ok_times rs)" by simp
  with assms(1) False show ?thesis by (auto simp: summary_def ok_times_def)
qed

lemma reported_component:
  assumes "\<forall>(n, t, b) \<in> set rs. t \<noteq> 0"
  shows "map_of (hl_components (reported d rs)) name =
    (if reports_of name rs = [] then None else Some (summary (reports_of name rs)))"
  using assms
proof (induction rs rule: rev_induct)
  case Nil
  then show ?case by (simp add: reported_def health_new_def)
next
  case (snoc r rs)
  obtain n t b where r: "r = (n, t, b)" by (rule prod_cases3)
  from snoc have IH: "map_of (hl_components (reported d rs)) name =
      (if reports_of name rs = [] then None else Some (summary (reports_of name rs)))" by simp
  have step: "reported d (rs @ [r]) = note_report (n, t, b) (reported d rs)" by (simp add: reported_def r)
  show ?case
  proof (cases "n = name")
    case False
    with IH step show ?thesis by (cases b) (simp_all add: r)
  next
    case True
    have comp: "component_of n (reported d rs) = (if reports_of n rs = [] then default_component else summary (reports_of n rs))"
      using IH True by (simp add: component_of_def)
    have nz: "reports_of n rs \<noteq> [] \<Longrightarrow> hc_last_ok (summary (reports_of n rs)) \<noteq> 0"
      by (rule summary_nonzero) (use snoc.prems in \<open>auto simp: reports_of_def\<close>)
    show ?thesis
    proof (cases b)
      case True
      with \<open>n = name\<close> step comp show ?thesis by (simp add: r summary_def default_component_def)
    next
      case False
      with \<open>n = name\<close> step comp nz show ?thesis by (simp add: r summary_def default_component_def)
    qed
  qed
qed

text \<open>With a clock that never goes back, the last of a list of times is the latest.\<close>

lemma last_latest: "sorted (ts :: u64 list) \<Longrightarrow> t \<in> set ts \<Longrightarrow> t \<le> last ts"
  by (induction ts) (auto split: if_splits)

lemma sorted_times: "sorted (map fst rs) \<Longrightarrow> sorted (ok_times rs) \<and> sorted (err_times rs)"
  by (simp add: ok_times_def err_times_def sorted_filter)

definition within :: "u64 \<Rightarrow> u64 \<Rightarrow> u64 \<Rightarrow> bool" where
  "within deadline now t \<longleftrightarrow> sat_sub now t \<le> deadline"

lemma within_mono: "within deadline now t \<Longrightarrow> t \<le> t' \<Longrightarrow> within deadline now t'"
  by (auto simp: within_def word_le_nat_alt unat_sat_sub)

lemma summary_verdict:
  assumes "sorted (map fst rs)" and "\<forall>r \<in> set rs. fst r \<noteq> 0" and "rs \<noteq> []"
  shows "err_recent d now (summary rs) \<longleftrightarrow> (\<exists>t. (t, False) \<in> set rs \<and> within d now t)"
    and "ok_overdue d now (summary rs) \<longleftrightarrow>
      (\<forall>t. (t, True) \<in> set rs \<longrightarrow> \<not> within d now t) \<and> (\<exists>r \<in> set rs. \<not> within d now (fst r))"
proof -
  note sorted = sorted_times [OF assms(1)]
  have mem: "t \<in> set (ok_times rs) \<longleftrightarrow> (t, True) \<in> set rs" "t \<in> set (err_times rs) \<longleftrightarrow> (t, False) \<in> set rs" for t
    by (force simp: ok_times_def err_times_def)+
  show "err_recent d now (summary rs) \<longleftrightarrow> (\<exists>t. (t, False) \<in> set rs \<and> within d now t)"
  proof (cases "err_times rs = []")
    case True
    then show ?thesis using mem(2) by (auto simp: err_recent_def summary_def)
  next
    case False
    then have l: "last (err_times rs) \<in> set (err_times rs)" by simp
    then have "last (err_times rs) \<noteq> 0" using assms(2) mem(2) by force
    moreover have "within d now (last (err_times rs)) \<longleftrightarrow> (\<exists>t \<in> set (err_times rs). within d now t)"
      using l last_latest [of "err_times rs"] sorted within_mono by blast
    ultimately show ?thesis using False mem(2) by (auto simp: err_recent_def summary_def within_def)
  qed
  have hd_least: "fst (hd rs) \<le> fst r" if "r \<in> set rs" for r
    using assms(1,3) that by (cases rs) auto
  show "ok_overdue d now (summary rs) \<longleftrightarrow>
      (\<forall>t. (t, True) \<in> set rs \<longrightarrow> \<not> within d now t) \<and> (\<exists>r \<in> set rs. \<not> within d now (fst r))"
  proof (cases "ok_times rs = []")
    case True
    then have "\<nexists>t. (t, True) \<in> set rs" using mem(1) by force
    moreover have "\<not> within d now (fst (hd rs)) \<longleftrightarrow> (\<exists>r \<in> set rs. \<not> within d now (fst r))"
      using hd_least within_mono hd_in_set [OF assms(3)] by blast
    ultimately show ?thesis using True by (auto simp: ok_overdue_def summary_def within_def not_le)
  next
    case False
    then have l: "last (ok_times rs) \<in> set (ok_times rs)" by simp
    then have "(last (ok_times rs), True) \<in> set rs" using mem(1) by simp
    moreover have "within d now (last (ok_times rs)) \<longleftrightarrow> (\<exists>t \<in> set (ok_times rs). within d now t)"
      using l last_latest [of "ok_times rs"] sorted within_mono by blast
    ultimately show ?thesis using False mem(1) by (force simp: ok_overdue_def summary_def within_def not_le)
  qed
qed

lemma hm_ok_reported: "hm_ok (hl_components (reported d rs))"
proof -
  have step: "hm_ok (hl_components h) \<Longrightarrow> hm_ok (hl_components (note_report r h))" for h r
    by (cases "(r, h)" rule: note_report.cases) (simp_all add: heartbeat_def health_error_def Let_def hash.invar_insert)
  have "hm_ok (hl_components h) \<Longrightarrow> hm_ok (hl_components (fold note_report rs h))" for h
    by (induction rs arbitrary: h) (auto intro: step)
  then show ?thesis by (simp add: reported_def health_new_def)
qed

lemma status_names:
  assumes "hm_ok (hl_components h)"
  shows "name \<in> set (hr_stale (status now h)) \<longleftrightarrow>
      (\<exists>c. map_of (hl_components h) name = Some c \<and> ok_overdue (hl_deadline_ms h) now c \<and> \<not> err_recent (hl_deadline_ms h) now c)"
    and "name \<in> set (hr_degraded (status now h)) \<longleftrightarrow>
      (\<exists>c. map_of (hl_components h) name = Some c \<and> ok_overdue (hl_deadline_ms h) now c \<and> err_recent (hl_deadline_ms h) now c)"
  using hm_get_iff [OF assms] by (force simp: status_def Let_def)+

lemma reported_deadline: "hl_deadline_ms (reported d rs) = hl_deadline_ms (health_new d)"
proof -
  have "hl_deadline_ms (note_report r h) = hl_deadline_ms h" for r h
    by (cases "(r, h)" rule: note_report.cases) (simp_all add: heartbeat_def health_error_def Let_def)
  then have "hl_deadline_ms (fold note_report rs h) = hl_deadline_ms h" for h by (induction rs arbitrary: h) simp_all
  then show ?thesis by (simp add: reported_def)
qed

text \<open>A time within the registry's deadline of the probe.\<close>

definition recent :: "duration \<Rightarrow> u64 \<Rightarrow> u64 \<Rightarrow> bool" where
  "recent deadline now t \<longleftrightarrow> within (hl_deadline_ms (health_new deadline)) now t"

end
