(* ===== verification/Attestor_Set.thy ===== *)
theory Attestor_Set
  imports Config Health Pacing
begin

text \<open>
  The on-chain attestor-set watcher (\<^verbatim>\<open>message-relayer/src/attestor_set.rs\<close>): which routes it serves, one poll of
  the destination validator with pacing and health reports, and what it pushes to the vote pool. The
  validator's answers are inputs: an error text or a value, for the connection and each call.
\<close>

section \<open>The validator contract\<close>

record validator_node =
  vn_connect :: "string option"
  vn_attestors :: "string + address list"
  vn_threshold :: "string + u256"
  vn_nonce :: "string + u256"
  vn_chain_id :: "string + u64"

definition with_context :: "string \<Rightarrow> string + 'a \<Rightarrow> string + 'a" where
  "with_context what r = (case r of Inl e \<Rightarrow> Inl (what @ '': '' @ e) | Inr x \<Rightarrow> Inr x)"

definition connect :: "string \<Rightarrow> validator_node \<Rightarrow> string + unit" where
  "connect what node = with_context what (case vn_connect node of None \<Rightarrow> Inr () | Some e \<Rightarrow> Inl e)"

section \<open>Reading the set\<close>

definition ATTESTOR_SET_POLL_SECS :: u64 where "ATTESTOR_SET_POLL_SECS = 30"

text \<open>An over-large threshold saturates, which means never to deliver.\<close>

definition read_set :: "validator_node \<Rightarrow> string + address list \<times> nat" where
  "read_set node =
     and_then (with_context ''IVoteValidator.attestors() call failed'' (vn_attestors node)) (\<lambda>attestors.
     and_then (with_context ''IVoteValidator.threshold() call failed'' (vn_threshold node)) (\<lambda>threshold.
     Inr (attestors, unat (sat_to_u64 threshold))))"

definition connect_and_read_set :: "string \<Rightarrow> validator_node \<Rightarrow> string + address list \<times> nat" where
  "connect_and_read_set url node =
     and_then (connect (''attestor-set watcher failed to connect to destination RPC at '' @ url) node) (\<lambda>_. read_set node)"

section \<open>The watcher\<close>

text \<open>The contract of an \<^verbatim>\<open>OnChain { Evm }\<close> route; every other route parks the watcher until shutdown.\<close>

definition watched_validator :: "route_config \<Rightarrow> address option" where
  "watched_validator r =
     (case rg_attestor_set r of OnChainSet (EvmSource a) \<Rightarrow> Some a | OnChainSet (Cc3Source _) \<Rightarrow> None | StaticSet _ \<Rightarrow> None)"

record set_watcher =
  sw_last :: "(address list \<times> nat) option"
  sw_pacer :: rate_limit_pacer
  sw_health :: health

text \<open>What a tick sees: the clock before and after the read, the wall clock, and the node.\<close>

record watch_input =
  wi_now :: instant
  wi_later :: instant
  wi_unix_ms :: u64
  wi_node :: validator_node

datatype watch_next = KeepWatching | WatcherDone

definition watcher_key :: "u64 \<Rightarrow> string" where
  "watcher_key chain_key = ''attestor-set:'' @ decimal (unat chain_key)"

definition watcher_start :: "route_config \<Rightarrow> u64 \<Rightarrow> health \<Rightarrow> set_watcher option" where
  "watcher_start r now h =
     (case watched_validator r of
        None \<Rightarrow> None
      | Some _ \<Rightarrow> Some \<lparr>sw_last = None, sw_pacer = pacer_default,
                       sw_health = heartbeat now (watcher_key (rg_chain_key r)) h\<rparr>)"

text \<open>One tick; the last argument of the result is the update to send, if the set is new or changed.\<close>

definition set_watch_tick :: "route_config \<Rightarrow> watch_input \<Rightarrow> set_watcher \<Rightarrow> set_watcher \<times> route_attestors option" where
  "set_watch_tick r i w =
     (let key = watcher_key (rg_chain_key r) in
      if pacer_deferring (wi_now i) (sw_pacer w) \<noteq> None then (w, None)
      else case connect_and_read_set (rg_destination_rpc_url r) (wi_node i) of
             Inr (attestors, threshold) \<Rightarrow>
               let w1 = w\<lparr>sw_health := heartbeat (wi_unix_ms i) key (sw_health w),
                          sw_pacer := pacer_after False (wi_later i) (sw_pacer w)\<rparr>
               in if sw_last w = Some (attestors, threshold) then (w1, None)
                  else (w1\<lparr>sw_last := Some (attestors, threshold)\<rparr>,
                        Some \<lparr>ra_chain_key = rg_chain_key r, ra_attestors = attestors, ra_threshold = threshold\<rparr>)
           | Inl e \<Rightarrow>
               (w\<lparr>sw_health := health_error (wi_unix_ms i) key (sw_health w),
                  sw_pacer := pacer_after (error_looks_rate_limited e) (wi_later i) (sw_pacer w)\<rparr>, None))"

text \<open>The send ends the watcher when the pool's channel is closed.\<close>

definition after_push :: "bool \<Rightarrow> route_attestors option \<Rightarrow> watch_next" where
  "after_push channel_open push = (if push \<noteq> None \<and> \<not> channel_open then WatcherDone else KeepWatching)"

section \<open>What the pool is told\<close>

text \<open>A run of ticks with the pool listening: the updates it is sent, and the reads that succeeded.\<close>

fun watch_run :: "route_config \<Rightarrow> watch_input list \<Rightarrow> set_watcher \<Rightarrow> set_watcher \<times> route_attestors list" where
  "watch_run r [] w = (w, [])"
| "watch_run r (i # is) w =
     (let (w1, push) = set_watch_tick r i w; (w2, pushes) = watch_run r is w1
      in (w2, (case push of None \<Rightarrow> pushes | Some p \<Rightarrow> p # pushes)))"

fun reads_of :: "route_config \<Rightarrow> watch_input list \<Rightarrow> set_watcher \<Rightarrow> (address list \<times> nat) list" where
  "reads_of r [] w = []"
| "reads_of r (i # is) w =
     (let rest = reads_of r is (fst (set_watch_tick r i w)) in
      if pacer_deferring (wi_now i) (sw_pacer w) \<noteq> None then rest
      else case connect_and_read_set (rg_destination_rpc_url r) (wi_node i) of Inr s \<Rightarrow> s # rest | Inl _ \<Rightarrow> rest)"

definition update_of :: "route_config \<Rightarrow> address list \<times> nat \<Rightarrow> route_attestors" where
  "update_of r s = \<lparr>ra_chain_key = rg_chain_key r, ra_attestors = fst s, ra_threshold = snd s\<rparr>"

lemma watch_tick_cases:
  obtains (quiet) w' where "set_watch_tick r i w = (w', None)" "sw_last w' = sw_last w"
      "reads_of r (i # is) w = reads_of r is w'"
  | (same) w' s where "set_watch_tick r i w = (w', None)" "sw_last w' = sw_last w" "sw_last w = Some s"
      "reads_of r (i # is) w = s # reads_of r is w'"
  | (changed) w' s where "set_watch_tick r i w = (w', Some (update_of r s))" "sw_last w \<noteq> Some s" "sw_last w' = Some s"
      "reads_of r (i # is) w = s # reads_of r is w'"
proof (cases "pacer_deferring (wi_now i) (sw_pacer w)")
  case (Some d)
  then show ?thesis by (intro quiet) (simp_all add: set_watch_tick_def Let_def)
next
  case None
  show ?thesis
  proof (cases "connect_and_read_set (rg_destination_rpc_url r) (wi_node i)")
    case (Inl e)
    with None show ?thesis by (intro quiet) (simp_all add: set_watch_tick_def Let_def)
  next
    case (Inr s)
    then show ?thesis
      using None same [of _ s] changed [of _ s]
      by (cases s; cases "sw_last w = Some s") (auto simp: set_watch_tick_def Let_def update_of_def)
  qed
qed

lemma watch_run_pushes:
  "snd (watch_run r is w) =
     map (update_of r) (case sw_last w of None \<Rightarrow> remdups_adj (reads_of r is w)
                        | Some s \<Rightarrow> tl (remdups_adj (s # reads_of r is w)))"
proof (induction "is" arbitrary: w)
  case Nil
  then show ?case by (simp split: option.split)
next
  case (Cons i "is")
  show ?case
  proof (cases rule: watch_tick_cases [of r i w "is"])
    case (quiet w')
    with Cons.IH [of w'] show ?thesis by (simp add: split_beta Let_def del: reads_of.simps split: option.split)
  next
    case (same w' s)
    with Cons.IH [of w'] show ?thesis by (simp add: split_beta Let_def del: reads_of.simps)
  next
    case (changed w' s)
    obtain rest where "remdups_adj (s # reads_of r is w') = s # rest"
      by (cases "remdups_adj (s # reads_of r is w')") (auto dest: arg_cong [where f = hd])
    with changed Cons.IH [of w'] show ?thesis
      by (auto simp: split_beta Let_def simp del: reads_of.simps split: option.split)
  qed
qed

end
