(* ===== verification/Broadcast.thy ===== *)
theory Broadcast
  imports Prelude
begin

text \<open>
  The per-signer broadcast slots (\<^verbatim>\<open>message-relayer/src/broadcast.rs\<close>): one FIFO lock per signing address,
  created on first use and held across the nonce read and the broadcast, and nothing else. The workers
  and the node run concurrently: each await point of \<open>broadcast\<close> is a step. The node's pending counts
  belong to the world; a provider of \<open>chain_nonce_builder\<close> reads them on every send.
\<close>

section \<open>Slots\<close>

definition QUEUE_TIMEOUT :: duration where "QUEUE_TIMEOUT = secs 120"

datatype broadcast_stalled = StalledQueue duration | StalledBroadcast duration

type_synonym task = nat

text \<open>The tasks waiting for a signer's slot in the order they came, and the task that holds it.\<close>

record slot =
  sl_waiting :: "task list"
  sl_holder :: "task option"

definition free_slot :: slot where "free_slot = \<lparr>sl_waiting = [], sl_holder = None\<rparr>"

type_synonym broadcast_locks = "(address, slot) hash_map"

definition slot_for :: "address \<Rightarrow> broadcast_locks \<Rightarrow> slot" where
  "slot_for signer locks = (case hm_get locks signer of Some s \<Rightarrow> s | None \<Rightarrow> free_slot)"

definition set_slot :: "address \<Rightarrow> slot \<Rightarrow> broadcast_locks \<Rightarrow> broadcast_locks" where
  "set_slot = hm_insert"

text \<open>\<open>lock_owned\<close> joins the queue; the lock goes to the first task in it; the guard's drop frees it.\<close>

definition enqueue :: "address \<Rightarrow> task \<Rightarrow> broadcast_locks \<Rightarrow> broadcast_locks" where
  "enqueue signer t locks =
     (let s = slot_for signer locks in set_slot signer (s\<lparr>sl_waiting := sl_waiting s @ [t]\<rparr>) locks)"

definition abandon :: "address \<Rightarrow> task \<Rightarrow> broadcast_locks \<Rightarrow> broadcast_locks" where
  "abandon signer t locks =
     (let s = slot_for signer locks in set_slot signer (s\<lparr>sl_waiting := removeAll t (sl_waiting s)\<rparr>) locks)"

definition acquire :: "address \<Rightarrow> broadcast_locks \<Rightarrow> broadcast_locks option" where
  "acquire signer locks =
     (let s = slot_for signer locks in
      case (sl_holder s, sl_waiting s) of
        (None, t # ts) \<Rightarrow> Some (set_slot signer (s\<lparr>sl_waiting := ts, sl_holder := Some t\<rparr>) locks)
      | _ \<Rightarrow> None)"

definition release :: "address \<Rightarrow> broadcast_locks \<Rightarrow> broadcast_locks" where
  "release signer locks = (let s = slot_for signer locks in set_slot signer (s\<lparr>sl_holder := None\<rparr>) locks)"

section \<open>Senders and the node\<close>

text \<open>
  The node answers the pending count of an account and takes transactions: one below the count is
  refused, the one at the count advances it, one above it waits and never mines until the gap is
  filled. \<open>wd_nonce\<close> is the nonce a sender has read and not used yet, \<open>wd_lost\<close> the transactions whose
  send was abandoned at its timeout and which may still reach the node.
\<close>

record bc_world =
  wd_locks :: broadcast_locks
  wd_nonce :: "(task \<times> address) \<rightharpoonup> nat"
  wd_count :: "address \<Rightarrow> nat"
  wd_taken :: "(address \<times> nat) list"
  wd_refused :: "(address \<times> nat) list"
  wd_lost :: "(address \<times> nat) set"
  wd_lates :: nat

definition node_take :: "address \<Rightarrow> nat \<Rightarrow> bc_world \<Rightarrow> bc_world" where
  "node_take signer n w =
     (if n < wd_count w signer then w\<lparr>wd_refused := wd_refused w @ [(signer, n)]\<rparr>
      else w\<lparr>wd_taken := wd_taken w @ [(signer, n)],
             wd_count := (wd_count w)(signer := if n = wd_count w signer then n + 1 else wd_count w signer)\<rparr>)"

datatype bc_event =
    Asks task address
  | QueueTimeout task address
  | Acquires address
  | ReadsNonce task address
  | Sends task address
  | SendFails task address
  | SendTimesOut task address
  | LandsLate address nat

text \<open>The slot is released when the send completes, fails or times out, before \<open>broadcast\<close> returns.\<close>

definition let_go :: "task \<Rightarrow> address \<Rightarrow> bc_world \<Rightarrow> bc_world" where
  "let_go t signer w = w\<lparr>wd_locks := release signer (wd_locks w), wd_nonce := (wd_nonce w)((t, signer) := None)\<rparr>"

definition holds :: "task \<Rightarrow> address \<Rightarrow> bc_world \<Rightarrow> bool" where
  "holds t signer w \<longleftrightarrow> sl_holder (slot_for signer (wd_locks w)) = Some t"

inductive bc_step :: "bc_world \<Rightarrow> bc_event \<Rightarrow> bc_world \<Rightarrow> bool" where
  asks: "bc_step w (Asks t signer) (w\<lparr>wd_locks := enqueue signer t (wd_locks w)\<rparr>)"
| queue_timeout: "t \<in> set (sl_waiting (slot_for signer (wd_locks w))) \<Longrightarrow>
    bc_step w (QueueTimeout t signer) (w\<lparr>wd_locks := abandon signer t (wd_locks w)\<rparr>)"
| acquires: "acquire signer (wd_locks w) = Some locks \<Longrightarrow> bc_step w (Acquires signer) (w\<lparr>wd_locks := locks\<rparr>)"
| reads_nonce: "holds t signer w \<Longrightarrow>
    bc_step w (ReadsNonce t signer) (w\<lparr>wd_nonce := (wd_nonce w)((t, signer) \<mapsto> wd_count w signer)\<rparr>)"
| sends: "holds t signer w \<Longrightarrow> wd_nonce w (t, signer) = Some n \<Longrightarrow>
    bc_step w (Sends t signer) (let_go t signer (node_take signer n w))"
| send_fails: "holds t signer w \<Longrightarrow> bc_step w (SendFails t signer) (let_go t signer w)"
| send_times_out: "holds t signer w \<Longrightarrow>
    bc_step w (SendTimesOut t signer)
      ((let_go t signer w)\<lparr>wd_lost := wd_lost w \<union> (case wd_nonce w (t, signer) of None \<Rightarrow> {} | Some n \<Rightarrow> {(signer, n)})\<rparr>)"
| lands_late: "(signer, n) \<in> wd_lost w \<Longrightarrow>
    bc_step w (LandsLate signer n)
      ((node_take signer n w)\<lparr>wd_lost := wd_lost w - {(signer, n)}, wd_lates := wd_lates w + 1\<rparr>)"

inductive_cases bc_stepE: "bc_step w e w'"

text \<open>What \<open>broadcast\<close> hands back at the end of a call: a stall, or the result of the send untouched.\<close>

fun bc_returns :: "duration \<Rightarrow> bc_event \<Rightarrow> (task \<times> address \<times> (broadcast_stalled + bool)) option" where
  "bc_returns timeout (QueueTimeout t signer) = Some (t, signer, Inl (StalledQueue QUEUE_TIMEOUT))"
| "bc_returns timeout (Sends t signer) = Some (t, signer, Inr True)"
| "bc_returns timeout (SendFails t signer) = Some (t, signer, Inr False)"
| "bc_returns timeout (SendTimesOut t signer) = Some (t, signer, Inl (StalledBroadcast timeout))"
| "bc_returns timeout _ = None"

definition bc_begins :: "(address \<Rightarrow> nat) \<Rightarrow> bc_world \<Rightarrow> bool" where
  "bc_begins counts w \<longleftrightarrow> w = \<lparr>wd_locks = [], wd_nonce = (\<lambda>_. None), wd_count = counts, wd_taken = [], wd_refused = [], wd_lost = {}, wd_lates = 0\<rparr>"

section \<open>Nonces\<close>

definition nonces_of :: "address \<Rightarrow> (address \<times> nat) list \<Rightarrow> nat list" where
  "nonces_of signer txs = map snd (filter (\<lambda>x. fst x = signer) txs)"

lemma nonces_of_simps [simp]:
  "nonces_of s [] = []" "nonces_of s (txs @ [(s', n)]) = nonces_of s txs @ (if s' = s then [n] else [])"
  by (simp_all add: nonces_of_def)

text \<open>
  Until a timed-out send lands late: a task that has read a nonce holds the slot and the node still
  expects that nonce; what the node took from a signer are the consecutive nonces from its first
  count; and it refused nothing.
\<close>

definition bc_inv :: "(address \<Rightarrow> nat) \<Rightarrow> bc_world \<Rightarrow> bool" where
  "bc_inv counts w \<longleftrightarrow> wd_lates w = 0 \<longrightarrow>
     (\<forall>t s n. wd_nonce w (t, s) = Some n \<longrightarrow> holds t s w \<and> n = wd_count w s)
     \<and> (\<forall>s. counts s \<le> wd_count w s \<and> nonces_of s (wd_taken w) = [counts s ..< wd_count w s])
     \<and> wd_refused w = []"

lemma slot_for_set [simp]: "slot_for a (set_slot b s locks) = (if a = b then s else slot_for a locks)"
  by (simp add: slot_for_def set_slot_def update_conv')

lemma bc_inv_locks:
  assumes "bc_inv counts w" and "\<And>t s. holds t s w \<Longrightarrow> sl_holder (slot_for s locks) = Some t"
  shows "bc_inv counts (w\<lparr>wd_locks := locks\<rparr>)"
  using assms by (auto simp: bc_inv_def holds_def)

lemma holds_let_go:
  assumes "holds t s w" and "holds t' s' w" and "(t', s') \<noteq> (t, s)"
  shows "holds t' s' (let_go t s w)"
  using assms by (auto simp: holds_def let_go_def release_def)

lemma nonce_other_signer:
  assumes "bc_inv counts w" and "wd_lates w = 0" and "holds t s w" and "wd_nonce w (t', s') = Some n" and "(t', s') \<noteq> (t, s)"
  shows "s' \<noteq> s"
  using assms by (auto simp: bc_inv_def holds_def)

interpretation broadcasts: invariant_system "bc_begins counts" bc_step "bc_inv counts" for counts
proof unfold_locales
  fix w
  assume "bc_begins counts w"
  then show "bc_inv counts w" by (simp add: bc_begins_def bc_inv_def)
next
  fix w e w'
  assume inv: "bc_inv counts w" and step: "bc_step w e w'"
  from step show "bc_inv counts w'"
  proof cases
    case (asks t signer)
    show ?thesis unfolding asks using inv by (rule bc_inv_locks) (auto simp: holds_def enqueue_def Let_def)
  next
    case (queue_timeout t signer)
    show ?thesis unfolding queue_timeout using inv by (rule bc_inv_locks) (auto simp: holds_def abandon_def Let_def)
  next
    case (acquires signer locks)
    have "sl_holder (slot_for s locks) = Some t" if "holds t s w" for t s
      using acquires(3) that by (auto simp: acquire_def holds_def Let_def split: option.splits list.splits)
    then show ?thesis unfolding acquires(2) by (intro bc_inv_locks [OF inv])
  next
    case (reads_nonce t signer)
    with inv show ?thesis by (auto simp: bc_inv_def holds_def)
  next
    case (sends t signer n)
    show ?thesis
    proof (cases "wd_lates w = 0")
      case True
      with inv sends have n: "n = wd_count w signer" by (auto simp: bc_inv_def)
      have keep: "holds t' s' w' \<and> n' = wd_count w' s'" if "wd_nonce w' (t', s') = Some n'" for t' s' n'
      proof -
        from that sends(2) n have old: "wd_nonce w (t', s') = Some n'" "(t', s') \<noteq> (t, signer)"
          by (auto simp: let_go_def node_take_def split: if_splits)
        from nonce_other_signer [OF inv True sends(3) old] have "s' \<noteq> signer" .
        with inv True old(1) sends(2) n show ?thesis by (auto simp: bc_inv_def holds_def let_go_def node_take_def release_def Let_def)
      qed
      from inv True sends(2) n keep show ?thesis by (auto simp: bc_inv_def let_go_def node_take_def intro: le_SucI)
    next
      case False
      with sends(2) show ?thesis by (simp add: bc_inv_def let_go_def node_take_def)
    qed
  next
    case (send_fails t signer)
    have "holds t' s' w' \<and> n' = wd_count w' s'" if "wd_nonce w' (t', s') = Some n'" "wd_lates w = 0" for t' s' n'
    proof -
      from that(1) send_fails(2) have old: "wd_nonce w (t', s') = Some n'" "(t', s') \<noteq> (t, signer)"
        by (auto simp: let_go_def split: if_splits)
      with inv that(2) have "holds t' s' w" "n' = wd_count w s'" by (auto simp: bc_inv_def)
      with holds_let_go [OF send_fails(3) _ old(2)] show ?thesis by (simp add: send_fails(2)) (simp add: let_go_def)
    qed
    with inv send_fails(2) show ?thesis by (auto simp: bc_inv_def let_go_def)
  next
    case (send_times_out t signer)
    have "holds t' s' w' \<and> n' = wd_count w' s'" if "wd_nonce w' (t', s') = Some n'" "wd_lates w = 0" for t' s' n'
    proof -
      from that(1) send_times_out(2) have old: "wd_nonce w (t', s') = Some n'" "(t', s') \<noteq> (t, signer)"
        by (auto simp: let_go_def split: if_splits)
      with inv that(2) have "holds t' s' w" "n' = wd_count w s'" by (auto simp: bc_inv_def)
      with holds_let_go [OF send_times_out(3) _ old(2)] show ?thesis
        by (simp add: send_times_out(2) holds_def) (simp add: let_go_def)
    qed
    with inv send_times_out(2) show ?thesis by (auto simp: bc_inv_def let_go_def)
  next
    case (lands_late signer n)
    then show ?thesis by (simp add: bc_inv_def)
  qed
qed

text \<open>A call that got the slot has let go of it, and of its nonce, when it returns, whatever the outcome.\<close>

lemma returned_released:
  assumes "bc_step w e w'" "bc_returns timeout e = Some (t, signer, r)" "r \<noteq> Inl (StalledQueue QUEUE_TIMEOUT)"
  shows "sl_holder (slot_for signer (wd_locks w')) = None" "wd_nonce w' (t, signer) = None"
  using assms by (auto elim!: bc_stepE simp: let_go_def release_def Let_def)

end
