(* ===== verification/Set_Update.thy ===== *)
theory Set_Update
  imports Attestor_Set Pool Broadcast
begin

text \<open>
  The attestor-set-update aggregator and submitter (\<^verbatim>\<open>message-relayer/src/set_update/mod.rs\<close>, with the digest of
  \<^verbatim>\<open>write-ability/src/hash.rs\<close>): votes for a new set are checked against the validator's last read state, collected
  per digest, and submitted at the threshold. ABI encoding, keccak and the parsing of a key are the
  parameters \<open>set_update_abi\<close>; answers of the nodes are inputs.
\<close>

definition REFRESH_SECS :: u64 where "REFRESH_SECS = 60"
definition SET_UPDATE_SEND_TIMEOUT :: duration where "SET_UPDATE_SEND_TIMEOUT = secs 30"

record set_update_vote =
  uv_chain_key :: u64
  uv_new_attestors :: "address list"
  uv_nonce :: u256
  uv_signer :: address
  uv_signature :: bytes

record set_update_abi =
  ua_encode :: "address \<Rightarrow> address list \<Rightarrow> u256 \<Rightarrow> u256 \<Rightarrow> bytes"
  ua_keccak :: "bytes \<Rightarrow> b256"
  ua_key :: "string \<Rightarrow> address option"

section \<open>The digest\<close>

definition attestor_set_update_digest :: "set_update_abi \<Rightarrow> address \<Rightarrow> address list \<Rightarrow> u256 \<Rightarrow> u256 \<Rightarrow> b256" where
  "attestor_set_update_digest A validator new_attestors chain_id nonce =
     ua_keccak A (ua_encode A validator new_attestors chain_id nonce)"

definition canonical_attestor_order :: "address list \<Rightarrow> address list" where
  "canonical_attestor_order addrs = remdups_adj (sort addrs)"

section \<open>State\<close>

record on_chain_view =
  oc_attestors :: "address set"
  oc_threshold :: nat
  oc_nonce :: u256
  oc_chain_id :: u256

record update_state =
  us_validator :: address
  us_signer_key :: string
  us_dest_rpc_url :: string
  us_current :: "on_chain_view option"
  us_votes :: "(b256, (address, bytes) btree_map) hash_map"
  us_in_flight :: "b256 set"

definition verify_vote ::
  "primitives \<Rightarrow> set_update_abi \<Rightarrow> set_update_vote \<Rightarrow> address \<Rightarrow> on_chain_view \<Rightarrow> (address list \<times> b256 \<times> address) option" where
  "verify_vote P A vote validator current =
     (if uv_nonce vote \<noteq> oc_nonce current then None
      else let canonical = canonical_attestor_order (uv_new_attestors vote);
               digest = attestor_set_update_digest A validator canonical (oc_chain_id current) (uv_nonce vote)
           in case recover_signer P digest (uv_signature vote) of
                Inl _ \<Rightarrow> None
              | Inr signer \<Rightarrow> if signer \<notin> oc_attestors current then None else Some (canonical, digest, signer))"

section \<open>Refreshing the view\<close>

definition read_view :: "update_state \<Rightarrow> validator_node \<Rightarrow> string + on_chain_view" where
  "read_view st node =
     and_then (connect (''connect destination RPC '' @ us_dest_rpc_url st) node) (\<lambda>_.
     and_then (vn_attestors node) (\<lambda>attestors.
     and_then (vn_threshold node) (\<lambda>threshold.
     and_then (vn_nonce node) (\<lambda>nonce.
     and_then (vn_chain_id node) (\<lambda>chain_id.
     Inr \<lparr>oc_attestors = set attestors, oc_threshold = unat (sat_to_u64 threshold), oc_nonce = nonce,
          oc_chain_id = ucast chain_id\<rparr>)))))"

definition nonce_moved :: "update_state \<Rightarrow> on_chain_view \<Rightarrow> bool" where
  "nonce_moved st view \<longleftrightarrow> (case us_current st of None \<Rightarrow> False | Some c \<Rightarrow> oc_nonce c \<noteq> oc_nonce view)"

definition install_view :: "on_chain_view \<Rightarrow> update_state \<Rightarrow> update_state" where
  "install_view view st =
     (if nonce_moved st view then st\<lparr>us_votes := [], us_in_flight := {}\<rparr> else st)\<lparr>us_current := Some view\<rparr>"

definition update_refresh :: "validator_node \<Rightarrow> update_state \<Rightarrow> update_state \<times> (string + unit)" where
  "update_refresh node st =
     (case read_view st node of Inl e \<Rightarrow> (st, Inl e) | Inr view \<Rightarrow> (install_view view st, Inr ()))"

section \<open>Submitting\<close>

record submit_answers =
  sb_connect :: "string option"
  sb_simulate :: "string option"
  sb_send :: "broadcast_stalled + (string + b256)"

record set_update_tx =
  tx_validator :: address
  tx_new_attestors :: "address list"
  tx_calldata :: bytes
  tx_submitter :: address

datatype submit_error =
    InvalidSignerKey
  | SubmitConnect string
  | SimulateReverted string
  | SubmitStalled broadcast_stalled
  | SubmitFailed string

text \<open>The transaction handed to the broadcast slot, if the attempt came so far, and the result.\<close>

definition set_submit ::
  "primitives \<Rightarrow> set_update_abi \<Rightarrow> update_state \<Rightarrow> submit_answers \<Rightarrow> address list \<Rightarrow> bytes list
    \<Rightarrow> set_update_tx option \<times> (submit_error + unit)" where
  "set_submit P A st ans new_attestors signatures =
     (case ua_key A (trim (us_signer_key st)) of
        None \<Rightarrow> (None, Inl InvalidSignerKey)
      | Some submitter \<Rightarrow>
          (case sb_connect ans of
             Some e \<Rightarrow> (None, Inl (SubmitConnect e))
           | None \<Rightarrow>
               (case sb_simulate ans of
                  Some e \<Rightarrow> (None, Inl (SimulateReverted e))
                | None \<Rightarrow>
                    (Some \<lparr>tx_validator = us_validator st, tx_new_attestors = new_attestors,
                           tx_calldata = encode_votes P signatures, tx_submitter = submitter\<rparr>,
                     case sb_send ans of
                       Inl late \<Rightarrow> Inl (SubmitStalled late)
                     | Inr (Inl e) \<Rightarrow> Inl (SubmitFailed e)
                     | Inr (Inr _) \<Rightarrow> Inr ()))))"

text \<open>
  One vote for a route: what is sent and whether the submission succeeded. A duplicate signer replaces
  its signature and returns; at the threshold the slot is cleared and the digest marked until a
  failed submission or a new nonce.
\<close>

definition vote_slot :: "b256 \<Rightarrow> update_state \<Rightarrow> (address, bytes) btree_map" where
  "vote_slot digest st = (case hm_get (us_votes st) digest of Some s \<Rightarrow> s | None \<Rightarrow> [])"

definition submit_at_threshold ::
  "primitives \<Rightarrow> set_update_abi \<Rightarrow> submit_answers \<Rightarrow> address list \<Rightarrow> b256 \<Rightarrow> (address, bytes) btree_map \<Rightarrow> update_state
    \<Rightarrow> update_state \<times> set_update_tx option \<times> bool" where
  "submit_at_threshold P A ans canonical digest slot st =
     (let st1 = st\<lparr>us_votes := hm_remove digest (us_votes st), us_in_flight := insert digest (us_in_flight st)\<rparr> in
      case set_submit P A st1 ans canonical (map snd slot) of
        (tx, Inr _) \<Rightarrow> (st1, tx, True)
      | (tx, Inl _) \<Rightarrow> (st1\<lparr>us_in_flight := us_in_flight st1 - {digest}\<rparr>, tx, False))"

definition route_vote ::
  "primitives \<Rightarrow> set_update_abi \<Rightarrow> submit_answers \<Rightarrow> set_update_vote \<Rightarrow> update_state
    \<Rightarrow> update_state \<times> set_update_tx option \<times> bool" where
  "route_vote P A ans vote st =
     (case us_current st of
        None \<Rightarrow> (st, None, False)
      | Some current \<Rightarrow>
          (case verify_vote P A vote (us_validator st) current of
             None \<Rightarrow> (st, None, False)
           | Some (canonical, digest, signer) \<Rightarrow>
               if digest \<in> us_in_flight st then (st, None, False)
               else let slot = vote_slot digest st;
                        slot' = bt_insert signer (uv_signature vote) slot;
                        st1 = st\<lparr>us_votes := hm_insert digest slot' (us_votes st)\<rparr>
                    in if signer \<in> fst ` set slot then (st1, None, False)
                       else if length slot' < oc_threshold current then (st1, None, False)
                       else submit_at_threshold P A ans canonical digest slot' st1))"

definition set_handle_vote ::
  "primitives \<Rightarrow> set_update_abi \<Rightarrow> submit_answers \<Rightarrow> set_update_vote \<Rightarrow> (u64, update_state) hash_map
    \<Rightarrow> (u64, update_state) hash_map \<times> set_update_tx option \<times> bool" where
  "set_handle_vote P A ans vote states =
     (case hm_get states (uv_chain_key vote) of
        None \<Rightarrow> (states, None, False)
      | Some st \<Rightarrow> (let (st', tx, ok) = route_vote P A ans vote st in (hm_modify (uv_chain_key vote) (\<lambda>_. st') states, tx, ok)))"

section \<open>The task\<close>

record set_updater =
  sx_states :: "(u64, update_state) hash_map"
  sx_pacer :: rate_limit_pacer
  sx_health :: health

definition eligible :: "route_config \<Rightarrow> update_state option" where
  "eligible r =
     (case (rg_attestor_set r, rg_signer_key r) of
        (OnChainSet (EvmSource a), Some key) \<Rightarrow>
          Some \<lparr>us_validator = a, us_signer_key = key, us_dest_rpc_url = rg_destination_rpc_url r, us_current = None,
                us_votes = [], us_in_flight = {}\<rparr>
      | _ \<Rightarrow> None)"

definition update_key :: "u64 \<Rightarrow> string" where
  "update_key chain_key = ''attestor-set-update:'' @ decimal (unat chain_key)"

text \<open>\<open>None\<close>: no eligible route, the task parks without registering.\<close>

definition updater_start :: "route_config list \<Rightarrow> u64 \<Rightarrow> health \<Rightarrow> set_updater option" where
  "updater_start routes now h =
     (let states = fold (\<lambda>r m. case eligible r of Some st \<Rightarrow> hm_insert (rg_chain_key r) st m | None \<Rightarrow> m) routes [] in
      if states = [] then None
      else Some \<lparr>sx_states = states, sx_pacer = pacer_default,
                 sx_health = fold (\<lambda>ck. heartbeat now (update_key ck)) (map fst states) h\<rparr>)"

text \<open>The refresh tick goes over the routes in the order of the map.\<close>

definition refresh_errors :: "(u64 \<Rightarrow> validator_node) \<Rightarrow> (u64, update_state) hash_map \<Rightarrow> (u64 \<times> string option) list" where
  "refresh_errors nodes states =
     map (\<lambda>(ck, st). (ck, case snd (update_refresh (nodes ck) st) of Inl e \<Rightarrow> Some e | Inr _ \<Rightarrow> None)) states"

definition updater_tick ::
  "instant \<Rightarrow> instant \<Rightarrow> u64 \<Rightarrow> (u64 \<Rightarrow> validator_node) \<Rightarrow> set_updater \<Rightarrow> set_updater" where
  "updater_tick now later unix_ms nodes s =
     (if pacer_deferring now (sx_pacer s) \<noteq> None then s
      else let errors = refresh_errors nodes (sx_states s);
               rate_limited = list_ex (\<lambda>(_, e). case e of Some m \<Rightarrow> error_looks_rate_limited m | None \<Rightarrow> False) errors
           in s\<lparr>sx_states := map (\<lambda>(ck, st). (ck, fst (update_refresh (nodes ck) st))) (sx_states s),
                sx_health := fold (\<lambda>(ck, e). (case e of None \<Rightarrow> heartbeat | Some _ \<Rightarrow> health_error) unix_ms (update_key ck))
                               errors (sx_health s),
                sx_pacer := pacer_after rate_limited later (sx_pacer s)\<rparr>)"

datatype updater_event =
    UpdaterCancel
  | RefreshTick instant instant u64 "u64 \<Rightarrow> validator_node"
  | SetVote set_update_vote submit_answers
  | VotesClosed bool

datatype updater_next = UpdaterGoesOn | UpdaterStops | UpdaterFails

text \<open>
  One turn of the biased select: cancel wins; a closed channel is an orderly end only during
  shutdown, which the flag of \<open>VotesClosed\<close> says.
\<close>

definition updater_arm ::
  "primitives \<Rightarrow> set_update_abi \<Rightarrow> updater_event \<Rightarrow> set_updater
    \<Rightarrow> set_updater \<times> set_update_tx option \<times> bool \<times> updater_next" where
  "updater_arm P A ev s =
     (case ev of
        UpdaterCancel \<Rightarrow> (s, None, False, UpdaterStops)
      | RefreshTick now later unix_ms nodes \<Rightarrow> (updater_tick now later unix_ms nodes s, None, False, UpdaterGoesOn)
      | SetVote vote ans \<Rightarrow>
          (let (states, tx, ok) = set_handle_vote P A ans vote (sx_states s) in (s\<lparr>sx_states := states\<rparr>, tx, ok, UpdaterGoesOn))
      | VotesClosed cancelled \<Rightarrow> (s, None, False, if cancelled then UpdaterStops else UpdaterFails))"

end
