(* ===== verification/Set_Update_Correct.thy ===== *)
theory Set_Update_Correct
  imports Set_Update
begin

text \<open>
  The aggregator as a transition system with history: the views that were read, the transactions
  handed over, and the digests submitted successfully since the route's nonce last moved.
\<close>

section \<open>Votes of one route\<close>

lemma route_vote_cases:
  assumes "route_vote P A ans vote st = (st', tx, ok)"
  obtains (dropped) "st' = st" "tx = None" "\<not> ok"
  | (counted) cur canonical d a where "us_current st = Some cur" "verify_vote P A vote (us_validator st) cur = Some (canonical, d, a)"
      "d \<notin> us_in_flight st" "tx = None" "\<not> ok"
      "st' = st\<lparr>us_votes := hm_insert d (bt_insert a (uv_signature vote) (vote_slot d st)) (us_votes st)\<rparr>"
  | (submitted) cur canonical d a where "us_current st = Some cur" "verify_vote P A vote (us_validator st) cur = Some (canonical, d, a)"
      "d \<notin> us_in_flight st" "oc_threshold cur \<le> length (bt_insert a (uv_signature vote) (vote_slot d st))"
      "submit_at_threshold P A ans canonical d (bt_insert a (uv_signature vote) (vote_slot d st))
         (st\<lparr>us_votes := hm_insert d (bt_insert a (uv_signature vote) (vote_slot d st)) (us_votes st)\<rparr>) = (st', tx, ok)"
proof -
  consider (none) "us_current st = None" | (bad) cur where "us_current st = Some cur" "verify_vote P A vote (us_validator st) cur = None"
    | (good) cur canonical d a where "us_current st = Some cur" "verify_vote P A vote (us_validator st) cur = Some (canonical, d, a)"
    by (metis option.exhaust prod_cases3)
  then show thesis
  proof cases
    case none
    with assms show thesis by (intro dropped) (simp_all add: route_vote_def)
  next
    case (bad cur)
    with assms show thesis by (intro dropped) (simp_all add: route_vote_def)
  next
    case (good cur canonical d a)
    show thesis
    proof (cases "d \<in> us_in_flight st")
      case True
      with assms good show thesis by (intro dropped) (simp_all add: route_vote_def)
    next
      case False
      let ?slot = "bt_insert a (uv_signature vote) (vote_slot d st)"
      show thesis
      proof (cases "a \<in> fst ` set (vote_slot d st) \<or> length ?slot < oc_threshold cur")
        case True
        with assms good False show thesis by (intro counted [OF good False]) (auto simp: route_vote_def Let_def split: if_splits)
      next
        case enough: False
        with assms good False show thesis by (intro submitted [OF good False]) (auto simp: route_vote_def Let_def)
      qed
    qed
  qed
qed

lemma verify_vote_Some:
  assumes "verify_vote P A vote validator cur = Some (canonical, d, a)"
  shows "canonical = canonical_attestor_order (uv_new_attestors vote)"
    "d = attestor_set_update_digest A validator canonical (oc_chain_id cur) (oc_nonce cur)"
    "recover_signer P d (uv_signature vote) = Inr a" "a \<in> oc_attestors cur"
  using assms by (auto simp: verify_vote_def Let_def split: if_splits sum.splits)

lemma set_submit_Some:
  "set_submit P A st ans canonical sgs = (Some tx, res) \<Longrightarrow>
     tx_validator tx = us_validator st \<and> tx_new_attestors tx = canonical \<and> tx_calldata tx = encode_votes P sgs"
  by (auto simp: set_submit_def split: option.splits)

lemma set_submit_ok: "set_submit P A st ans canonical sgs = (tx, Inr u) \<Longrightarrow> tx \<noteq> None"
  by (auto simp: set_submit_def split: option.splits)

lemma submit_at_threshold_fields:
  assumes "submit_at_threshold P A ans canonical d slot st = (st', tx, ok)"
  shows "us_votes st' = hm_remove d (us_votes st)" "us_validator st' = us_validator st" "us_current st' = us_current st"
    "us_in_flight st' = (if ok then insert d (us_in_flight st) else us_in_flight st - {d})"
    "tx = Some t \<Longrightarrow> tx_validator t = us_validator st \<and> tx_new_attestors t = canonical \<and> tx_calldata t = encode_votes P (map snd slot)"
    "ok \<Longrightarrow> tx \<noteq> None"
proof -
  let ?st1 = "st\<lparr>us_votes := hm_remove d (us_votes st), us_in_flight := insert d (us_in_flight st)\<rparr>"
  obtain x res where s: "set_submit P A ?st1 ans canonical (map snd slot) = (x, res)" by (rule prod.exhaust)
  with assms have "x = tx" by (auto simp: submit_at_threshold_def Let_def split: sum.splits)
  with s assms set_submit_Some [of P A ?st1 ans canonical "map snd slot" t res] set_submit_ok [of P A ?st1 ans canonical "map snd slot" tx]
  show "us_votes st' = hm_remove d (us_votes st)" "us_validator st' = us_validator st" "us_current st' = us_current st"
    "us_in_flight st' = (if ok then insert d (us_in_flight st) else us_in_flight st - {d})"
    "tx = Some t \<Longrightarrow> tx_validator t = us_validator st \<and> tx_new_attestors t = canonical \<and> tx_calldata t = encode_votes P (map snd slot)"
    "ok \<Longrightarrow> tx \<noteq> None"
    by (auto simp: submit_at_threshold_def Let_def split: sum.splits)
qed

section \<open>Slots hold recovered signatures of attestors\<close>

text \<open>A signature for a digest by an account that was an attestor in a view of the route read at that nonce.\<close>

definition backed :: "primitives \<Rightarrow> (u64 \<times> on_chain_view) set \<Rightarrow> u64 \<Rightarrow> u256 \<Rightarrow> b256 \<Rightarrow> address \<times> bytes \<Rightarrow> bool" where
  "backed P views ck nonce d s \<longleftrightarrow> recover_signer P d (snd s) = Inr (fst s) \<and>
     (\<exists>view. (ck, view) \<in> views \<and> oc_nonce view = nonce \<and> fst s \<in> oc_attestors view)"

definition slots_ok :: "primitives \<Rightarrow> (u64 \<times> on_chain_view) set \<Rightarrow> u64 \<Rightarrow> update_state \<Rightarrow> bool" where
  "slots_ok P views ck st \<longleftrightarrow>
     (case us_current st of
        None \<Rightarrow> us_votes st = []
      | Some cur \<Rightarrow> (ck, cur) \<in> views \<and>
          (\<forall>d slot. hm_get (us_votes st) d = Some slot \<longrightarrow> bt_ok slot \<and> (\<forall>s \<in> set slot. backed P views ck (oc_nonce cur) d s)))"

lemma backed_mono: "backed P views ck n d s \<Longrightarrow> views \<subseteq> views' \<Longrightarrow> backed P views' ck n d s"
  by (auto simp: backed_def)

lemma slots_ok_mono: "slots_ok P views ck st \<Longrightarrow> views \<subseteq> views' \<Longrightarrow> slots_ok P views' ck st"
  unfolding slots_ok_def by (cases "us_current st") (simp, auto, meson backed_mono)

lemma slots_ok_slot:
  "slots_ok P views ck st \<Longrightarrow> us_current st = Some cur \<Longrightarrow>
     bt_ok (vote_slot d st) \<and> (\<forall>s \<in> set (vote_slot d st). backed P views ck (oc_nonce cur) d s)"
  by (auto simp: slots_ok_def vote_slot_def split: option.split)

lemma slots_ok_install:
  assumes "slots_ok P views ck st" "(ck, view) \<in> views"
  shows "slots_ok P views ck (install_view view st)"
  using assms by (auto simp: slots_ok_def install_view_def nonce_moved_def split: option.splits)

lemma slots_ok_refresh:
  assumes "slots_ok P views ck st" "\<And>view. read_view st node = Inr view \<Longrightarrow> (ck, view) \<in> views"
  shows "slots_ok P views ck (fst (update_refresh node st))"
  using assms slots_ok_install by (auto simp: update_refresh_def split: sum.splits)

text \<open>The slot a vote is counted into.\<close>

lemma counted_slot:
  assumes "slots_ok P views ck st" "us_current st = Some cur" "verify_vote P A vote (us_validator st) cur = Some (canonical, d, a)"
  shows "bt_ok (bt_insert a (uv_signature vote) (vote_slot d st))"
    "\<forall>s \<in> set (bt_insert a (uv_signature vote) (vote_slot d st)). backed P views ck (oc_nonce cur) d s"
proof -
  note v = verify_vote_Some [OF assms(3)] and slot = slots_ok_slot [OF assms(1,2), of d]
  then show "bt_ok (bt_insert a (uv_signature vote) (vote_slot d st))" by simp
  from assms(1,2) have "(ck, cur) \<in> views" by (simp add: slots_ok_def)
  with v have "backed P views ck (oc_nonce cur) d (a, uv_signature vote)" by (auto simp: backed_def)
  with slot show "\<forall>s \<in> set (bt_insert a (uv_signature vote) (vote_slot d st)). backed P views ck (oc_nonce cur) d s"
    by (simp add: bt_set_insert)
qed

lemma slots_ok_vote:
  assumes ok: "slots_ok P views ck st" and "route_vote P A ans vote st = (st', tx, sent)"
  shows "slots_ok P views ck st'"
  using assms(2)
proof (cases rule: route_vote_cases)
  case dropped
  with ok show ?thesis by simp
next
  case (counted cur canonical d a)
  from ok counted counted_slot [OF ok counted(1,2)] show ?thesis
    by (auto simp: slots_ok_def update_conv')
next
  case (submitted cur canonical d a)
  note s = submit_at_threshold_fields [OF submitted(5)]
  from ok submitted(1) show ?thesis
    by (auto simp: slots_ok_def s update_conv' delete_conv' split: if_splits)
qed

section \<open>What is handed over\<close>

text \<open>
  A transaction that carries enough distinct, recovered signatures over the digest of exactly the set it
  installs, for the route's validator at a nonce and chain id that were read.
\<close>

definition certified_update :: "primitives \<Rightarrow> set_update_abi \<Rightarrow> (u64 \<times> on_chain_view) set \<Rightarrow> u64 \<times> set_update_tx \<Rightarrow> bool" where
  "certified_update P A views t \<longleftrightarrow>
     (\<exists>view sgs. (fst t, view) \<in> views \<and> tx_calldata (snd t) = encode_votes P (map snd sgs) \<and>
        distinct (map fst sgs) \<and> oc_threshold view \<le> length sgs \<and> sorted_wrt (<) (tx_new_attestors (snd t)) \<and>
        (\<forall>s \<in> set sgs. backed P views (fst t) (oc_nonce view)
           (attestor_set_update_digest A (tx_validator (snd t)) (tx_new_attestors (snd t)) (oc_chain_id view) (oc_nonce view)) s))"

lemma certified_update_mono: "certified_update P A views t \<Longrightarrow> views \<subseteq> views' \<Longrightarrow> certified_update P A views' t"
  unfolding certified_update_def by (meson backed_mono subsetD)

lemma distinct_remdups_adj_sorted: "sorted xs \<Longrightarrow> distinct (remdups_adj xs)" for xs :: "'a :: linorder list"
  by (induction xs rule: remdups_adj.induct) auto

lemma canonical_sorted: "sorted_wrt (<) (canonical_attestor_order addrs)"
  by (simp add: canonical_attestor_order_def strict_sorted_iff distinct_remdups_adj_sorted)

lemma canonical_same_set: "set (canonical_attestor_order addrs) = set addrs"
  by (simp add: canonical_attestor_order_def)

lemma canonical_unique:
  "canonical_attestor_order xs = canonical_attestor_order ys \<longleftrightarrow> set xs = set ys"
  using canonical_sorted [of xs] canonical_sorted [of ys] canonical_same_set
  by (metis strict_sorted_equal)

lemma route_vote_certified:
  assumes ok: "slots_ok P views ck st" and "route_vote P A ans vote st = (st', Some tx, sent)"
  shows "certified_update P A views (ck, tx)" "tx_validator tx = us_validator st"
proof -
  from assms(2) obtain cur canonical d a where s: "us_current st = Some cur"
      "verify_vote P A vote (us_validator st) cur = Some (canonical, d, a)"
      "oc_threshold cur \<le> length (bt_insert a (uv_signature vote) (vote_slot d st))"
      "submit_at_threshold P A ans canonical d (bt_insert a (uv_signature vote) (vote_slot d st))
         (st\<lparr>us_votes := hm_insert d (bt_insert a (uv_signature vote) (vote_slot d st)) (us_votes st)\<rparr>) = (st', Some tx, sent)"
    by (cases rule: route_vote_cases) simp_all
  note v = verify_vote_Some [OF s(2)] and slot = counted_slot [OF ok s(1,2)]
  have tx: "tx_validator tx = us_validator st" "tx_new_attestors tx = canonical"
      "tx_calldata tx = encode_votes P (map snd (bt_insert a (uv_signature vote) (vote_slot d st)))"
    using submit_at_threshold_fields(5) [OF s(4) refl] by simp_all
  from ok s(1) have "(ck, cur) \<in> views" by (simp add: slots_ok_def)
  with s(3) slot bt_distinct [OF slot(1)] v(1,2) canonical_sorted
  show "certified_update P A views (ck, tx)"
    unfolding certified_update_def by (intro exI [of _ cur] exI [of _ "bt_insert a (uv_signature vote) (vote_slot d st)"]) (simp add: tx)
  show "tx_validator tx = us_validator st" by (rule tx(1))
qed

section \<open>The aggregator with its history\<close>

record update_world =
  uw_updater :: set_updater
  uw_views :: "(u64 \<times> on_chain_view) set"
  uw_handed :: "(u64 \<times> set_update_tx) list"
  uw_done :: "(u64 \<times> b256) list"

definition views_read :: "(u64 \<Rightarrow> validator_node) \<Rightarrow> set_updater \<Rightarrow> (u64 \<times> on_chain_view) set" where
  "views_read nodes s = {(ck, view). \<exists>st. hm_get (sx_states s) ck = Some st \<and> read_view st (nodes ck) = Inr view}"

definition route_moved :: "(u64 \<Rightarrow> validator_node) \<Rightarrow> set_updater \<Rightarrow> u64 \<Rightarrow> bool" where
  "route_moved nodes s ck \<longleftrightarrow>
     (\<exists>st view. hm_get (sx_states s) ck = Some st \<and> read_view st (nodes ck) = Inr view \<and> nonce_moved st view)"

definition vote_digest :: "set_update_abi \<Rightarrow> set_update_vote \<Rightarrow> update_state \<Rightarrow> b256" where
  "vote_digest A vote st =
     (case us_current st of
        None \<Rightarrow> 0
      | Some cur \<Rightarrow> attestor_set_update_digest A (us_validator st) (canonical_attestor_order (uv_new_attestors vote))
                      (oc_chain_id cur) (oc_nonce cur))"

inductive uw_step :: "primitives \<Rightarrow> set_update_abi \<Rightarrow> update_world \<Rightarrow> updater_event \<Rightarrow> update_world \<Rightarrow> bool"
  for P A where
  skipped: "ev = RefreshTick now later ms nodes \<Longrightarrow> pacer_deferring now (sx_pacer (uw_updater w)) \<noteq> None \<Longrightarrow>
    updater_arm P A ev (uw_updater w) = (s', tx, ok, UpdaterGoesOn) \<Longrightarrow> uw_step P A w ev (w\<lparr>uw_updater := s'\<rparr>)"
| refreshed: "ev = RefreshTick now later ms nodes \<Longrightarrow> pacer_deferring now (sx_pacer (uw_updater w)) = None \<Longrightarrow>
    updater_arm P A ev (uw_updater w) = (s', tx, ok, UpdaterGoesOn) \<Longrightarrow>
    uw_step P A w ev
      (w\<lparr>uw_updater := s', uw_views := uw_views w \<union> views_read nodes (uw_updater w),
         uw_done := filter (\<lambda>x. \<not> route_moved nodes (uw_updater w) (fst x)) (uw_done w)\<rparr>)"
| voted: "ev = SetVote vote ans \<Longrightarrow> updater_arm P A ev (uw_updater w) = (s', tx, ok, UpdaterGoesOn) \<Longrightarrow>
    uw_step P A w ev
      (w\<lparr>uw_updater := s', uw_handed := uw_handed w @ (case tx of None \<Rightarrow> [] | Some t \<Rightarrow> [(uv_chain_key vote, t)]),
         uw_done := uw_done w @
           (if ok then map (\<lambda>st. (uv_chain_key vote, vote_digest A vote st))
                         (case hm_get (sx_states (uw_updater w)) (uv_chain_key vote) of Some st \<Rightarrow> [st] | None \<Rightarrow> []) else [])\<rparr>)"

inductive_cases uw_stepE: "uw_step P A w e w'"

definition uw_begins :: "update_world \<Rightarrow> bool" where
  "uw_begins w \<longleftrightarrow> (\<exists>routes now h. updater_start routes now h = Some (uw_updater w)) \<and>
     uw_views w = {} \<and> uw_handed w = [] \<and> uw_done w = []"

definition uw_inv :: "primitives \<Rightarrow> set_update_abi \<Rightarrow> update_world \<Rightarrow> bool" where
  "uw_inv P A w \<longleftrightarrow>
     (\<forall>ck st. hm_get (sx_states (uw_updater w)) ck = Some st \<longrightarrow> slots_ok P (uw_views w) ck st) \<and>
     (\<forall>t \<in> set (uw_handed w). certified_update P A (uw_views w) t) \<and> distinct (uw_done w) \<and>
     (\<forall>x \<in> set (uw_done w). \<exists>st. hm_get (sx_states (uw_updater w)) (fst x) = Some st \<and> snd x \<in> us_in_flight st)"

lemma uw_invD:
  assumes "uw_inv P A w"
  shows "hm_get (sx_states (uw_updater w)) ck = Some st \<Longrightarrow> slots_ok P (uw_views w) ck st"
    "t \<in> set (uw_handed w) \<Longrightarrow> certified_update P A (uw_views w) t" "distinct (uw_done w)"
    "x \<in> set (uw_done w) \<Longrightarrow> \<exists>st. hm_get (sx_states (uw_updater w)) (fst x) = Some st \<and> snd x \<in> us_in_flight st"
  using assms unfolding uw_inv_def by blast+

lemma eligible_slots_ok: "eligible r = Some st \<Longrightarrow> slots_ok P views ck st"
  by (auto simp: eligible_def slots_ok_def split: attestor_set.splits attestor_source.splits option.splits)

lemma start_states_ok:
  assumes "hm_get (fold (\<lambda>r m. case eligible r of Some st \<Rightarrow> hm_insert (rg_chain_key r) st m | None \<Rightarrow> m) routes m) ck = Some st"
    and "\<And>ck st. hm_get m ck = Some st \<Longrightarrow> slots_ok P views ck st"
  shows "slots_ok P views ck st"
  using assms
proof (induction routes arbitrary: m)
  case Nil
  then show ?case by simp
next
  case (Cons r rs)
  show ?case
  proof (rule Cons.IH)
    show "hm_get (fold (\<lambda>r m. case eligible r of Some st \<Rightarrow> hm_insert (rg_chain_key r) st m | None \<Rightarrow> m) rs
        (case eligible r of Some st \<Rightarrow> hm_insert (rg_chain_key r) st m | None \<Rightarrow> m)) ck = Some st"
      using Cons.prems(1) by simp
    show "slots_ok P views k s" if "hm_get (case eligible r of Some st \<Rightarrow> hm_insert (rg_chain_key r) st m | None \<Rightarrow> m) k = Some s" for k s
      using that Cons.prems(2) eligible_slots_ok [of r s P views k] by (auto simp: update_conv' split: option.splits if_splits)
  qed
qed

lemma uw_begins_inv:
  assumes "uw_begins w"
  shows "uw_inv P A w"
proof -
  have start: "updater_start routes now h = Some s \<Longrightarrow> sx_states s =
      fold (\<lambda>r m. case eligible r of Some st \<Rightarrow> hm_insert (rg_chain_key r) st m | None \<Rightarrow> m) routes []" for routes now h s
    unfolding updater_start_def Let_def by (split if_split_asm) (simp, drule option.inject [THEN iffD1], drule arg_cong [where f = sx_states], simp)
  from assms obtain routes now h where "updater_start routes now h = Some (uw_updater w)"
    unfolding uw_begins_def by blast
  from start [OF this] have "slots_ok P {} ck st" if "hm_get (sx_states (uw_updater w)) ck = Some st" for ck st
    using that start_states_ok [of routes "[]" ck st P "{}"] by simp
  with assms show ?thesis by (simp add: uw_inv_def uw_begins_def)
qed

lemma map_of_map_key: "map_of (map (\<lambda>(k, v). (k, f k v)) m) x = map_option (f x) (map_of m x)"
  by (induction m) auto

lemma updater_tick_states:
  "pacer_deferring now (sx_pacer s) = None \<Longrightarrow>
     hm_get (sx_states (updater_tick now later ms nodes s)) ck =
       map_option (\<lambda>st. fst (update_refresh (nodes ck) st)) (hm_get (sx_states s) ck)"
  by (simp add: updater_tick_def Let_def map_of_map_key)

lemma refresh_in_flight:
  "hm_get (sx_states s) ck = Some st \<Longrightarrow> \<not> route_moved nodes s ck \<Longrightarrow>
     us_in_flight (fst (update_refresh (nodes ck) st)) = us_in_flight st"
  by (auto simp: update_refresh_def install_view_def route_moved_def split: sum.splits)

lemma uw_inv_refreshed:
  assumes inv: "uw_inv P A w" and "pacer_deferring now (sx_pacer (uw_updater w)) = None"
  shows "uw_inv P A (w\<lparr>uw_updater := updater_tick now later ms nodes (uw_updater w),
    uw_views := uw_views w \<union> views_read nodes (uw_updater w),
    uw_done := filter (\<lambda>x. \<not> route_moved nodes (uw_updater w) (fst x)) (uw_done w)\<rparr>)"
proof -
  let ?views = "uw_views w \<union> views_read nodes (uw_updater w)"
  have "slots_ok P ?views ck (fst (update_refresh (nodes ck) st))"
    if "hm_get (sx_states (uw_updater w)) ck = Some st" for ck st
  proof (rule slots_ok_refresh)
    show "slots_ok P ?views ck st" by (rule slots_ok_mono [OF uw_invD(1) [OF inv that]]) (rule Un_upper1)
    show "(ck, view) \<in> ?views" if "read_view st (nodes ck) = Inr view" for view
      using that \<open>hm_get (sx_states (uw_updater w)) ck = Some st\<close> by (simp add: views_read_def)
  qed
  moreover have "certified_update P A ?views t" if "t \<in> set (uw_handed w)" for t
    by (rule certified_update_mono [OF uw_invD(2) [OF inv that]]) (rule Un_upper1)
  moreover have "\<exists>st'. map_option (\<lambda>st. fst (update_refresh (nodes (fst x)) st)) (hm_get (sx_states (uw_updater w)) (fst x)) = Some st'
      \<and> snd x \<in> us_in_flight st'" if "x \<in> set (uw_done w)" "\<not> route_moved nodes (uw_updater w) (fst x)" for x
  proof -
    from inv that(1) obtain st where st: "hm_get (sx_states (uw_updater w)) (fst x) = Some st" "snd x \<in> us_in_flight st"
      using uw_invD(4) by blast
    with refresh_in_flight [OF st(1) that(2)] show ?thesis by simp
  qed
  moreover note uw_invD(3) [OF inv]
  ultimately show ?thesis unfolding uw_inv_def by (auto simp: updater_tick_states [OF assms(2)])
qed

text \<open>A successful submission marks a digest that was not marked; nothing else changes the marks.\<close>

lemma route_vote_marks:
  assumes "route_vote P A ans vote st = (st', tx, ok)"
  shows "us_in_flight st' = (if ok then insert (vote_digest A vote st) (us_in_flight st) else us_in_flight st)"
    "ok \<Longrightarrow> vote_digest A vote st \<notin> us_in_flight st"
  using assms
proof (atomize (full), cases rule: route_vote_cases)
  case (submitted cur canonical d a)
  note v = verify_vote_Some [OF submitted(2)]
  from v submitted(1) have "vote_digest A vote st = d" by (simp add: vote_digest_def)
  with submitted(3) submit_at_threshold_fields(4) [OF submitted(5)]
  show "us_in_flight st' = (if ok then insert (vote_digest A vote st) (us_in_flight st) else us_in_flight st) \<and>
      (ok \<longrightarrow> vote_digest A vote st \<notin> us_in_flight st)" by auto
qed auto

lemma uw_inv_voted:
  assumes inv: "uw_inv P A w" and r: "hm_get (sx_states (uw_updater w)) ck = Some st" "uv_chain_key vote = ck"
    and v: "route_vote P A ans vote st = (st', tx, ok)"
  shows "uw_inv P A (w\<lparr>uw_updater := (uw_updater w)\<lparr>sx_states := hm_modify ck (\<lambda>_. st') (sx_states (uw_updater w))\<rparr>,
    uw_handed := uw_handed w @ (case tx of None \<Rightarrow> [] | Some t \<Rightarrow> [(ck, t)]),
    uw_done := uw_done w @ (if ok then [(ck, vote_digest A vote st)] else [])\<rparr>)"
proof -
  note s = uw_invD(1) [OF inv r(1)]
  note marks = route_vote_marks [OF v]
  have "slots_ok P (uw_views w) ck st'" by (rule slots_ok_vote [OF s v])
  moreover have "certified_update P A (uw_views w) (ck, t)" if "tx = Some t" for t
    using route_vote_certified(1) [OF s, of A ans vote st' t ok] v that by simp
  moreover have "(ck, vote_digest A vote st) \<notin> set (uw_done w)" if ok
    using uw_invD(4) [OF inv] r(1) marks(2) [OF that] by force
  moreover have "\<exists>st''. map_option (\<lambda>_. st') (hm_get (sx_states (uw_updater w)) (fst x)) = Some st'' \<and> snd x \<in> us_in_flight st''"
    if "x \<in> set (uw_done w)" "fst x = ck" for x
    using uw_invD(4) [OF inv that(1)] r(1) marks(1) that(2) by force
  ultimately show ?thesis
    using inv r(1) marks(1) unfolding uw_inv_def by (auto simp: hm_get_modify split: option.splits)
qed

interpretation set_updates: invariant_system "uw_begins" "uw_step P A" "uw_inv P A" for P A
proof unfold_locales
  fix w
  assume "uw_begins w"
  then show "uw_inv P A w" by (rule uw_begins_inv)
next
  fix w e w'
  assume inv: "uw_inv P A w" and "uw_step P A w e w'"
  from this(2) show "uw_inv P A w'"
  proof (cases rule: uw_step.cases)
    case (skipped now later ms nodes s' tx ok)
    then have "s' = uw_updater w" by (simp add: updater_arm_def updater_tick_def)
    with inv skipped show ?thesis by simp
  next
    case (refreshed now later ms nodes s' tx ok)
    then have "s' = updater_tick now later ms nodes (uw_updater w)" by (simp add: updater_arm_def)
    with uw_inv_refreshed [OF inv refreshed(3), of nodes later ms] refreshed(1) show ?thesis by simp
  next
    case (voted vote ans s' tx ok)
    show ?thesis
    proof (cases "hm_get (sx_states (uw_updater w)) (uv_chain_key vote)")
      case None
      with voted have "s' = uw_updater w" "tx = None" "\<not> ok" by (auto simp: updater_arm_def set_handle_vote_def)
      with inv voted show ?thesis by simp
    next
      case (Some st)
      obtain st' tx' ok' where rv: "route_vote P A ans vote st = (st', tx', ok')" by (rule prod_cases3)
      with Some voted have "tx = tx'" "ok = ok'"
          "s' = (uw_updater w)\<lparr>sx_states := hm_modify (uv_chain_key vote) (\<lambda>_. st') (sx_states (uw_updater w))\<rparr>"
        by (auto simp: updater_arm_def set_handle_vote_def)
      with uw_inv_voted [OF inv Some refl rv] voted Some show ?thesis by (cases ok) simp_all
    qed
  qed
qed

end
