(* ===== verification/Set_Update_Theorems.thy ===== *)
theory Set_Update_Theorems
  imports Set_Update_Correct
begin

text \<open>The properties of the attestor-set watcher and of the set-update aggregator, with a concrete run.\<close>

section \<open>A concrete run\<close>

text \<open>One route whose validator has one attestor, account 5, with threshold one; its vote reaches the threshold.\<close>

definition upd_prims :: primitives where
  "upd_prims = \<lparr>ecrecover = (\<lambda>_ raw. Some (ucast (raw ! 0))), abi_encode_params = concat\<rparr>"

definition upd_abi :: set_update_abi where
  "upd_abi = \<lparr>ua_encode = (\<lambda>_ _ _ _. []), ua_keccak = (\<lambda>_. 77), ua_key = (\<lambda>_. Some 3)\<rparr>"

definition upd_sig :: bytes where "upd_sig = 5 # replicate 63 0 @ [27]"

definition upd_node :: validator_node where
  "upd_node = \<lparr>vn_connect = None, vn_attestors = Inr [5], vn_threshold = Inr 1, vn_nonce = Inr 4, vn_chain_id = Inr 1\<rparr>"

definition upd_view :: on_chain_view where
  "upd_view = \<lparr>oc_attestors = {5}, oc_threshold = 1, oc_nonce = 4, oc_chain_id = 1\<rparr>"

definition upd_route :: route_config where
  "upd_route = \<lparr>rg_chain_key = 7, rg_creditcoin_chain_id = 1, rg_destination_rpc_url = [], rg_inbox_address = 1,
     rg_signer_key = Some ''k'', rg_outbox_address = None, rg_relayer_contract_address = None, rg_block_confirmation_depth = 0,
     rg_start_block = None, rg_attestor_set = OnChainSet (EvmSource 9), rg_threshold_override = None, rg_ack = None, rg_claim = None,
     rg_max_native_coin_value_wei = 0, rg_max_gas_limit = 1, rg_auto_request_top_up = False,
     rg_failed_retry = default_failed_retry_policy\<rparr>"

definition upd_vote :: set_update_vote where
  "upd_vote = \<lparr>uv_chain_key = 7, uv_new_attestors = [6, 5, 6], uv_nonce = 4, uv_signer = 5, uv_signature = upd_sig\<rparr>"

definition upd_answers :: submit_answers where
  "upd_answers = \<lparr>sb_connect = None, sb_simulate = None, sb_send = Inr (Inr 1)\<rparr>"

definition upd_state :: "on_chain_view option \<Rightarrow> b256 set \<Rightarrow> update_state" where
  "upd_state view marks = \<lparr>us_validator = 9, us_signer_key = ''k'', us_dest_rpc_url = [], us_current = view, us_votes = [], us_in_flight = marks\<rparr>"

definition upd_tx :: set_update_tx where
  "upd_tx = \<lparr>tx_validator = 9, tx_new_attestors = [5, 6], tx_calldata = encode_votes upd_prims [upd_sig], tx_submitter = 3\<rparr>"

definition upd_begin :: update_world where
  "upd_begin = \<lparr>uw_updater = the (updater_start [upd_route] 1 (health_new PROGRESS_DEADLINE)), uw_views = {},
     uw_handed = [], uw_done = []\<rparr>"

lemma upd_start:
  "updater_start [upd_route] 1 (health_new PROGRESS_DEADLINE) = Some (uw_updater upd_begin)"
  "sx_states (uw_updater upd_begin) = [(7, upd_state None {})]" "sx_pacer (uw_updater upd_begin) = pacer_default"
  by (simp_all add: upd_begin_def updater_start_def Let_def eligible_def upd_route_def upd_state_def)

lemma upd_read: "read_view (upd_state x y) upd_node = Inr upd_view"
  by (simp add: read_view_def upd_node_def upd_view_def connect_def with_context_def sat_to_u64_def)

lemma upd_recover: "recover_signer upd_prims d upd_sig = Inr 5"
  by (simp add: upd_prims_def upd_sig_def recover_signer_def Let_def nth_append)

lemma upd_canonical: "canonical_attestor_order [6, 5, 6] = [5, 6]"
  by (simp add: canonical_attestor_order_def)

lemma upd_digest: "vote_digest upd_abi upd_vote (upd_state (Some upd_view) {}) = 77"
  by (simp add: vote_digest_def upd_state_def attestor_set_update_digest_def upd_abi_def)

lemma upd_votes: "route_vote upd_prims upd_abi upd_answers upd_vote (upd_state (Some upd_view) {}) =
    (upd_state (Some upd_view) {77}, Some upd_tx, True)"
  by (simp add: route_vote_def upd_vote_def verify_vote_def upd_view_def Let_def upd_recover attestor_set_update_digest_def
      upd_abi_def upd_state_def vote_slot_def submit_at_threshold_def set_submit_def upd_answers_def upd_tx_def upd_canonical)

lemma upd_run:
  "\<exists>w. reach (uw_begins) (uw_step upd_prims upd_abi) w \<and> uw_handed w = [(7, upd_tx)] \<and>
     uw_done w = [(7, 77)] \<and> uw_views w = {(7, upd_view)}"
proof -
  let ?tick = "RefreshTick 0 0 1 (\<lambda>_. upd_node)"
  let ?s1 = "updater_tick 0 0 1 (\<lambda>_. upd_node) (uw_updater upd_begin)"
  let ?w1 = "upd_begin\<lparr>uw_updater := ?s1, uw_views := {(7, upd_view)}, uw_done := []\<rparr>"
  have fields: "uw_views upd_begin = {}" "uw_handed upd_begin = []" "uw_done upd_begin = []" by (simp_all add: upd_begin_def)
  let ?w2 = "?w1\<lparr>uw_updater := ?s1\<lparr>sx_states := [(7, upd_state (Some upd_view) {77})]\<rparr>, uw_handed := [(7, upd_tx)], uw_done := [(7, 77)]\<rparr>"
  have key: "uv_chain_key upd_vote = 7" by (simp add: upd_vote_def)
  have quiet: "pacer_deferring 0 (sx_pacer (uw_updater upd_begin)) = None"
    by (simp add: upd_start pacer_deferring_def pacer_default_def)
  have "install_view upd_view (upd_state None {}) = upd_state (Some upd_view) {}"
    by (simp add: install_view_def nonce_moved_def upd_state_def)
  with quiet have s1: "sx_states ?s1 = [(7, upd_state (Some upd_view) {})]"
    by (simp add: updater_tick_def upd_start Let_def update_refresh_def upd_read)
  have r0: "reach (uw_begins) (uw_step upd_prims upd_abi) upd_begin"
    by (rule reach_start) (use upd_start(1) in \<open>auto simp: uw_begins_def upd_begin_def\<close>)
  have views: "views_read (\<lambda>_. upd_node) (uw_updater upd_begin) = {(7, upd_view)}"
    by (auto simp: views_read_def upd_start upd_read split: if_splits)
  have "updater_arm upd_prims upd_abi ?tick (uw_updater upd_begin) = (?s1, None, False, UpdaterGoesOn)"
    by (simp add: updater_arm_def)
  from refreshed [OF refl quiet this] have t1: "uw_step upd_prims upd_abi upd_begin ?tick ?w1"
    by (simp add: views fields)
  have "updater_arm upd_prims upd_abi (SetVote upd_vote upd_answers) ?s1 =
      (?s1\<lparr>sx_states := [(7, upd_state (Some upd_view) {77})]\<rparr>, Some upd_tx, True, UpdaterGoesOn)"
    by (simp add: updater_arm_def set_handle_vote_def s1 upd_votes key hm_modify_def)
  from voted [OF refl, of upd_prims upd_abi upd_vote upd_answers ?w1] this
  have t2: "uw_step upd_prims upd_abi ?w1 (SetVote upd_vote upd_answers) ?w2"
    using upd_digest key by (simp add: fields s1)
  note one = reach_step [where start = "uw_begins" and trans = "uw_step upd_prims upd_abi"]
  note r1 = one [OF r0 t1] note r2 = one [OF r1 t2]
  show ?thesis by (rule exI [of _ ?w2]) (intro conjI r2, simp_all)
qed

section \<open>Properties\<close>

text \<open>C25. An attestor-set update is submitted only with authority. Every transaction the aggregator hands to the
  broadcast slot installs a strictly ascending set of attestors, carries at least the threshold of signatures by
  distinct accounts, each in canonical form and recovered over the digest of exactly this set for this
  route's view of the validator (its nonce and chain id), and each by an account that was an attestor in
  a view of the validator read at that nonce.\<close>

theorem set_update_certified:
  assumes "reach (uw_begins) (uw_step P A) w" and "(ck, tx) \<in> set (uw_handed w)"
  shows "\<exists>view sgs. (ck, view) \<in> uw_views w \<and> tx_calldata tx = encode_votes P (map snd sgs) \<and>
    distinct (map fst sgs) \<and> oc_threshold view \<le> length sgs \<and> sorted_wrt (<) (tx_new_attestors tx) \<and>
    (\<forall>s \<in> set sgs.
       recover_signer P (attestor_set_update_digest A (tx_validator tx) (tx_new_attestors tx) (oc_chain_id view) (oc_nonce view)) (snd s)
         = Inr (fst s) \<and>
       (\<exists>v. (ck, v) \<in> uw_views w \<and> oc_nonce v = oc_nonce view \<and> fst s \<in> oc_attestors v))"
  using uw_invD(2) [OF set_updates.reach_inv [OF assms(1)] assms(2)]
  unfolding certified_update_def backed_def fst_conv snd_conv .

theorem set_update_certified_witness:
  "\<exists>view (sgs :: (address \<times> bytes) list). (7, view) \<in> {(7 :: u64, upd_view)} \<and> tx_calldata upd_tx = encode_votes upd_prims (map snd sgs) \<and> oc_threshold view \<le> length sgs"
proof -
  from upd_run obtain w where w: "reach (uw_begins) (uw_step upd_prims upd_abi) w"
      "uw_handed w = [(7, upd_tx)]" "uw_views w = {(7, upd_view)}" by blast
  from w(2) have "(7, upd_tx) \<in> set (uw_handed w)" by simp
  from set_update_certified [OF w(1) this] show ?thesis
    unfolding w(3) by blast
qed

text \<open>An update is not submitted twice. Between two changes of a route's nonce, no digest is submitted
  successfully more than once, however many votes for it arrive again.\<close>

theorem set_update_once:
  assumes "reach (uw_begins) (uw_step P A) w"
  shows "distinct (uw_done w)"
  by (rule uw_invD(3) [OF set_updates.reach_inv [OF assms]])

theorem set_update_once_witness:
  "\<exists>w. reach (uw_begins) (uw_step upd_prims upd_abi) w \<and> uw_done w = [(7, 77)] \<and> distinct (uw_done w)"
  using upd_run set_update_once by blast

text \<open>C31. The pool follows the contract. Over any run of polls, deferred and failed ones included, the updates the
  watcher sends are the sets it read, in order, without immediate repetitions: the first read is sent, every change is
  sent, an unchanged set is not.\<close>

theorem set_watcher_sends_changes:
  assumes "watcher_start r now h = Some w"
  shows "snd (watch_run r inputs w) = map (update_of r) (remdups_adj (reads_of r inputs w))"
proof -
  from assms have "sw_last w = None" by (auto simp: watcher_start_def split: option.splits)
  then show ?thesis by (simp add: watch_run_pushes)
qed

definition watch_inputs :: "watch_input list" where
  "watch_inputs = [\<lparr>wi_now = 0, wi_later = 0, wi_unix_ms = 1, wi_node = upd_node\<rparr>,
     \<lparr>wi_now = 1, wi_later = 1, wi_unix_ms = 2, wi_node = upd_node\<lparr>vn_threshold := Inl ''x''\<rparr>\<rparr>,
     \<lparr>wi_now = 2, wi_later = 2, wi_unix_ms = 3, wi_node = upd_node\<rparr>,
     \<lparr>wi_now = 3, wi_later = 3, wi_unix_ms = 4, wi_node = upd_node\<lparr>vn_attestors := Inr [5, 6]\<rparr>\<rparr>]"

theorem set_watcher_sends_changes_witness:
  "\<exists>w. watcher_start upd_route 1 (health_new PROGRESS_DEADLINE) = Some w \<and>
     snd (watch_run upd_route watch_inputs w) = map (update_of upd_route) (remdups_adj (reads_of upd_route watch_inputs w))"
proof -
  have "\<exists>w. watcher_start upd_route 1 (health_new PROGRESS_DEADLINE) = Some w"
    by (simp add: watcher_start_def watched_validator_def upd_route_def)
  then show ?thesis using set_watcher_sends_changes by blast
qed

end
