(* ===== verification/Config_Load.thy ===== *)
theory Config_Load
  imports Config
begin

text \<open>
  Loading the configuration: the conversions of \<^verbatim>\<open>config.rs\<close> from the file records to the runtime
  values, and \<^verbatim>\<open>build_config\<close> of \<^verbatim>\<open>bin/relayer.rs\<close> with its two modes. The conversion of a route runs its
  checks in the order of the code, so the error of a rejected document is the code's.
\<close>

text \<open>\<^verbatim>\<open>Address::from_str\<close>, \<^verbatim>\<open>U256::from_str_radix\<close> and \<^verbatim>\<open>serde_yaml\<close>.\<close>

record config_codec =
  kc_address :: "string \<Rightarrow> address option"
  kc_radix :: "nat \<Rightarrow> string \<Rightarrow> u256 option"
  kc_yaml :: "string \<Rightarrow> config_doc option"

section \<open>Amounts and addresses\<close>

definition strip_prefix :: "string \<Rightarrow> string \<Rightarrow> string option" where
  "strip_prefix p s = (if prefix p s then Some (drop (length p) s) else None)"

definition parse_wei :: "config_codec \<Rightarrow> string \<Rightarrow> wei_error + u256" where
  "parse_wei K raw =
     (let s = filter (\<lambda>c. c \<noteq> CHR ''_'') (trim raw) in
      if s = [] then Inl EmptyWei
      else case (case (case strip_prefix ''0x'' s of Some hex \<Rightarrow> Some hex | None \<Rightarrow> strip_prefix ''0X'' s) of
                   Some hex \<Rightarrow> kc_radix K 16 hex
                 | None \<Rightarrow> kc_radix K 10 s) of
             None \<Rightarrow> Inl (BadWei raw)
           | Some v \<Rightarrow> Inr v)"

definition wei_file_parse :: "config_codec \<Rightarrow> wei_file \<Rightarrow> wei_error + u256" where
  "wei_file_parse K w = (case w of WeiInt n \<Rightarrow> Inr (ucast n) | WeiStr s \<Rightarrow> parse_wei K s)"

definition parse_address :: "config_codec \<Rightarrow> string \<Rightarrow> origin \<Rightarrow> string \<Rightarrow> config_error + address" where
  "parse_address K field origin raw =
     (case kc_address K (trim raw) of None \<Rightarrow> Inl (InvalidAddress field origin raw) | Some a \<Rightarrow> Inr a)"

section \<open>Routes of the document\<close>

definition into_attestor_set :: "config_codec \<Rightarrow> origin \<Rightarrow> attestor_set_file \<Rightarrow> config_error + attestor_set" where
  "into_attestor_set K origin f =
     (case f of
        StaticFile addresses \<Rightarrow>
          and_then (traverse_list (parse_address K ''attestor address'' origin) addresses) (\<lambda>parsed.
          if parsed = [] then Inl (NoAttestors origin) else Inr (StaticSet parsed))
      | EvmContractFile address \<Rightarrow>
          and_then (parse_address K ''attestor_set.evm_contract.address'' origin address) (\<lambda>a. Inr (OnChainSet (EvmSource a)))
      | Cc3ActiveSetFile chain_key \<Rightarrow> Inr (OnChainSet (Cc3Source chain_key)))"

definition into_ack :: "config_codec \<Rightarrow> origin \<Rightarrow> ack_config_file \<Rightarrow> config_error + ack_section" where
  "into_ack K origin a =
     and_then (parse_address K ''ack.validator_address'' origin (af_validator_address a)) (\<lambda>validator_address.
     and_then (validate_ack_not_ready_poll_secs (af_not_ready_poll_secs a) origin) (\<lambda>_.
     Inr \<lparr>as_proof_gen_url = af_proof_gen_url a, as_validator_address = validator_address, as_signer_key = af_signer_key a,
          as_confirmation_depth = af_confirmation_depth a, as_start_block = af_start_block a,
          as_not_ready_poll_secs = af_not_ready_poll_secs a,
          as_not_ready_poll_window_secs = af_not_ready_poll_window_secs a\<rparr>))"

definition into_claim :: "config_codec \<Rightarrow> origin \<Rightarrow> claim_config_file \<Rightarrow> config_error + claim_section" where
  "into_claim K origin c =
     and_then (parse_address K ''claim.source_bridge_address'' origin (kf_source_bridge_address c)) (\<lambda>source_bridge_address.
     and_then (parse_address K ''claim.target_address'' origin (kf_target_address c)) (\<lambda>target_address.
     Inr \<lparr>cs_proof_gen_url = kf_proof_gen_url c, cs_source_bridge_address = source_bridge_address,
          cs_target_address = target_address, cs_signer_key = kf_signer_key c,
          cs_confirmation_depth = kf_confirmation_depth c, cs_start_block = kf_start_block c\<rparr>))"

definition into_wei :: "config_codec \<Rightarrow> origin \<Rightarrow> wei_file \<Rightarrow> config_error + u256" where
  "into_wei K origin w = (case wei_file_parse K w of Inl e \<Rightarrow> Inl (InvalidWei origin e) | Inr v \<Rightarrow> Inr v)"

definition route_policy :: "failed_retry_policy \<Rightarrow> chain_route_file \<Rightarrow> failed_retry_policy" where
  "route_policy p f =
     \<lparr>fp_max_attempts = unwrap_or (fp_max_attempts p) (rf_failed_retry_max_attempts f),
      fp_initial_backoff_secs = unwrap_or (fp_initial_backoff_secs p) (rf_failed_retry_initial_backoff_secs f),
      fp_max_backoff_secs = unwrap_or (fp_max_backoff_secs p) (rf_failed_retry_max_backoff_secs f)\<rparr>"

definition route_of ::
  "chain_route_file \<Rightarrow> failed_retry_policy \<Rightarrow> address \<Rightarrow> address option \<Rightarrow> address option \<Rightarrow> attestor_set
    \<Rightarrow> ack_section option \<Rightarrow> claim_section option \<Rightarrow> u256 option \<Rightarrow> route_config" where
  "route_of f p inbox outbox contract attestors ack claim wei =
     \<lparr>rg_chain_key = rf_chain_key f, rg_creditcoin_chain_id = rf_creditcoin_chain_id f,
      rg_destination_rpc_url = rf_destination_rpc_url f, rg_inbox_address = inbox,
      rg_signer_key = rf_signer_key f, rg_outbox_address = outbox, rg_relayer_contract_address = contract,
      rg_block_confirmation_depth = rf_block_confirmation_depth f, rg_start_block = rf_start_block f,
      rg_attestor_set = attestors, rg_threshold_override = rf_threshold_override f, rg_ack = ack, rg_claim = claim,
      rg_max_native_coin_value_wei = unwrap_or DEFAULT_MAX_NATIVE_COIN_VALUE_WEI wei,
      rg_max_gas_limit = rf_max_gas_limit f, rg_auto_request_top_up = rf_auto_request_top_up f,
      rg_failed_retry = route_policy p f\<rparr>"

definition into_route :: "config_codec \<Rightarrow> failed_retry_policy \<Rightarrow> chain_route_file \<Rightarrow> config_error + route_config" where
  "into_route K p f =
     (let origin = OfRoute (rf_chain_key f) in
      and_then (parse_address K ''inbox_address'' origin (rf_inbox_address f)) (\<lambda>inbox.
      and_then (traverse_option (parse_address K ''outbox_address'' origin) (rf_outbox_address f)) (\<lambda>outbox.
      and_then (traverse_option (parse_address K ''relayer_contract_address'' origin) (rf_relayer_contract_address f)) (\<lambda>contract.
      and_then (into_attestor_set K origin (rf_attestor_set f)) (\<lambda>attestors.
      and_then (traverse_option (into_ack K origin) (rf_ack f)) (\<lambda>ack.
      and_then (traverse_option (into_claim K origin) (rf_claim f)) (\<lambda>claim.
      and_then (traverse_option (into_wei K origin) (rf_max_native_coin_value_wei f)) (\<lambda>wei.
      let route = route_of f p inbox outbox contract attestors ack claim wei in
      and_then (validate_route route) (\<lambda>_. Inr route)))))))))"

section \<open>The document as a whole\<close>

fun into_routes :: "config_codec \<Rightarrow> failed_retry_policy \<Rightarrow> u64 set \<Rightarrow> chain_route_file list \<Rightarrow> config_error + route_config list" where
  "into_routes K p seen [] = Inr []"
| "into_routes K p seen (r # rs) =
     (if rf_chain_key r \<in> seen then Inl (DuplicateChainKey (rf_chain_key r))
      else and_then (into_route K p r) (\<lambda>route.
           and_then (into_routes K p (insert (rf_chain_key r) seen) rs) (\<lambda>routes. Inr (route # routes))))"

definition config_of :: "config_file \<Rightarrow> string \<Rightarrow> string \<Rightarrow> string option \<Rightarrow> route_config list \<Rightarrow> config" where
  "config_of f cc3_rpc_url creditcoin_eth_rpc_url checkpoint_path routes =
     \<lparr>cg_bind_host = gf_bind_host f, cg_bind_port = gf_bind_port f, cg_cc3_rpc_url = cc3_rpc_url,
      cg_creditcoin_eth_rpc_url = creditcoin_eth_rpc_url,
      cg_p2p = \<lparr>pp_port = pf_port (gf_p2p f), pp_public_addr = pf_public_addr (gf_p2p f),
                pp_boot_nodes = pf_boot_nodes (gf_p2p f), pp_no_mdns = pf_no_mdns (gf_p2p f), pp_identity = pf_identity (gf_p2p f)\<rparr>,
      cg_observer = gf_observer f,
      cg_vote_cache = \<lparr>vc_ttl_seconds = vf_ttl_seconds (gf_vote_cache f), vc_max_messages = vf_max_messages (gf_vote_cache f)\<rparr>,
      cg_delivery = \<lparr>ds_simulate_before_send = df_simulate_before_send (gf_delivery f),
                     ds_max_retries = df_max_retries (gf_delivery f), ds_gas_multiplier = df_gas_multiplier (gf_delivery f),
                     ds_failed_retry = file_failed_retry (gf_delivery f)\<rparr>,
      cg_routes = routes, cg_checkpoint_path = checkpoint_path, cg_scan_lookback_blocks = gf_scan_lookback_blocks f\<rparr>"

definition into_config :: "config_codec \<Rightarrow> string \<Rightarrow> string \<Rightarrow> string option \<Rightarrow> config_file \<Rightarrow> config_error + config" where
  "into_config K cc3_rpc_url creditcoin_eth_rpc_url checkpoint_path f =
     (if gf_routes f = [] then Inl NoRoutes
      else let failed_retry = file_failed_retry (gf_delivery f) in
           and_then (validate_policy failed_retry OfDelivery) (\<lambda>_.
           and_then (into_routes K failed_retry {} (gf_routes f)) (\<lambda>routes.
           Inr (config_of f cc3_rpc_url creditcoin_eth_rpc_url checkpoint_path routes))))"

text \<open>\<open>files\<close> gives the content of the files that can be read.\<close>

definition from_yaml_file ::
  "config_codec \<Rightarrow> (string \<Rightarrow> string option) \<Rightarrow> string \<Rightarrow> string \<Rightarrow> string \<Rightarrow> string option \<Rightarrow> config_error + config" where
  "from_yaml_file K files path cc3_rpc_url creditcoin_eth_rpc_url checkpoint_path =
     (case files path of
        None \<Rightarrow> Inl (UnreadableFile path)
      | Some content \<Rightarrow>
          (case kc_yaml K content of
             None \<Rightarrow> Inl InvalidYaml
           | Some doc \<Rightarrow> into_config K cc3_rpc_url creditcoin_eth_rpc_url checkpoint_path (file_of doc)))"

definition single_route ::
  "string \<Rightarrow> u16 \<Rightarrow> string \<Rightarrow> string \<Rightarrow> route_config \<Rightarrow> p2p_config \<Rightarrow> string option \<Rightarrow> config" where
  "single_route bind_host bind_port cc3_rpc_url creditcoin_eth_rpc_url route p2p checkpoint_path =
     \<lparr>cg_bind_host = bind_host, cg_bind_port = bind_port, cg_cc3_rpc_url = cc3_rpc_url,
      cg_creditcoin_eth_rpc_url = creditcoin_eth_rpc_url, cg_p2p = p2p, cg_observer = None,
      cg_vote_cache = default_vote_cache_config, cg_delivery = default_delivery_section,
      cg_routes = [route], cg_checkpoint_path = checkpoint_path, cg_scan_lookback_blocks = DEFAULT_SCAN_LOOKBACK_BLOCKS\<rparr>"

section \<open>The command line\<close>

record cli =
  cl_config :: "string option"
  cl_single_route :: bool
  cl_bind_host :: string
  cl_bind_port :: u16
  cl_cc3_rpc_url :: string
  cl_creditcoin_eth_rpc_url :: string
  cl_p2p_port :: u16
  cl_no_mdns :: bool
  cl_chain_key :: "u64 option"
  cl_cc3_chain_id :: "u64 option"
  cl_destination_rpc_url :: "string option"
  cl_inbox_address :: "string option"
  cl_signer_key :: "string option"
  cl_outbox_address :: "string option"
  cl_attestor_set :: "string option"
  cl_threshold_override :: "u32 option"
  cl_relayer_contract_address :: "string option"
  cl_max_native_coin_value_wei :: string
  cl_max_gas_limit :: u64
  cl_auto_request_top_up :: bool
  cl_ack :: "string option \<times> string option \<times> string option"
  cl_ack_confirmation_depth :: u64
  cl_ack_not_ready_poll_secs :: u64
  cl_ack_not_ready_poll_window_secs :: u64
  cl_claim :: "string option \<times> string option \<times> string option \<times> string option"
  cl_claim_confirmation_depth :: u64
  cl_checkpoint_path :: string

definition checkpoint_path_opt :: "string \<Rightarrow> string option" where
  "checkpoint_path_opt raw = (let trimmed = trim raw in if trimmed = [] then None else Some trimmed)"

definition required :: "string \<Rightarrow> 'a option \<Rightarrow> config_error + 'a" where
  "required flag x = (case x of None \<Rightarrow> Inl (MissingFlag flag) | Some v \<Rightarrow> Inr v)"

text \<open>\<^verbatim>\<open>split(',')\<close>.\<close>

fun split_on :: "char \<Rightarrow> string \<Rightarrow> string list" where
  "split_on sep [] = [[]]"
| "split_on sep (c # cs) =
     (if c = sep then [] # split_on sep cs
      else case split_on sep cs of [] \<Rightarrow> [[c]] | w # ws \<Rightarrow> (c # w) # ws)"

definition attestor_csv :: "config_codec \<Rightarrow> string \<Rightarrow> config_error + address list" where
  "attestor_csv K csv =
     and_then (traverse_list (parse_address K ''attestor address'' (OfFlag ''--attestor-set''))
                (filter (\<lambda>s. s \<noteq> []) (map trim (split_on CHR '','' csv)))) (\<lambda>attestors.
     if attestors = [] then Inl (NoAttestors (OfFlag ''--attestor-set'')) else Inr attestors)"

definition cli_ack :: "config_codec \<Rightarrow> cli \<Rightarrow> config_error + ack_section option" where
  "cli_ack K c =
     (case cl_ack c of
        (Some proof_gen_url, Some validator_raw, Some signer_key) \<Rightarrow>
          and_then (parse_address K ''validator'' (OfFlag ''--ack-validator-address'') validator_raw) (\<lambda>validator_address.
          and_then (validate_ack_not_ready_poll_secs (cl_ack_not_ready_poll_secs c) (OfFlag ''--ack-not-ready-poll-secs'')) (\<lambda>_.
          Inr (Some \<lparr>as_proof_gen_url = proof_gen_url, as_validator_address = validator_address, as_signer_key = signer_key,
                     as_confirmation_depth = cl_ack_confirmation_depth c, as_start_block = None,
                     as_not_ready_poll_secs = cl_ack_not_ready_poll_secs c,
                     as_not_ready_poll_window_secs = cl_ack_not_ready_poll_window_secs c\<rparr>)))
      | (None, None, None) \<Rightarrow> Inr None
      | _ \<Rightarrow> Inl PartialAckFlags)"

definition cli_claim :: "config_codec \<Rightarrow> cli \<Rightarrow> config_error + claim_section option" where
  "cli_claim K c =
     (case cl_claim c of
        (Some proof_gen_url, Some source_raw, Some target_raw, Some signer_key) \<Rightarrow>
          and_then (parse_address K ''source'' (OfFlag ''--claim-source-bridge-address'') source_raw) (\<lambda>source_bridge_address.
          and_then (parse_address K ''target'' (OfFlag ''--claim-target-address'') target_raw) (\<lambda>target_address.
          Inr (Some \<lparr>cs_proof_gen_url = proof_gen_url, cs_source_bridge_address = source_bridge_address,
                     cs_target_address = target_address, cs_signer_key = signer_key,
                     cs_confirmation_depth = cl_claim_confirmation_depth c, cs_start_block = None\<rparr>)))
      | (None, None, None, None) \<Rightarrow> Inr None
      | _ \<Rightarrow> Inl PartialClaimFlags)"

text \<open>The flag, else the old environment variable unless it is blank.\<close>

definition raw_relayer_contract :: "string option \<Rightarrow> cli \<Rightarrow> string option" where
  "raw_relayer_contract old_env c =
     (case cl_relayer_contract_address c of
        Some raw \<Rightarrow> Some raw
      | None \<Rightarrow> (case old_env of Some v \<Rightarrow> if trim v = [] then None else Some v | None \<Rightarrow> None))"

definition cli_route ::
  "cli \<Rightarrow> u64 \<Rightarrow> u64 \<Rightarrow> string \<Rightarrow> address \<Rightarrow> address option \<Rightarrow> address option \<Rightarrow> address list
    \<Rightarrow> ack_section option \<Rightarrow> claim_section option \<Rightarrow> u256 \<Rightarrow> route_config" where
  "cli_route c chain_key chain_id url inbox outbox contract attestors ack claim wei =
     \<lparr>rg_chain_key = chain_key, rg_creditcoin_chain_id = chain_id, rg_destination_rpc_url = url, rg_inbox_address = inbox,
      rg_signer_key = cl_signer_key c, rg_outbox_address = outbox, rg_relayer_contract_address = contract,
      rg_block_confirmation_depth = DEFAULT_BLOCK_CONFIRMATION_DEPTH, rg_start_block = None,
      rg_attestor_set = StaticSet attestors, rg_threshold_override = cl_threshold_override c, rg_ack = ack, rg_claim = claim,
      rg_max_native_coin_value_wei = wei, rg_max_gas_limit = cl_max_gas_limit c,
      rg_auto_request_top_up = cl_auto_request_top_up c, rg_failed_retry = default_failed_retry_policy\<rparr>"

definition cli_wei :: "config_codec \<Rightarrow> string \<Rightarrow> config_error + u256" where
  "cli_wei K raw =
     (case parse_wei K raw of Inl e \<Rightarrow> Inl (InvalidWei (OfFlag ''--max-native-coin-value-wei'') e) | Inr v \<Rightarrow> Inr v)"

definition single_route_config :: "config_codec \<Rightarrow> string option \<Rightarrow> cli \<Rightarrow> config_error + config" where
  "single_route_config K old_env c =
     and_then (required ''--chain-key'' (cl_chain_key c)) (\<lambda>chain_key.
     and_then (required ''--cc3-chain-id'' (cl_cc3_chain_id c)) (\<lambda>chain_id.
     and_then (required ''--destination-rpc-url'' (cl_destination_rpc_url c)) (\<lambda>url.
     and_then (required ''--inbox-address'' (cl_inbox_address c)) (\<lambda>inbox_raw.
     and_then (required ''--attestor-set'' (cl_attestor_set c)) (\<lambda>csv.
     and_then (parse_address K ''inbox'' (OfFlag ''--inbox-address'') inbox_raw) (\<lambda>inbox.
     and_then (traverse_option (parse_address K ''outbox'' (OfFlag ''--outbox-address'')) (cl_outbox_address c)) (\<lambda>outbox.
     and_then (attestor_csv K csv) (\<lambda>attestors.
     and_then (cli_ack K c) (\<lambda>ack.
     and_then (cli_claim K c) (\<lambda>claim.
     and_then (traverse_option (parse_address K ''contract'' (OfFlag ''--relayer-contract-address'')) (raw_relayer_contract old_env c)) (\<lambda>contract.
     and_then (cli_wei K (cl_max_native_coin_value_wei c)) (\<lambda>wei.
     let route = cli_route c chain_key chain_id url inbox outbox contract attestors ack claim wei in
     and_then (validate_route route) (\<lambda>_.
     Inr (single_route (cl_bind_host c) (cl_bind_port c) (cl_cc3_rpc_url c) (cl_creditcoin_eth_rpc_url c) route
            \<lparr>pp_port = cl_p2p_port c, pp_public_addr = None, pp_boot_nodes = [], pp_no_mdns = cl_no_mdns c, pp_identity = None\<rparr>
            (checkpoint_path_opt (cl_checkpoint_path c))))))))))))))))"

definition build_config ::
  "config_codec \<Rightarrow> (string \<Rightarrow> string option) \<Rightarrow> string option \<Rightarrow> cli \<Rightarrow> config_error + config" where
  "build_config K files old_env c =
     (if cl_config c \<noteq> None \<and> cl_single_route c then Inl ConfigAndSingleRoute
      else case cl_config c of
             Some path \<Rightarrow> from_yaml_file K files path (cl_cc3_rpc_url c) (cl_creditcoin_eth_rpc_url c)
                            (checkpoint_path_opt (cl_checkpoint_path c))
           | None \<Rightarrow> if cl_single_route c then single_route_config K old_env c else Inl NoMode)"

end
