(* ===== verification/Config_Correct.thy ===== *)
theory Config_Correct
  imports Config_Load
begin

text \<open>
  What a configuration that loads promises to the workers, and exactly which documents load. The
  promise is a predicate on the runtime values; both modes of the binary establish it.
\<close>

section \<open>The promise\<close>

definition policy_ok :: "failed_retry_policy \<Rightarrow> bool" where
  "policy_ok p \<longleftrightarrow> 0 < fp_initial_backoff_secs p \<and> fp_initial_backoff_secs p \<le> fp_max_backoff_secs p"

definition attestor_set_ok :: "attestor_set \<Rightarrow> bool" where
  "attestor_set_ok s \<longleftrightarrow> (case s of StaticSet addrs \<Rightarrow> addrs \<noteq> [] | OnChainSet _ \<Rightarrow> True)"

definition top_up_ok :: "route_config \<Rightarrow> bool" where
  "top_up_ok r \<longleftrightarrow> (if rg_auto_request_top_up r then rg_relayer_contract_address r \<noteq> None \<and> (rg_ack r \<noteq> None \<or> rg_claim r \<noteq> None) else True)"

definition route_config_ok :: "route_config \<Rightarrow> bool" where
  "route_config_ok r \<longleftrightarrow> 0 < rg_max_gas_limit r \<and> policy_ok (rg_failed_retry r) \<and> top_up_ok r \<and>
     attestor_set_ok (rg_attestor_set r) \<and> pred_option (\<lambda>a. 0 < as_not_ready_poll_secs a) (rg_ack r)"

definition config_ok :: "config \<Rightarrow> bool" where
  "config_ok c \<longleftrightarrow> cg_routes c \<noteq> [] \<and> distinct (map rg_chain_key (cg_routes c)) \<and>
     (\<forall>r \<in> set (cg_routes c). route_config_ok r) \<and> policy_ok (ds_failed_retry (cg_delivery c))"

section \<open>The checks\<close>

lemma validate_policy_Inr: "validate_policy p origin = Inr u \<longleftrightarrow> policy_ok p"
  by (auto simp: validate_policy_def policy_validate_def policy_ok_def word_gt_0 not_less)

lemma converts_validate_policy [simp]: "converts (validate_policy p origin) \<longleftrightarrow> policy_ok p"
  by (simp add: converts_ex validate_policy_Inr)

lemma converts_max_gas [simp]: "converts (validate_max_gas_limit cap origin) \<longleftrightarrow> 0 < cap"
  by (simp add: validate_max_gas_limit_def word_gt_0)

lemma converts_poll_secs [simp]: "converts (validate_ack_not_ready_poll_secs s origin) \<longleftrightarrow> 0 < s"
  by (simp add: validate_ack_not_ready_poll_secs_def word_gt_0)

lemma top_up_signer_key_None: "top_up_signer_key r = None \<longleftrightarrow> rg_ack r = None \<and> rg_claim r = None"
  by (simp add: top_up_signer_key_def split: option.split)

lemma converts_validate_route [simp]:
  "converts (validate_route r) \<longleftrightarrow> 0 < rg_max_gas_limit r \<and> policy_ok (rg_failed_retry r) \<and> top_up_ok r"
  by (auto simp: validate_route_def top_up_ok_def top_up_signer_key_None Let_def)

lemma default_policy_ok: "policy_ok default_failed_retry_policy"
  by (simp add: policy_ok_def default_failed_retry_policy_def)

section \<open>What a conversion yields\<close>

lemma into_attestor_set_ok: "into_attestor_set K origin f = Inr s \<Longrightarrow> attestor_set_ok s"
  by (auto simp: into_attestor_set_def attestor_set_ok_def and_then_Inr split: attestor_set_file.splits if_splits)

lemma into_ack_ok: "into_ack K origin f = Inr a \<Longrightarrow> 0 < as_not_ready_poll_secs a"
  by (auto simp: into_ack_def and_then_Inr validate_ack_not_ready_poll_secs_def word_gt_0 split: if_splits)

lemma traverse_ack_ok: "traverse_option (into_ack K origin) x = Inr y \<Longrightarrow> pred_option (\<lambda>a. 0 < as_not_ready_poll_secs a) y"
  by (cases x; cases y) (auto simp: traverse_option_Inr dest: into_ack_ok)

lemma into_route_cases:
  assumes "into_route K p f = Inr r"
  obtains inbox outbox contract attestors ack claim wei where
    "r = route_of f p inbox outbox contract attestors ack claim wei" "converts (validate_route r)"
    "into_attestor_set K (OfRoute (rf_chain_key f)) (rf_attestor_set f) = Inr attestors"
    "traverse_option (into_ack K (OfRoute (rf_chain_key f))) (rf_ack f) = Inr ack"
  using assms by (auto simp: into_route_def Let_def and_then_Inr converts_ex)

lemma into_route_ok: "into_route K p f = Inr r \<Longrightarrow> route_config_ok r"
  by (elim into_route_cases)
     (auto simp: route_config_ok_def route_of_def dest: into_attestor_set_ok traverse_ack_ok)

lemma into_route_key: "into_route K p f = Inr r \<Longrightarrow> rg_chain_key r = rf_chain_key f"
  by (elim into_route_cases) (simp add: route_of_def)

lemma into_routes_Inr:
  "into_routes K p seen fs = Inr rs \<longleftrightarrow>
     distinct (map rf_chain_key fs) \<and> set (map rf_chain_key fs) \<inter> seen = {} \<and> list_all2 (\<lambda>f r. into_route K p f = Inr r) fs rs"
  by (induction fs arbitrary: seen rs) (auto simp: and_then_Inr list_all2_Cons1)

lemma converted_keys:
  "list_all2 (\<lambda>f r. into_route K p f = Inr r) fs rs \<Longrightarrow> map rg_chain_key rs = map rf_chain_key fs"
  by (induction rule: list_all2_induct) (simp_all add: into_route_key)

lemma converted_ok:
  "list_all2 (\<lambda>f r. into_route K p f = Inr r) fs rs \<Longrightarrow> \<forall>r \<in> set rs. route_config_ok r"
  by (induction rule: list_all2_induct) (simp_all add: into_route_ok)

lemma into_config_cases:
  assumes "into_config K a b ck f = Inr c"
  obtains rs where "c = config_of f a b ck rs" "gf_routes f \<noteq> []" "policy_ok (file_failed_retry (gf_delivery f))"
    "distinct (map rf_chain_key (gf_routes f))"
    "list_all2 (\<lambda>f' r. into_route K (file_failed_retry (gf_delivery f)) f' = Inr r) (gf_routes f) rs"
  using assms by (auto simp: into_config_def Let_def and_then_Inr into_routes_Inr validate_policy_Inr split: if_splits)

lemma into_config_ok:
  assumes "into_config K a b ck f = Inr c"
  shows "config_ok c"
proof -
  from assms obtain rs where rs: "c = config_of f a b ck rs" "gf_routes f \<noteq> []"
      "policy_ok (file_failed_retry (gf_delivery f))" "distinct (map rf_chain_key (gf_routes f))"
      "list_all2 (\<lambda>f' r. into_route K (file_failed_retry (gf_delivery f)) f' = Inr r) (gf_routes f) rs"
    by (rule into_config_cases)
  from rs(2,5) have "rs \<noteq> []" by auto
  with rs converted_keys [OF rs(5)] converted_ok [OF rs(5)] show ?thesis by (simp add: config_ok_def config_of_def)
qed

section \<open>The command line\<close>

lemma cli_ack_ok: "cli_ack K c = Inr a \<Longrightarrow> pred_option (\<lambda>a. 0 < as_not_ready_poll_secs a) a"
  by (auto simp: cli_ack_def and_then_Inr validate_ack_not_ready_poll_secs_def word_gt_0
           split: prod.splits option.splits if_splits)

lemma attestor_csv_ok: "attestor_csv K csv = Inr as \<Longrightarrow> as \<noteq> []"
  by (auto simp: attestor_csv_def and_then_Inr split: if_splits)

lemma single_route_config_cases:
  assumes "single_route_config K old_env c = Inr cfg"
  obtains r attestors where "cg_routes cfg = [r]" "cg_delivery cfg = default_delivery_section" "converts (validate_route r)"
    "rg_attestor_set r = StaticSet attestors" "attestors \<noteq> []" "pred_option (\<lambda>a. 0 < as_not_ready_poll_secs a) (rg_ack r)"
proof -
  from assms obtain chain_key chain_id url inbox outbox contract csv attestors ack claim wei p2p where r:
      "\<exists>u. validate_route (cli_route c chain_key chain_id url inbox outbox contract attestors ack claim wei) = Inr u"
      "single_route (cl_bind_host c) (cl_bind_port c) (cl_cc3_rpc_url c) (cl_creditcoin_eth_rpc_url c)
         (cli_route c chain_key chain_id url inbox outbox contract attestors ack claim wei) p2p
         (checkpoint_path_opt (cl_checkpoint_path c)) = cfg"
      "cli_ack K c = Inr ack" "attestor_csv K csv = Inr attestors"
    unfolding single_route_config_def and_then_Inr Let_def sum.inject by blast
  let ?r = "cli_route c chain_key chain_id url inbox outbox contract attestors ack claim wei"
  from r(1) have "converts (validate_route ?r)" unfolding converts_ex .
  moreover from r(2) have "cg_routes cfg = [?r]" "cg_delivery cfg = default_delivery_section"
    by (auto simp: single_route_def)
  moreover have "rg_attestor_set ?r = StaticSet attestors" "rg_ack ?r = ack" by (simp_all add: cli_route_def)
  ultimately show thesis using attestor_csv_ok [OF r(4)] cli_ack_ok [OF r(3)] by (intro that [of ?r attestors]) simp_all
qed

lemma single_route_config_ok: "single_route_config K old_env c = Inr cfg \<Longrightarrow> config_ok cfg"
  by (elim single_route_config_cases)
     (simp add: config_ok_def route_config_ok_def attestor_set_ok_def default_delivery_section_def default_policy_ok)

lemma from_yaml_file_ok: "from_yaml_file K files path a b ck = Inr c \<Longrightarrow> config_ok c"
  by (auto simp: from_yaml_file_def into_config_ok split: option.splits)

lemma build_config_ok: "build_config K files old_env c = Inr cfg \<Longrightarrow> config_ok cfg"
  by (auto simp: build_config_def from_yaml_file_ok single_route_config_ok split: if_splits option.splits)

section \<open>The documents that load\<close>

text \<open>A text the codec reads as an amount, with the two spellings and the underscores of \<open>parse_wei\<close>.\<close>

definition address_reads :: "config_codec \<Rightarrow> string \<Rightarrow> bool" where
  "address_reads K raw \<longleftrightarrow> kc_address K (trim raw) \<noteq> None"

definition wei_reads :: "config_codec \<Rightarrow> wei_file \<Rightarrow> bool" where
  "wei_reads K w \<longleftrightarrow> (case w of WeiInt _ \<Rightarrow> True | WeiStr s \<Rightarrow> converts (parse_wei K s))"

definition attestors_read :: "config_codec \<Rightarrow> attestor_set_file \<Rightarrow> bool" where
  "attestors_read K s \<longleftrightarrow>
     (case s of
        StaticFile addrs \<Rightarrow> addrs \<noteq> [] \<and> list_all (address_reads K) addrs
      | EvmContractFile a \<Rightarrow> address_reads K a
      | Cc3ActiveSetFile _ \<Rightarrow> True)"

definition route_loads :: "config_codec \<Rightarrow> failed_retry_policy \<Rightarrow> chain_route_file \<Rightarrow> bool" where
  "route_loads K p f \<longleftrightarrow>
     address_reads K (rf_inbox_address f) \<and> pred_option (address_reads K) (rf_outbox_address f) \<and>
     pred_option (address_reads K) (rf_relayer_contract_address f) \<and> attestors_read K (rf_attestor_set f) \<and>
     pred_option (\<lambda>a. address_reads K (af_validator_address a) \<and> 0 < af_not_ready_poll_secs a) (rf_ack f) \<and>
     pred_option (\<lambda>c. address_reads K (kf_source_bridge_address c) \<and> address_reads K (kf_target_address c)) (rf_claim f) \<and>
     pred_option (wei_reads K) (rf_max_native_coin_value_wei f) \<and>
     0 < rf_max_gas_limit f \<and> policy_ok (route_policy p f) \<and>
     (if rf_auto_request_top_up f then rf_relayer_contract_address f \<noteq> None \<and> (rf_ack f \<noteq> None \<or> rf_claim f \<noteq> None) else True)"

lemma converts_parse_address [simp]: "converts (parse_address K field origin raw) \<longleftrightarrow> address_reads K raw"
  by (simp add: parse_address_def address_reads_def split: option.split)

lemma parse_address_eta: "(\<lambda>raw. converts (parse_address K field origin raw)) = address_reads K"
  by (rule ext) simp

lemma converts_into_ack [simp]:
  "converts (into_ack K origin a) \<longleftrightarrow> address_reads K (af_validator_address a) \<and> 0 < af_not_ready_poll_secs a"
  by (simp add: into_ack_def)

lemma converts_into_claim [simp]:
  "converts (into_claim K origin c) \<longleftrightarrow> address_reads K (kf_source_bridge_address c) \<and> address_reads K (kf_target_address c)"
  by (simp add: into_claim_def)

lemma converts_into_wei [simp]: "converts (into_wei K origin w) \<longleftrightarrow> wei_reads K w"
  by (auto simp: into_wei_def wei_file_parse_def wei_reads_def converts_def split: wei_file.splits sum.splits)

lemma traverse_list_length: "traverse_list f xs = Inr ys \<Longrightarrow> length ys = length xs"
  by (simp add: traverse_list_Inr list_all2_lengthD)

lemma converts_into_attestor_set [simp]: "converts (into_attestor_set K origin s) \<longleftrightarrow> attestors_read K s"
proof (cases s)
  case (StaticFile addrs)
  let ?t = "traverse_list (parse_address K ''attestor address'' origin) addrs"
  have "converts ?t \<Longrightarrow> length (projr ?t) = length addrs"
    using traverse_list_length by (cases ?t) auto
  then have "list_all (address_reads K) addrs \<Longrightarrow> projr ?t = [] \<longleftrightarrow> addrs = []"
    by (auto simp: parse_address_eta simp flip: length_0_conv)
  then show ?thesis by (auto simp: StaticFile into_attestor_set_def attestors_read_def parse_address_eta)
qed (simp_all add: into_attestor_set_def attestors_read_def)

lemma traverse_option_None:
  "pred_option (\<lambda>a. converts (f a)) x \<Longrightarrow> projr (traverse_option f x) = None \<longleftrightarrow> x = None"
  by (cases x) (auto simp: traverse_option_def and_then_def split: sum.splits)

lemma converts_into_route: "converts (into_route K p f) \<longleftrightarrow> route_loads K p f"
  by (simp add: into_route_def Let_def route_loads_def route_of_def top_up_ok_def parse_address_eta traverse_option_None
           del: not_None_eq cong: conj_cong)

lemma converts_list: "(\<exists>ys. list_all2 (\<lambda>a b. g a = Inr b) xs ys) \<longleftrightarrow> (\<forall>x \<in> set xs. converts (g x))"
  by (induction xs) (auto simp: list_all2_Cons1 converts_ex)

lemma into_config_iff:
  "converts (into_config K a b ck f) \<longleftrightarrow>
     gf_routes f \<noteq> [] \<and> policy_ok (file_failed_retry (gf_delivery f)) \<and> distinct (map rf_chain_key (gf_routes f)) \<and>
     (\<forall>r \<in> set (gf_routes f). route_loads K (file_failed_retry (gf_delivery f)) r)"
proof -
  have "converts (into_config K a b ck f) \<longleftrightarrow> gf_routes f \<noteq> [] \<and> policy_ok (file_failed_retry (gf_delivery f)) \<and>
      (\<exists>rs. into_routes K (file_failed_retry (gf_delivery f)) {} (gf_routes f) = Inr rs)"
    by (auto simp: into_config_def Let_def converts_ex and_then_Inr validate_policy_Inr)
  then show ?thesis by (simp add: into_routes_Inr converts_list converts_into_route)
qed

section \<open>Absent sections\<close>

text \<open>
  For the vote cache and the delivery section an absent section means the same as an empty one. For
  the peer-to-peer section it does not: the port of an absent section is zero, the one of an empty
  section the default.
\<close>

lemma absent_vote_cache: "vote_cache_file None = vote_cache_file (Some \<lparr>vd_ttl_seconds = None, vd_max_messages = None\<rparr>)"
  by (simp add: vote_cache_file_def unwrap_or_def)

lemma absent_delivery:
  "delivery_file None =
     delivery_file (Some \<lparr>dd_simulate_before_send = None, dd_max_retries = None, dd_gas_multiplier = None,
       dd_failed_retry_max_attempts = None, dd_failed_retry_initial_backoff_secs = None, dd_failed_retry_max_backoff_secs = None\<rparr>)"
  by (simp add: delivery_file_def default_delivery_config_file_def unwrap_or_def)

lemma absent_p2p:
  "pf_port (p2p_file None) = 0"
  "pf_port (p2p_file (Some \<lparr>pd_port = None, pd_public_addr = None, pd_boot_nodes = None, pd_no_mdns = None, pd_identity = None\<rparr>)) = 9100"
  by (simp_all add: p2p_file_def unwrap_or_def DEFAULT_P2P_PORT_def)

end
