(* ===== verification/Balance.thy ===== *)
theory Balance
  imports Config Health
begin

text \<open>
  The signer balance watcher (\<^verbatim>\<open>message-relayer/src/balance.rs\<close>): the watch list derived from the routes, and
  one sweep over it with its provider slots. Parsing a private key and the rendering of a wei amount
  as a floating-point number of ether are parameters; the answers of the nodes are inputs of a sweep.
\<close>

definition POLL_INTERVAL :: duration where "POLL_INTERVAL = secs 60"

record balance_target =
  bt_chain_key :: u64
  bt_role :: string
  bt_rpc_url :: string
  bt_address :: address

definition push_target :: "(string \<Rightarrow> address option) \<Rightarrow> u64 \<Rightarrow> string \<Rightarrow> string \<Rightarrow> string \<Rightarrow> balance_target list" where
  "push_target signer chain_key role url key =
     (case signer (trim key) of
        Some a \<Rightarrow> [\<lparr>bt_chain_key = chain_key, bt_role = role, bt_rpc_url = url, bt_address = a\<rparr>]
      | None \<Rightarrow> [])"

definition route_targets :: "(string \<Rightarrow> address option) \<Rightarrow> string \<Rightarrow> route_config \<Rightarrow> balance_target list" where
  "route_targets signer creditcoin_eth_rpc_url r =
     (case rg_signer_key r of
        Some key \<Rightarrow> push_target signer (rg_chain_key r) ''delivery'' (rg_destination_rpc_url r) key | None \<Rightarrow> [])
     @ (case rg_ack r of
          Some a \<Rightarrow> push_target signer (rg_chain_key r) ''ack'' creditcoin_eth_rpc_url (as_signer_key a) | None \<Rightarrow> [])
     @ (case rg_claim r of
          Some c \<Rightarrow> push_target signer (rg_chain_key r) ''claim'' creditcoin_eth_rpc_url (cs_signer_key c) | None \<Rightarrow> [])"

definition targets_from_routes :: "(string \<Rightarrow> address option) \<Rightarrow> route_config list \<Rightarrow> string \<Rightarrow> balance_target list" where
  "targets_from_routes signer routes creditcoin_eth_rpc_url = concat (map (route_targets signer creditcoin_eth_rpc_url) routes)"

section \<open>A sweep\<close>

text \<open>What the node of a target answers in one sweep: whether a dial succeeds, and the balance if the read does.\<close>

record target_answer =
  ta_dials :: bool
  ta_balance :: "u256 option"

type_synonym balance_sample = "u64 \<times> string \<times> address \<times> f64"

text \<open>One target: dial when its slot is empty, read, publish; a failed read empties the slot.\<close>

definition sweep_target ::
  "(u256 \<Rightarrow> f64) \<Rightarrow> balance_target \<Rightarrow> bool \<Rightarrow> target_answer \<Rightarrow> bool \<times> balance_sample list" where
  "sweep_target to_ether target connected answer =
     (if \<not> connected \<and> \<not> ta_dials answer then (False, [])
      else case ta_balance answer of
             Some wei \<Rightarrow> (True, [(bt_chain_key target, bt_role target, bt_address target, to_ether wei)])
           | None \<Rightarrow> (False, []))"

definition sweep ::
  "(u256 \<Rightarrow> f64) \<Rightarrow> u64 \<Rightarrow> balance_target list \<Rightarrow> target_answer list \<Rightarrow> bool list \<times> health
    \<Rightarrow> (bool list \<times> health) \<times> balance_sample list" where
  "sweep to_ether now targets answers s =
     (let results = map (\<lambda>(t, slot, a). sweep_target to_ether t slot a) (zip targets (zip (fst s) answers))
      in ((map fst results, heartbeat now ''balance'' (snd s)), concat (map snd results)))"

text \<open>\<^verbatim>\<open>run\<close>: a watcher without targets parks and is never registered; else one sweep per interval.\<close>

definition balance_start :: "u64 \<Rightarrow> balance_target list \<Rightarrow> health \<Rightarrow> (bool list \<times> health) option" where
  "balance_start now targets h =
     (if targets = [] then None else Some (map (\<lambda>_. False) targets, heartbeat now ''balance'' h))"

section \<open>The watch list and the samples\<close>

lemma push_target_iff:
  "t \<in> set (push_target signer ck role url key) \<longleftrightarrow>
     bt_chain_key t = ck \<and> bt_role t = role \<and> bt_rpc_url t = url \<and> signer (trim key) = Some (bt_address t)"
  by (auto simp: push_target_def split: option.splits)

text \<open>A key of a route, with its role and the chain it spends on.\<close>

definition watched :: "string \<Rightarrow> route_config \<Rightarrow> string \<Rightarrow> string \<Rightarrow> string \<Rightarrow> bool" where
  "watched creditcoin_eth_rpc_url r role url key \<longleftrightarrow>
     rg_signer_key r = Some key \<and> role = ''delivery'' \<and> url = rg_destination_rpc_url r \<or>
     map_option as_signer_key (rg_ack r) = Some key \<and> role = ''ack'' \<and> url = creditcoin_eth_rpc_url \<or>
     map_option cs_signer_key (rg_claim r) = Some key \<and> role = ''claim'' \<and> url = creditcoin_eth_rpc_url"

lemma route_targets_iff:
  "t \<in> set (route_targets signer url r) \<longleftrightarrow>
     bt_chain_key t = rg_chain_key r \<and> (\<exists>key. watched url r (bt_role t) (bt_rpc_url t) key \<and> signer (trim key) = Some (bt_address t))"
  by (cases "rg_signer_key r"; cases "rg_ack r"; cases "rg_claim r")
     (auto simp: route_targets_def push_target_iff watched_def)

lemma targets_iff:
  "t \<in> set (targets_from_routes signer routes url) \<longleftrightarrow>
     (\<exists>r \<in> set routes. bt_chain_key t = rg_chain_key r \<and>
        (\<exists>key. watched url r (bt_role t) (bt_rpc_url t) key \<and> signer (trim key) = Some (bt_address t)))"
  by (simp add: targets_from_routes_def route_targets_iff)

text \<open>A role of a route is watched at most once.\<close>

lemma route_targets_distinct: "distinct (map (\<lambda>t. (bt_chain_key t, bt_role t)) (route_targets signer url r))"
  by (simp add: route_targets_def push_target_def split: option.split)

lemma targets_distinct:
  "distinct (map rg_chain_key routes) \<Longrightarrow>
     distinct (map (\<lambda>t. (bt_chain_key t, bt_role t)) (targets_from_routes signer routes url))"
proof (induction routes)
  case Nil
  then show ?case by (simp add: targets_from_routes_def)
next
  case (Cons r rs)
  have "bt_chain_key t = rg_chain_key r" if "t \<in> set (route_targets signer url r)" for t
    using that by (simp add: route_targets_iff)
  moreover have "bt_chain_key t \<in> rg_chain_key ` set rs" if "t \<in> set (targets_from_routes signer rs url)" for t
    using that by (auto simp: targets_iff)
  moreover note route_targets_distinct [of signer url r] Cons
  ultimately show ?case by (fastforce simp: targets_from_routes_def)
qed

text \<open>After a sweep a slot is connected exactly when the balance of its target was published.\<close>

lemma sweep_target_connected: "fst (sweep_target to_ether t slot a) \<longleftrightarrow> snd (sweep_target to_ether t slot a) \<noteq> []"
  by (simp add: sweep_target_def split: option.split)

lemma sweep_target_publishes:
  "snd (sweep_target to_ether t slot a) \<noteq> [] \<longleftrightarrow> (slot \<or> ta_dials a) \<and> ta_balance a \<noteq> None"
  by (simp add: sweep_target_def split: option.split)

lemma sweep_slots:
  "length (fst s) = length targets \<Longrightarrow> length answers = length targets \<Longrightarrow>
     length (fst (fst (sweep to_ether now targets answers s))) = length targets"
  by (simp add: sweep_def Let_def)

end
