(* ===== verification/Supervisor.thy ===== *)
theory Supervisor
  imports Prelude "HOL-Library.Multiset"
begin

text \<open>
  The supervisor of both binaries (\<^verbatim>\<open>Server::run\<close> of \<^verbatim>\<open>message-relayer/src/lib.rs\<close> and of
  \<^verbatim>\<open>observer-node/src/lib.rs\<close>, which are the same code over different workers): a join set, one cancellation
  token, and the rule that the exit of any worker ends the process. Shown: no worker is lost, every run is
  finite, and it cannot get stuck before it returns.
\<close>

record 'w server =
  sv_running :: "'w list"
  sv_cancelled :: bool
  sv_exited :: "'w list"
  sv_returned :: bool

definition supervise :: "'w list \<Rightarrow> 'w server" where
  "supervise workers = \<lparr>sv_running = workers, sv_cancelled = False, sv_exited = [], sv_returned = False\<rparr>"

text \<open>
  The first select waits for a shutdown signal or for any worker to exit; both cancel. Then the join
  set is drained, and only an empty one lets \<^verbatim>\<open>run\<close> return.
\<close>

datatype 'w server_event = ShutdownSignal | WorkerExits 'w | Returns

inductive server_step :: "'w server \<Rightarrow> 'w server_event \<Rightarrow> 'w server \<Rightarrow> bool" where
  signal: "\<not> sv_cancelled s \<Longrightarrow> server_step s ShutdownSignal (s\<lparr>sv_cancelled := True\<rparr>)"
| exits: "w \<in> set (sv_running s) \<Longrightarrow>
    server_step s (WorkerExits w)
      (s\<lparr>sv_running := remove1 w (sv_running s), sv_exited := sv_exited s @ [w], sv_cancelled := True\<rparr>)"
| returns: "sv_cancelled s \<Longrightarrow> sv_running s = [] \<Longrightarrow> \<not> sv_returned s \<Longrightarrow> server_step s Returns (s\<lparr>sv_returned := True\<rparr>)"

inductive_cases server_stepE: "server_step s e s'"

text \<open>
  No worker is lost: those running and those that exited are the ones spawned; an exit cancels the
  rest; and \<^verbatim>\<open>run\<close> has not returned while one of them runs.
\<close>

definition server_inv :: "'w list \<Rightarrow> 'w server \<Rightarrow> bool" where
  "server_inv workers s \<longleftrightarrow> mset (sv_running s) + mset (sv_exited s) = mset workers \<and>
     (if sv_exited s \<noteq> [] then sv_cancelled s else True) \<and> (if sv_returned s then sv_running s = [] \<and> sv_cancelled s else True)"

interpretation supervisor: invariant_system "\<lambda>s. s = supervise workers" server_step "server_inv workers" for workers
proof unfold_locales
  fix s :: "'a server"
  assume "s = supervise workers"
  then show "server_inv workers s" by (auto simp: supervise_def server_inv_def)
next
  fix s e and s' :: "'a server"
  assume "server_inv workers s" "server_step s e s'"
  moreover have "w \<in># mset workers" if "mset (sv_running s) + mset (sv_exited s) = mset workers" "w \<in> set (sv_running s)" for w
    using that by (metis UnI1 set_mset_mset set_mset_union)
  ultimately show "server_inv workers s'"
    by (fastforce simp: server_inv_def elim!: server_stepE split: if_splits)
qed

section \<open>The process winds down\<close>

text \<open>Each step uses up one of finitely many.\<close>

definition server_measure :: "'w server \<Rightarrow> nat" where
  "server_measure s = length (sv_running s) + (if sv_cancelled s then 0 else 1) + (if sv_returned s then 0 else 1)"

lemma server_step_decreases: "server_step s e s' \<Longrightarrow> server_measure s' < server_measure s"
  using length_pos_if_in_set by (fastforce simp: server_measure_def length_remove1 elim!: server_stepE)

lemma server_step_cancels: "server_step s e s' \<Longrightarrow> sv_cancelled s'"
  by (auto elim: server_stepE)

lemma server_progress: "sv_returned s \<or> (\<exists>e s'. server_step s e s')"
proof (cases "sv_running s")
  case Nil
  then show ?thesis by (cases "sv_cancelled s") (blast intro: server_step.intros)+
next
  case (Cons w ws)
  then have "w \<in> set (sv_running s)" by simp
  then show ?thesis by (blast intro: server_step.exits)
qed

text \<open>A run as a sequence of steps.\<close>

inductive server_run :: "'w server \<Rightarrow> 'w server_event list \<Rightarrow> 'w server \<Rightarrow> bool" where
  run_nil: "server_run s [] s"
| run_snoc: "server_run s es t \<Longrightarrow> server_step t e u \<Longrightarrow> server_run s (es @ [e]) u"

inductive_cases server_runE: "server_run s es t"

lemma server_run_measure: "server_run s es t \<Longrightarrow> length es + server_measure t \<le> server_measure s"
  by (induction rule: server_run.induct) (auto dest: server_step_decreases)

lemma server_run_reach: "server_run (supervise workers) es t \<Longrightarrow> reach (\<lambda>s. s = supervise workers) server_step t"
  by (induction "supervise workers" es t rule: server_run.induct) (auto intro: reach_start reach_step)

lemma server_run_cancelled: "server_run s es t \<Longrightarrow> es \<noteq> [] \<Longrightarrow> sv_cancelled t"
  by (induction rule: server_run.induct) (auto dest: server_step_cancels)

lemma supervised_run:
  assumes "server_run (supervise workers) es s"
  shows "length es \<le> length workers + 2" "es \<noteq> [] \<Longrightarrow> sv_cancelled s"
    "sv_returned s \<Longrightarrow> mset (sv_exited s) = mset workers" "\<not> sv_returned s \<Longrightarrow> \<exists>e t. server_step s e t"
proof -
  show "length es \<le> length workers + 2"
    using server_run_measure [OF assms] by (simp add: server_measure_def supervise_def split: if_splits)
  show "es \<noteq> [] \<Longrightarrow> sv_cancelled s" by (rule server_run_cancelled [OF assms])
  have "server_inv workers s" by (rule supervisor.reach_inv [OF server_run_reach [OF assms]])
  then show "sv_returned s \<Longrightarrow> mset (sv_exited s) = mset workers" by (auto simp: server_inv_def)
  show "\<not> sv_returned s \<Longrightarrow> \<exists>e t. server_step s e t" using server_progress by blast
qed

end
