(* ===== verification/Wiring.thy ===== *)
theory Wiring
  imports Config_Correct Balance Pool_Run Supervisor
begin

text \<open>
  The process (\<^verbatim>\<open>message-relayer/src/lib.rs\<close>): the attestor sets the pool starts with, the channels, which workers
  \<^verbatim>\<open>Server::run\<close> spawns for a configuration, and the supervisor that cancels and drains them. What a
  worker does is the subject of its own theory; here it is a name that runs until it exits.
\<close>

definition INDEXED_CHANNEL_CAP :: nat where "INDEXED_CHANNEL_CAP = 1024"
definition VOTE_CHANNEL_CAP :: nat where "VOTE_CHANNEL_CAP = 8192"
definition DELIVERY_CHANNEL_CAP :: nat where "DELIVERY_CHANNEL_CAP = 64"
definition SET_UPDATE_CHANNEL_CAP :: nat where "SET_UPDATE_CHANNEL_CAP = 16"
definition REOBS_CHANNEL_CAP :: nat where "REOBS_CHANNEL_CAP = 256"
definition QUERY_CHANNEL_CAP :: nat where "QUERY_CHANNEL_CAP = 64"

definition usize_MAX :: nat where "usize_MAX = 2 ^ 64 - 1"

definition resolve_attestors :: "route_config \<Rightarrow> route_attestors" where
  "resolve_attestors r =
     (case rg_attestor_set r of
        StaticSet addrs \<Rightarrow>
          \<lparr>ra_chain_key = rg_chain_key r, ra_attestors = addrs,
           ra_threshold = (case rg_threshold_override r of Some t \<Rightarrow> unat t | None \<Rightarrow> calculate_threshold (length addrs))\<rparr>
      | OnChainSet _ \<Rightarrow> \<lparr>ra_chain_key = rg_chain_key r, ra_attestors = [], ra_threshold = usize_MAX\<rparr>)"

text \<open>\<^verbatim>\<open>split_once('?')\<close>; the ellipsis is one character of three bytes.\<close>

definition redact_url_query :: "string \<Rightarrow> string" where
  "redact_url_query url =
     (if CHR ''?'' \<in> set url then takeWhile (\<lambda>c. c \<noteq> CHR ''?'') url @ [CHR ''?'', CHR 0xE2, CHR 0x80, CHR 0xA6] else url)"

section \<open>Workers\<close>

datatype worker =
    DeliveryWorker u64
  | VotePool
  | OutboxWatcher u64
  | AckSubmitter u64
  | ClaimSubmitter u64
  | AttestorSetWatcher u64
  | SetUpdateAggregator
  | ObserverClient
  | Libp2pWorker
  | HardwareMetrics
  | BalanceWatcher
  | HttpServer

definition on_chain :: "route_config \<Rightarrow> bool" where
  "on_chain r \<longleftrightarrow> (case rg_attestor_set r of OnChainSet _ \<Rightarrow> True | StaticSet _ \<Rightarrow> False)"

definition core_workers :: "config \<Rightarrow> worker list" where
  "core_workers c =
     map (DeliveryWorker \<circ> rg_chain_key) (cg_routes c)
     @ [VotePool]
     @ map (OutboxWatcher \<circ> rg_chain_key) (cg_routes c)"

definition opt_in_workers :: "config \<Rightarrow> worker list" where
  "opt_in_workers c =
     map (AckSubmitter \<circ> rg_chain_key) (filter (\<lambda>r. rg_ack r \<noteq> None) (cg_routes c))
     @ map (ClaimSubmitter \<circ> rg_chain_key) (filter (\<lambda>r. rg_claim r \<noteq> None) (cg_routes c))
     @ map (AttestorSetWatcher \<circ> rg_chain_key) (filter on_chain (cg_routes c))"

definition shared_workers :: "config \<Rightarrow> worker list" where
  "shared_workers c =
     [SetUpdateAggregator, if cg_observer c \<noteq> None then ObserverClient else Libp2pWorker,
      HardwareMetrics, BalanceWatcher, HttpServer]"

definition spawned :: "config \<Rightarrow> worker list" where
  "spawned c = core_workers c @ opt_in_workers c @ shared_workers c"

text \<open>Routes with a relayer contract and no \<open>ack\<close> section never claim; the server says so.\<close>

definition unclaimed_warnings :: "config \<Rightarrow> u64 list" where
  "unclaimed_warnings c =
     map rg_chain_key (filter (\<lambda>r. rg_relayer_contract_address r \<noteq> None \<and> rg_ack r = None) (cg_routes c))"

text \<open>The map of delivery senders, by chain key, each to its worker's channel.\<close>

definition delivery_senders :: "(u64 \<Rightarrow> delivery_job \<Rightarrow> try_send) \<Rightarrow> config \<Rightarrow> delivery_txs" where
  "delivery_senders channel c =
     fold (\<lambda>r. hm_insert (rg_chain_key r) (channel (rg_chain_key r))) (cg_routes c) []"

definition server_pool :: "config \<Rightarrow> work_store option \<Rightarrow> pool_loop" where
  "server_pool c work = pool_start (map resolve_attestors (cg_routes c)) (cg_vote_cache c) work"

section \<open>Start and supervision\<close>

datatype server_error = CheckpointUnreadable | InvalidBindHost string | BindFailed

text \<open>
  Before anything is spawned the checkpoint file is loaded; the bind host is parsed and the listener
  bound after the workers were spawned, and an error there drops the join set, which aborts them.
\<close>

record server_env =
  se_checkpoint_loads :: bool
  se_host_parses :: bool
  se_binds :: bool

definition server_start :: "server_env \<Rightarrow> config \<Rightarrow> server_error + worker server" where
  "server_start env c =
     (if cg_checkpoint_path c \<noteq> None \<and> \<not> se_checkpoint_loads env then Inl CheckpointUnreadable
      else if \<not> se_host_parses env then Inl (InvalidBindHost (cg_bind_host c))
      else if \<not> se_binds env then Inl BindFailed
      else Inr (supervise (spawned c)))"

section \<open>What the wiring establishes\<close>

lemma redact_hides: "redact_url_query (base @ CHR ''?'' # q) = redact_url_query (base @ CHR ''?'' # q')"
  by (induction base) (auto simp: redact_url_query_def)

lemma resolve_key [simp]: "ra_chain_key (resolve_attestors r) = rg_chain_key r"
  by (simp add: resolve_attestors_def split: attestor_set.split)

lemma fold_hm_insert_keys:
  "distinct (map key xs) \<Longrightarrow> hm_get (fold (\<lambda>x. hm_insert (key x) (val x)) xs m) k =
     (case find (\<lambda>x. key x = k) xs of Some x \<Rightarrow> Some (val x) | None \<Rightarrow> hm_get m k)"
proof (induction xs arbitrary: m)
  case Nil
  then show ?case by simp
next
  case (Cons x xs)
  have "find (\<lambda>y. key y = k) xs = None" if "key x = k"
    using Cons.prems that by (force simp: find_None_iff image_iff)
  with Cons show ?case by (auto simp: update_conv' split: option.splits)
qed

lemma find_key: "distinct (map key xs) \<Longrightarrow> x \<in> set xs \<Longrightarrow> find (\<lambda>y. key y = key x) xs = Some x"
  by (induction xs) (auto simp: image_iff)

lemma sender_of_route:
  assumes "distinct (map rg_chain_key (cg_routes c))"
  shows "hm_get (delivery_senders channel c) ck = (if ck \<in> chain_keys c then Some (channel ck) else None)"
proof (cases "ck \<in> chain_keys c")
  case True
  then obtain r where r: "r \<in> set (cg_routes c)" "rg_chain_key r = ck" by (auto simp: chain_keys_def)
  from find_key [OF assms r(1)] r(2) True show ?thesis
    by (simp add: delivery_senders_def fold_hm_insert_keys [OF assms])
next
  case False
  then have "find (\<lambda>r. rg_chain_key r = ck) (cg_routes c) = None" by (auto simp: find_None_iff chain_keys_def)
  with False show ?thesis by (simp add: delivery_senders_def fold_hm_insert_keys [OF assms])
qed

lemma pool_route_of:
  assumes "distinct (map rg_chain_key (cg_routes c))" "r \<in> set (cg_routes c)"
  shows "hm_get (st_by_route (lp_state (server_pool c work))) (rg_chain_key r) =
    Some \<lparr>rt_attestors = ra_attestors (resolve_attestors r), rt_threshold = ra_threshold (resolve_attestors r),
          rt_by_message = [], rt_order = [], rt_cache_max = vc_max_messages (cg_vote_cache c), rt_early_votes = []\<rparr>"
proof -
  have d: "distinct (map ra_chain_key (map resolve_attestors (cg_routes c)))" using assms(1) by (simp add: comp_def)
  from assms(2) have "resolve_attestors r \<in> set (map resolve_attestors (cg_routes c))" by simp
  from find_key [OF d this] show ?thesis
    by (simp add: server_pool_def pool_start_def pool_new_def fold_hm_insert_keys [OF d])
qed

lemma pool_route_unknown:
  assumes "distinct (map rg_chain_key (cg_routes c))" "ck \<notin> chain_keys c"
  shows "hm_get (st_by_route (lp_state (server_pool c work))) ck = None"
proof -
  have d: "distinct (map ra_chain_key (map resolve_attestors (cg_routes c)))" using assms(1) by (simp add: comp_def)
  have "find (\<lambda>x. ra_chain_key x = ck) (map resolve_attestors (cg_routes c)) = None"
    using assms(2) by (auto simp: find_None_iff chain_keys_def)
  then show ?thesis by (simp add: server_pool_def pool_start_def pool_new_def fold_hm_insert_keys [OF d])
qed

lemma static_threshold:
  assumes "attestor_set_ok (rg_attestor_set r)" "rg_threshold_override r = None" "rg_attestor_set r = StaticSet addrs"
  shows "2 * length addrs < 3 * ra_threshold (resolve_attestors r) \<and> ra_threshold (resolve_attestors r) \<le> length addrs"
  using assms by (cases addrs) (auto simp: attestor_set_ok_def resolve_attestors_def calculate_threshold_def)

text \<open>A static set is not checked for repeated addresses: three times the same one asks for three distinct signers.\<close>

lemma repeated_attestors_unreachable:
  "rg_attestor_set r = StaticSet [a, a, a] \<Longrightarrow> rg_threshold_override r = None \<Longrightarrow>
     card (set (ra_attestors (resolve_attestors r))) < ra_threshold (resolve_attestors r)"
  by (simp add: resolve_attestors_def calculate_threshold_def)

lemma count_key:
  "distinct (map key xs) \<Longrightarrow> inj f \<Longrightarrow> x \<in> set xs \<Longrightarrow>
     count_list (map (f \<circ> key) (filter P xs)) (f (key x)) = (if P x then 1 else 0)"
  by (induction xs) (auto simp: inj_eq count_list_0_iff image_iff)

text \<open>Every route has its workers, once each.\<close>

lemma spawned_counts:
  assumes "distinct (map rg_chain_key (cg_routes c))" "r \<in> set (cg_routes c)"
  shows "count_list (spawned c) (DeliveryWorker (rg_chain_key r)) = 1"
    "count_list (spawned c) (OutboxWatcher (rg_chain_key r)) = 1"
    "count_list (spawned c) (AckSubmitter (rg_chain_key r)) = (if rg_ack r \<noteq> None then 1 else 0)"
    "count_list (spawned c) (ClaimSubmitter (rg_chain_key r)) = (if rg_claim r \<noteq> None then 1 else 0)"
    "count_list (spawned c) (AttestorSetWatcher (rg_chain_key r)) = (if on_chain r then 1 else 0)"
proof -
  note k = count_key [where key = rg_chain_key, OF assms(1) _ assms(2)]
  have nil: "count_list (map (f \<circ> rg_chain_key) xs) w = 0" if "\<And>k. f k \<noteq> w" for f :: "u64 \<Rightarrow> worker" and xs w
    using that by (induction xs) auto
  note k1 = k [where f = DeliveryWorker and P = "\<lambda>_. True"] k [where f = OutboxWatcher and P = "\<lambda>_. True"]
    k [where f = AckSubmitter and P = "\<lambda>r. rg_ack r \<noteq> None"] k [where f = ClaimSubmitter and P = "\<lambda>r. rg_claim r \<noteq> None"]
    k [where f = AttestorSetWatcher and P = on_chain]
  show "count_list (spawned c) (DeliveryWorker (rg_chain_key r)) = 1"
    "count_list (spawned c) (OutboxWatcher (rg_chain_key r)) = 1"
    "count_list (spawned c) (AckSubmitter (rg_chain_key r)) = (if rg_ack r \<noteq> None then 1 else 0)"
    "count_list (spawned c) (ClaimSubmitter (rg_chain_key r)) = (if rg_claim r \<noteq> None then 1 else 0)"
    "count_list (spawned c) (AttestorSetWatcher (rg_chain_key r)) = (if on_chain r then 1 else 0)"
    using k1 by (simp_all add: spawned_def core_workers_def opt_in_workers_def shared_workers_def inj_def nil)
qed

end
