(* ===== verification/Config_Theorems.thy ===== *)
theory Config_Theorems
  imports Wiring
begin

text \<open>The properties of the configuration and of the process it is wired into, with a concrete document.\<close>

section \<open>A document with one route\<close>

text \<open>The codec reads any text of an address as its length and knows one document.\<close>

definition conf_route :: route_doc where
  "conf_route = \<lparr>rd_chain_key = 7, rd_creditcoin_chain_id = 1, rd_destination_rpc_url = ''http'', rd_inbox_address = ''0x1'',
     rd_signer_key = None, rd_outbox_address = None, rd_relayer_contract_address = Some ''0x11'',
     rd_block_confirmation_depth = None, rd_start_block = None, rd_attestor_set = StaticFile [''a'', ''bb'', ''ccc''],
     rd_threshold_override = None,
     rd_ack = Some \<lparr>ad_proof_gen_url = ''http'', ad_validator_address = ''0x2'', ad_signer_key = ''key'', ad_confirmation_depth = None,
                    ad_start_block = None, ad_not_ready_poll_secs = None, ad_not_ready_poll_window_secs = None\<rparr>,
     rd_claim = None, rd_max_native_coin_value_wei = Some (WeiInt 9), rd_max_gas_limit = None,
     rd_auto_request_top_up = Some True, rd_failed_retry_max_attempts = Some 2,
     rd_failed_retry_initial_backoff_secs = None, rd_failed_retry_max_backoff_secs = None\<rparr>"

definition conf_doc :: config_doc where
  "conf_doc = \<lparr>gd_bind_host = ''::1'', gd_bind_port = 3200, gd_p2p = None, gd_observer = None, gd_vote_cache = None,
     gd_delivery = None, gd_scan_lookback_blocks = None, gd_routes = [conf_route]\<rparr>"

definition conf_codec :: config_codec where
  "conf_codec = \<lparr>kc_address = (\<lambda>s. Some (of_nat (length s))), kc_radix = (\<lambda>_ _. None), kc_yaml = (\<lambda>_. Some conf_doc)\<rparr>"

definition conf_cli :: cli where
  "conf_cli = \<lparr>cl_config = Some ''relayer.yaml'', cl_single_route = False, cl_bind_host = ''::'', cl_bind_port = 3200,
     cl_cc3_rpc_url = ''ws'', cl_creditcoin_eth_rpc_url = ''eth'', cl_p2p_port = 9100, cl_no_mdns = False, cl_chain_key = None,
     cl_cc3_chain_id = None, cl_destination_rpc_url = None, cl_inbox_address = None, cl_signer_key = None,
     cl_outbox_address = None, cl_attestor_set = None, cl_threshold_override = None, cl_relayer_contract_address = None,
     cl_max_native_coin_value_wei = ''0'', cl_max_gas_limit = 5000000, cl_auto_request_top_up = False,
     cl_ack = (None, None, None), cl_ack_confirmation_depth = 0, cl_ack_not_ready_poll_secs = 20,
     cl_ack_not_ready_poll_window_secs = 1800, cl_claim = (None, None, None, None), cl_claim_confirmation_depth = 0,
     cl_checkpoint_path = '' ''\<rparr>"

definition conf_loaded :: config where
  "conf_loaded = config_of (file_of conf_doc) ''ws'' ''eth'' None
     [route_of (route_file conf_route) default_failed_retry_policy 3 None (Some 4) (StaticSet [1, 2, 3])
        (Some \<lparr>as_proof_gen_url = ''http'', as_validator_address = 3, as_signer_key = ''key'', as_confirmation_depth = 0,
               as_start_block = None, as_not_ready_poll_secs = 20, as_not_ready_poll_window_secs = 1800\<rparr>)
        None (Some 9)]"

lemma trims: "trim ''0x1'' = ''0x1''" "trim ''0x2'' = ''0x2''" "trim ''0x11'' = ''0x11''" "trim ''a'' = ''a''" "trim ''bb'' = ''bb''"
  "trim ''ccc'' = ''ccc''" "trim '' '' = []"
  by code_simp+

lemmas conf_eval = conf_doc_def conf_codec_def conf_route_def route_file_def ack_file_def file_of_def delivery_file_def
  default_delivery_config_file_def file_failed_retry_def default_failed_retry_policy_def default_defs unwrap_or_def

lemma conf_route_loads:
  "into_route conf_codec (file_failed_retry (gf_delivery (file_of conf_doc))) (route_file conf_route) =
     Inr (hd (cg_routes conf_loaded))"
proof -
  have "validate_route (hd (cg_routes conf_loaded)) = Inr ()"
    by (simp add: conf_loaded_def config_of_def route_of_def validate_route_def validate_max_gas_limit_def validate_policy_def
        policy_validate_def route_policy_def top_up_signer_key_def conf_eval)
  then show ?thesis
    by (simp add: into_route_def Let_def parse_address_def traverse_option_def into_attestor_set_def into_ack_def into_wei_def
        wei_file_parse_def validate_ack_not_ready_poll_secs_def conf_loaded_def config_of_def route_of_def route_policy_def
        trims conf_eval)
qed

lemma conf_loads: "build_config conf_codec (\<lambda>_. Some []) None conf_cli = Inr conf_loaded"
proof -
  let ?f = "file_of conf_doc"
  have f: "gf_routes ?f = [route_file conf_route]" "gf_routes ?f \<noteq> []" by (simp_all add: file_of_def conf_doc_def)
  have "validate_policy (file_failed_retry (gf_delivery ?f)) OfDelivery = Inr ()"
    by (simp add: validate_policy_def policy_validate_def conf_eval)
  with f conf_route_loads
  have "into_config conf_codec ''ws'' ''eth'' None ?f = Inr (config_of ?f ''ws'' ''eth'' None [hd (cg_routes conf_loaded)])"
    by (simp add: into_config_def Let_def)
  then have "into_config conf_codec ''ws'' ''eth'' None ?f = Inr conf_loaded" by (simp add: conf_loaded_def config_of_def)
  then show ?thesis
    by (simp add: build_config_def from_yaml_file_def conf_cli_def checkpoint_path_opt_def trims conf_codec_def Let_def)
qed

section \<open>Properties\<close>

text \<open>C26. A configuration that loads, from a document or from the flags of a single route, is well formed: it
  has a route, no two routes share a chain key, and for every route the gas cap is positive, the retry
  schedule is valid (a positive first wait, not above the ceiling), a static attestor set is not empty,
  the proof poll cadence is positive, and automatic top-ups come with a relayer contract and a key to
  sign with. The values the workers are proved against are therefore met by every configuration.\<close>

theorem config_valid:
  assumes "build_config K files old_env c = Inr cfg"
  shows "config_ok cfg"
  using assms by (rule build_config_ok)

theorem config_valid_witness:
  "build_config conf_codec (\<lambda>_. Some []) None conf_cli = Inr conf_loaded \<and> config_ok conf_loaded"
  using config_valid [OF conf_loads] conf_loads by blast

text \<open>C27. A document loads exactly when it has a route, its delivery section has a valid schedule, chain keys are
  distinct, and every route satisfies its conditions: readable addresses, a non-empty static set, a
  readable amount, a positive gas cap and poll cadence, a valid schedule after the overrides, and the
  prerequisites of automatic top-ups. Nothing else is rejected, and what is rejected yields no configuration.\<close>

theorem document_loads_iff:
  "(\<exists>cfg. into_config K cc3 eth ck f = Inr cfg) \<longleftrightarrow>
     gf_routes f \<noteq> [] \<and> policy_ok (file_failed_retry (gf_delivery f)) \<and> distinct (map rf_chain_key (gf_routes f)) \<and>
     list_all (route_loads K (file_failed_retry (gf_delivery f))) (gf_routes f)"
  using into_config_iff [of K cc3 eth ck f] by (simp add: converts_ex list_all_iff)

text \<open>C28. Every configured route is wired completely: the pool starts with its resolved attestors and threshold,
  the pool's jobs for it have a channel, and it has exactly one delivery worker and one source watcher, an
  acknowledgment or claim submitter exactly when it is configured, and a set watcher exactly when its set
  is on chain. The pool and the channels know no other chain key. For a static set without an override
  the threshold is above two thirds of the set and can be met by it.\<close>

theorem routes_wired:
  assumes "build_config K files old_env c = Inr cfg" and "r \<in> set (cg_routes cfg)"
  shows "hm_get (delivery_senders channel cfg) (rg_chain_key r) = Some (channel (rg_chain_key r)) \<and>
    map_option (\<lambda>rt. (rt_attestors rt, rt_threshold rt)) (hm_get (st_by_route (lp_state (server_pool cfg work))) (rg_chain_key r)) =
      Some (ra_attestors (resolve_attestors r), ra_threshold (resolve_attestors r)) \<and>
    count_list (spawned cfg) (DeliveryWorker (rg_chain_key r)) = 1 \<and>
    count_list (spawned cfg) (OutboxWatcher (rg_chain_key r)) = 1 \<and>
    count_list (spawned cfg) (AckSubmitter (rg_chain_key r)) = (if rg_ack r \<noteq> None then 1 else 0) \<and>
    count_list (spawned cfg) (ClaimSubmitter (rg_chain_key r)) = (if rg_claim r \<noteq> None then 1 else 0) \<and>
    count_list (spawned cfg) (AttestorSetWatcher (rg_chain_key r)) = (if on_chain r then 1 else 0) \<and>
    (\<forall>ck. ck \<notin> chain_keys cfg \<longrightarrow> hm_get (delivery_senders channel cfg) ck = None \<and>
       hm_get (st_by_route (lp_state (server_pool cfg work))) ck = None) \<and>
    (\<forall>addrs. rg_threshold_override r = None \<longrightarrow> rg_attestor_set r = StaticSet addrs \<longrightarrow>
       2 * length addrs < 3 * ra_threshold (resolve_attestors r) \<and> ra_threshold (resolve_attestors r) \<le> length addrs)"
proof -
  from assms have ok: "distinct (map rg_chain_key (cg_routes cfg))" "attestor_set_ok (rg_attestor_set r)"
    using build_config_ok by (auto simp: config_ok_def route_config_ok_def)
  from assms(2) have "rg_chain_key r \<in> chain_keys cfg" by (simp add: chain_keys_def)
  then show ?thesis
    using static_threshold [OF ok(2)]
    by (simp add: sender_of_route [OF ok(1)] pool_route_of [OF ok(1) assms(2)] pool_route_unknown [OF ok(1)]
        spawned_counts [OF ok(1) assms(2)])
qed

theorem routes_wired_witness:
  "hm_get (delivery_senders (\<lambda>_ _. SendOk) conf_loaded) 7 = Some (\<lambda>_. SendOk) \<and> count_list (spawned conf_loaded) (AckSubmitter 7) = 1"
proof -
  obtain r where r: "cg_routes conf_loaded = [r]" "rg_chain_key r = 7" "rg_ack r \<noteq> None"
    by (simp add: conf_loaded_def config_of_def route_of_def conf_eval)
  then have "r \<in> set (cg_routes conf_loaded)" by simp
  from routes_wired [OF conf_loads this, of "\<lambda>_ _. SendOk"] r show ?thesis by simp
qed

end
