(* ===== verification/Health_Theorems.thy ===== *)
theory Health_Theorems
  imports Health
begin

text \<open>The verdict of the health probe.\<close>

text \<open>C34. The probe's verdict is a function of what the workers reported and when. With reports in time
  order, a worker is stale exactly when it reported at least once and all its reports are older than the
  deadline, so a worker that still fails, however long, never causes a restart; it is degraded exactly when
  a failure is recent, no success is, and it has reported for longer than the deadline. A worker that never
  reported appears in neither list.\<close>

theorem health_verdict:
  assumes "sorted (map (\<lambda>(_, t, _). t) rs)" and "\<forall>(_, t, _) \<in> set rs. t \<noteq> 0"
  shows "(name \<in> set (hr_stale (status now (reported deadline rs))) \<longleftrightarrow>
      (\<exists>t ok. (name, t, ok) \<in> set rs) \<and> (\<forall>t ok. (name, t, ok) \<in> set rs \<longrightarrow> \<not> recent deadline now t))
    \<and> (name \<in> set (hr_degraded (status now (reported deadline rs))) \<longleftrightarrow>
      (\<exists>t. (name, t, False) \<in> set rs \<and> recent deadline now t) \<and> (\<forall>t. (name, t, True) \<in> set rs \<longrightarrow> \<not> recent deadline now t)
      \<and> (\<exists>t ok. (name, t, ok) \<in> set rs \<and> \<not> recent deadline now t))"
proof -
  let ?h = "reported deadline rs" and ?rs = "reports_of name rs"
  have mem: "(t, b) \<in> set ?rs \<longleftrightarrow> (name, t, b) \<in> set rs" for t b by (force simp: reports_of_def)
  have nz: "\<forall>r \<in> set ?rs. fst r \<noteq> 0" using assms(2) by (auto simp: reports_of_def)
  have "map fst ?rs = map (\<lambda>(_, t, _). t) (filter (\<lambda>r. fst r = name) rs)" by (simp add: reports_of_def split_def)
  then have srt: "sorted (map fst ?rs)" using assms(1) by (simp add: sorted_filter)
  note look = reported_component [OF assms(2), of deadline name]
  note names = status_names [OF hm_ok_reported, of name now deadline rs, unfolded reported_deadline look]
  show ?thesis
  proof (cases "?rs = []")
    case True
    then have "\<nexists>t b. (name, t, b) \<in> set rs" using mem by force
    with True names show ?thesis by auto
  next
    case False
    note v = summary_verdict [OF srt nz False, of "hl_deadline_ms (health_new deadline)" now, folded recent_def]
    obtain t0 b0 where some: "(name, t0, b0) \<in> set rs" using False mem by (cases ?rs) force+
    have old: "(\<exists>r \<in> set ?rs. \<not> recent deadline now (fst r)) \<longleftrightarrow> (\<exists>t ok. (name, t, ok) \<in> set rs \<and> \<not> recent deadline now t)"
      using mem by force
    let ?D = "hl_deadline_ms (health_new deadline)"
    have err: "err_recent ?D now (summary ?rs) \<longleftrightarrow> (\<exists>t. (name, t, False) \<in> set rs \<and> recent deadline now t)"
      using v(1) by (simp add: mem)
    have overdue: "ok_overdue ?D now (summary ?rs) \<longleftrightarrow> (\<forall>t. (name, t, True) \<in> set rs \<longrightarrow> \<not> recent deadline now t)
        \<and> (\<exists>t ok. (name, t, ok) \<in> set rs \<and> \<not> recent deadline now t)"
      using v(2) by (simp add: mem old)
    have "name \<in> set (hr_stale (status now ?h)) \<longleftrightarrow> ok_overdue ?D now (summary ?rs) \<and> \<not> err_recent ?D now (summary ?rs)"
      "name \<in> set (hr_degraded (status now ?h)) \<longleftrightarrow> ok_overdue ?D now (summary ?rs) \<and> err_recent ?D now (summary ?rs)"
      using names False by simp_all
    with some show ?thesis unfolding err overdue all_bool_eq ex_bool_eq by blast
  qed
qed

theorem health_verdict_witness:
  "''ack'' \<in> set (hr_degraded (status 400000 (reported (secs 360) [(''pool'', 1000, True), (''ack'', 2000, True), (''ack'', 399000, False)])))
   \<and> ''ack'' \<notin> set (hr_stale (status 400000 (reported (secs 360) [(''pool'', 1000, True), (''ack'', 2000, True), (''ack'', 399000, False)])))
   \<and> ''pool'' \<in> set (hr_stale (status 400000 (reported (secs 360) [(''pool'', 1000, True), (''ack'', 2000, True), (''ack'', 399000, False)])))"
proof -
  let ?rs = "[(''pool'', 1000, True), (''ack'', 2000, True), (''ack'', 399000, False)] :: worker_report list"
  have d: "hl_deadline_ms (health_new (secs 360)) = 360000" by (simp add: health_new_def as_millis_def secs_def)
  have r: "recent (secs 360) 400000 399000" "\<not> recent (secs 360) 400000 1000" "\<not> recent (secs 360) 400000 2000"
    by (simp_all add: recent_def within_def d sat_sub_def)
  have "sorted (map (\<lambda>(_, t, _). t) ?rs)" "\<forall>(_, t, _) \<in> set ?rs. t \<noteq> 0" by simp_all
  note v = health_verdict [OF this, of _ 400000 "secs 360"]
  from v [of "''ack''"] v [of "''pool''"] r show ?thesis by auto
qed

end
