(* ===== verification/Broadcast_Theorems.thy ===== *)
theory Broadcast_Theorems
  imports Broadcast
begin

text \<open>What the per-signer slots guarantee about nonces.\<close>


definition two_sends :: "bc_world" where
  "two_sends = \<lparr>wd_locks = [], wd_nonce = (\<lambda>_. None), wd_count = (\<lambda>_. 5), wd_taken = [], wd_refused = [], wd_lost = {}, wd_lates = 0\<rparr>"


end
