(* ===== verification/Gossip.thy ===== *)
theory Gossip
  imports Pool_Run Set_Update
begin

text \<open>
  The relayer's gossip worker (\<^verbatim>\<open>message-relayer/src/p2p/mod.rs\<close>, topics of \<^verbatim>\<open>write-ability/src/protocol.rs\<close>): topic
  subscriptions, what is done with every swarm event, the publication of reobservation requests, the
  listen retries and the derivation of the identity. libp2p is the environment: its events are inputs
  and the calls made on it are recorded as actions. The SCALE codec of the envelopes is a parameter.
\<close>

section \<open>Topics and envelopes\<close>

definition message_votes_topic :: "u64 \<Rightarrow> string" where
  "message_votes_topic chain_key = decimal (unat chain_key) @ ''/message-votes/v1''"

definition reobservation_topic :: "u64 \<Rightarrow> string" where
  "reobservation_topic chain_key = decimal (unat chain_key) @ ''/reobservation-requests/v1''"

definition attestor_set_update_topic :: "u64 \<Rightarrow> string" where
  "attestor_set_update_topic chain_key = decimal (unat chain_key) @ ''/attestor-set-update/v1''"

record envelope_codec =
  el_vote :: "bytes \<Rightarrow> message_vote option"
  el_request :: "bytes \<Rightarrow> reobservation_request option"
  el_set_update :: "bytes \<Rightarrow> set_update_vote option"
  el_encode_request :: "reobservation_request \<Rightarrow> bytes"

type_synonym peer = string
type_synonym message_handle = nat

record subscriptions =
  sc_votes :: "(string, u64) hash_map"
  sc_reobs :: "(u64, string) hash_map"
  sc_set_updates :: "(string, u64) hash_map"

text \<open>The subscription loop; a refused subscription ends the worker, which is an input here.\<close>

definition subscribe_chain :: "u64 \<Rightarrow> subscriptions \<Rightarrow> subscriptions" where
  "subscribe_chain ck s =
     s\<lparr>sc_votes := hm_insert (message_votes_topic ck) ck (sc_votes s),
       sc_reobs := hm_insert ck (reobservation_topic ck) (sc_reobs s),
       sc_set_updates := hm_insert (attestor_set_update_topic ck) ck (sc_set_updates s)\<rparr>"

definition subscribe_all :: "u64 list \<Rightarrow> subscriptions" where
  "subscribe_all cks = fold subscribe_chain cks \<lparr>sc_votes = [], sc_reobs = [], sc_set_updates = []\<rparr>"

section \<open>Swarm events\<close>

datatype acceptance = MessageAccept | MessageReject

datatype swarm_event =
    Identified peer "string list"
  | Discovered "(peer \<times> string) list"
  | GossipMessage peer message_handle string bytes
  | PeerSubscribed peer string
  | PeerUnsubscribed peer string
  | ConnectionClosed peer nat
  | OtherEvent

datatype p2p_action =
    AddAddress peer string
  | ReportValidation message_handle peer acceptance
  | VoteMetric u64 vote_outcome
  | PeerGauge u64 nat
  | HandVote message_vote
  | HandSetUpdate set_update_vote
  | Publish string bytes

record p2p_state =
  ps_subs :: subscriptions
  ps_peer_counts :: "(u64, nat) hash_map"

definition count_of :: "u64 \<Rightarrow> p2p_state \<Rightarrow> nat" where
  "count_of ck s = (case hm_get (ps_peer_counts s) ck of Some n \<Rightarrow> n | None \<Rightarrow> 0)"

definition set_count :: "u64 \<Rightarrow> nat \<Rightarrow> p2p_state \<Rightarrow> p2p_state \<times> p2p_action list" where
  "set_count ck n s = (s\<lparr>ps_peer_counts := hm_insert ck n (ps_peer_counts s)\<rparr>, [PeerGauge ck n])"

text \<open>\<^verbatim>\<open>try_send\<close> of a vote: a full pool sheds it and counts it, a closed one only logs.\<close>

definition hand_vote :: "(message_vote \<Rightarrow> try_send) \<Rightarrow> u64 \<Rightarrow> message_vote \<Rightarrow> p2p_action list" where
  "hand_vote send ck vote =
     (case send vote of SendOk \<Rightarrow> [HandVote vote] | SendFull \<Rightarrow> [VoteMetric ck Dropped] | SendClosed \<Rightarrow> [])"

definition hand_set_update :: "(set_update_vote \<Rightarrow> try_send) \<Rightarrow> set_update_vote \<Rightarrow> p2p_action list" where
  "hand_set_update send vote = (case send vote of SendOk \<Rightarrow> [HandSetUpdate vote] | SendFull \<Rightarrow> [] | SendClosed \<Rightarrow> [])"

definition gossip_vote :: "envelope_codec \<Rightarrow> (message_vote \<Rightarrow> try_send) \<Rightarrow> u64 \<Rightarrow> bytes \<Rightarrow> p2p_action list \<times> acceptance" where
  "gossip_vote C send ck data =
     (case el_vote C data of
        Some vote \<Rightarrow> if mv_chain_key vote = ck then (hand_vote send ck vote, MessageAccept) else ([], MessageReject)
      | None \<Rightarrow> ([VoteMetric ck Reject], MessageReject))"

definition gossip_set_update :: "envelope_codec \<Rightarrow> (set_update_vote \<Rightarrow> try_send) \<Rightarrow> u64 \<Rightarrow> bytes \<Rightarrow> p2p_action list \<times> acceptance" where
  "gossip_set_update C send ck data =
     (case el_set_update C data of
        Some vote \<Rightarrow> if uv_chain_key vote = ck then (hand_set_update send vote, MessageAccept) else ([], MessageReject)
      | None \<Rightarrow> ([], MessageReject))"

definition gossip_message ::
  "envelope_codec \<Rightarrow> (message_vote \<Rightarrow> try_send) \<Rightarrow> (set_update_vote \<Rightarrow> try_send) \<Rightarrow> subscriptions
    \<Rightarrow> peer \<Rightarrow> message_handle \<Rightarrow> string \<Rightarrow> bytes \<Rightarrow> p2p_action list" where
  "gossip_message C send_vote send_update subs source mid topic data =
     (if topic \<in> snd ` set (sc_reobs subs) then [ReportValidation mid source MessageAccept]
      else case hm_get (sc_set_updates subs) topic of
             Some ck \<Rightarrow> (let (acts, acc) = gossip_set_update C send_update ck data in acts @ [ReportValidation mid source acc])
           | None \<Rightarrow>
               (case hm_get (sc_votes subs) topic of
                  None \<Rightarrow> []
                | Some ck \<Rightarrow> (let (acts, acc) = gossip_vote C send_vote ck data in acts @ [ReportValidation mid source acc])))"

definition handle_swarm_event ::
  "envelope_codec \<Rightarrow> (message_vote \<Rightarrow> try_send) \<Rightarrow> (set_update_vote \<Rightarrow> try_send) \<Rightarrow> swarm_event \<Rightarrow> p2p_state
    \<Rightarrow> p2p_state \<times> p2p_action list" where
  "handle_swarm_event C send_vote send_update ev s =
     (case ev of
        Identified p addrs \<Rightarrow> (s, map (AddAddress p) addrs)
      | Discovered peers \<Rightarrow> (s, map (\<lambda>(p, a). AddAddress p a) peers)
      | GossipMessage source mid topic data \<Rightarrow> (s, gossip_message C send_vote send_update (ps_subs s) source mid topic data)
      | PeerSubscribed p topic \<Rightarrow>
          (case hm_get (sc_votes (ps_subs s)) topic of None \<Rightarrow> (s, []) | Some ck \<Rightarrow> set_count ck (count_of ck s + 1) s)
      | PeerUnsubscribed p topic \<Rightarrow>
          (case hm_get (sc_votes (ps_subs s)) topic of None \<Rightarrow> (s, []) | Some ck \<Rightarrow> set_count ck (count_of ck s - 1) s)
      | ConnectionClosed p n \<Rightarrow> (s, [])
      | OtherEvent \<Rightarrow> (s, []))"

section \<open>The worker\<close>

datatype p2p_event =
    P2pCancel
  | HealthPulse u64
  | ReobsRequest "reobservation_request option"
  | FromSwarm swarm_event

definition publish_request :: "envelope_codec \<Rightarrow> (u64, string) hash_map \<Rightarrow> reobservation_request \<Rightarrow> p2p_action list" where
  "publish_request C topics req =
     (case hm_get topics (ro_chain_key req) of None \<Rightarrow> [] | Some topic \<Rightarrow> [Publish topic (el_encode_request C req)])"

definition p2p_arm ::
  "envelope_codec \<Rightarrow> (message_vote \<Rightarrow> try_send) \<Rightarrow> (set_update_vote \<Rightarrow> try_send) \<Rightarrow> p2p_event \<Rightarrow> p2p_state \<times> health
    \<Rightarrow> (p2p_state \<times> health) \<times> p2p_action list \<times> bool" where
  "p2p_arm C send_vote send_update ev s =
     (case ev of
        P2pCancel \<Rightarrow> (s, [], False)
      | HealthPulse now \<Rightarrow> ((fst s, heartbeat now ''p2p'' (snd s)), [], True)
      | ReobsRequest None \<Rightarrow> (s, [], True)
      | ReobsRequest (Some req) \<Rightarrow> (s, publish_request C (sc_reobs (ps_subs (fst s))) req, True)
      | FromSwarm e \<Rightarrow> (let (s', acts) = handle_swarm_event C send_vote send_update e (fst s) in ((s', snd s), acts, True)))"

text \<open>
  Listening is tried twelve times, with a wait after every failure but the last; then the worker goes on
  without listening. \<open>None\<close> is a cancellation during a wait.
\<close>

definition LISTEN_RETRY_ATTEMPTS :: nat where "LISTEN_RETRY_ATTEMPTS = 12"

datatype listening = Listens | DialOnly

fun listen_retry :: "(nat \<Rightarrow> bool) \<Rightarrow> (nat \<Rightarrow> bool) \<Rightarrow> nat \<Rightarrow> listening option" where
  "listen_retry listen_on cancelled 0 = Some DialOnly"
| "listen_retry listen_on cancelled (Suc left) =
     (let attempt = LISTEN_RETRY_ATTEMPTS - left in
      if listen_on attempt then Some Listens
      else if left = 0 then Some DialOnly
      else if cancelled attempt then None
      else listen_retry listen_on cancelled left)"

text \<open>Boot nodes whose address parses and names a peer are registered; \<open>parse\<close> reads a multiaddr and its \<^verbatim>\<open>/p2p/\<close> part.\<close>

definition register_boot_nodes :: "(string \<Rightarrow> peer option option) \<Rightarrow> string list \<Rightarrow> p2p_action list" where
  "register_boot_nodes parse boots =
     List.map_filter (\<lambda>boot. case parse boot of Some (Some p) \<Rightarrow> Some (AddAddress p boot) | _ \<Rightarrow> None) boots"

section \<open>Identity\<close>

datatype identity_error = SeedLength | InvalidHex | BadSeed | InvalidMnemonic | BadMnemonicSeed

text \<open>Generating a key, building one from a seed, and a mnemonic's 64-byte seed are library calls.\<close>

record key_library =
  kl_generate :: bytes
  kl_from_seed :: "bytes \<Rightarrow> bytes option"
  kl_mnemonic :: "string \<Rightarrow> bytes option"

definition derive_keypair :: "key_library \<Rightarrow> string option \<Rightarrow> identity_error + bytes" where
  "derive_keypair L identity =
     (case identity of
        None \<Rightarrow> Inr (kl_generate L)
      | Some s \<Rightarrow>
          if take 2 s = ''0x''
          then let hex = drop 2 s in
               if length hex \<noteq> 64 then Inl SeedLength
               else (case hex_decode hex of
                       None \<Rightarrow> Inl InvalidHex
                     | Some seed \<Rightarrow> (case kl_from_seed L seed of None \<Rightarrow> Inl BadSeed | Some kp \<Rightarrow> Inr kp))
          else (case kl_mnemonic L (trim s) of
                  None \<Rightarrow> Inl InvalidMnemonic
                | Some full \<Rightarrow> (case kl_from_seed L (take 32 full) of None \<Rightarrow> Inl BadMnemonicSeed | Some kp \<Rightarrow> Inr kp)))"

section \<open>Facts\<close>

text \<open>Topics of different chains or kinds are different: the part before the slash is the chain key.\<close>

lemma slash_not_digit: "CHR ''/'' \<notin> set (decimal n)"
  using decimal_digits [of "CHR ''/''" n] by (auto simp: is_digit_def code_of_def)

lemma topic_key: "takeWhile (\<lambda>c. c \<noteq> CHR ''/'') (decimal n @ CHR ''/'' # rest) = decimal n"
  using slash_not_digit [of n] by (auto simp: takeWhile_append)

lemma topic_inj: "decimal a @ CHR ''/'' # r = decimal b @ CHR ''/'' # r' \<longleftrightarrow> a = b \<and> r = r'"
  using topic_key by (metis append_same_eq decimal_inj list.inject same_append_eq)

lemma topics_distinct [simp]:
  "message_votes_topic a = message_votes_topic b \<longleftrightarrow> a = b"
  "reobservation_topic a = reobservation_topic b \<longleftrightarrow> a = b"
  "attestor_set_update_topic a = attestor_set_update_topic b \<longleftrightarrow> a = b"
  "message_votes_topic a \<noteq> reobservation_topic b" "message_votes_topic a \<noteq> attestor_set_update_topic b"
  "reobservation_topic a \<noteq> attestor_set_update_topic b"
  by (simp_all add: message_votes_topic_def reobservation_topic_def attestor_set_update_topic_def topic_inj word_unat_eq_iff)


lemma subscribe_all_snoc: "subscribe_all (cks @ [ck]) = subscribe_chain ck (subscribe_all cks)"
  by (simp add: subscribe_all_def)

text \<open>The topics of exactly the configured chains are known, each under its own chain key.\<close>

lemma subscribed_topics:
  "hm_get (sc_votes (subscribe_all cks)) (message_votes_topic ck) = (if ck \<in> set cks then Some ck else None)"
  "hm_get (sc_set_updates (subscribe_all cks)) (attestor_set_update_topic ck) = (if ck \<in> set cks then Some ck else None)"
  "hm_get (sc_reobs (subscribe_all cks)) ck = (if ck \<in> set cks then Some (reobservation_topic ck) else None)"
  by (induction cks rule: rev_induct) (simp_all add: subscribe_all_def subscribe_chain_def update_conv')

lemma foreign_topics:
  "hm_get (sc_set_updates (subscribe_all cks)) (message_votes_topic ck) = None"
  "message_votes_topic ck \<notin> snd ` set (sc_reobs (subscribe_all cks))"
  "attestor_set_update_topic ck \<notin> snd ` set (sc_reobs (subscribe_all cks))"
proof -
  show "hm_get (sc_set_updates (subscribe_all cks)) (message_votes_topic ck) = None"
    by (induction cks rule: rev_induct) (simp_all add: subscribe_all_def subscribe_chain_def update_conv' topics_distinct [symmetric])
  have "snd ` set (sc_reobs (subscribe_all cks)) \<subseteq> range reobservation_topic"
  proof (induction cks rule: rev_induct)
    case Nil
    then show ?case by (simp add: subscribe_all_def)
  next
    case (snoc ck cks)
    have "snd ` set (hm_insert k v m) \<subseteq> insert v (snd ` set m)" for k :: u64 and v :: string and m
      by (induction m) auto
    from this [of ck "reobservation_topic ck" "sc_reobs (subscribe_all cks)"]
    have "snd ` set (sc_reobs (subscribe_all (cks @ [ck]))) \<subseteq> insert (reobservation_topic ck) (snd ` set (sc_reobs (subscribe_all cks)))"
      by (simp add: subscribe_all_snoc subscribe_chain_def)
    with snoc show ?case by (meson insert_subset order_trans rangeI)
  qed
  then have "t \<notin> snd ` set (sc_reobs (subscribe_all cks))" if "\<And>k. t \<noteq> reobservation_topic k" for t
    using that unfolding subset_eq image_iff by blast
  from this [of "message_votes_topic ck"] this [of "attestor_set_update_topic ck"]
  show "message_votes_topic ck \<notin> snd ` set (sc_reobs (subscribe_all cks))"
    "attestor_set_update_topic ck \<notin> snd ` set (sc_reobs (subscribe_all cks))"
    using topics_distinct(4) topics_distinct(6) [symmetric] by simp_all
qed

text \<open>What the pool is handed is the decoded vote of a frame on its chain's own topic.\<close>

lemma gossip_message_vote:
  "gossip_message C send_vote send_update (subscribe_all cks) source mid (message_votes_topic ck) data =
     (if ck \<in> set cks
      then let (acts, acc) = gossip_vote C send_vote ck data in acts @ [ReportValidation mid source acc] else [])"
  by (simp add: gossip_message_def foreign_topics subscribed_topics)

lemma hand_vote_iff: "HandVote v \<in> set (fst (gossip_vote C send ck data)) \<longleftrightarrow> el_vote C data = Some v \<and> mv_chain_key v = ck \<and> send v = SendOk"
  by (auto simp: gossip_vote_def hand_vote_def split: option.split try_send.split)

text \<open>
  The peer gauge counts subscriptions, not peers: a peer whose connection closed and that subscribes again
  is counted twice.
\<close>

lemma reconnect_counted_twice:
  assumes "hm_get (sc_votes (ps_subs s)) topic = Some ck"
  shows "count_of ck (fold (\<lambda>ev s. fst (handle_swarm_event C send_vote send_update ev s))
    [PeerSubscribed p topic, ConnectionClosed p 0, PeerSubscribed p topic] s) = count_of ck s + 2"
  using assms by (simp add: handle_swarm_event_def set_count_def count_of_def update_conv')

end
