(* ===== verification/Observer.thy ===== *)
theory Observer
  imports Gossip Config_Load
begin

text \<open>
  The observer node: its events and filters (\<^verbatim>\<open>observer-node/src/events.rs\<close>), the swarm task
  (\<^verbatim>\<open>observer-node/src/swarm.rs\<close>), the WebSocket surface (\<^verbatim>\<open>observer-node/src/ws.rs\<close>) and its configuration
  (\<^verbatim>\<open>observer-node/src/config.rs\<close>). The broadcast ring, sockets and libp2p are the environment: what they
  yield are inputs, what is asked of them is recorded. JSON and the rendering of an address are parameters.
\<close>

section \<open>Events\<close>

record vote_event =
  ve_chain_key :: u64
  ve_message_id :: string
  ve_message_hash :: string
  ve_signer :: string
  ve_signature_valid :: bool
  ve_signature :: string
  ve_source_peer :: peer
  ve_received_at_ms :: u64

record request_event =
  qe_chain_key :: u64
  qe_message_id :: string
  qe_tx_hash :: string
  qe_block_height :: u64
  qe_source_peer :: peer
  qe_received_at_ms :: u64

record set_event =
  xe_chain_key :: u64
  xe_new_attestors :: "string list"
  xe_nonce :: string
  xe_signer :: string
  xe_signature :: string
  xe_source_peer :: peer
  xe_received_at_ms :: u64

record status_event =
  te_chain_key :: u64
  te_subscribed_peers :: nat
  te_received_at_ms :: u64

datatype observer_event = EvVote vote_event | EvRequest request_event | EvSetUpdate set_event | EvStatus status_event

definition hex0x :: "bytes \<Rightarrow> string" where "hex0x bs = ''0x'' @ hex_encode bs"

definition b256_bytes :: "b256 \<Rightarrow> bytes" where "b256_bytes w = to_be_bytes 32 (unat w)"

definition address_bytes :: "address \<Rightarrow> bytes" where "address_bytes a = to_be_bytes 20 (unat a)"

definition vote_event_of :: "(address \<Rightarrow> string) \<Rightarrow> u64 \<Rightarrow> u64 \<Rightarrow> b256 \<Rightarrow> address \<Rightarrow> bool \<Rightarrow> bytes \<Rightarrow> peer \<Rightarrow> observer_event" where
  "vote_event_of render now chain_key message_id signer signature_valid signature source =
     EvVote \<lparr>ve_chain_key = chain_key, ve_message_id = hex0x (b256_bytes message_id), ve_message_hash = hex0x (b256_bytes message_id),
       ve_signer = render signer, ve_signature_valid = signature_valid, ve_signature = hex0x signature,
       ve_source_peer = source, ve_received_at_ms = now\<rparr>"

definition request_event_of :: "u64 \<Rightarrow> u64 \<Rightarrow> b256 \<Rightarrow> b256 \<Rightarrow> u64 \<Rightarrow> peer \<Rightarrow> observer_event" where
  "request_event_of now chain_key message_id tx_hash block_height source =
     EvRequest \<lparr>qe_chain_key = chain_key, qe_message_id = hex0x (b256_bytes message_id), qe_tx_hash = hex0x (b256_bytes tx_hash),
       qe_block_height = block_height, qe_source_peer = source, qe_received_at_ms = now\<rparr>"

definition set_event_of :: "u64 \<Rightarrow> u64 \<Rightarrow> address list \<Rightarrow> u256 \<Rightarrow> address \<Rightarrow> bytes \<Rightarrow> peer \<Rightarrow> observer_event" where
  "set_event_of now chain_key new_attestors nonce signer signature source =
     EvSetUpdate \<lparr>xe_chain_key = chain_key, xe_new_attestors = map (\<lambda>a. hex0x (address_bytes a)) new_attestors,
       xe_nonce = hex0x (b256_bytes nonce), xe_signer = hex0x (address_bytes signer), xe_signature = hex0x signature,
       xe_source_peer = source, xe_received_at_ms = now\<rparr>"

definition status_event_of :: "u64 \<Rightarrow> u64 \<Rightarrow> nat \<Rightarrow> observer_event" where
  "status_event_of now chain_key n = EvStatus \<lparr>te_chain_key = chain_key, te_subscribed_peers = n, te_received_at_ms = now\<rparr>"

fun event_chain_key :: "observer_event \<Rightarrow> u64" where
  "event_chain_key (EvVote e) = ve_chain_key e"
| "event_chain_key (EvRequest e) = qe_chain_key e"
| "event_chain_key (EvSetUpdate e) = xe_chain_key e"
| "event_chain_key (EvStatus e) = te_chain_key e"

fun event_message_id :: "observer_event \<Rightarrow> string option" where
  "event_message_id (EvVote e) = Some (ve_message_id e)"
| "event_message_id (EvRequest e) = Some (qe_message_id e)"
| "event_message_id (EvSetUpdate e) = None"
| "event_message_id (EvStatus e) = None"

datatype event_kind = KMessageVote | KReobservationRequest | KSetUpdateVote | KPeerStatus

fun event_kind_of :: "observer_event \<Rightarrow> event_kind" where
  "event_kind_of (EvVote e) = KMessageVote"
| "event_kind_of (EvRequest e) = KReobservationRequest"
| "event_kind_of (EvSetUpdate e) = KSetUpdateVote"
| "event_kind_of (EvStatus e) = KPeerStatus"

section \<open>Filters and client frames\<close>

record event_filter =
  fi_chain_keys :: "u64 list"
  fi_events :: "event_kind list"
  fi_message_id :: "string option"

definition default_filter :: event_filter where
  "default_filter = \<lparr>fi_chain_keys = [], fi_events = [], fi_message_id = None\<rparr>"

definition eq_ignore_ascii_case :: "string \<Rightarrow> string \<Rightarrow> bool" where
  "eq_ignore_ascii_case a b \<longleftrightarrow> map to_ascii_lower a = map to_ascii_lower b"

definition filter_matches :: "event_filter \<Rightarrow> observer_event \<Rightarrow> bool" where
  "filter_matches f ev =
     (if fi_chain_keys f \<noteq> [] \<and> event_chain_key ev \<notin> set (fi_chain_keys f) then False
      else if fi_events f \<noteq> [] \<and> event_kind_of ev \<notin> set (fi_events f) then False
      else case fi_message_id f of
             Some want \<Rightarrow> (case event_message_id ev of Some i \<Rightarrow> eq_ignore_ascii_case i want | None \<Rightarrow> False)
           | None \<Rightarrow> True)"

record publish_frame =
  pu_chain_key :: u64
  pu_message_id :: string
  pu_tx_hash :: string
  pu_block_height :: u64

datatype client_frame = Subscribe event_filter | PublishReobservation publish_frame

section \<open>Observing gossip\<close>

datatype event_outcome = EvAccepted | EvRejected

datatype observer_metric =
    IncEvent event_kind event_outcome
  | SubscribedPeers u64 nat
  | IncReobservationPublished
  | IncLagDrop
  | WsClients nat

text \<open>Recovery without the canonical-form checks of the pool.\<close>

definition observer_recover :: "primitives \<Rightarrow> b256 \<Rightarrow> bytes \<Rightarrow> address option" where
  "observer_recover P hash raw = ecrecover P hash raw"

type_synonym observation = "observer_event list \<times> observer_metric list \<times> acceptance"

definition observe_vote ::
  "primitives \<Rightarrow> envelope_codec \<Rightarrow> (address \<Rightarrow> string) \<Rightarrow> u64 \<Rightarrow> u64 \<Rightarrow> bytes \<Rightarrow> peer \<Rightarrow> observation" where
  "observe_vote P C render now chain_key data source =
     (case el_vote C data of
        None \<Rightarrow> ([], [IncEvent KMessageVote EvRejected], MessageReject)
      | Some vote \<Rightarrow>
          if mv_chain_key vote \<noteq> chain_key then ([], [IncEvent KMessageVote EvRejected], MessageReject)
          else let (signer, valid) =
                     (case observer_recover P (mv_message_id vote) (mv_signature vote) of
                        Some recovered \<Rightarrow> (recovered, recovered = mv_signer vote)
                      | None \<Rightarrow> (mv_signer vote, False))
               in ([vote_event_of render now chain_key (mv_message_id vote) signer valid (mv_signature vote) source],
                   [IncEvent KMessageVote EvAccepted], MessageAccept))"

definition observe_reobservation :: "envelope_codec \<Rightarrow> u64 \<Rightarrow> u64 \<Rightarrow> bytes \<Rightarrow> peer \<Rightarrow> observation" where
  "observe_reobservation C now chain_key data source =
     (case el_request C data of
        Some req \<Rightarrow>
          if ro_chain_key req = chain_key
          then ([request_event_of now chain_key (ro_message_id req) (ro_tx_hash req) (ro_block_height req) source],
                [IncEvent KReobservationRequest EvAccepted], MessageAccept)
          else ([], [IncEvent KReobservationRequest EvRejected], MessageReject)
      | None \<Rightarrow> ([], [IncEvent KReobservationRequest EvRejected], MessageReject))"

definition observe_set_update :: "envelope_codec \<Rightarrow> u64 \<Rightarrow> u64 \<Rightarrow> bytes \<Rightarrow> peer \<Rightarrow> observation" where
  "observe_set_update C now chain_key data source =
     (case el_set_update C data of
        Some vote \<Rightarrow>
          if uv_chain_key vote = chain_key
          then ([set_event_of now chain_key (uv_new_attestors vote) (uv_nonce vote) (uv_signer vote) (uv_signature vote) source],
                [IncEvent KSetUpdateVote EvAccepted], MessageAccept)
          else ([], [IncEvent KSetUpdateVote EvRejected], MessageReject)
      | None \<Rightarrow> ([], [IncEvent KSetUpdateVote EvRejected], MessageReject))"

section \<open>Subscribed peers\<close>

type_synonym subscribed_peers = "(u64, peer set) hash_map"

definition peers_of :: "u64 \<Rightarrow> subscribed_peers \<Rightarrow> peer set" where
  "peers_of ck m = (case hm_get m ck of Some s \<Rightarrow> s | None \<Rightarrow> {})"

definition note_subscribed :: "u64 \<Rightarrow> peer \<Rightarrow> subscribed_peers \<Rightarrow> subscribed_peers \<times> nat option" where
  "note_subscribed ck p m =
     (let entry = peers_of ck m; entry' = insert p entry
      in (hm_insert ck entry' m, if p \<notin> entry then Some (card entry') else None))"

definition note_unsubscribed :: "u64 \<Rightarrow> peer \<Rightarrow> subscribed_peers \<Rightarrow> subscribed_peers \<times> nat option" where
  "note_unsubscribed ck p m =
     (case hm_get m ck of
        None \<Rightarrow> (m, None)
      | Some entry \<Rightarrow> (hm_modify ck (\<lambda>s. s - {p}) m, if p \<in> entry then Some (card (entry - {p})) else None))"

definition note_disconnected :: "peer \<Rightarrow> subscribed_peers \<Rightarrow> subscribed_peers \<times> (u64 \<times> nat) list" where
  "note_disconnected p m =
     (hm_map_values (\<lambda>s. s - {p}) m,
      List.map_filter (\<lambda>(ck, s). if p \<in> s then Some (ck, card (s - {p})) else None) m)"

definition report_peer_count :: "u64 \<Rightarrow> u64 \<times> nat \<Rightarrow> observer_event list \<times> observer_metric list" where
  "report_peer_count now c = ([status_event_of now (fst c) (snd c)], [SubscribedPeers (fst c) (snd c)])"

definition report_peer_counts :: "u64 \<Rightarrow> (u64 \<times> nat) list \<Rightarrow> observer_event list \<times> observer_metric list" where
  "report_peer_counts now cs = (concat (map (fst \<circ> report_peer_count now) cs), concat (map (snd \<circ> report_peer_count now) cs))"

section \<open>The swarm task\<close>

record observer_subs =
  ob_votes :: "(string, u64) hash_map"
  ob_reobs :: "(string, u64) hash_map"
  ob_set_updates :: "(string, u64) hash_map"
  ob_reobs_topics :: "(u64, string) hash_map"

definition observe_chain :: "u64 \<Rightarrow> observer_subs \<Rightarrow> observer_subs" where
  "observe_chain ck s =
     s\<lparr>ob_votes := hm_insert (message_votes_topic ck) ck (ob_votes s),
       ob_reobs := hm_insert (reobservation_topic ck) ck (ob_reobs s),
       ob_set_updates := hm_insert (attestor_set_update_topic ck) ck (ob_set_updates s),
       ob_reobs_topics := hm_insert ck (reobservation_topic ck) (ob_reobs_topics s)\<rparr>"

definition observe_all :: "u64 list \<Rightarrow> observer_subs" where
  "observe_all cks = fold observe_chain cks \<lparr>ob_votes = [], ob_reobs = [], ob_set_updates = [], ob_reobs_topics = []\<rparr>"

definition observe_message ::
  "primitives \<Rightarrow> envelope_codec \<Rightarrow> (address \<Rightarrow> string) \<Rightarrow> observer_subs \<Rightarrow> u64 \<Rightarrow> peer \<Rightarrow> string \<Rightarrow> bytes \<Rightarrow> observation option" where
  "observe_message P C render subs now source topic data =
     (case hm_get (ob_votes subs) topic of
        Some ck \<Rightarrow> Some (observe_vote P C render now ck data source)
      | None \<Rightarrow>
          (case hm_get (ob_reobs subs) topic of
             Some ck \<Rightarrow> Some (observe_reobservation C now ck data source)
           | None \<Rightarrow>
               (case hm_get (ob_set_updates subs) topic of
                  Some ck \<Rightarrow> Some (observe_set_update C now ck data source)
                | None \<Rightarrow> None)))"

text \<open>What one swarm event changes, publishes to the hub, counts, and asks of libp2p.\<close>

definition observer_swarm_event ::
  "primitives \<Rightarrow> envelope_codec \<Rightarrow> (address \<Rightarrow> string) \<Rightarrow> observer_subs \<Rightarrow> u64 \<Rightarrow> swarm_event \<Rightarrow> subscribed_peers
    \<Rightarrow> subscribed_peers \<times> observer_event list \<times> observer_metric list \<times> p2p_action list" where
  "observer_swarm_event P C render subs now ev m =
     (case ev of
        Identified p addrs \<Rightarrow> (m, [], [], map (AddAddress p) addrs)
      | Discovered peers \<Rightarrow> (m, [], [], map (\<lambda>(p, a). AddAddress p a) peers)
      | GossipMessage source mid topic data \<Rightarrow>
          (case observe_message P C render subs now source topic data of
             None \<Rightarrow> (m, [], [], [])
           | Some (events, metrics, acc) \<Rightarrow> (m, events, metrics, [ReportValidation mid source acc]))
      | PeerSubscribed p topic \<Rightarrow>
          (case hm_get (ob_votes subs) topic of
             None \<Rightarrow> (m, [], [], [])
           | Some ck \<Rightarrow>
               (let (m', n) = note_subscribed ck p m; (evs, ms) = report_peer_counts now (map (Pair ck) (case n of None \<Rightarrow> [] | Some k \<Rightarrow> [k]))
                in (m', evs, ms, [])))
      | PeerUnsubscribed p topic \<Rightarrow>
          (case hm_get (ob_votes subs) topic of
             None \<Rightarrow> (m, [], [], [])
           | Some ck \<Rightarrow>
               (let (m', n) = note_unsubscribed ck p m; (evs, ms) = report_peer_counts now (map (Pair ck) (case n of None \<Rightarrow> [] | Some k \<Rightarrow> [k]))
                in (m', evs, ms, [])))
      | ConnectionClosed p num_established \<Rightarrow>
          if num_established = 0
          then (let (m', cs) = note_disconnected p m; (evs, ms) = report_peer_counts now cs in (m', evs, ms, []))
          else (m, [], [], [])
      | OtherEvent \<Rightarrow> (m, [], [], []))"

text \<open>The select loop; the flag of a publication says whether gossipsub took it.\<close>

datatype observer_input =
    ObCancel
  | ObPulse u64
  | ObPublish "reobservation_request option" bool
  | ObSwarm u64 swarm_event

definition observer_arm ::
  "primitives \<Rightarrow> envelope_codec \<Rightarrow> (address \<Rightarrow> string) \<Rightarrow> observer_subs \<Rightarrow> observer_input \<Rightarrow> subscribed_peers \<times> health
    \<Rightarrow> (subscribed_peers \<times> health) \<times> observer_event list \<times> observer_metric list \<times> p2p_action list \<times> bool" where
  "observer_arm P C render subs i s =
     (case i of
        ObCancel \<Rightarrow> (s, [], [], [], False)
      | ObPulse now \<Rightarrow> ((fst s, heartbeat now ''swarm'' (snd s)), [], [], [], True)
      | ObPublish None _ \<Rightarrow> (s, [], [], [], True)
      | ObPublish (Some req) published \<Rightarrow>
          (case hm_get (ob_reobs_topics subs) (ro_chain_key req) of
             None \<Rightarrow> (s, [], [], [], True)
           | Some topic \<Rightarrow>
               (s, [], if published then [IncReobservationPublished] else [], [Publish topic (el_encode_request C req)], True))
      | ObSwarm now e \<Rightarrow>
          (let (m, evs, ms, acts) = observer_swarm_event P C render subs now e (fst s) in ((m, snd s), evs, ms, acts, True)))"

text \<open>
  What receiving from the publish queue yields: nothing yet while a sender is held, the end at once when none is.
  The server keeps the sender only where publishing is allowed.
\<close>

definition publish_recv :: "bool \<Rightarrow> reobservation_request list \<Rightarrow> reobservation_request option option" where
  "publish_recv sender_held queue = (case queue of r # _ \<Rightarrow> Some (Some r) | [] \<Rightarrow> if sender_held then None else Some None)"

text \<open>An observer without a public address does not listen.\<close>

definition observer_listen :: "(nat \<Rightarrow> bool) \<Rightarrow> (nat \<Rightarrow> bool) \<Rightarrow> string option \<Rightarrow> listening option" where
  "observer_listen listen_on cancelled public_addr =
     (if public_addr \<noteq> None then listen_retry listen_on cancelled LISTEN_RETRY_ATTEMPTS else Some DialOnly)"

section \<open>The WebSocket surface\<close>

definition parse_hex32 :: "string \<Rightarrow> bytes option" where
  "parse_hex32 s =
     (let hex = (case strip_prefix ''0x'' s of Some h \<Rightarrow> h | None \<Rightarrow> s)
      in if length hex \<noteq> 64 then None else hex_decode hex)"

datatype publish_error = PublishDisabled | NotObserved u64 | BadMessageId | BadTxHash | QueueRefused

text \<open>\<open>queue\<close> is the sender to the swarm, absent when publishing is off.\<close>

definition publish_reobservation ::
  "(reobservation_request \<Rightarrow> try_send) option \<Rightarrow> u64 list \<Rightarrow> publish_frame \<Rightarrow> publish_error + reobservation_request" where
  "publish_reobservation queue cks frame =
     (case queue of
        None \<Rightarrow> Inl PublishDisabled
      | Some send \<Rightarrow>
          if pu_chain_key frame \<notin> set cks then Inl (NotObserved (pu_chain_key frame))
          else case parse_hex32 (pu_message_id frame) of
                 None \<Rightarrow> Inl BadMessageId
               | Some mid \<Rightarrow>
                   (case parse_hex32 (pu_tx_hash frame) of
                      None \<Rightarrow> Inl BadTxHash
                    | Some tx \<Rightarrow>
                        (let req = \<lparr>ro_chain_key = pu_chain_key frame, ro_message_id = of_nat (be_nat mid),
                                    ro_tx_hash = of_nat (be_nat tx), ro_block_height = pu_block_height frame\<rparr>
                         in case send req of SendOk \<Rightarrow> Inr req | _ \<Rightarrow> Inl QueueRefused)))"

record observer_json =
  oj_render :: "observer_event \<Rightarrow> string option"
  oj_frame :: "string \<Rightarrow> client_frame option"

datatype ws_out =
    OutText string
  | OutLagged nat
  | OutSubscribed
  | OutPublished "publish_error option"
  | OutBadFrame
  | OutMetric observer_metric

definition handle_client_frame ::
  "observer_json \<Rightarrow> (reobservation_request \<Rightarrow> try_send) option \<Rightarrow> u64 list \<Rightarrow> string \<Rightarrow> event_filter
    \<Rightarrow> event_filter \<times> ws_out list" where
  "handle_client_frame J queue cks frame f =
     (case oj_frame J frame of
        None \<Rightarrow> (f, [OutBadFrame])
      | Some (Subscribe new) \<Rightarrow> (new, [OutSubscribed])
      | Some (PublishReobservation p) \<Rightarrow>
          (f, [OutPublished (case publish_reobservation queue cks p of Inl e \<Rightarrow> Some e | Inr _ \<Rightarrow> None)]))"

datatype ws_input =
    HubEvent observer_event
  | HubLagged nat
  | HubClosed
  | ClientText string
  | ClientClose
  | ClientOther
  | ClientGone

text \<open>One turn of a client's loop: its filter, what is sent, and whether the connection goes on; \<open>alive\<close> says if a send succeeds.\<close>

definition client_turn ::
  "observer_json \<Rightarrow> (reobservation_request \<Rightarrow> try_send) option \<Rightarrow> u64 list \<Rightarrow> bool \<Rightarrow> ws_input \<Rightarrow> event_filter
    \<Rightarrow> event_filter \<times> ws_out list \<times> bool" where
  "client_turn J queue cks alive i f =
     (case i of
        HubEvent ev \<Rightarrow>
          if \<not> filter_matches f ev then (f, [], True)
          else (case oj_render J ev of None \<Rightarrow> (f, [], True) | Some t \<Rightarrow> (f, [OutText t], alive))
      | HubLagged missed \<Rightarrow> (f, [OutMetric IncLagDrop, OutLagged missed], False)
      | HubClosed \<Rightarrow> (f, [], False)
      | ClientText t \<Rightarrow> (let (f', out) = handle_client_frame J queue cks t f in (f', out, True))
      | ClientClose \<Rightarrow> (f, [], False)
      | ClientOther \<Rightarrow> (f, [], True)
      | ClientGone \<Rightarrow> (f, [], False))"

fun client_loop ::
  "observer_json \<Rightarrow> (reobservation_request \<Rightarrow> try_send) option \<Rightarrow> u64 list \<Rightarrow> (ws_input \<times> bool) list \<Rightarrow> event_filter \<Rightarrow> ws_out list" where
  "client_loop J queue cks [] f = []"
| "client_loop J queue cks ((i, alive) # is) f =
     (let (f', out, more) = client_turn J queue cks alive i f in out @ (if more then client_loop J queue cks is f' else []))"

text \<open>A connection counts the clients when it opens and when it ends.\<close>

definition serve_client ::
  "observer_json \<Rightarrow> (reobservation_request \<Rightarrow> try_send) option \<Rightarrow> u64 list \<Rightarrow> nat \<Rightarrow> nat \<Rightarrow> (ws_input \<times> bool) list \<Rightarrow> ws_out list" where
  "serve_client J queue cks at_open at_end is =
     OutMetric (WsClients at_open) # client_loop J queue cks is default_filter @ [OutMetric (WsClients (at_end - 1))]"

definition ws_admits :: "nat \<Rightarrow> nat \<Rightarrow> bool" where
  "ws_admits subscriber_count max_clients \<longleftrightarrow> \<not> max_clients \<le> subscriber_count"

datatype health_answer = Healthy | DegradedWorkers "string list" | StaleWorkers "string list"

definition health_handler :: "u64 \<Rightarrow> health \<Rightarrow> health \<times> health_answer" where
  "health_handler now h =
     (let (h', report, _) = health_report now h in
      (h', if \<not> is_alive report then StaleWorkers (hr_stale report)
           else if hr_degraded report = [] then Healthy else DegradedWorkers (hr_degraded report)))"

section \<open>Configuration\<close>

definition DEFAULT_MAX_CLIENTS :: nat where "DEFAULT_MAX_CLIENTS = 256"

record observer_p2p_doc =
  op_port :: u16
  op_boot_nodes :: "string list option"
  op_public_addr :: "string option"
  op_identity :: "string option"
  op_no_mdns :: "bool option"

record observer_p2p =
  on_port :: u16
  on_boot_nodes :: "string list"
  on_public_addr :: "string option"
  on_identity :: "string option"
  on_no_mdns :: bool

definition observer_p2p_of :: "observer_p2p_doc \<Rightarrow> observer_p2p" where
  "observer_p2p_of d =
     \<lparr>on_port = op_port d, on_boot_nodes = unwrap_or [] (op_boot_nodes d), on_public_addr = op_public_addr d,
      on_identity = op_identity d, on_no_mdns = unwrap_or False (op_no_mdns d)\<rparr>"

record observer_doc =
  od_chain_keys :: "u64 list"
  od_p2p :: observer_p2p_doc
  od_bind_host :: string
  od_bind_port :: u16
  od_allow_publish :: "bool option"
  od_max_clients :: "nat option"

record observer_config =
  og_chain_keys :: "u64 list"
  og_p2p :: observer_p2p
  og_bind_host :: string
  og_bind_port :: u16
  og_allow_publish :: bool
  og_max_clients :: nat

datatype observer_config_error = ObserverFileUnreadable | ObserverInvalidYaml | NoChainKeys

definition observer_load :: "(string \<Rightarrow> observer_doc option) \<Rightarrow> string option \<Rightarrow> observer_config_error + observer_config" where
  "observer_load yaml content =
     (case content of
        None \<Rightarrow> Inl ObserverFileUnreadable
      | Some t \<Rightarrow>
          (case yaml t of
             None \<Rightarrow> Inl ObserverInvalidYaml
           | Some d \<Rightarrow>
               if od_chain_keys d = [] then Inl NoChainKeys
               else Inr \<lparr>og_chain_keys = od_chain_keys d, og_p2p = observer_p2p_of (od_p2p d), og_bind_host = od_bind_host d, og_bind_port = od_bind_port d,
                         og_allow_publish = unwrap_or False (od_allow_publish d),
                         og_max_clients = unwrap_or DEFAULT_MAX_CLIENTS (od_max_clients d)\<rparr>))"

section \<open>The server\<close>

text \<open>What \<^verbatim>\<open>Server::run\<close> hands to the WebSocket surface; without publishing no sender is kept.\<close>

record ws_state =
  wt_queue :: "(reobservation_request \<Rightarrow> try_send) option"
  wt_chain_keys :: "u64 list"
  wt_max_clients :: nat

definition observer_ws_state :: "observer_config \<Rightarrow> (reobservation_request \<Rightarrow> try_send) \<Rightarrow> ws_state" where
  "observer_ws_state c send =
     \<lparr>wt_queue = (if og_allow_publish c then Some send else None), wt_chain_keys = og_chain_keys c, wt_max_clients = og_max_clients c\<rparr>"

datatype observer_server_error = ObserverBindHost string | ObserverBindFailed

definition observer_serve ::
  "bool \<Rightarrow> bool \<Rightarrow> observer_config \<Rightarrow> (reobservation_request \<Rightarrow> try_send) \<Rightarrow> observer_server_error + ws_state" where
  "observer_serve host_parses binds c send =
     (if \<not> host_parses then Inl (ObserverBindHost (og_bind_host c))
      else if \<not> binds then Inl ObserverBindFailed
      else Inr (observer_ws_state c send))"

text \<open>
  A read-only observer never waits: its publish queue has ended, so receiving from it is ready in
  every turn of the loop, and the turn changes nothing.
\<close>

lemma read_only_observer_spins:
  "publish_recv (wt_queue (observer_ws_state c send) \<noteq> None) [] = (if og_allow_publish c then None else Some None)"
  "observer_arm P C render subs (ObPublish None published) s = (s, [], [], [], True)"
  by (simp_all add: publish_recv_def observer_ws_state_def observer_arm_def)

end
