(* ===== verification/Observer_Client.thy ===== *)
theory Observer_Client
  imports Observer
begin

text \<open>
  The relayer's client of an observer node (\<^verbatim>\<open>message-relayer/src/observer_client.rs\<close>): the conversion of event
  frames back into wire envelopes, one session with its select arms, and the reconnecting loop. The
  socket and the JSON codec are the environment.
\<close>

definition RECONNECT_BASE :: duration where "RECONNECT_BASE = secs 2"
definition RECONNECT_MAX :: duration where "RECONNECT_MAX = secs 60"
definition PING_INTERVAL :: duration where "PING_INTERVAL = secs 30"
definition OBSERVER_HEALTH_KEY :: string where "OBSERVER_HEALTH_KEY = ''observer-client''"

section \<open>Event frames\<close>

record observer_vote =
  cv_chain_key :: u64
  cv_message_id :: string
  cv_signer :: string
  cv_signature :: string

record observer_set_update =
  cx_chain_key :: u64
  cx_new_attestors :: "string list"
  cx_nonce :: string
  cx_signer :: string
  cx_signature :: string

datatype client_event = ClientVote observer_vote | ClientSetUpdate observer_set_update | ClientStatus u64 nat | ClientIgnored

datatype hex_error = WrongLength nat | NotHex

definition parse_hex :: "nat \<Rightarrow> string \<Rightarrow> hex_error + bytes" where
  "parse_hex n s =
     (let hex = (case strip_prefix ''0x'' s of Some h \<Rightarrow> h | None \<Rightarrow> s) in
      if length hex \<noteq> n * 2 then Inl (WrongLength (length hex))
      else case hex_decode hex of None \<Rightarrow> Inl NotHex | Some bs \<Rightarrow> Inr bs)"

definition word_of_bytes :: "bytes \<Rightarrow> 'a::len word" where "word_of_bytes bs = of_nat (be_nat bs)"

definition convert_vote :: "observer_vote \<Rightarrow> hex_error + message_vote" where
  "convert_vote v =
     and_then (parse_hex 32 (cv_message_id v)) (\<lambda>message_id.
     and_then (parse_hex 20 (cv_signer v)) (\<lambda>signer.
     and_then (parse_hex 65 (cv_signature v)) (\<lambda>signature.
     Inr \<lparr>mv_chain_key = cv_chain_key v, mv_message_id = word_of_bytes message_id, mv_signer = word_of_bytes signer,
          mv_signature = signature\<rparr>)))"

definition convert_set_update :: "observer_set_update \<Rightarrow> hex_error + set_update_vote" where
  "convert_set_update v =
     and_then (traverse_list (parse_hex 20) (cx_new_attestors v)) (\<lambda>new_attestors.
     and_then (parse_hex 32 (cx_nonce v)) (\<lambda>nonce.
     and_then (parse_hex 20 (cx_signer v)) (\<lambda>signer.
     and_then (parse_hex 65 (cx_signature v)) (\<lambda>signature.
     Inr \<lparr>uv_chain_key = cx_chain_key v, uv_new_attestors = map word_of_bytes new_attestors, uv_nonce = word_of_bytes nonce,
          uv_signer = word_of_bytes signer, uv_signature = signature\<rparr>))))"

definition handle_event ::
  "(string \<Rightarrow> client_event option) \<Rightarrow> (message_vote \<Rightarrow> try_send) \<Rightarrow> (set_update_vote \<Rightarrow> try_send) \<Rightarrow> string \<Rightarrow> p2p_action list" where
  "handle_event parse send_vote send_update frame =
     (case parse frame of
        None \<Rightarrow> []
      | Some (ClientVote v) \<Rightarrow>
          (case convert_vote v of
             Inr vote \<Rightarrow> hand_vote send_vote (cv_chain_key v) vote
           | Inl _ \<Rightarrow> [VoteMetric (cv_chain_key v) Reject])
      | Some (ClientSetUpdate v) \<Rightarrow> (case convert_set_update v of Inr vote \<Rightarrow> hand_set_update send_update vote | Inl _ \<Rightarrow> [])
      | Some (ClientStatus ck n) \<Rightarrow> [PeerGauge ck n]
      | Some ClientIgnored \<Rightarrow> [])"

section \<open>A session\<close>

text \<open>The frame a reobservation request is sent as.\<close>

definition reobservation_frame :: "reobservation_request \<Rightarrow> publish_frame" where
  "reobservation_frame req =
     \<lparr>pu_chain_key = ro_chain_key req, pu_message_id = hex0x (b256_bytes (ro_message_id req)),
      pu_tx_hash = hex0x (b256_bytes (ro_tx_hash req)), pu_block_height = ro_block_height req\<rparr>"

definition subscribe_frame :: "u64 list \<Rightarrow> event_filter" where
  "subscribe_frame cks =
     \<lparr>fi_chain_keys = cks, fi_events = [KMessageVote, KSetUpdateVote, KPeerStatus], fi_message_id = None\<rparr>"

datatype session_event =
    SessionCancel
  | SessionPing bool
  | SessionRequest "reobservation_request option" bool
  | SessionText u64 string
  | SessionPong u64
  | SessionCloseFrame
  | SessionEnded
  | SessionReceiveFailed
  | SessionOtherFrame

datatype session_next = SessionGoesOn | SessionCancelled | SessionLost

text \<open>The flag of a sending arm says whether the socket took the frame. Results: health, actions, published frames.\<close>

definition session_turn ::
  "(string \<Rightarrow> client_event option) \<Rightarrow> (message_vote \<Rightarrow> try_send) \<Rightarrow> (set_update_vote \<Rightarrow> try_send) \<Rightarrow> session_event \<Rightarrow> health
    \<Rightarrow> health \<times> p2p_action list \<times> publish_frame list \<times> session_next" where
  "session_turn parse send_vote send_update ev h =
     (case ev of
        SessionCancel \<Rightarrow> (h, [], [], SessionCancelled)
      | SessionPing sent \<Rightarrow> (h, [], [], if sent then SessionGoesOn else SessionLost)
      | SessionRequest None _ \<Rightarrow> (h, [], [], SessionGoesOn)
      | SessionRequest (Some req) sent \<Rightarrow>
          if sent then (h, [], [reobservation_frame req], SessionGoesOn) else (h, [], [], SessionLost)
      | SessionText now frame \<Rightarrow>
          (heartbeat now OBSERVER_HEALTH_KEY h, handle_event parse send_vote send_update frame, [], SessionGoesOn)
      | SessionPong now \<Rightarrow> (heartbeat now OBSERVER_HEALTH_KEY h, [], [], SessionGoesOn)
      | SessionCloseFrame \<Rightarrow> (h, [], [], SessionLost)
      | SessionEnded \<Rightarrow> (h, [], [], SessionLost)
      | SessionReceiveFailed \<Rightarrow> (h, [], [], SessionLost)
      | SessionOtherFrame \<Rightarrow> (h, [], [], SessionGoesOn))"

text \<open>How opening ended; a session counts as progress once connected, before the subscription is sent.\<close>

datatype session_open = OpenCancelled | OpenFailed | OpenUnsubscribed u64 | Opened u64

fun session_loop ::
  "(string \<Rightarrow> client_event option) \<Rightarrow> (message_vote \<Rightarrow> try_send) \<Rightarrow> (set_update_vote \<Rightarrow> try_send) \<Rightarrow> session_event list \<Rightarrow> health
    \<Rightarrow> health \<times> p2p_action list \<times> publish_frame list \<times> session_next" where
  "session_loop parse send_vote send_update [] h = (h, [], [], SessionGoesOn)"
| "session_loop parse send_vote send_update (ev # evs) h =
     (case session_turn parse send_vote send_update ev h of
        (h', acts, frames, SessionGoesOn) \<Rightarrow>
          (let (h'', acts', frames', next) = session_loop parse send_vote send_update evs h' in (h'', acts @ acts', frames @ frames', next))
      | ended \<Rightarrow> ended)"

definition session ::
  "(string \<Rightarrow> client_event option) \<Rightarrow> (message_vote \<Rightarrow> try_send) \<Rightarrow> (set_update_vote \<Rightarrow> try_send) \<Rightarrow> session_open \<Rightarrow> session_event list
    \<Rightarrow> health \<Rightarrow> health \<times> p2p_action list \<times> publish_frame list \<times> session_next" where
  "session parse send_vote send_update opening evs h =
     (case opening of
        OpenCancelled \<Rightarrow> (h, [], [], SessionCancelled)
      | OpenFailed \<Rightarrow> (h, [], [], SessionLost)
      | OpenUnsubscribed now \<Rightarrow> (heartbeat now OBSERVER_HEALTH_KEY h, [], [], SessionLost)
      | Opened now \<Rightarrow> session_loop parse send_vote send_update evs (heartbeat now OBSERVER_HEALTH_KEY h))"

section \<open>Reconnecting\<close>

text \<open>
  How a session ended, and whether the wait after it is cancelled. The wait doubles up to the maximum
  and is not reset by a session that worked.
\<close>

datatype session_end = EndedCancelled | EndedLost

fun client_run :: "(session_end \<times> bool) list \<Rightarrow> duration \<Rightarrow> duration list" where
  "client_run [] wait = []"
| "client_run ((EndedCancelled, _) # rest) wait = []"
| "client_run ((EndedLost, cancelled) # rest) wait =
     wait # (if cancelled then [] else client_run rest (min (wait * 2) RECONNECT_MAX))"

section \<open>Round trips of the texts\<close>

lemma parse_hex_hex0x [simp]: "length bs = n \<Longrightarrow> parse_hex n (hex0x bs) = Inr bs"
  by (simp add: parse_hex_def hex0x_def strip_prefix_def)

lemma parse_hex32_hex0x [simp]: "length bs = 32 \<Longrightarrow> parse_hex32 (hex0x bs) = Some bs"
  by (simp add: parse_hex32_def hex0x_def strip_prefix_def)

lemma length_word_bytes [simp]: "length (b256_bytes w) = 32" "length (address_bytes a) = 20"
  by (simp_all add: b256_bytes_def address_bytes_def)

lemma word_of_bytes_b256 [simp]: "word_of_bytes (b256_bytes w) = w"
proof -
  have "unat w < 2 ^ LENGTH(256)" by (rule unsigned_less)
  then show ?thesis by (simp add: word_of_bytes_def b256_bytes_def be_nat_to_be_bytes)
qed

lemma word_of_bytes_address [simp]: "word_of_bytes (address_bytes a) = a"
proof -
  have "unat a < 2 ^ LENGTH(160)" by (rule unsigned_less)
  then show ?thesis by (simp add: word_of_bytes_def address_bytes_def be_nat_to_be_bytes)
qed

lemma traverse_addresses: "traverse_list (parse_hex 20) (map (\<lambda>a. hex0x (address_bytes a)) as) = Inr (map address_bytes as)"
  by (induction "as") simp_all

text \<open>A request survives the observer's publish frame.\<close>

lemma published_request:
  assumes "ro_chain_key req \<in> set cks" "send req = SendOk"
  shows "publish_reobservation (Some send) cks (reobservation_frame req) = Inr req"
proof -
  have "of_nat (be_nat (b256_bytes w)) = w" for w using word_of_bytes_b256 [of w] by (simp add: word_of_bytes_def)
  with assms show ?thesis by (cases req) (simp add: publish_reobservation_def reobservation_frame_def Let_def)
qed

text \<open>The waits never leave their bounds, and after five lost sessions every wait is the longest.\<close>

lemma client_run_bounds: "RECONNECT_BASE \<le> b \<Longrightarrow> b \<le> RECONNECT_MAX \<Longrightarrow> w \<in> set (client_run ends b) \<Longrightarrow> RECONNECT_BASE \<le> w \<and> w \<le> RECONNECT_MAX"
  by (induction ends b rule: client_run.induct) (auto split: if_splits simp: RECONNECT_BASE_def RECONNECT_MAX_def)

lemma client_run_doubles:
  "i < n \<Longrightarrow> client_run (replicate n (EndedLost, False)) (min (RECONNECT_BASE * 2 ^ k) RECONNECT_MAX) ! i =
     min (RECONNECT_BASE * 2 ^ (k + i)) RECONNECT_MAX"
proof (induction n arbitrary: i k)
  case (Suc n)
  have "min (min (RECONNECT_BASE * 2 ^ k) RECONNECT_MAX * 2) RECONNECT_MAX = min (RECONNECT_BASE * 2 ^ Suc k) RECONNECT_MAX"
    by (simp add: min_def)
  with Suc.IH [of "i - 1" "Suc k"] Suc.prems show ?case by (cases i) simp_all
qed simp

text \<open>The wait after the \<open>n\<close>-th lost session in a row.\<close>

definition reconnect_wait :: "nat \<Rightarrow> duration" where
  "reconnect_wait n = client_run (replicate (Suc n) (EndedLost, False)) RECONNECT_BASE ! n"

lemma reconnect_wait_doubling: "reconnect_wait n = min (RECONNECT_BASE * 2 ^ n) RECONNECT_MAX"
  using client_run_doubles [of n "Suc n" 0]
  by (simp add: reconnect_wait_def RECONNECT_BASE_def RECONNECT_MAX_def min_def del: client_run.simps replicate_Suc)

interpretation reconnects: backoff reconnect_wait "secs 2" "secs 60" 5
proof unfold_locales
  show "reconnect_wait a \<le> reconnect_wait b" if "a \<le> b" for a b
    unfolding reconnect_wait_doubling using that by (intro min.mono mult_le_mono power_increasing) simp_all
  show "secs 2 \<le> reconnect_wait a" for a
    unfolding reconnect_wait_doubling by (simp add: RECONNECT_BASE_def RECONNECT_MAX_def)
  show "reconnect_wait a = secs 60" if "5 \<le> a" for a
  proof -
    from that have "(2 :: nat) ^ 5 \<le> 2 ^ a" by (rule power_increasing) simp
    then have "secs 60 \<le> secs 2 * 2 ^ a" by (simp add: secs_def)
    then show ?thesis by (simp add: reconnect_wait_doubling RECONNECT_BASE_def RECONNECT_MAX_def)
  qed
qed

lemma client_run_stays_max: "client_run (replicate n (EndedLost, False)) RECONNECT_MAX = replicate n RECONNECT_MAX"
  by (induction n) (simp_all add: RECONNECT_MAX_def secs_def)

lemma client_run_no_reset:
  "client_run (replicate (5 + n) (EndedLost, False)) RECONNECT_BASE = [secs 2, secs 4, secs 8, secs 16, secs 32] @ replicate n RECONNECT_MAX"
proof -
  have "replicate (5 + n) x = x # x # x # x # x # replicate n x" for x :: "session_end \<times> bool"
    by (simp add: eval_nat_numeral)
  moreover have "min (secs 64) RECONNECT_MAX = RECONNECT_MAX" by (simp add: RECONNECT_MAX_def secs_def)
  ultimately show ?thesis using client_run_stays_max [of n] by (simp add: RECONNECT_BASE_def RECONNECT_MAX_def secs_def)
qed

end
