(* ===== verification/Dest_Revert.thy ===== *)
theory Dest_Revert
  imports Revert
begin

text \<open>
  Explaining a destination revert (\<^verbatim>\<open>message-relayer/src/dest_revert.rs\<close>): decoding of return data, classification
  of a failed \<^verbatim>\<open>eth_call\<close>, and the two replays that tell a revert from an exhausted gas limit. A sentence
  of the code is a constructor with the values it mentions; selectors, ABI decoding and the reading of
  panic codes are the parameters \<open>revert_abi\<close>.
\<close>

section \<open>Return data\<close>

datatype panic_kind =
    PGeneric | PAssert | PUnderOverflow | PDivisionByZero | PEnumConversionError | PStorageEncodingError
  | PEmptyArrayPop | PArrayOutOfBounds | PResourceError | PInvalidInternalFunction | POther

fun panic_kind_name :: "panic_kind \<Rightarrow> string" where
  "panic_kind_name PGeneric = ''generic compiler panic''"
| "panic_kind_name PAssert = ''assert(false)''"
| "panic_kind_name PUnderOverflow = ''arithmetic underflow/overflow''"
| "panic_kind_name PDivisionByZero = ''division by zero''"
| "panic_kind_name PEnumConversionError = ''invalid enum conversion''"
| "panic_kind_name PStorageEncodingError = ''storage encoding error''"
| "panic_kind_name PEmptyArrayPop = ''pop on empty array''"
| "panic_kind_name PArrayOutOfBounds = ''array index out of bounds''"
| "panic_kind_name PResourceError = ''allocation too large''"
| "panic_kind_name PInvalidInternalFunction = ''invalid internal function''"
| "panic_kind_name POther = ''unknown panic code''"

text \<open>The selector of an error by name, and the arguments its payload decodes to, each as a 256-bit word.\<close>

record revert_abi =
  rb_selector :: "string \<Rightarrow> bytes"
  rb_args :: "string \<Rightarrow> bytes \<Rightarrow> u256 list option"
  rb_string :: "bytes \<Rightarrow> string option"
  rb_panic :: "bytes \<Rightarrow> u256 option"
  rb_panic_kind :: "u256 \<Rightarrow> panic_kind option"
  rb_envelope :: "bytes \<Rightarrow> (address \<times> u256 \<times> u256 \<times> bytes) option"

datatype revert_text =
    EmptyData
  | NonAbiData bytes
  | ErrorString string
  | PanicCode u256 string
  | KnownError string "u256 list"
  | CustomError bytes nat

definition known_reverts :: "string list" where
  "known_reverts =
     [''ERC20InsufficientBalance'', ''ERC20InsufficientAllowance'', ''ERC20InvalidSender'', ''ERC20InvalidReceiver'',
      ''ERC20InvalidApprover'', ''ERC20InvalidSpender'', ''ERC721NonexistentToken'', ''ERC721IncorrectOwner'',
      ''ERC721InsufficientApproval'', ''ERC721InvalidReceiver'', ''OwnableUnauthorizedAccount'', ''OwnableInvalidOwner'',
      ''AccessControlUnauthorizedAccount'', ''EnforcedPause'', ''ExpectedPause'', ''ReentrancyGuardReentrantCall'',
      ''AddressEmptyCode'', ''AddressInsufficientBalance'', ''FailedInnerCall'', ''FailedCall'', ''SafeERC20FailedOperation'',
      ''MessageAlreadyProcessed'', ''UnsupportedOutbox'', ''InsufficientGasForDestination'']"

text \<open>The first known error whose selector matches and whose arguments decode.\<close>

fun try_known :: "revert_abi \<Rightarrow> bytes \<Rightarrow> string list \<Rightarrow> revert_text option" where
  "try_known B data [] = None"
| "try_known B data (name # names) =
     (if take 4 data = rb_selector B name
      then (case rb_args B name data of Some args \<Rightarrow> Some (KnownError name args) | None \<Rightarrow> try_known B data names)
      else try_known B data names)"

definition describe_known :: "revert_abi \<Rightarrow> bytes \<Rightarrow> revert_text" where
  "describe_known B data =
     (case try_known B data known_reverts of Some t \<Rightarrow> t | None \<Rightarrow> CustomError (take 4 data) (length data))"

definition describe_panic :: "revert_abi \<Rightarrow> bytes \<Rightarrow> revert_text" where
  "describe_panic B data =
     (if take 4 data = rb_selector B ''Panic''
      then (case rb_panic B data of
              Some code \<Rightarrow> PanicCode code (case rb_panic_kind B code of None \<Rightarrow> ''unknown'' | Some k \<Rightarrow> panic_kind_name k)
            | None \<Rightarrow> describe_known B data)
      else describe_known B data)"

definition describe_revert_data :: "revert_abi \<Rightarrow> bytes \<Rightarrow> revert_text" where
  "describe_revert_data B data =
     (if data = [] then EmptyData
      else if length data < 4 then NonAbiData data
      else if take 4 data = rb_selector B ''Error''
      then (case rb_string B data of Some reason \<Rightarrow> ErrorString reason | None \<Rightarrow> describe_panic B data)
      else describe_panic B data)"

section \<open>Failed calls\<close>

datatype call_failure = CallReverted bytes | CallOutOfGas | CallNode string | CallRpc string

text \<open>An RPC error: whether the node answered, the structured revert data, and the text.\<close>

record rpc_error =
  er_answered :: bool
  er_data :: "bytes option"
  er_text :: string

definition classify_parts :: "bool \<Rightarrow> bytes option \<Rightarrow> string \<Rightarrow> call_failure" where
  "classify_parts node_answered data err =
     (case data of
        Some d \<Rightarrow> CallReverted d
      | None \<Rightarrow>
          if is_revert err then CallReverted []
          else let lower = map to_ascii_lower err in
          if contains_sub ''out of gas'' lower \<or> contains_sub ''gas required exceeds'' lower then CallOutOfGas
          else if node_answered then CallNode err
          else CallRpc err)"

definition classify_call_error :: "rpc_error \<Rightarrow> call_failure" where
  "classify_call_error e =
     classify_parts (er_answered e)
       (case (if er_answered e then er_data e else None) of Some d \<Rightarrow> Some d | None \<Rightarrow> revert_data (er_text e)) (er_text e)"

section \<open>The probe\<close>

record call_request =
  cq_from :: address
  cq_to :: address
  cq_input :: bytes
  cq_value :: u256
  cq_gas :: "u64 option"
  cq_block :: "u64 option"

text \<open>The node at a block: the code of an account, and a call.\<close>

record probe_node =
  pn_code :: "address \<Rightarrow> u64 option \<Rightarrow> unit + bytes"
  pn_call :: "call_request \<Rightarrow> rpc_error + unit"

datatype probe_reason =
    NoCode address "u64 option"
  | SucceedsOnReplay "u64 option" u64
  | Described revert_text
  | NodeRejected string
  | NeedsMoreGas u64
  | DescribedUncapped revert_text u64
  | OutOfGasUncapped
  | EmptyThenRejected u64 string
  | EmptyThenSilent u64

definition probe_gas :: "u256 \<Rightarrow> u64" where
  "probe_gas gas_limit = (if unat gas_limit < 2 ^ 64 then ucast gas_limit else - 1)"

definition emitter_bytes :: "address \<Rightarrow> bytes" where
  "emitter_bytes a = map (\<lambda>i. ucast (drop_bit (8 * (19 - i)) a)) [0..<20]"

definition probe_request :: "address \<Rightarrow> address \<Rightarrow> address \<Rightarrow> u256 \<Rightarrow> bytes \<Rightarrow> u64 option \<Rightarrow> call_request" where
  "probe_request dispatcher emitter destination value payload_data block =
     \<lparr>cq_from = dispatcher, cq_to = destination, cq_input = payload_data @ emitter_bytes emitter, cq_value = value,
      cq_gas = None, cq_block = block\<rparr>"

text \<open>The replay without the cap, after the capped one gave no reason.\<close>

definition probe_uncapped :: "revert_abi \<Rightarrow> probe_node \<Rightarrow> call_request \<Rightarrow> u64 \<Rightarrow> probe_reason" where
  "probe_uncapped B node base gas =
     (case pn_call node base of
        Inr _ \<Rightarrow> NeedsMoreGas gas
      | Inl e \<Rightarrow>
          (case classify_call_error e of
             CallReverted d \<Rightarrow>
               if d \<noteq> [] then DescribedUncapped (describe_revert_data B d) gas else Described (describe_revert_data B [])
           | CallOutOfGas \<Rightarrow> OutOfGasUncapped
           | CallNode t \<Rightarrow> EmptyThenRejected gas t
           | CallRpc t \<Rightarrow> EmptyThenSilent gas))"

definition probe_capped :: "revert_abi \<Rightarrow> probe_node \<Rightarrow> call_request \<Rightarrow> u64 \<Rightarrow> probe_reason option" where
  "probe_capped B node base gas =
     (case pn_call node (base\<lparr>cq_gas := Some gas\<rparr>) of
        Inr _ \<Rightarrow> Some (SucceedsOnReplay (cq_block base) gas)
      | Inl e \<Rightarrow>
          (case classify_call_error e of
             CallReverted d \<Rightarrow>
               if d \<noteq> [] then Some (Described (describe_revert_data B d)) else Some (probe_uncapped B node base gas)
           | CallOutOfGas \<Rightarrow> Some (probe_uncapped B node base gas)
           | CallNode t \<Rightarrow> Some (NodeRejected t)
           | CallRpc t \<Rightarrow> None))"

definition probe_destination_revert ::
  "revert_abi \<Rightarrow> probe_node \<Rightarrow> address \<Rightarrow> address \<Rightarrow> bytes \<Rightarrow> u64 option \<Rightarrow> probe_reason option" where
  "probe_destination_revert B node dispatcher emitter payload block =
     (case rb_envelope B payload of
        None \<Rightarrow> None
      | Some (destination, native_value, gas_limit, payload_data) \<Rightarrow>
          if pn_code node destination block = Inr [] then Some (NoCode destination block)
          else probe_capped B node (probe_request dispatcher emitter destination native_value payload_data block)
                 (probe_gas gas_limit))"

section \<open>What a reason rests on\<close>

lemma try_known_Some:
  "try_known B data names = Some t \<Longrightarrow>
     \<exists>name \<in> set names. \<exists>args. t = KnownError name args \<and> take 4 data = rb_selector B name \<and> rb_args B name data = Some args"
  by (induction B data names rule: try_known.induct) (auto split: if_splits option.splits)

text \<open>A call gave no reason: an empty revert or an explicit out-of-gas.\<close>

definition mute :: "rpc_error \<Rightarrow> bool" where
  "mute e \<longleftrightarrow> classify_call_error e = CallReverted [] \<or> classify_call_error e = CallOutOfGas"

lemma probe_uncapped_needs_gas: "probe_uncapped B node base gas = NeedsMoreGas g \<longleftrightarrow> g = gas \<and> pn_call node base = Inr ()"
  by (auto simp: probe_uncapped_def split: sum.splits call_failure.splits)

lemma probe_capped_needs_gas:
  "probe_capped B node base gas = Some (NeedsMoreGas g) \<longleftrightarrow>
     g = gas \<and> (\<exists>e. pn_call node (base\<lparr>cq_gas := Some gas\<rparr>) = Inl e \<and> mute e) \<and> pn_call node base = Inr ()"
  by (auto simp: probe_capped_def mute_def probe_uncapped_needs_gas split: sum.splits call_failure.splits)

lemma probe_capped_None:
  "probe_capped B node base gas = None \<longleftrightarrow>
     (\<exists>e t. pn_call node (base\<lparr>cq_gas := Some gas\<rparr>) = Inl e \<and> classify_call_error e = CallRpc t)"
  by (auto simp: probe_capped_def split: sum.splits call_failure.splits)

lemma probe_None:
  "probe_destination_revert B node dispatcher emitter payload block = None \<longleftrightarrow>
     (case rb_envelope B payload of
        None \<Rightarrow> True
      | Some (d, v, g, p) \<Rightarrow>
          pn_code node d block \<noteq> Inr [] \<and>
          (\<exists>e t. pn_call node ((probe_request dispatcher emitter d v p block)\<lparr>cq_gas := Some (probe_gas g)\<rparr>) = Inl e \<and>
                 classify_call_error e = CallRpc t))"
  by (auto simp: probe_destination_revert_def probe_capped_None split: option.split)

lemma probe_needs_gas:
  "probe_destination_revert B node dispatcher emitter payload block = Some (NeedsMoreGas gas) \<longleftrightarrow>
     (\<exists>d v g p. rb_envelope B payload = Some (d, v, g, p) \<and> gas = probe_gas g \<and> pn_code node d block \<noteq> Inr [] \<and>
        (\<exists>e. pn_call node ((probe_request dispatcher emitter d v p block)\<lparr>cq_gas := Some gas\<rparr>) = Inl e \<and> mute e) \<and>
        pn_call node (probe_request dispatcher emitter d v p block) = Inr ())"
  by (auto simp: probe_destination_revert_def probe_capped_needs_gas split: option.split)

end
