(* ===== verification/Observer_Theorems.thy ===== *)
theory Observer_Theorems
  imports Observer_Client Dest_Revert
begin

text \<open>
  The observer path end to end: a gossip frame through the observer's swarm task, the WebSocket loop of one
  client and the relayer's client of the observer, compared with the frame through the relayer's own swarm;
  and the gauge of subscribed peers.
\<close>

section \<open>Topics of the observer\<close>

lemma observe_all_snoc: "observe_all (cks @ [ck]) = observe_chain ck (observe_all cks)"
  by (simp add: observe_all_def)

lemma observed_topics:
  "hm_get (ob_votes (observe_all cks)) (message_votes_topic ck) = (if ck \<in> set cks then Some ck else None)"
  by (induction cks rule: rev_induct) (simp_all add: observe_all_def observe_chain_def update_conv')

lemma observed_topic_only:
  "hm_get (ob_votes (observe_all cks)) topic = Some ck \<longleftrightarrow> ck \<in> set cks \<and> topic = message_votes_topic ck"
  by (induction cks rule: rev_induct) (auto simp: observe_all_def observe_chain_def update_conv')

section \<open>From the observer to the relayer\<close>

text \<open>
  What JSON and the rendering of an address are relied on for: a vote event is written, it is read back by the
  client as its four fields, and a rendered address is read back as its bytes.
\<close>

definition vote_fields :: "vote_event \<Rightarrow> observer_vote" where
  "vote_fields e = \<lparr>cv_chain_key = ve_chain_key e, cv_message_id = ve_message_id e, cv_signer = ve_signer e, cv_signature = ve_signature e\<rparr>"

definition json_law :: "observer_json \<Rightarrow> (string \<Rightarrow> client_event option) \<Rightarrow> bool" where
  "json_law J parse \<longleftrightarrow> (\<forall>e. \<exists>t. oj_render J (EvVote e) = Some t \<and> parse t = Some (ClientVote (vote_fields e)))"

definition render_law :: "(address \<Rightarrow> string) \<Rightarrow> bool" where
  "render_law render \<longleftrightarrow> (\<forall>a. parse_hex 20 (render a) = Inr (address_bytes a))"

text \<open>Events put on the hub, seen by one client that keeps up and reads every frame.\<close>

definition relayed ::
  "observer_json \<Rightarrow> (string \<Rightarrow> client_event option) \<Rightarrow> (message_vote \<Rightarrow> try_send) \<Rightarrow> (set_update_vote \<Rightarrow> try_send)
    \<Rightarrow> u64 list \<Rightarrow> observer_event list \<Rightarrow> p2p_action list" where
  "relayed J parse send_vote send_update cks events =
     concat (map (\<lambda>out. case out of OutText t \<Rightarrow> handle_event parse send_vote send_update t | _ \<Rightarrow> [])
       (client_loop J None [] (map (\<lambda>e. (HubEvent e, True)) events) (subscribe_frame cks)))"

lemma wanted_vote: "ve_chain_key e \<in> set cks \<Longrightarrow> filter_matches (subscribe_frame cks) (EvVote e)"
  by (simp add: filter_matches_def subscribe_frame_def)

lemma relayed_vote:
  assumes "json_law J parse" "ve_chain_key e \<in> set cks"
  shows "relayed J parse send_vote send_update cks [EvVote e] =
    (case convert_vote (vote_fields e) of Inr v \<Rightarrow> hand_vote send_vote (ve_chain_key e) v | Inl _ \<Rightarrow> [VoteMetric (ve_chain_key e) Reject])"
proof -
  from assms(1) obtain t where t: "oj_render J (EvVote e) = Some t" "parse t = Some (ClientVote (vote_fields e))"
    unfolding json_law_def by blast
  then show ?thesis by (simp add: relayed_def client_turn_def wanted_vote [OF assms(2)] handle_event_def vote_fields_def split: sum.split)
qed

lemma convert_observed:
  assumes "render_law render" "length sg = 65"
  shows "convert_vote \<lparr>cv_chain_key = ck, cv_message_id = hex0x (b256_bytes mid), cv_signer = render a, cv_signature = hex0x sg\<rparr> =
    Inr \<lparr>mv_chain_key = ck, mv_message_id = mid, mv_signer = a, mv_signature = sg\<rparr>"
  using assms by (simp add: convert_vote_def render_law_def)

lemma recover_signer_ecrecover: "recover_signer P h raw = Inr a \<Longrightarrow> ecrecover P h raw = Some a"
  by (auto simp: recover_signer_def Let_def split: if_splits option.splits)

text \<open>The vote a frame yields on its topic, whatever its signature.\<close>

lemma observed_vote:
  assumes "ck \<in> set watched" "el_vote C data = Some vote" "mv_chain_key vote = ck"
    and "recover_signer P (mv_message_id vote) (mv_signature vote) = Inr (mv_signer vote)"
  shows "observer_swarm_event P C render (observe_all watched) now (GossipMessage source mid (message_votes_topic ck) data) m =
    (m, [vote_event_of render now ck (mv_message_id vote) (mv_signer vote) True (mv_signature vote) source],
     [IncEvent KMessageVote EvAccepted], [ReportValidation mid source MessageAccept])"
  using assms(1-3) recover_signer_ecrecover [OF assms(4)]
  by (simp add: observer_swarm_event_def observe_message_def observed_topics observe_vote_def observer_recover_def)

section \<open>The gauge\<close>

text \<open>The peers subscribed to a topic, by the events so far, the latest first: subscriptions, cancellations, lost last connections.\<close>

fun subscribed_after :: "string \<Rightarrow> swarm_event list \<Rightarrow> peer set" where
  "subscribed_after topic [] = {}"
| "subscribed_after topic (PeerSubscribed p t # evs) =
     (if t = topic then insert p (subscribed_after topic evs) else subscribed_after topic evs)"
| "subscribed_after topic (PeerUnsubscribed p t # evs) =
     (if t = topic then subscribed_after topic evs - {p} else subscribed_after topic evs)"
| "subscribed_after topic (ConnectionClosed p n # evs) =
     (if n = 0 then subscribed_after topic evs - {p} else subscribed_after topic evs)"
| "subscribed_after topic (_ # evs) = subscribed_after topic evs"

text \<open>The task over a sequence of swarm events, the latest first, and what the gauge of a chain reads then.\<close>

fun observe_run ::
  "primitives \<Rightarrow> envelope_codec \<Rightarrow> (address \<Rightarrow> string) \<Rightarrow> u64 list \<Rightarrow> (u64 \<times> swarm_event) list \<Rightarrow> subscribed_peers \<times> observer_metric list" where
  "observe_run P C render watched [] = ([], [])"
| "observe_run P C render watched ((now, e) # evs) =
     (let (m, ms) = observe_run P C render watched evs;
          (m', _, ms', _) = observer_swarm_event P C render (observe_all watched) now e m
      in (m', ms @ ms'))"

definition gauge_step :: "u64 \<Rightarrow> observer_metric \<Rightarrow> nat \<Rightarrow> nat" where
  "gauge_step ck x g = (case x of SubscribedPeers k n \<Rightarrow> if k = ck then n else g | _ \<Rightarrow> g)"

definition gauge_of :: "u64 \<Rightarrow> observer_metric list \<Rightarrow> nat" where
  "gauge_of ck ms = fold (gauge_step ck) ms 0"

lemma reported_metrics: "snd (report_peer_counts now cs) = map (\<lambda>(k, n). SubscribedPeers k n) cs"
  by (induction cs) (auto simp: report_peer_counts_def report_peer_count_def)

lemma gauge_reports:
  "distinct (map fst cs) \<Longrightarrow>
   fold (gauge_step ck) (map (\<lambda>(k, n). SubscribedPeers k n) cs) g = (case map_of cs ck of Some n \<Rightarrow> n | None \<Rightarrow> g)"
proof (induction cs arbitrary: g)
  case (Cons c cs)
  obtain k n where c: "c = (k, n)" by (cases c)
  show ?case
  proof (cases "k = ck")
    case True
    with Cons.prems have "map_of cs ck = None" by (auto simp: c map_of_eq_None_iff)
    with Cons True show ?thesis by (simp add: c gauge_step_def)
  next
    case False
    with Cons show ?thesis by (simp add: c gauge_step_def)
  qed
qed simp

lemma gauge_reported:
  "report_peer_counts now cs = (evs, ms) \<Longrightarrow> distinct (map fst cs) \<Longrightarrow>
   fold (gauge_step ck) ms g = (case map_of cs ck of Some n \<Rightarrow> n | None \<Rightarrow> g)"
  using reported_metrics [of now cs] gauge_reports [of cs ck g] by simp

lemma noted_subscribed:
  "peers_of ck (fst (note_subscribed k p m)) = (if k = ck then insert p (peers_of ck m) else peers_of ck m)"
  "snd (note_subscribed k p m) = (if p \<in> peers_of k m then None else Some (card (insert p (peers_of k m))))"
  "hm_ok m \<Longrightarrow> hm_ok (fst (note_subscribed k p m))"
  by (simp_all add: note_subscribed_def Let_def peers_of_def update_conv' hm_ok_def distinct_update)

lemma noted_unsubscribed:
  "peers_of ck (fst (note_unsubscribed k p m)) = (if k = ck then peers_of ck m - {p} else peers_of ck m)"
  "snd (note_unsubscribed k p m) = (if p \<in> peers_of k m then Some (card (peers_of k m - {p})) else None)"
  "hm_ok m \<Longrightarrow> hm_ok (fst (note_unsubscribed k p m))"
  by (auto simp: note_unsubscribed_def peers_of_def hm_get_modify split: option.split)

lemma disconnected_changes:
  "snd (note_disconnected p []) = []"
  "snd (note_disconnected p ((k, s) # m)) =
     (if p \<in> s then (k, card (s - {p})) # snd (note_disconnected p m) else snd (note_disconnected p m))"
  by (simp_all add: note_disconnected_def List.map_filter_simps)

lemma disconnected_keys: "set (map fst (snd (note_disconnected p m))) \<subseteq> set (map fst m)"
proof (induction m)
  case (Cons a m)
  obtain k s where a: "a = (k, s)" by (cases a)
  from Cons show ?case by (cases "p \<in> s") (simp_all add: a disconnected_changes, blast+)
qed (simp add: disconnected_changes)

lemma noted_disconnected:
  "peers_of ck (fst (note_disconnected p m)) = peers_of ck m - {p}"
  "hm_ok m \<Longrightarrow> hm_ok (fst (note_disconnected p m))"
  "hm_ok m \<Longrightarrow> distinct (map fst (snd (note_disconnected p m)))"
  "hm_ok m \<Longrightarrow> map_of (snd (note_disconnected p m)) ck = (if p \<in> peers_of ck m then Some (card (peers_of ck m - {p})) else None)"
proof -
  show "peers_of ck (fst (note_disconnected p m)) = peers_of ck m - {p}"
    by (auto simp: note_disconnected_def peers_of_def hm_get_map_values split: option.split)
  show "hm_ok m \<Longrightarrow> hm_ok (fst (note_disconnected p m))"
    by (simp add: note_disconnected_def hm_ok_def)
  show "hm_ok m \<Longrightarrow> distinct (map fst (snd (note_disconnected p m)))"
  proof (induction m)
    case (Cons a m)
    obtain k s where a: "a = (k, s)" by (cases a)
    from Cons show ?case using disconnected_keys [of p m] by (auto simp: a disconnected_changes hm_ok_def)
  qed (simp add: disconnected_changes)
  show "hm_ok m \<Longrightarrow> map_of (snd (note_disconnected p m)) ck = (if p \<in> peers_of ck m then Some (card (peers_of ck m - {p})) else None)"
  proof (induction m)
    case (Cons a m)
    obtain k s where a: "a = (k, s)" by (cases a)
    from Cons.prems have fresh: "k \<notin> set (map fst m)" and ok: "hm_ok m" by (auto simp: a hm_ok_def)
    from fresh disconnected_keys [of p m] have none: "map_of (snd (note_disconnected p m)) k = None"
      unfolding map_of_eq_None_iff set_map by blast
    from Cons.IH [OF ok] none show ?case by (auto simp: a disconnected_changes peers_of_def split: if_splits)
  qed (simp add: disconnected_changes peers_of_def)
qed

text \<open>One event keeps the representation, the peers of a chain and its gauge in step.\<close>

lemma observations_keep_gauge:
  "observe_message P C render subs now source topic data = Some (evs, ms, acc) \<Longrightarrow> fold (gauge_step ck) ms g = g"
  by (auto simp: observe_message_def observe_vote_def observe_reobservation_def observe_set_update_def Let_def gauge_step_def
      split: option.splits if_splits prod.splits)

lemma observer_step_peers:
  assumes "ck \<in> set watched" "hm_ok m"
    and step: "observer_swarm_event P C render (observe_all watched) now e m = (m', evs, ms, acts)"
  shows "hm_ok m' \<and> (peers_of ck m = subscribed_after (message_votes_topic ck) es \<longrightarrow>
      peers_of ck m' = subscribed_after (message_votes_topic ck) (e # es)) \<and>
    fold (gauge_step ck) ms (card (peers_of ck m)) = card (peers_of ck m')"
proof (cases e)
  case (GossipMessage source mid topic data)
  with step assms(2) show ?thesis
    by (auto simp: observer_swarm_event_def observations_keep_gauge split: option.splits)
next
  case (PeerSubscribed p topic)
  show ?thesis
  proof (cases "hm_get (ob_votes (observe_all watched)) topic")
    case None
    with assms(1) have "topic \<noteq> message_votes_topic ck" by (auto simp: observed_topics)
    with step None PeerSubscribed assms(2) show ?thesis by (auto simp: observer_swarm_event_def)
  next
    case (Some k)
    then have "topic = message_votes_topic k" by (simp add: observed_topic_only)
    moreover obtain m1 n where pair: "note_subscribed k p m = (m1, n)" by (cases "note_subscribed k p m")
    ultimately show ?thesis
      using step Some PeerSubscribed assms(2) noted_subscribed(1) [of ck k p m] noted_subscribed(2) [of k p m] noted_subscribed(3) [of m k p]
      by (auto simp: observer_swarm_event_def gauge_reported pair insert_absorb split: prod.splits if_splits)
  qed
next
  case (PeerUnsubscribed p topic)
  show ?thesis
  proof (cases "hm_get (ob_votes (observe_all watched)) topic")
    case None
    with assms(1) have "topic \<noteq> message_votes_topic ck" by (auto simp: observed_topics)
    with step None PeerUnsubscribed assms(2) show ?thesis by (auto simp: observer_swarm_event_def)
  next
    case (Some k)
    then have "topic = message_votes_topic k" by (simp add: observed_topic_only)
    moreover obtain m1 n where pair: "note_unsubscribed k p m = (m1, n)" by (cases "note_unsubscribed k p m")
    ultimately show ?thesis
      using step Some PeerUnsubscribed assms(2) noted_unsubscribed(1) [of ck k p m] noted_unsubscribed(2) [of k p m] noted_unsubscribed(3) [of m k p]
      by (auto simp: observer_swarm_event_def gauge_reported pair split: prod.splits if_splits)
  qed
next
  case (ConnectionClosed p n)
  moreover obtain m1 cs where pair: "note_disconnected p m = (m1, cs)" by (cases "note_disconnected p m")
  ultimately show ?thesis
    using step assms(2) noted_disconnected(1) [of ck p m] noted_disconnected(2-3) [of m p] noted_disconnected(4) [of m p ck]
    by (auto simp: observer_swarm_event_def gauge_reported pair split: prod.splits if_splits)
qed (use step assms(2) in \<open>auto simp: observer_swarm_event_def\<close>)

lemma observe_run_gauge:
  assumes "ck \<in> set watched"
  shows "hm_ok (fst (observe_run P C render watched es)) \<and>
    peers_of ck (fst (observe_run P C render watched es)) = subscribed_after (message_votes_topic ck) (map snd es) \<and>
    gauge_of ck (snd (observe_run P C render watched es)) = card (peers_of ck (fst (observe_run P C render watched es)))"
proof (induction es)
  case Nil
  then show ?case by (simp add: peers_of_def gauge_of_def)
next
  case (Cons a es)
  obtain now e where a: "a = (now, e)" by (cases a)
  obtain m ms where run: "observe_run P C render watched es = (m, ms)" by (cases "observe_run P C render watched es")
  obtain m' evs ms' acts where step: "observer_swarm_event P C render (observe_all watched) now e m = (m', evs, ms', acts)"
    by (cases "observer_swarm_event P C render (observe_all watched) now e m")
  from Cons.IH have ok: "hm_ok m" and peers: "peers_of ck m = subscribed_after (message_votes_topic ck) (map snd es)"
    and gauge: "gauge_of ck ms = card (peers_of ck m)" by (simp_all add: run)
  from observer_step_peers [OF assms ok step, of "map snd es"] peers gauge
  show ?case by (simp add: a run step gauge_of_def)
qed

section \<open>A concrete codec and vote\<close>

text \<open>A text codec that satisfies the laws: every field behind its length in unary.\<close>

definition pack :: "string \<Rightarrow> string" where "pack s = replicate (length s) CHR ''1'' @ CHR ''.'' # s"

definition unpack :: "string \<Rightarrow> string \<times> string" where
  "unpack t = (let n = length (takeWhile (\<lambda>c. c = CHR ''1'') t); r = drop (n + 1) t in (take n r, drop n r))"

lemma unpack_pack [simp]: "unpack (pack s @ r) = (s, r)"
proof -
  have "takeWhile (\<lambda>c. c = CHR ''1'') (replicate n CHR ''1'' @ CHR ''.'' # s @ r) = replicate n CHR ''1''" for n
    by (induction n) simp_all
  then show ?thesis by (simp add: unpack_def pack_def)
qed

definition toy_json :: observer_json where
  "toy_json = \<lparr>oj_render = (\<lambda>ev. case ev of
       EvVote e \<Rightarrow> Some (pack (decimal (unat (ve_chain_key e))) @ pack (ve_message_id e) @ pack (ve_signer e) @ pack (ve_signature e) @ [])
     | _ \<Rightarrow> None), oj_frame = (\<lambda>_. None)\<rparr>"

definition toy_parse :: "string \<Rightarrow> client_event option" where
  "toy_parse t =
     (let (ck, t1) = unpack t; (mid, t2) = unpack t1; (signer, t3) = unpack t2; (sg, _) = unpack t3
      in Some (ClientVote \<lparr>cv_chain_key = of_nat (undecimal ck), cv_message_id = mid, cv_signer = signer, cv_signature = sg\<rparr>))"

lemma toy_json_law: "json_law toy_json toy_parse"
  by (simp add: json_law_def toy_json_def toy_parse_def vote_fields_def del: append_Nil2)

definition toy_render :: "address \<Rightarrow> string" where "toy_render a = hex0x (address_bytes a)"

lemma toy_render_law: "render_law toy_render"
  by (simp add: render_law_def toy_render_def)

definition seen_prims :: primitives where
  "seen_prims = \<lparr>ecrecover = (\<lambda>_ raw. Some (ucast (raw ! 0))), abi_encode_params = concat\<rparr>"

definition seen_vote :: message_vote where
  "seen_vote = \<lparr>mv_chain_key = 7, mv_message_id = 3, mv_signer = 5, mv_signature = 5 # replicate 63 0 @ [27]\<rparr>"

definition seen_codec :: envelope_codec where
  "seen_codec = \<lparr>el_vote = (\<lambda>d. if d = [1] then Some seen_vote else None), el_request = (\<lambda>_. None),
     el_set_update = (\<lambda>_. None), el_encode_request = (\<lambda>_. [])\<rparr>"

section \<open>Properties\<close>

text \<open>C29. The observer path delivers what the swarm path delivers. A frame on a chain's vote topic whose vote the
  pool would accept is put on the hub by the observer, passes the relayer's subscription, and after the JSON
  and hexadecimal round trips exactly the vote of the frame is handed to the pool, as it is when the relayer's own swarm
  receives the frame; both accept the frame.\<close>

theorem observed_vote_delivered:
  assumes "json_law J parse" "render_law render" "ck \<in> set watched" "ck \<in> set cks"
    and "el_vote C data = Some vote" "mv_chain_key vote = ck" "length (mv_signature vote) = 65"
    and "recover_signer P (mv_message_id vote) (mv_signature vote) = Inr (mv_signer vote)"
    and "observer_swarm_event P C render (observe_all watched) now (GossipMessage source mid (message_votes_topic ck) data) m
       = (m', events, metrics, acts)"
  shows "relayed J parse send_vote send_update cks events = hand_vote send_vote ck vote \<and>
     gossip_message C send_vote send_update (subscribe_all cks) source mid (message_votes_topic ck) data =
       hand_vote send_vote ck vote @ acts"
proof -
  let ?e = "\<lparr>ve_chain_key = ck, ve_message_id = hex0x (b256_bytes (mv_message_id vote)),
     ve_message_hash = hex0x (b256_bytes (mv_message_id vote)), ve_signer = render (mv_signer vote), ve_signature_valid = True,
     ve_signature = hex0x (mv_signature vote), ve_source_peer = source, ve_received_at_ms = now\<rparr>"
  note seen = observed_vote [OF assms(3,5,6,8), of render now source mid m]
  with assms(9) have "events = [EvVote ?e]" and acts: "acts = [ReportValidation mid source MessageAccept]"
    by (simp_all add: vote_event_of_def)
  moreover have "convert_vote (vote_fields ?e) = Inr vote"
    using assms(6) convert_observed [OF assms(2,7), of ck "mv_message_id vote" "mv_signer vote"] by (simp add: vote_fields_def)
  ultimately have one: "relayed J parse send_vote send_update cks events = hand_vote send_vote ck vote"
    using relayed_vote [OF assms(1), of ?e cks send_vote send_update] assms(4) by simp
  have "gossip_message C send_vote send_update (subscribe_all cks) source mid (message_votes_topic ck) data =
      hand_vote send_vote ck vote @ acts"
    using assms(4-6) by (simp add: gossip_message_vote gossip_vote_def acts)
  with one show ?thesis by blast
qed

theorem observed_vote_delivered_witness:
  "relayed toy_json toy_parse (\<lambda>_. SendOk) (\<lambda>_. SendOk) [7]
     (fst (snd (observer_swarm_event seen_prims seen_codec toy_render (observe_all [6, 7]) 9
       (GossipMessage ''p'' 2 (message_votes_topic 7) [1]) []))) = [HandVote seen_vote]"
proof -
  obtain m' evs ms acts where step: "observer_swarm_event seen_prims seen_codec toy_render (observe_all [6, 7]) 9
      (GossipMessage ''p'' 2 (message_votes_topic 7) [1]) [] = (m', evs, ms, acts)"
    by (metis prod_cases4)
  have "recover_signer seen_prims (mv_message_id seen_vote) (mv_signature seen_vote) = Inr (mv_signer seen_vote)"
    by (simp add: seen_prims_def seen_vote_def recover_signer_def Let_def nth_append)
  then have "relayed toy_json toy_parse (\<lambda>_. SendOk) (\<lambda>_. SendOk) [7] evs = hand_vote (\<lambda>_. SendOk) 7 seen_vote"
    by (intro conjunct1 [OF observed_vote_delivered [OF toy_json_law toy_render_law _ _ _ _ _ _ step, where vote = seen_vote]])
      (simp_all add: seen_codec_def seen_vote_def)
  then show ?thesis by (simp add: step hand_vote_def)
qed

text \<open>C30. The observer's peer gauge is exact. After any sequence of swarm events, repeated subscriptions, foreign topics, losses of
  connections and gossip included, the last count published for an observed chain is the number of distinct
  peers that subscribed to its vote topic and neither cancelled nor lost their last connection since.\<close>

theorem observer_gauge_exact:
  assumes "ck \<in> set watched"
  shows "gauge_of ck (snd (observe_run P C render watched es)) = card (subscribed_after (message_votes_topic ck) (map snd es))"
  using observe_run_gauge [OF assms, of P C render es] by simp

text \<open>A reconnect without a cancellation, where the relayer's own counter would read two.\<close>

definition seen_events :: "(u64 \<times> swarm_event) list" where
  "seen_events = [(3, PeerSubscribed ''p'' (message_votes_topic 7)), (2, ConnectionClosed ''p'' 0),
     (1, PeerSubscribed ''p'' (message_votes_topic 7))]"

theorem observer_gauge_exact_witness:
  "gauge_of 7 (snd (observe_run seen_prims seen_codec toy_render [7] seen_events)) = 1"
proof -
  have "gauge_of 7 (snd (observe_run seen_prims seen_codec toy_render [7] seen_events)) =
      card (subscribed_after (message_votes_topic 7) (map snd seen_events))"
    by (rule observer_gauge_exact) simp
  then show ?thesis by (simp add: seen_events_def)
qed

end
