(* ===== verification/Relayer_System.thy ===== *)
theory Relayer_System
  imports Scanner_System Pool_Backlog Delivery_Budget
begin

text \<open>
  One route of the relayer as a whole (the workers \<^verbatim>\<open>lib.rs\<close> spawns for it): the source watcher, the vote pool
  and the delivery worker, with the channels between them, the work store watcher and pool share, and
  the files a restart finds. A step is one turn of one worker; turns interleave in any order, and the process may
  die at any point. What a worker does in its turn is the function of its own theory. A scan may find its node down
  or rate limited, but what the node answers agrees with the chain (\<open>truthful\<close>); the other workers' nodes are not
  constrained. The sidecar of the retry budget is the delivery worker's own part of the disk, kept in its state.
\<close>

section \<open>The pool and the disk\<close>

text \<open>Across a turn of the pool a record leaves the disk only when its final result is processed.\<close>

definition disk_kept :: "(u64 \<times> b256) set \<Rightarrow> work_store option \<Rightarrow> work_store option \<Rightarrow> bool" where
  "disk_kept gone w w' \<longleftrightarrow> (\<forall>ws. w = Some ws \<and> store_ok ws \<longrightarrow>
     (\<exists>ws'. w' = Some ws' \<and> store_ok ws' \<and> on_disk ws - gone \<subseteq> on_disk ws'))"

lemma disk_kept_refl [simp]: "disk_kept gone w w"
  by (auto simp: disk_kept_def)

lemma refill_routes_disk:
  "pool_ok P st \<Longrightarrow> store_ok ws \<Longrightarrow> refill_routes P C fx now cks st ws = (st', ws', res, ms) \<Longrightarrow>
     on_disk ws \<subseteq> on_disk ws' \<and> store_ok ws'"
proof (induction cks arbitrary: st ws st' ws' res ms)
  case Nil
  then show ?case by simp
next
  case (Cons ck cks)
  obtain st1 ws1 res1 ms1 where one: "refill_route P C fx now ck st ws = (st1, ws1, res1, ms1)"
    by (cases "refill_route P C fx now ck st ws") auto
  note s = refill_route_store [OF Cons.prems(1) one Cons.prems(2)] and ok = refill_route_ok(1) [OF Cons.prems(1) one]
  have disk: "on_disk ws \<subseteq> on_disk ws1" by (rule on_disk_mono) (use s in blast)
  have st: "store_ok ws1" using s by blast
  show ?case
  proof (cases res1)
    case (Inl e)
    with Cons.prems(3) one disk st show ?thesis by simp
  next
    case (Inr js)
    obtain st2 ws2 res2 ms2 where two: "refill_routes P C fx now cks st1 ws1 = (st2, ws2, res2, ms2)"
      by (cases "refill_routes P C fx now cks st1 ws1") auto
    with Cons.prems(3) one Inr have "st' = st2" "ws' = ws2" by (auto split: sum.splits)
    with Cons.IH [OF ok st two] disk show ?thesis by blast
  qed
qed

lemma finish_work: "finish env s res = (t, out) \<Longrightarrow> lp_work t = lp_work s"
  by (auto simp: finish_def split: prod.splits)

lemma admit_deferred_work: "admit_deferred P env s = (t, out) \<Longrightarrow> lp_work t = lp_work s"
  by (auto simp: admit_deferred_def dest: finish_work split: option.splits if_splits)

lemma prune_arm_work:
  assumes "pool_ok P (lp_state s)" and "prune_arm P C env s = (t, out, nxt)"
  shows "disk_kept gone (lp_work s) (lp_work t)"
proof -
  define st1 where "st1 = prune_expired (le_now env) (lp_state s)"
  have ok1: "pool_ok P st1" using prune_expired_ok [OF assms(1)] by (simp add: st1_def)
  obtain st2 work res ms2 where refill: "refill_backlog P C env st1 (lp_work s) = (st2, work, res, ms2)"
    by (cases "refill_backlog P C env st1 (lp_work s)") auto
  have "lp_work t = work"
    using assms(2) refill by (auto simp: prune_arm_def Let_def st1_def split: sum.splits prod.splits)
  moreover have "disk_kept gone (lp_work s) work"
    using refill refill_routes_disk [OF ok1]
    by (fastforce simp: refill_backlog_def refill_def disk_kept_def split: option.splits prod.splits)
  ultimately show ?thesis by simp
qed

lemma result_arm_work:
  assumes "result_arm env r s = (t, out, nxt)"
  shows "disk_kept (finished_by (Result (Some r))) (lp_work s) (lp_work t)"
  unfolding disk_kept_def
proof (intro allI impI, elim conjE)
  fix ws
  assume ws: "lp_work s = Some ws" "store_ok ws"
  obtain ws' cr where c: "work_complete (le_complete env) (dr_chain_key r) (dr_message_id r) ws = (ws', cr)"
    by fastforce
  note held = work.complete_held [OF ws(2) c]
  have d: "store_ok ws'" using held by blast
  have "contents ck ws \<subseteq> (if ck = dr_chain_key r then Set.insert (dr_message_id r) (contents ck ws') else contents ck ws')" for ck
    using held [of ck] by blast
  then have d2: "on_disk ws - {(dr_chain_key r, dr_message_id r)} \<subseteq> on_disk ws'"
    by (fastforce simp: on_disk_def split: if_splits)
  have "lp_work t = Some (if finishes r then ws' else ws)"
    using assms ws c by (auto simp: result_arm_def finishes_def finish_work Let_def split: sum.splits prod.splits bool.splits
        dest!: finish_work)
  with ws(2) d d2 show "\<exists>ws'. lp_work t = Some ws' \<and> store_ok ws' \<and> on_disk ws - finished_by (Result (Some r)) \<subseteq> on_disk ws'"
    by (auto simp: finished_by_def)
qed

lemma select_arm_work:
  assumes "pool_ok P (lp_state s)" and "select_arm P C env ev s = (t, out, nxt)"
  shows "disk_kept (finished_by ev) (lp_work s) (lp_work t)"
proof (cases ev)
  case (Result r)
  with assms(2) result_arm_work show ?thesis by (cases r) (auto simp: select_arm_def)
next
  case PruneTick
  with assms prune_arm_work [OF assms(1)] show ?thesis by (auto simp: select_arm_def)
qed (use assms(2) in \<open>auto simp: select_arm_def dest!: finish_work split: option.splits prod.splits if_splits\<close>)

lemma loop_iter_work:
  assumes "pool_ok P (lp_state s)" and "loop_iter P C env0 env ev s = (t, lo, nxt)"
  shows "disk_kept (finished_by ev) (lp_work s) (lp_work t)"
proof -
  obtain s1 out1 where head: "admit_deferred P env0 s = (s1, out1)" by fastforce
  obtain out2 where arm: "select_arm P C env ev s1 = (t, out2, nxt)" using loop_iter_split [OF assms(2) head] by blast
  from select_arm_work [OF conjunct1 [OF admit_deferred_ok [OF assms(1) head]] arm] show ?thesis
    by (simp add: admit_deferred_work [OF head])
qed

section \<open>The system\<close>

text \<open>What is fixed for a run: the codecs, the configuration of the route and the history of the source chain.\<close>

record setting =
  sg_source :: source_abi
  sg_work :: work_codec
  sg_cp :: cp_codec
  sg_render :: "address \<Rightarrow> string"
  sg_watch :: watch_config
  sg_world :: source_world
  sg_prims :: primitives
  sg_inbox :: inbox_abi
  sg_route :: chain_route
  sg_delivery :: delivery_config
  sg_attestors :: "route_attestors list"
  sg_cache :: vote_cache_config

abbreviation sg_key :: "setting \<Rightarrow> u64" where "sg_key G \<equiv> wc_chain_key (sg_watch G)"

text \<open>A job the delivery worker handled, what its nodes answered, and how it ended.\<close>

record job_report =
  jr_job :: delivery_job
  jr_env :: job_env
  jr_funding :: "(contract_error + message_info) option"
  jr_ledger :: ledger
  jr_outcome :: delivery_result_kind

text \<open>The past: the reports of all runs so far, and the messages whose final result the pool has processed.\<close>

record past =
  hi_reports :: "job_report list"
  hi_ended :: "b256 set"

record running =
  rn_source :: source_route
  rn_watch :: watcher
  rn_pool :: pool_loop
  rn_jobs :: "delivery_job list"
  rn_results :: "delivery_result list"
  rn_worker :: delivery_state

datatype relayer_sys =
    Off "cp_file files" work_store delivery_state past
  | On running past

text \<open>Both hold the one work store.\<close>

definition shared_after_scan :: "watcher \<Rightarrow> running \<Rightarrow> running" where
  "shared_after_scan w r = r\<lparr>rn_watch := w, rn_pool := (rn_pool r)\<lparr>lp_work := sc_work (wt_scan w)\<rparr>\<rparr>"

definition with_work :: "work_store option \<Rightarrow> watcher \<Rightarrow> watcher" where
  "with_work work w = w\<lparr>wt_scan := (wt_scan w)\<lparr>sc_work := work\<rparr>\<rparr>"

text \<open>
  Messages of this route come from the watcher and its results from the worker; what other routes of the
  process send is arbitrary. A result that was taken leaves its channel.
\<close>

definition from_channels :: "u64 \<Rightarrow> running \<Rightarrow> loop_event \<Rightarrow> bool" where
  "from_channels ck r ev =
     (case ev of
        Indexed (Some im) \<Rightarrow> im_chain_key im = ck \<longrightarrow> im \<in> set (sc_sent (wt_scan (rn_watch r)))
      | Result (Some res) \<Rightarrow> dr_chain_key res = ck \<longrightarrow> res \<in> set (rn_results r)
      | _ \<Rightarrow> True)"

definition after_pool :: "loop_event \<Rightarrow> pool_loop \<Rightarrow> delivery_job list \<Rightarrow> running \<Rightarrow> running" where
  "after_pool ev t sent r =
     r\<lparr>rn_pool := t, rn_watch := with_work (lp_work t) (rn_watch r), rn_jobs := rn_jobs r @ sent,
       rn_results := (case ev of Result (Some res) \<Rightarrow> remove1 res (rn_results r) | _ \<Rightarrow> rn_results r)\<rparr>"

definition ended_by :: "u64 \<Rightarrow> loop_event \<Rightarrow> past \<Rightarrow> past" where
  "ended_by ck ev h = h\<lparr>hi_ended := hi_ended h \<union> {mid. (ck, mid) \<in> finished_by ev}\<rparr>"

definition reporting :: "job_report \<Rightarrow> past \<Rightarrow> past" where
  "reporting rp h = h\<lparr>hi_reports := hi_reports h @ [rp]\<rparr>"

definition booted :: "setting \<Rightarrow> source_route \<Rightarrow> watcher \<Rightarrow> work_store \<Rightarrow> delivery_state \<Rightarrow> running" where
  "booted G src w ws ds =
     \<lparr>rn_source = src, rn_watch = w, rn_pool = pool_start (sg_attestors G) (sg_cache G) (Some ws), rn_jobs = [], rn_results = [],
      rn_worker = worker_restart ds\<rparr>"

inductive relayer_step :: "setting \<Rightarrow> relayer_sys \<Rightarrow> unit \<Rightarrow> relayer_sys \<Rightarrow> bool" for G where
  scans: "truthful (sg_source G) (sg_world G) (sg_key G) (sv_node (tk_scan ev)) \<Longrightarrow>
    relayer_step G (On r h) ()
      (On (shared_after_scan (watch_tick (sg_source G) (sg_work G) (sg_cp G) (key_of (sg_render G) (sg_watch G)) (rn_source r) ev (rn_watch r)) r) h)"
| pools: "from_channels (sg_key G) r ev \<Longrightarrow>
    loop_iter (sg_prims G) (sg_work G) env0 env ev (rn_pool r) = (t, lo, Continue_Loop) \<Longrightarrow>
    relayer_step G (On r h) () (On (after_pool ev t (lo_sent lo) r) (ended_by (sg_key G) ev h))"
| pool_ends: "from_channels (sg_key G) r ev \<Longrightarrow>
    loop_iter (sg_prims G) (sg_work G) env0 env ev (rn_pool r) = (t, lo, next) \<Longrightarrow>
    wt_checkpoint (rn_watch r) = Some cs \<Longrightarrow> lp_work t = Some ws \<Longrightarrow>
    relayer_step G (On r h) () (Off (cs_files cs) (work_restart ws) (rn_worker r) (ended_by (sg_key G) ev h))"
| works: "j \<in> set (rn_jobs r) \<Longrightarrow> dj_chain_key j = sg_key G \<Longrightarrow>
    worker_step (sg_work G) (sg_inbox G) (sg_route G) (sg_delivery G) env answer j (rn_worker r) = (ds, res) \<Longrightarrow>
    relayer_step G (On r h) ()
      (On (r\<lparr>rn_jobs := remove1 j (rn_jobs r), rn_worker := ds, rn_results := rn_results r @ [res]\<rparr>)
        (reporting \<lparr>jr_job = j, jr_env = env, jr_funding = answer, jr_ledger = ds_ledger ds, jr_outcome = dr_outcome res\<rparr> h))"
| other_cursor: "wt_checkpoint (rn_watch r) = Some cs \<Longrightarrow> key' \<noteq> key_of (sg_render G) (sg_watch G) \<Longrightarrow>
    persist_entry (sg_cp G) fault key' e cs = (cs', ok) \<Longrightarrow>
    relayer_step G (On r h) () (On (r\<lparr>rn_watch := (rn_watch r)\<lparr>wt_checkpoint := Some cs'\<rparr>\<rparr>) h)"
| dies: "wt_checkpoint (rn_watch r) = Some cs \<Longrightarrow> lp_work (rn_pool r) = Some ws \<Longrightarrow>
    relayer_step G (On r h) () (Off (cs_files cs) (work_restart ws) (rn_worker r) h)"
| boots: "cp_load (sg_cp G) readable files = Inr cs \<Longrightarrow>
    watch_start (sg_render G) (sg_watch G) ev (Some cs) (Some ws) = (Some ws', Inr (src, w)) \<Longrightarrow>
    relayer_step G (Off files ws ds h) () (On (booted G src w ws' ds) h)"
| boot_fails: "cp_load (sg_cp G) readable files = Inr cs \<Longrightarrow>
    watch_start (sg_render G) (sg_watch G) ev (Some cs) (Some ws) = (Some ws', Inl err) \<Longrightarrow>
    relayer_step G (Off files ws ds h) () (Off files ws' ds h)"

inductive_cases relayer_stepE: "relayer_step G s e t"

definition relayer_begins :: "setting \<Rightarrow> relayer_sys \<Rightarrow> bool" where
  "relayer_begins G s \<longleftrightarrow> (\<exists>files ws ds. s = Off files ws ds \<lparr>hi_reports = [], hi_ended = {}\<rparr> \<and>
     scanner_starts (sg_cp G) (sg_render G) (sg_watch G) (sg_world G) (Down files ws {}))"

section \<open>The invariant\<close>

text \<open>Why a message may end: what the nodes of its worker answered in the job that reported so.\<close>

definition ends :: "inbox_abi \<Rightarrow> chain_route \<Rightarrow> job_report \<Rightarrow> bool" where
  "ends X route rp \<longleftrightarrow>
     jr_outcome rp = Delivered \<and> executed_evidence X route (jr_env rp) (dj_message_id (jr_job rp))
     \<or> jr_outcome rp = Terminal \<and>
         (\<not> within_caps X route (jr_job rp)
          \<or> underfunded (jr_env rp) (job_funding route (jr_job rp) (jr_funding rp))
          \<or> abandoned (dj_message_id (jr_job rp)) (jr_ledger rp))"

definition justified :: "setting \<Rightarrow> past \<Rightarrow> b256 \<Rightarrow> bool" where
  "justified G h mid \<longleftrightarrow> (\<exists>rp \<in> set (hi_reports h). dj_message_id (jr_job rp) = mid \<and> ends (sg_inbox G) (sg_route G) rp)"

definition history_ok :: "setting \<Rightarrow> past \<Rightarrow> bool" where
  "history_ok G h \<longleftrightarrow> (\<forall>mid \<in> hi_ended h. justified G h mid)"

fun relayer_inv :: "setting \<Rightarrow> relayer_sys \<Rightarrow> bool" where
  "relayer_inv G (Off files ws ds h) \<longleftrightarrow> history_ok G h \<and>
     scanner_inv (sg_source G) (sg_cp G) (sg_render G) (sg_watch G) (sg_world G) (Down files ws (hi_ended h))"
| "relayer_inv G (On r h) \<longleftrightarrow> history_ok G h \<and>
     scanner_inv (sg_source G) (sg_cp G) (sg_render G) (sg_watch G) (sg_world G) (Up (rn_source r) (rn_watch r) (hi_ended h)) \<and>
     lp_work (rn_pool r) = sc_work (wt_scan (rn_watch r)) \<and> pool_ok (sg_prims G) (lp_state (rn_pool r)) \<and>
     (\<forall>res \<in> set (rn_results r). finishes res \<longrightarrow> justified G h (dr_message_id res))"

text \<open>Only the shared store changes under the watcher, and what it loses has ended.\<close>

lemma scanner_inv_work:
  assumes "scanner_inv A K sa cfg world (Up src w got)" and "disk_kept gone (sc_work (wt_scan w)) work"
    and "{mid. (wc_chain_key cfg, mid) \<in> gone} \<subseteq> got'" and "got \<subseteq> got'"
  shows "scanner_inv A K sa cfg world (Up src (with_work work w) got')"
proof -
  let ?ck = "wc_chain_key cfg"
  from assms(1) obtain cs ws i where src: "codec_ok K" "world_ok world" "src = route_of cfg i" "wt_checkpoint w = Some cs"
      "sc_work (wt_scan w) = Some ws" "store_ok ws" "cs_synced K cs"
    and cov: "cursor_covered A world cfg (key_of sa cfg) cs (contents ?ck ws \<union> got)"
      "covered A world cfg (wt_last_seen w) (contents ?ck ws \<union> got)" by auto
  from assms(2) src(5,6) obtain ws' where ws': "work = Some ws'" "store_ok ws'" "on_disk ws - gone \<subseteq> on_disk ws'"
    unfolding disk_kept_def by blast
  have "contents ?ck ws \<union> got \<subseteq> contents ?ck ws' \<union> got'"
    using ws'(3) assms(3,4) by (auto simp: on_disk_def)
  with cov have "cursor_covered A world cfg (key_of sa cfg) cs (contents ?ck ws' \<union> got')"
      "covered A world cfg (wt_last_seen w) (contents ?ck ws' \<union> got')"
    by (auto intro: cursor_covered_mono covered_mono)
  with src ws' show ?thesis by (auto simp: with_work_def)
qed

lemma worker_report_ends:
  assumes "worker_step C X route cfg env answer j ds = (ds', res)" and "finishes res"
  shows "ends X route \<lparr>jr_job = j, jr_env = env, jr_funding = answer, jr_ledger = ds_ledger ds', jr_outcome = dr_outcome res\<rparr>"
    "dr_message_id res = dj_message_id j"
  using worker_settled [OF assms(1)] assms
  by (auto simp: ends_def settled_def finishes_def worker_step_def split: prod.splits)

lemma justified_reporting: "justified G h mid \<Longrightarrow> justified G (reporting rp h) mid"
  by (auto simp: justified_def reporting_def)

lemma justified_ended_by [simp]: "justified G (ended_by ck ev h) mid = justified G h mid"
  by (simp add: justified_def ended_by_def)

text \<open>A turn of the pool, whether it goes on or ends the loop.\<close>

lemma pool_turn:
  assumes "relayer_inv G (On r h)" and "from_channels (sg_key G) r ev"
    and "loop_iter (sg_prims G) (sg_work G) env0 env ev (rn_pool r) = (t, lo, next)"
  shows "history_ok G (ended_by (sg_key G) ev h)"
    "scanner_inv (sg_source G) (sg_cp G) (sg_render G) (sg_watch G) (sg_world G)
       (Up (rn_source r) (with_work (lp_work t) (rn_watch r)) (hi_ended (ended_by (sg_key G) ev h)))"
    "next = Continue_Loop \<Longrightarrow> pool_ok (sg_prims G) (lp_state t)"
proof -
  from assms(1) have h: "history_ok G h" and ok: "pool_ok (sg_prims G) (lp_state (rn_pool r))"
    and sc: "scanner_inv (sg_source G) (sg_cp G) (sg_render G) (sg_watch G) (sg_world G) (Up (rn_source r) (rn_watch r) (hi_ended h))"
    and work: "lp_work (rn_pool r) = sc_work (wt_scan (rn_watch r))"
    and res: "\<forall>res \<in> set (rn_results r). finishes res \<longrightarrow> justified G h (dr_message_id res)" by simp_all
  have "justified G h mid" if "(sg_key G, mid) \<in> finished_by ev" for mid
    using that assms(2) res by (auto simp: finished_by_def from_channels_def split: loop_event.splits option.splits if_splits)
  with h show "history_ok G (ended_by (sg_key G) ev h)" by (auto simp: history_ok_def) (auto simp: ended_by_def)
  note kept = loop_iter_work [OF ok assms(3), unfolded work]
  show "scanner_inv (sg_source G) (sg_cp G) (sg_render G) (sg_watch G) (sg_world G)
       (Up (rn_source r) (with_work (lp_work t) (rn_watch r)) (hi_ended (ended_by (sg_key G) ev h)))"
    by (rule scanner_inv_work [OF sc kept]) (auto simp: ended_by_def)
  obtain s1 out1 where head: "admit_deferred (sg_prims G) env0 (rn_pool r) = (s1, out1)" by fastforce
  obtain out2 where arm: "select_arm (sg_prims G) (sg_work G) env ev s1 = (t, out2, next)"
    using loop_iter_split [OF assms(3) head] by blast
  show "pool_ok (sg_prims G) (lp_state t)" if "next = Continue_Loop"
    by (rule select_arm_ok(1) [OF conjunct1 [OF admit_deferred_ok [OF ok head]] arm [unfolded that]])
qed

lemma scanner_crash:
  assumes "scanner_inv A K sa cfg world (Up src w got)" "wt_checkpoint w = Some cs" "sc_work (wt_scan w) = Some ws"
  shows "scanner_inv A K sa cfg world (Down (cs_files cs) (work_restart ws) got)"
  using scanner.step_inv [OF assms(1) crash [OF assms(2,3)]] .

lemma boots_scanner:
  assumes "scanner_inv A K sa cfg world (Down files ws got)" "cp_load K readable files = Inr cs"
    and "watch_start sa cfg ev (Some cs) (Some ws) = (Some ws', Inr (src, w))"
  shows "scanner_inv A K sa cfg world (Up src w got)" "sc_work (wt_scan w) = Some ws'"
proof -
  show "scanner_inv A K sa cfg world (Up src w got)" by (rule scanner.step_inv [OF assms(1) starts [OF assms(2,3)]])
  from assms(1) have "store_ok ws" by simp
  from watch_start_spec(3) [OF assms(3) this refl] show "sc_work (wt_scan w) = Some ws'" by blast
qed

interpretation relayer: invariant_system "relayer_begins G" "relayer_step G" "relayer_inv G" for G
proof unfold_locales
  fix s
  assume "relayer_begins G s"
  then show "relayer_inv G s"
    by (auto simp: relayer_begins_def history_ok_def simp del: scanner_inv.simps intro: scanner.start_inv)
next
  fix s e t
  assume inv: "relayer_inv G s" and "relayer_step G s e t"
  from this(2) show "relayer_inv G t"
  proof cases
    case (scans ev r h)
    let ?w = "watch_tick (sg_source G) (sg_work G) (sg_cp G) (key_of (sg_render G) (sg_watch G)) (rn_source r) ev (rn_watch r)"
    from inv scans(1) have "scanner_inv (sg_source G) (sg_cp G) (sg_render G) (sg_watch G) (sg_world G) (Up (rn_source r) (rn_watch r) (hi_ended h))"
      by (simp del: scanner_inv.simps)
    from scanner.step_inv [OF this tick [OF scans(4)]]
    have "scanner_inv (sg_source G) (sg_cp G) (sg_render G) (sg_watch G) (sg_world G) (Up (rn_source r) ?w (hi_ended h))" .
    with inv scans show ?thesis by (simp add: shared_after_scan_def del: scanner_inv.simps)
  next
    case (pools r ev env0 env t' lo h)
    note turn = pool_turn [OF inv [unfolded pools(1)] pools(4,5)]
    have "set (rn_results (after_pool ev t' (lo_sent lo) r)) \<subseteq> set (rn_results r)"
      by (auto simp: after_pool_def dest: notin_set_remove1 set_mp [OF set_remove1_subset] split: loop_event.splits option.splits)
    with inv turn pools show ?thesis by (auto simp: after_pool_def with_work_def simp del: scanner_inv.simps)
  next
    case (pool_ends r ev env0 env t' lo nxt cs ws h)
    note turn = pool_turn [OF inv [unfolded pool_ends(1)] pool_ends(4,5)]
    from scanner_crash [OF turn(2), of cs ws] turn(1) pool_ends show ?thesis
      by (simp add: with_work_def del: scanner_inv.simps)
  next
    case (works j r env answer ds res h)
    from worker_report_ends [OF works(6)] have
      "finishes res \<Longrightarrow> justified G (reporting \<lparr>jr_job = j, jr_env = env, jr_funding = answer, jr_ledger = ds_ledger ds, jr_outcome = dr_outcome res\<rparr> h)
         (dr_message_id res)"
      by (auto simp: justified_def reporting_def)
    with inv works show ?thesis
      by (auto simp: history_ok_def reporting_def [THEN arg_cong [where f = hi_ended]] intro: justified_reporting simp del: scanner_inv.simps)
  next
    case (other_cursor r cs key' fault e' cs' ok h)
    from inv other_cursor(1) have "scanner_inv (sg_source G) (sg_cp G) (sg_render G) (sg_watch G) (sg_world G) (Up (rn_source r) (rn_watch r) (hi_ended h))"
      by (simp del: scanner_inv.simps)
    from scanner.step_inv [OF this scanner_step.other_cursor [OF other_cursor(4-6)]] inv other_cursor(1,3) show ?thesis
      by (simp del: scanner_inv.simps)
  next
    case (dies r cs ws h)
    from scanner_crash [of _ _ _ _ _ "rn_source r" "rn_watch r" _ cs ws] inv dies show ?thesis
      by (simp del: scanner_inv.simps)
  next
    case (boots readable files cs ev ws ws' src w ds h)
    from inv boots(1) have "scanner_inv (sg_source G) (sg_cp G) (sg_render G) (sg_watch G) (sg_world G) (Down files ws (hi_ended h))"
      by (simp del: scanner_inv.simps)
    from boots_scanner [OF this boots(4,5)] inv boots(1,3) show ?thesis
      by (simp add: booted_def pool_start_def pool_new_ok del: scanner_inv.simps)
  next
    case (boot_fails readable files cs ev ws ws' err ds h)
    from inv boot_fails(1) have "scanner_inv (sg_source G) (sg_cp G) (sg_render G) (sg_watch G) (sg_world G) (Down files ws (hi_ended h))"
      by (simp del: scanner_inv.simps)
    from scanner.step_inv [OF this start_fails [OF boot_fails(4,5)]] inv boot_fails(1,3) show ?thesis
      by (simp del: scanner_inv.simps)
  qed
qed

end
