(* ===== verification/System_Theorems.thy ===== *)
theory System_Theorems
  imports Relayer_System Scanner_Theorems Delivery_Theorems Pool_Theorems
begin

text \<open>
  The property of the whole route, from the event on the source chain to the reason its message is let go, with a
  run in which a message is discovered, voted for, delivered and taken off the disk.
\<close>

section \<open>A concrete run\<close>

definition run_setting :: setting where
  "run_setting = \<lparr>sg_source = Scanner_Theorems.demo_abi, sg_work = demo_work_codec, sg_cp = demo_cp_codec, sg_render = (\<lambda>_. []),
     sg_watch = demo_watch, sg_world = demo_world, sg_prims = demo_prims, sg_inbox = Delivery_Theorems.demo_abi,
     sg_route = demo_chain_route, sg_delivery = demo_cfg,
     sg_attestors = [\<lparr>ra_chain_key = 7, ra_attestors = [5], ra_threshold = 1\<rparr>],
     sg_cache = \<lparr>vc_ttl_seconds = 60, vc_max_messages = 2\<rparr>\<rparr>"

lemma run_setting_fields [simp]:
  "sg_source run_setting = Scanner_Theorems.demo_abi" "sg_work run_setting = demo_work_codec" "sg_cp run_setting = demo_cp_codec"
  "sg_render run_setting = (\<lambda>_. [])" "sg_watch run_setting = demo_watch" "sg_world run_setting = demo_world"
  "sg_prims run_setting = demo_prims" "sg_inbox run_setting = Delivery_Theorems.demo_abi" "sg_route run_setting = demo_chain_route"
  "sg_delivery run_setting = demo_cfg"
  by (simp_all add: run_setting_def)

definition run_disk :: "file_name files \<Rightarrow> work_store" where
  "run_disk dir = \<lparr>ws_dirs = [(7, dir)], ws_failed = [], ws_readers = []\<rparr>"

definition run_message :: indexed_message where "run_message = Scanner_Theorems.demo_message"

lemma run_message_fields [simp]: "im_chain_key run_message = 7" "im_message_id run_message = 11"
  by (simp_all add: run_message_def Scanner_Theorems.demo_message_def to_indexed_def demo_published_def route_of_def)

definition run_begin :: running where
  "run_begin = booted run_setting (route_of demo_watch 9) demo_watcher (run_disk []) demo_worker"

definition run_watch :: watcher where
  "run_watch = watch_tick Scanner_Theorems.demo_abi demo_work_codec demo_cp_codec demo_key (route_of demo_watch 9) demo_tick demo_watcher"

lemma run_watch_fields: "wt_last_seen run_watch = 1" "wt_scan run_watch = demo_scanned"
  using demo_ticked by (auto simp: run_watch_def)

definition run_record :: "file_name files" where "run_record = [(RecordFile 11, [1])]"

lemma demo_scanned_fields: "sc_work demo_scanned = Some (run_disk run_record)" "sc_sent demo_scanned = [run_message]"
  by (simp_all add: demo_scanned_def run_disk_def run_record_def run_message_def)

text \<open>The pool in its three turns: the vote is buffered, the message arrives and is dispatched, its result is processed.\<close>

definition run_pool :: "message_slot list \<Rightarrow> (b256 \<times> early_votes) list \<Rightarrow> work_store \<Rightarrow> pool_loop" where
  "run_pool slots early ws =
     \<lparr>lp_state = \<lparr>st_by_route = [(7, \<lparr>rt_attestors = [5], rt_threshold = 1, rt_by_message = map (Pair 11) slots,
        rt_order = map (\<lambda>_. 11) slots, rt_cache_max = 2, rt_early_votes = early\<rparr>)],
        st_cache = \<lparr>vc_ttl_seconds = 60, vc_max_messages = 2\<rparr>\<rparr>,
      lp_deferred = None, lp_work = Some ws, lp_set_updates_open = True, lp_query_open = True\<rparr>"

definition run_early :: "(b256 \<times> early_votes) list" where
  "run_early = [(11, \<lparr>ev_signers = [(5, demo_sig)], ev_first_seen = 0\<rparr>)]"

definition run_slot :: message_slot where
  "run_slot = mark_dispatched ((new_slot run_message 0)\<lparr>ms_signers := [(5, demo_sig)]\<rparr>)"

definition run_job :: delivery_job where
  "run_job = make_job demo_prims 7 \<lparr>rt_attestors = [5], rt_threshold = 1, rt_by_message = [], rt_order = [], rt_cache_max = 2, rt_early_votes = []\<rparr>
     ((new_slot run_message 0)\<lparr>ms_signers := [(5, demo_sig)]\<rparr>)"

lemmas run_eval = demo_recover loop_iter_def admit_deferred_def select_arm_def finish_def single_def put_route_def hm_modify_def
  join_output_def no_output_def Let_def run_pool_def run_early_def Pool_Theorems.demo_env_def

lemma run_vote:
  "\<exists>lo. loop_iter demo_prims C Pool_Theorems.demo_env Pool_Theorems.demo_env (Vote (Some demo_vote)) (run_pool [] [] ws) =
     (run_pool [] run_early ws, lo, Continue_Loop) \<and> lo_sent lo = []"
  by (simp add: run_eval demo_vote_def note_vote_def buffer_early_vote_def evict_early_overflow.simps)

lemma run_job_fields [simp]: "dj_chain_key run_job = 7" "dj_message_id run_job = 11" "\<not> dj_reconcile_only run_job"
  by (simp_all add: run_job_def make_job_def new_slot_def has_quorum_def)

lemma run_indexed:
  "\<exists>lo. loop_iter demo_prims C Pool_Theorems.demo_env Pool_Theorems.demo_env (Indexed (Some run_message)) (run_pool [] run_early ws) =
     (run_pool [run_slot] [] ws, lo, Continue_Loop) \<and> lo_sent lo = [run_job]"
  by (simp add: run_eval note_indexed_def make_room.simps can_index_def insert_slot_def adopt_early_def dispatch_if_ready_def
    has_quorum_def new_slot_def dispatch_delivery_job_def make_job_def run_slot_def run_job_def mark_dispatched_def)


definition run_worker :: delivery_state where
  "run_worker = fst (worker_step demo_work_codec Delivery_Theorems.demo_abi demo_chain_route demo_cfg demo_job_env None run_job demo_worker)"

definition run_result :: delivery_result where
  "run_result = \<lparr>dr_chain_key = 7, dr_message_id = 11, dr_outcome = Delivered\<rparr>"

lemma run_delivers:
  "worker_step demo_work_codec Delivery_Theorems.demo_abi demo_chain_route demo_cfg demo_job_env None run_job demo_worker =
     (run_worker, run_result)"
  by (simp add: run_worker_def run_result_def worker_step_def demo_no_funding demo_deliver_job settle_outcome_def)

lemma run_completes:
  "\<exists>t lo. loop_iter demo_prims C Pool_Theorems.demo_env Pool_Theorems.demo_env (Result (Some run_result)) (run_pool [run_slot] [] (run_disk run_record)) =
     (t, lo, Continue_Loop) \<and> lp_work t = Some (run_disk []) \<and> lo_sent lo = []"
proof -
  have "work_complete no_faults 7 11 (run_disk run_record) = (run_disk [], Inr ())"
    by (simp add: work_complete_def run_disk_def run_record_def dir_of_def no_faults_def hm_modify_def)
  then show ?thesis
    by (simp add: run_eval result_arm_def run_result_def note_delivery_result_def)
qed

text \<open>The run: boot, scan, vote, message, job, result.\<close>

definition run_voted :: running where
  "run_voted = after_pool (Vote (Some demo_vote)) (run_pool [] run_early (run_disk run_record)) []
     (shared_after_scan run_watch run_begin)"

definition run_sent :: running where
  "run_sent = after_pool (Indexed (Some run_message)) (run_pool [run_slot] [] (run_disk run_record)) [run_job] run_voted"

definition run_done :: running where
  "run_done = run_sent\<lparr>rn_jobs := [], rn_worker := run_worker, rn_results := [run_result]\<rparr>"

definition run_report :: job_report where
  "run_report = \<lparr>jr_job = run_job, jr_env = demo_job_env, jr_funding = None, jr_ledger = ds_ledger run_worker, jr_outcome = Delivered\<rparr>"

definition run_history :: past where
  "run_history = \<lparr>hi_reports = [run_report], hi_ended = {11}\<rparr>"

lemmas run_states = run_voted_def run_sent_def run_done_def run_begin_def after_pool_def shared_after_scan_def booted_def with_work_def

abbreviation "run_starts \<equiv> relayer_begins run_setting"
abbreviation "run_step \<equiv> relayer_step run_setting"
abbreviation "run_none \<equiv> \<lparr>hi_reports = [], hi_ended = {}\<rparr>"

lemma run_boots: "reach run_starts run_step (On run_begin run_none)"
proof -
  have codec: "codec_ok demo_cp_codec"
    by (auto simp: codec_ok_def demo_cp_codec_def is_blank_def hm_map_values_def demo_entry_def split: if_splits)
  have "scanner_starts demo_cp_codec (\<lambda>_. []) demo_watch demo_world (Down [] for_checkpoint {})"
    unfolding scanner_starts_def
  proof (intro conjI exI)
    show "world_ok demo_world" by (simp add: world_ok_def demo_world_def demo_log_def)
    show "Down [] for_checkpoint {} = Down (cs_files \<lparr>cs_inner = [], cs_files = []\<rparr>) for_checkpoint {}" by simp
  qed (simp_all add: codec cs_synced_def has_durable_work_def for_checkpoint_def store_ok_def dir_of_def names_ok_def)
  then have start: "run_starts (Off [] for_checkpoint demo_worker run_none)"
    by (simp add: relayer_begins_def)
  have "run_step (Off [] for_checkpoint demo_worker run_none) () (On run_begin run_none)"
    unfolding run_begin_def
    using demo_started
    by (intro relayer_step.boots [of run_setting True _ "\<lparr>cs_inner = [], cs_files = []\<rparr>" demo_start_env])
      (auto simp: cp_load_def demo_watcher_def run_disk_def)
  with start show ?thesis by (meson reach_start reach_step)
qed

lemma run_scans: "reach run_starts run_step (On (shared_after_scan run_watch run_begin) run_none)"
proof -
  have "run_step (On run_begin run_none) () (On (shared_after_scan run_watch run_begin) run_none)"
    using relayer_step.scans [of run_setting demo_tick run_begin run_none] demo_truthful
    by (simp add: run_watch_def demo_key_def demo_tick_def demo_scan_env_def run_begin_def booted_def)
  with run_boots show ?thesis by (rule reach_step)
qed

lemma run_scanned_pool: "rn_pool (shared_after_scan run_watch run_begin) = run_pool [] [] (run_disk run_record)"
  by (simp add: shared_after_scan_def run_begin_def booted_def run_watch_fields demo_scanned_fields pool_start_def pool_new_def
      put_route_def run_setting_def run_pool_def)

lemma run_votes: "reach run_starts run_step (On run_voted run_none)"
proof -
  obtain lo where turn: "loop_iter demo_prims demo_work_codec Pool_Theorems.demo_env Pool_Theorems.demo_env (Vote (Some demo_vote)) (run_pool [] [] (run_disk run_record)) =
     (run_pool [] run_early (run_disk run_record), lo, Continue_Loop)" "lo_sent lo = []" using run_vote by blast
  have "run_step (On (shared_after_scan run_watch run_begin) run_none) () (On run_voted run_none)"
    using relayer_step.pools [of run_setting "shared_after_scan run_watch run_begin" "Vote (Some demo_vote)" Pool_Theorems.demo_env Pool_Theorems.demo_env
        "run_pool [] run_early (run_disk run_record)" lo run_none] turn
    by (simp add: run_scanned_pool from_channels_def run_voted_def ended_by_def finished_by_def)
  with run_scans show ?thesis by (rule reach_step)
qed

lemma run_voted_fields: "rn_pool run_voted = run_pool [] run_early (run_disk run_record)" "rn_jobs run_voted = []"
  "sc_sent (wt_scan (rn_watch run_voted)) = [run_message]" "rn_results run_voted = []" "rn_worker run_voted = worker_restart demo_worker"
  by (simp_all add: run_states run_watch_fields demo_scanned_fields)

lemma run_sends: "reach run_starts run_step (On run_sent run_none)"
proof -
  obtain lo where turn: "loop_iter demo_prims demo_work_codec Pool_Theorems.demo_env Pool_Theorems.demo_env (Indexed (Some run_message)) (run_pool [] run_early (run_disk run_record)) =
     (run_pool [run_slot] [] (run_disk run_record), lo, Continue_Loop)" "lo_sent lo = [run_job]" using run_indexed by blast
  have "run_step (On run_voted run_none) () (On run_sent run_none)"
    using relayer_step.pools [of run_setting run_voted "Indexed (Some run_message)" Pool_Theorems.demo_env Pool_Theorems.demo_env
        "run_pool [run_slot] [] (run_disk run_record)" lo run_none] turn
    by (simp add: run_voted_fields from_channels_def run_sent_def ended_by_def finished_by_def)
  with run_votes show ?thesis by (rule reach_step)
qed

lemma run_sent_fields: "rn_pool run_sent = run_pool [run_slot] [] (run_disk run_record)" "rn_jobs run_sent = [run_job]"
  "rn_results run_sent = []" "rn_worker run_sent = worker_restart demo_worker"
  by (simp_all add: run_sent_def after_pool_def run_voted_fields)

lemma run_worker_fresh: "worker_restart demo_worker = demo_worker"
  by (simp add: worker_restart_def demo_worker_def ledger_restart_def failed_retries_new_def outcome_store_new_def)

lemma run_works: "reach run_starts run_step (On run_done \<lparr>hi_reports = [run_report], hi_ended = {}\<rparr>)"
proof -
  have "run_step (On run_sent run_none) () (On run_done \<lparr>hi_reports = [run_report], hi_ended = {}\<rparr>)"
    using relayer_step.works [of run_job run_sent run_setting demo_job_env None run_worker run_result run_none] run_delivers
    by (simp add: run_sent_fields run_worker_fresh run_done_def reporting_def run_report_def run_result_def)
  with run_sends show ?thesis by (rule reach_step)
qed

lemma run_delivered:
  "\<exists>r. reach run_starts run_step (On r run_history) \<and> wt_last_seen (rn_watch r) = 1 \<and> lp_work (rn_pool r) = Some (run_disk [])"
proof -
  have fields: "rn_pool run_done = run_pool [run_slot] [] (run_disk run_record)" "rn_results run_done = [run_result]"
    "wt_last_seen (rn_watch run_done) = 1"
    by (simp_all add: run_done_def run_sent_fields) (simp add: run_states run_watch_fields)
  obtain t lo where turn: "loop_iter demo_prims demo_work_codec Pool_Theorems.demo_env Pool_Theorems.demo_env (Result (Some run_result))
     (run_pool [run_slot] [] (run_disk run_record)) = (t, lo, Continue_Loop)" "lp_work t = Some (run_disk [])"
    using run_completes by blast
  let ?r = "after_pool (Result (Some run_result)) t (lo_sent lo) run_done"
  have "run_step (On run_done \<lparr>hi_reports = [run_report], hi_ended = {}\<rparr>) () (On ?r run_history)"
    using relayer_step.pools [of run_setting run_done "Result (Some run_result)" Pool_Theorems.demo_env Pool_Theorems.demo_env t lo
        "\<lparr>hi_reports = [run_report], hi_ended = {}\<rparr>"] turn(1)
    by (simp add: fields from_channels_def ended_by_def finished_by_def run_history_def run_result_def finishes_def)
  from reach_step [OF run_works this] turn(2) fields(3) show ?thesis
    by (intro exI [of _ ?r]) (simp add: after_pool_def with_work_def)
qed

section \<open>Kept or settled\<close>

text \<open>C1. No message is lost between the source chain and the reason to let it go. In every run of a route's
  watcher, pool and delivery worker (turns interleaved in any order, any write, send or node failing, the process
  killed and restarted at any point; a source node may fail to answer but what it answers is the chain's), take a message of an authorized Outbox at a block the cursor has passed. Its
  record is on disk under the route's key, or some job of this very message was answered for good reason: the
  destination's own events show it executed, or it exceeds the route's caps, or it was underfunded on a known
  funding report, or its failed executions used up the route's retry budget.\<close>

theorem message_kept_or_settled:
  assumes "reach (relayer_begins G) (relayer_step G) (On r h)"
    and "first_cursor (sg_watch G) < b" and "b \<le> wt_last_seen (rn_watch r)"
    and "Scanner_System.relevant (sg_source G) (sg_world G) (sg_watch G) b l"
  shows "\<exists>d ws. sa_dec_published (sg_source G) (sl_topics l) (sl_data l) = Some d \<and> lp_work (rn_pool r) = Some ws
    \<and> (pb_message_id d \<in> contents (sg_key G) ws \<or> justified G h (pb_message_id d))"
proof -
  have inv: "relayer_inv G (On r h)" by (rule relayer.reach_inv [OF assms(1)])
  then obtain ws where ws: "lp_work (rn_pool r) = Some ws"
    and cov: "covered (sg_source G) (sg_world G) (sg_watch G) (wt_last_seen (rn_watch r)) (contents (sg_key G) ws \<union> hi_ended h)"
    by auto
  from cov assms(2-4) obtain d where "sa_dec_published (sg_source G) (sl_topics l) (sl_data l) = Some d"
    "pb_message_id d \<in> contents (sg_key G) ws \<union> hi_ended h" by (auto simp: covered_def)
  moreover have "\<forall>mid \<in> hi_ended h. justified G h mid" using inv by (simp add: history_ok_def)
  ultimately show ?thesis using ws by blast
qed

theorem message_kept_or_settled_witness:
  "justified run_setting run_history 11 \<and> 11 \<notin> contents 7 (run_disk [])"
proof -
  obtain r where r: "reach run_starts run_step (On r run_history)" "wt_last_seen (rn_watch r) = 1"
    "lp_work (rn_pool r) = Some (run_disk [])" using run_delivered by blast
  have rel: "Scanner_System.relevant Scanner_Theorems.demo_abi demo_world demo_watch 1 demo_log"
    by (simp add: Scanner_System.relevant_def demo_world_def wanted_def demo_log_def Scanner_Theorems.demo_abi_def is_none_or_def authorization_def
        discovery_at_def authorized_at_def registry_chain_key_def world_node_def decode_response_def)
  have first: "first_cursor demo_watch < 1" by (simp add: first_cursor_def sat_sub_def)
  have gone: "11 \<notin> contents 7 (run_disk [])" by (simp add: contents_def run_disk_def dir_of_def)
  from message_kept_or_settled [OF r(1), of 1 demo_log] r(2,3) rel first gone show ?thesis
    by (auto simp: Scanner_Theorems.demo_abi_def demo_log_def demo_published_def split: if_splits)
qed

end
