(* ===== verification/F64.thy ===== *)
theory F64
  imports Config Complex_Main "HOL-Library.Log_Nat"
begin

text \<open>
  The double-precision arithmetic of the metrics: the bit pattern of a non-negative double, its exact value, and
  rounding to the nearest double with ties to even. The relayer converts counters, clock readings and durations,
  which are never negative, so the sign bit is not needed. Shown: the error of a rounding, and that integers up
  to \<open>2 ^ 53\<close> are exact.
\<close>

section \<open>Values and rounding\<close>

text \<open>The exact value of a finite double with a clear sign bit.\<close>

definition f64_val :: "f64 \<Rightarrow> rat" where
  "f64_val w =
     (let bits = uint w; expo = bits div 2 ^ 52 mod 2 ^ 11; frac = bits mod 2 ^ 52
      in if expo = 0 then of_int frac * 2 powi (- 1074) else of_int (2 ^ 52 + frac) * 2 powi (expo - 1075))"

definition log2_floor :: "rat \<Rightarrow> int" where
  "log2_floor x =
     (let (p, q) = quotient_of x; e = int (floorlog 2 (nat p)) - int (floorlog 2 (nat q))
      in if 2 powi e \<le> x then e else e - 1)"

definition round_half_even :: "rat \<Rightarrow> int" where
  "round_half_even x =
     (let n = \<lfloor>x\<rfloor>; d = x - of_int n in
      if d < 1 / 2 then n else if 1 / 2 < d then n + 1 else if even n then n else n + 1)"

text \<open>
  With exponent \<open>e\<close> the multiples of \<open>2 ^ (e - 52)\<close> are representable. The sum below puts the multiple into the
  fraction and carries its leading bit into the exponent.
\<close>

definition ulp_exponent :: "rat \<Rightarrow> int" where
  "ulp_exponent x = max (log2_floor x) (- 1022) - 52"

definition f64_round :: "rat \<Rightarrow> f64" where
  "f64_round x =
     (if x \<le> 0 then 0
      else if 2 powi 1024 \<le> x then 0x7FF0000000000000
      else let u = ulp_exponent x in word_of_int ((u + 1074) * 2 ^ 52 + round_half_even (x / 2 powi u)))"

definition f64_of_nat :: "nat \<Rightarrow> f64" where "f64_of_nat n = f64_round (of_nat n)"

definition f64_add :: "f64 \<Rightarrow> f64 \<Rightarrow> f64" where "f64_add a b = f64_round (f64_val a + f64_val b)"

definition f64_div :: "f64 \<Rightarrow> f64 \<Rightarrow> f64" where "f64_div a b = f64_round (f64_val a / f64_val b)"

text \<open>\<^verbatim>\<open>Duration::as_secs_f64\<close>: whole seconds plus the fraction of nanoseconds.\<close>

definition as_secs_f64 :: "duration \<Rightarrow> f64" where
  "as_secs_f64 d = f64_add (f64_of_nat (d div 1000000000)) (f64_div (f64_of_nat (d mod 1000000000)) (f64_of_nat 1000000000))"

section \<open>The error of a rounding\<close>

lemma floorlog2_bounds:
  assumes "0 < n"
  shows "2 powi (int (floorlog 2 n) - 1) \<le> (of_nat n :: rat)" "(of_nat n :: rat) < 2 powi int (floorlog 2 n)"
proof -
  have b: "2 ^ (floorlog 2 n - 1) \<le> n" "n < 2 ^ floorlog 2 n" using floorlog_bounds [of n 2] assms by auto
  have pos: "0 < floorlog 2 n" using assms by (simp add: floorlog_def)
  then have e: "int (floorlog 2 n) - 1 = int (floorlog 2 n - 1)" by simp
  from b(1) have "(of_nat (2 ^ (floorlog 2 n - 1)) :: rat) \<le> of_nat n" by (rule of_nat_mono)
  then show "2 powi (int (floorlog 2 n) - 1) \<le> (of_nat n :: rat)" unfolding e by simp
  from b(2) have "(of_nat n :: rat) < of_nat (2 ^ floorlog 2 n)" by (simp only: of_nat_less_iff)
  then show "(of_nat n :: rat) < 2 powi int (floorlog 2 n)" by simp
qed

lemma log2_floor_bounds:
  assumes "0 < x"
  shows "2 powi log2_floor x \<le> x" "x < 2 powi (log2_floor x + 1)"
proof -
  obtain p q where pq: "quotient_of x = (p, q)" by fastforce
  have q: "0 < q" by (rule quotient_of_denom_pos [OF pq])
  have x: "x = of_int p / of_int q" by (rule quotient_of_div [OF pq])
  with assms q have p: "0 < p" by (simp add: zero_less_divide_iff)
  define a b where "a = int (floorlog 2 (nat p))" and "b = int (floorlog 2 (nat q))"
  have P: "2 powi (a - 1) \<le> (of_int p :: rat)" "(of_int p :: rat) < 2 powi a"
    using floorlog2_bounds [of "nat p"] p by (simp_all add: a_def)
  have Q: "2 powi (b - 1) \<le> (of_int q :: rat)" "(of_int q :: rat) < 2 powi b"
    using floorlog2_bounds [of "nat q"] q by (simp_all add: b_def)
  have pos: "0 < (2 :: rat) powi k" for k by simp
  have "2 powi (a - 1) / 2 powi b < x" unfolding x
    using P(1) Q(2) pos q p by (intro frac_less2) auto
  then have lo: "2 powi (a - b - 1) < x" by (simp add: power_int_diff [symmetric] algebra_simps)
  have "x < 2 powi a / 2 powi (b - 1)" unfolding x
    using P(2) Q(1) pos p by (intro frac_less) auto
  then have hi: "x < 2 powi (a - b + 1)" by (simp add: power_int_diff [symmetric] algebra_simps)
  have "log2_floor x = (if 2 powi (a - b) \<le> x then a - b else a - b - 1)"
    by (simp add: log2_floor_def pq a_def b_def)
  with lo hi show "2 powi log2_floor x \<le> x" "x < 2 powi (log2_floor x + 1)"
    by (auto simp: algebra_simps split: if_splits)
qed

lemma round_half_even_error: "\<bar>of_int (round_half_even x) - x\<bar> \<le> 1 / 2"
proof -
  have "of_int \<lfloor>x\<rfloor> \<le> x" "x < of_int \<lfloor>x\<rfloor> + 1" by linarith+
  then show ?thesis by (auto simp: round_half_even_def Let_def abs_le_iff)
qed

lemma round_half_even_int [simp]: "round_half_even (of_int k) = k"
  by (simp add: round_half_even_def)

lemma round_half_even_bounds:
  assumes "of_int a \<le> x" "x \<le> of_int b"
  shows "a \<le> round_half_even x" "round_half_even x \<le> b"
proof -
  have "a \<le> \<lfloor>x\<rfloor>" using assms(1) by (simp add: le_floor_iff)
  moreover have "\<lfloor>x\<rfloor> \<le> b" using assms(2) by linarith
  moreover have "\<lfloor>x\<rfloor> < b" if "x \<noteq> of_int \<lfloor>x\<rfloor>"
  proof -
    have "of_int \<lfloor>x\<rfloor> \<le> x" by linarith
    with that assms(2) have "of_int \<lfloor>x\<rfloor> < (of_int b :: rat)" by linarith
    then show ?thesis by simp
  qed
  ultimately show "a \<le> round_half_even x" "round_half_even x \<le> b"
    by (force simp: round_half_even_def Let_def)+
qed

text \<open>The number of units a positive value rounds to, and what the bits say.\<close>

lemma ulp_multiple:
  assumes "0 < x"
  shows "0 \<le> round_half_even (x / 2 powi ulp_exponent x)" "round_half_even (x / 2 powi ulp_exponent x) \<le> 2 ^ 53"
    "- 1074 \<le> ulp_exponent x" "ulp_exponent x \<noteq> - 1074 \<Longrightarrow> 2 ^ 52 \<le> round_half_even (x / 2 powi ulp_exponent x)"
proof -
  let ?u = "ulp_exponent x"
  have pos: "0 < (2 :: rat) powi ?u" by simp
  show "0 \<le> round_half_even (x / 2 powi ?u)"
    using round_half_even_bounds(1) [of 0 "x / 2 powi ?u" "\<lceil>x / 2 powi ?u\<rceil>"] assms by simp
  have "x < 2 powi (log2_floor x + 1)" by (rule log2_floor_bounds(2) [OF assms])
  also have "\<dots> \<le> 2 powi (?u + 53)" by (rule power_int_increasing) (auto simp: ulp_exponent_def)
  also have "\<dots> = 2 powi ?u * 2 ^ 53" by (simp add: power_int_add)
  finally have "x / 2 powi ?u \<le> of_int (2 ^ 53)" using pos by (simp add: divide_le_eq mult.commute)
  then show "round_half_even (x / 2 powi ?u) \<le> 2 ^ 53"
    using round_half_even_bounds(2) [of 0 "x / 2 powi ?u" "2 ^ 53"] assms by simp
  show "- 1074 \<le> ?u" by (simp add: ulp_exponent_def)
  assume "?u \<noteq> - 1074"
  then have e: "?u + 52 = log2_floor x" by (simp add: ulp_exponent_def max_def split: if_splits)
  have "2 powi ?u * 2 ^ 52 = (2 :: rat) powi (?u + 52)" by (simp add: power_int_add)
  also have "\<dots> \<le> x" unfolding e by (rule log2_floor_bounds(1) [OF assms])
  finally have "of_int (2 ^ 52) \<le> x / 2 powi ?u" using pos by (simp add: le_divide_eq mult.commute)
  then show "2 ^ 52 \<le> round_half_even (x / 2 powi ?u)"
    using round_half_even_bounds(1) [of "2 ^ 52" "x / 2 powi ?u" "\<lceil>x / 2 powi ?u\<rceil>"] by simp
qed

lemma f64_val_bits:
  assumes "0 \<le> k" "k \<le> 2 ^ 53" "0 \<le> b" "b < 2045" "b \<noteq> 0 \<Longrightarrow> 2 ^ 52 \<le> k"
  shows "f64_val (word_of_int (b * 2 ^ 52 + k)) = of_int k * 2 powi (b - 1074)"
proof -
  have "b * 2 ^ 52 + k < 2 ^ 64" "0 \<le> b * 2 ^ 52 + k" using assms by simp_all
  then have bits: "uint (word_of_int (b * 2 ^ 52 + k) :: f64) = b * 2 ^ 52 + k" by (simp add: uint_word_of_int del: of_int_add of_int_mult)
  consider "k < 2 ^ 52" | "2 ^ 52 \<le> k" "k < 2 ^ 53" | "k = 2 ^ 53" using assms(2) by linarith
  then show ?thesis
  proof cases
    case 1
    with assms have "b = 0" by linarith
    with 1 assms(1) bits show ?thesis by (simp add: f64_val_def Let_def)
  next
    case 2
    define m where "m = k - 2 ^ 52"
    with 2 have m: "0 \<le> m" "m < 2 ^ 52" "b * 2 ^ 52 + k = (b + 1) * 2 ^ 52 + m" by simp_all
    have "(b * 2 ^ 52 + k) div 2 ^ 52 = b + 1" "(b * 2 ^ 52 + k) mod 2 ^ 52 = m"
      unfolding m(3) using m(1,2) mod_mult_self3 [of "b + 1" "2 ^ 52" m] by simp_all
    with assms(3,4) bits m_def show ?thesis by (simp add: f64_val_def Let_def)
  next
    case 3
    have "b * 2 ^ 52 + 2 ^ 53 = (b + 2) * 2 ^ (52 :: nat)" by simp
    then have "(b * 2 ^ 52 + k) div 2 ^ 52 = b + 2" "(b * 2 ^ 52 + k) mod 2 ^ 52 = 0"
      using 3 by (simp_all only: nonzero_mult_div_cancel_right mod_mult_self2_is_0) simp_all
    moreover have "2 powi (b + 2 - 1075) = 2 * (2 :: rat) powi (b - 1074)"
      using power_int_add [of "2 :: rat" 1 "b - 1074"] by simp
    ultimately show ?thesis using assms(3,4) bits 3 by (simp add: f64_val_def Let_def)
  qed
qed

lemma f64_round_val:
  assumes "0 < x" "x < 2 powi 1023"
  shows "f64_val (f64_round x) = of_int (round_half_even (x / 2 powi ulp_exponent x)) * 2 powi ulp_exponent x"
proof -
  have "2 powi log2_floor x < (2 :: rat) powi 1023" using log2_floor_bounds(1) [OF assms(1)] assms(2) by linarith
  then have "log2_floor x < 1023" using power_int_increasing [of 1023 "log2_floor x" "2 :: rat"] by (meson linorder_not_le one_le_numeral)
  then have u: "ulp_exponent x < 971" by (simp add: ulp_exponent_def)
  have "(2 :: rat) powi 1023 \<le> 2 powi 1024" by (rule power_int_increasing) simp_all
  with assms have "f64_round x = word_of_int ((ulp_exponent x + 1074) * 2 ^ 52 + round_half_even (x / 2 powi ulp_exponent x))"
    by (simp add: f64_round_def Let_def del: power_int_numeral)
  with f64_val_bits [of "round_half_even (x / 2 powi ulp_exponent x)" "ulp_exponent x + 1074"] ulp_multiple [OF assms(1)] u
  show ?thesis by simp
qed

lemma f64_round_error:
  assumes "0 < x" "x < 2 powi 1023"
  shows "\<bar>f64_val (f64_round x) - x\<bar> \<le> 2 powi (ulp_exponent x - 1)"
proof -
  let ?p = "2 powi ulp_exponent x :: rat"
  have pos: "0 < ?p" by simp
  have "\<bar>of_int (round_half_even (x / ?p)) * ?p - x\<bar> = \<bar>of_int (round_half_even (x / ?p)) - x / ?p\<bar> * ?p"
  proof -
    have "of_int (round_half_even (x / ?p)) * ?p - x = (of_int (round_half_even (x / ?p)) - x / ?p) * ?p"
      using pos by (simp add: left_diff_distrib)
    with pos show ?thesis by (simp only: abs_mult abs_of_pos)
  qed
  also have "\<dots> \<le> 1 / 2 * ?p" using round_half_even_error [of "x / ?p"] pos by (intro mult_right_mono) auto
  also have "\<dots> = 2 powi (ulp_exponent x - 1)" by (simp add: power_int_diff)
  finally show ?thesis using f64_round_val [OF assms] by simp
qed

lemma f64_zero [simp]: "f64_val 0 = 0" by (simp add: f64_val_def)

lemma log2_floor_less:
  assumes "0 < x" "x < 2 powi k"
  shows "log2_floor x < k"
proof (rule ccontr)
  assume "\<not> log2_floor x < k"
  then have "(2 :: rat) powi k \<le> 2 powi log2_floor x" by (intro power_int_increasing) simp_all
  with log2_floor_bounds(1) [OF assms(1)] assms(2) show False by linarith
qed

lemma f64_of_nat_exact:
  assumes "n \<le> 2 ^ 53"
  shows "f64_val (f64_of_nat n) = of_nat n"
proof (cases "n = 0")
  case True
  then show ?thesis by (simp add: f64_of_nat_def f64_round_def)
next
  case False
  let ?x = "of_nat n :: rat"
  have x: "0 < ?x" using False by simp
  have le: "?x \<le> 2 ^ 53" using of_nat_mono [OF assms] by simp
  have "(2 :: rat) ^ 53 < 2 powi 1023" using power_int_strict_increasing [of 53 1023 "2 :: rat"] by simp
  with le have small: "?x < 2 powi 1023" by linarith
  have "log2_floor ?x < 54"
    by (rule log2_floor_less [OF x]) (use le in simp)
  moreover have "0 \<le> log2_floor ?x"
  proof (rule ccontr)
    assume "\<not> 0 \<le> log2_floor ?x"
    then have "(2 :: rat) powi (log2_floor ?x + 1) \<le> 2 powi 0" by (intro power_int_increasing) simp_all
    with log2_floor_bounds(2) [OF x] have "?x < 1" by simp
    with False show False by simp
  qed
  ultimately have u: "ulp_exponent ?x = log2_floor ?x - 52" "- 52 \<le> ulp_exponent ?x" "ulp_exponent ?x \<le> 1"
    by (simp_all add: ulp_exponent_def)
  have "\<exists>k. ?x / 2 powi ulp_exponent ?x = of_int k"
  proof (cases "ulp_exponent ?x \<le> 0")
    case True
    have "inverse (2 powi ulp_exponent ?x) = (2 :: rat) powi (- ulp_exponent ?x)" by (simp only: power_int_minus)
    also have "\<dots> = 2 ^ nat (- ulp_exponent ?x)" by (rule power_int_nonneg_exp) (use True in simp)
    finally have "?x / 2 powi ulp_exponent ?x = of_int (int n * 2 ^ nat (- ulp_exponent ?x))"
      by (simp add: divide_inverse)
    then show ?thesis by blast
  next
    case False
    with u have "ulp_exponent ?x = 1" by linarith
    with u have "log2_floor ?x = 53" by simp
    with log2_floor_bounds(1) [OF x] le have "?x = 2 ^ 53" by simp
    then have "?x / 2 powi ulp_exponent ?x = of_int (2 ^ 52)" using \<open>ulp_exponent ?x = 1\<close> by simp
    then show ?thesis by blast
  qed
  then obtain k where k: "?x / 2 powi ulp_exponent ?x = of_int k" by blast
  then have "of_int k * 2 powi ulp_exponent ?x = ?x" by (simp add: divide_eq_eq)
  with f64_round_val [OF x small] k show ?thesis by (simp add: f64_of_nat_def)
qed

end
