(* ===== verification/Prom.thy ===== *)
theory Prom
  imports F64 Health Outcome Pool_Run Delivery Ack Config_Load
begin

text \<open>
  The metrics of the relayer and its HTTP surface (\<^verbatim>\<open>message-relayer/src/prom/mod.rs\<close>): what every metric is
  registered as, one operation per method of \<^verbatim>\<open>MetricsTrait\<close>, the gauges copied at scrape time, and the handlers of
  \<^verbatim>\<open>/health\<close>, \<^verbatim>\<open>/votes\<close>, \<^verbatim>\<open>/outcomes\<close> and \<^verbatim>\<open>/metrics\<close>. The text encoding, the parser of message ids and the
  rendering of an address are the libraries' and appear as parameters; a JSON body is the value that is serialised.
\<close>

section \<open>Registration\<close>

type_synonym i64 = "64 word"
type_synonym label_vote = "u64 \<times> vote_outcome"
type_synonym label_delivery = "u64 \<times> delivery_status"
type_synonym label_settlement = "u64 \<times> settlement_metric"
type_synonym label_proof_fetch = "u64 \<times> proof_metric"
type_synonym label_signer = "u64 \<times> string \<times> string"

text \<open>A registered metric by its kind; a histogram has exponential buckets: start, factor, count.\<close>

datatype registered =
    CounterFamily
  | CounterMetric
  | GaugeFamily
  | GaugeMetric
  | HistogramMetric f64 f64 nat
  | InfoMetric string

record relayer_metrics =
  rm_registry :: "(string \<times> registered) list"
  rm_messages_indexed :: "(u64, u64) hash_map"
  rm_votes :: "(label_vote, u64) hash_map"
  rm_votes_per_message :: "f64 list"
  rm_deliver_tx :: "(label_delivery, u64) hash_map"
  rm_time_to_threshold_seconds :: "f64 list"
  rm_time_to_deliver_seconds :: "f64 list"
  rm_p2p_peer_count :: "(u64, i64) hash_map"
  rm_pool_messages_pending :: i64
  rm_attestor_set_size :: "(u64, i64) hash_map"
  rm_attestor_set_reloads :: "(u64, u64) hash_map"
  rm_ack_submissions :: "(label_settlement, u64) hash_map"
  rm_ack_proof_fetches :: "(label_proof_fetch, u64) hash_map"
  rm_claim_submissions :: "(label_settlement, u64) hash_map"
  rm_settlement_queue_depth :: "(u64, i64) hash_map"
  rm_signer_balance :: "(label_signer, f64) hash_map"
  rm_cpu_usage_percent :: f64
  rm_memory_usage_bytes :: f64
  rm_thread_count :: i64
  rm_start_time_seconds :: f64
  rm_worker_last_success :: "(string, f64) hash_map"
  rm_worker_degraded :: "(string, i64) hash_map"
  rm_checkpoint_write_failures :: "(u64, u64) hash_map"
  rm_delivery_retries_exceeded :: "(u64, u64) hash_map"
  rm_destination_failed_retries_exhausted :: "(u64, u64) hash_map"
  rm_outcome_store_size :: i64
  rm_outcome_store_evictions :: i64

fun joined :: "string \<Rightarrow> string list \<Rightarrow> string" where
  "joined sep [] = []"
| "joined sep [s] = s"
| "joined sep (s # t # ss) = s @ sep @ joined sep (t # ss)"

definition F64_TENTH :: f64 where "F64_TENTH = 0x3FB999999999999A"
definition F64_ONE :: f64 where "F64_ONE = 0x3FF0000000000000"
definition F64_TWO :: f64 where "F64_TWO = 0x4000000000000000"

text \<open>The help texts are left out.\<close>

definition message_registry :: "(string \<times> registered) list" where
  "message_registry =
     [(''relayer_messages_indexed'', CounterFamily),
      (''relayer_votes_received'', CounterFamily),
      (''relayer_votes_per_message'', HistogramMetric F64_ONE F64_TWO 10),
      (''relayer_deliver_tx'', CounterFamily),
      (''relayer_time_to_threshold_seconds'', HistogramMetric F64_TENTH F64_TWO 14),
      (''relayer_time_to_deliver_seconds'', HistogramMetric F64_TENTH F64_TWO 14),
      (''relayer_p2p_peer_count'', GaugeFamily),
      (''relayer_pool_messages_pending'', GaugeMetric),
      (''relayer_attestor_set_size'', GaugeFamily),
      (''relayer_attestor_set_reloads'', CounterFamily),
      (''relayer_ack_submissions'', CounterFamily),
      (''relayer_ack_proof_fetches'', CounterFamily),
      (''relayer_claim_submissions'', CounterFamily),
      (''relayer_settlement_queue_depth'', GaugeFamily),
      (''relayer_signer_balance_ether'', GaugeFamily)]"

definition process_registry :: "u64 list \<Rightarrow> (string \<times> registered) list" where
  "process_registry keys =
     [(''relayer_cpu_usage_percent'', GaugeMetric),
      (''relayer_memory_usage_bytes'', GaugeMetric),
      (''relayer_thread_count'', GaugeMetric),
      (''relayer_start_time_seconds'', GaugeMetric),
      (''relayer_worker_last_success_timestamp_seconds'', GaugeFamily),
      (''relayer_worker_degraded'', GaugeFamily),
      (''relayer_checkpoint_write_failures'', CounterFamily),
      (''relayer_delivery_retries_exceeded'', CounterFamily),
      (''relayer_destination_failed_retries_exhausted'', CounterFamily),
      (''relayer_outcome_store_size'', GaugeMetric),
      (''relayer_outcome_store_evictions'', GaugeMetric),
      (''relayer_server'', InfoMetric (joined '','' (map (\<lambda>k. decimal (unat k)) keys)))]"

text \<open>The clock is the time since the epoch; a clock before it is a panic, \<open>None\<close>.\<close>

definition metrics_new :: "duration option \<Rightarrow> u64 list \<Rightarrow> relayer_metrics option" where
  "metrics_new since_epoch keys =
     map_option (\<lambda>now.
       \<lparr>rm_registry = message_registry @ process_registry keys, rm_messages_indexed = [], rm_votes = [], rm_votes_per_message = [],
        rm_deliver_tx = [], rm_time_to_threshold_seconds = [], rm_time_to_deliver_seconds = [], rm_p2p_peer_count = [],
        rm_pool_messages_pending = 0, rm_attestor_set_size = [], rm_attestor_set_reloads = [], rm_ack_submissions = [],
        rm_ack_proof_fetches = [], rm_claim_submissions = [], rm_settlement_queue_depth = [], rm_signer_balance = [],
        rm_cpu_usage_percent = 0, rm_memory_usage_bytes = 0, rm_thread_count = 0, rm_start_time_seconds = as_secs_f64 now,
        rm_worker_last_success = [], rm_worker_degraded = [], rm_checkpoint_write_failures = [],
        rm_delivery_retries_exceeded = [], rm_destination_failed_retries_exhausted = [], rm_outcome_store_size = 0,
        rm_outcome_store_evictions = 0\<rparr>) since_epoch"

section \<open>The methods\<close>

text \<open>\<^verbatim>\<open>get_or_create(label).inc()\<close> and \<^verbatim>\<open>get_or_create(label).set(v)\<close>. An atomic counter wraps.\<close>

definition counter_value :: "('l, u64) hash_map \<Rightarrow> 'l \<Rightarrow> u64" where
  "counter_value fam l = (case hm_get fam l of Some n \<Rightarrow> n | None \<Rightarrow> 0)"

definition family_inc :: "'l \<Rightarrow> ('l, u64) hash_map \<Rightarrow> ('l, u64) hash_map" where
  "family_inc l fam = hm_insert l (counter_value fam l + 1) fam"

definition family_set :: "'l \<Rightarrow> 'v \<Rightarrow> ('l, 'v) hash_map \<Rightarrow> ('l, 'v) hash_map" where
  "family_set l v fam = hm_insert l v fam"

definition inc_messages_indexed :: "u64 \<Rightarrow> relayer_metrics \<Rightarrow> relayer_metrics" where
  "inc_messages_indexed ck m = m\<lparr>rm_messages_indexed := family_inc ck (rm_messages_indexed m)\<rparr>"

definition inc_vote :: "u64 \<Rightarrow> vote_outcome \<Rightarrow> relayer_metrics \<Rightarrow> relayer_metrics" where
  "inc_vote ck oc m = m\<lparr>rm_votes := family_inc (ck, oc) (rm_votes m)\<rparr>"

definition observe_votes_per_message :: "u64 \<Rightarrow> relayer_metrics \<Rightarrow> relayer_metrics" where
  "observe_votes_per_message n m = m\<lparr>rm_votes_per_message := rm_votes_per_message m @ [f64_of_nat (unat n)]\<rparr>"

definition inc_deliver_tx :: "u64 \<Rightarrow> delivery_status \<Rightarrow> relayer_metrics \<Rightarrow> relayer_metrics" where
  "inc_deliver_tx ck st m = m\<lparr>rm_deliver_tx := family_inc (ck, st) (rm_deliver_tx m)\<rparr>"

definition observe_time_to_threshold :: "duration \<Rightarrow> relayer_metrics \<Rightarrow> relayer_metrics" where
  "observe_time_to_threshold d m = m\<lparr>rm_time_to_threshold_seconds := rm_time_to_threshold_seconds m @ [as_secs_f64 d]\<rparr>"

definition observe_time_to_deliver :: "duration \<Rightarrow> relayer_metrics \<Rightarrow> relayer_metrics" where
  "observe_time_to_deliver d m = m\<lparr>rm_time_to_deliver_seconds := rm_time_to_deliver_seconds m @ [as_secs_f64 d]\<rparr>"

definition set_p2p_peer_count :: "u64 \<Rightarrow> i64 \<Rightarrow> relayer_metrics \<Rightarrow> relayer_metrics" where
  "set_p2p_peer_count ck n m = m\<lparr>rm_p2p_peer_count := family_set ck n (rm_p2p_peer_count m)\<rparr>"

definition set_pool_messages_pending :: "i64 \<Rightarrow> relayer_metrics \<Rightarrow> relayer_metrics" where
  "set_pool_messages_pending n m = m\<lparr>rm_pool_messages_pending := n\<rparr>"

definition set_attestor_set_size :: "u64 \<Rightarrow> i64 \<Rightarrow> relayer_metrics \<Rightarrow> relayer_metrics" where
  "set_attestor_set_size ck n m = m\<lparr>rm_attestor_set_size := family_set ck n (rm_attestor_set_size m)\<rparr>"

definition inc_attestor_set_reload :: "u64 \<Rightarrow> relayer_metrics \<Rightarrow> relayer_metrics" where
  "inc_attestor_set_reload ck m = m\<lparr>rm_attestor_set_reloads := family_inc ck (rm_attestor_set_reloads m)\<rparr>"

definition inc_ack_submission :: "u64 \<Rightarrow> settlement_metric \<Rightarrow> relayer_metrics \<Rightarrow> relayer_metrics" where
  "inc_ack_submission ck oc m = m\<lparr>rm_ack_submissions := family_inc (ck, oc) (rm_ack_submissions m)\<rparr>"

definition inc_ack_proof_fetch :: "u64 \<Rightarrow> proof_metric \<Rightarrow> relayer_metrics \<Rightarrow> relayer_metrics" where
  "inc_ack_proof_fetch ck oc m = m\<lparr>rm_ack_proof_fetches := family_inc (ck, oc) (rm_ack_proof_fetches m)\<rparr>"

definition inc_claim_submission :: "u64 \<Rightarrow> settlement_metric \<Rightarrow> relayer_metrics \<Rightarrow> relayer_metrics" where
  "inc_claim_submission ck oc m = m\<lparr>rm_claim_submissions := family_inc (ck, oc) (rm_claim_submissions m)\<rparr>"

definition set_settlement_queue_depth :: "u64 \<Rightarrow> i64 \<Rightarrow> relayer_metrics \<Rightarrow> relayer_metrics" where
  "set_settlement_queue_depth ck n m = m\<lparr>rm_settlement_queue_depth := family_set ck n (rm_settlement_queue_depth m)\<rparr>"

definition set_signer_balance :: "(address \<Rightarrow> string) \<Rightarrow> u64 \<Rightarrow> string \<Rightarrow> address \<Rightarrow> f64 \<Rightarrow> relayer_metrics \<Rightarrow> relayer_metrics" where
  "set_signer_balance render ck role addr ether m =
     m\<lparr>rm_signer_balance := family_set (ck, role, render addr) ether (rm_signer_balance m)\<rparr>"

definition inc_checkpoint_write_failure :: "u64 \<Rightarrow> relayer_metrics \<Rightarrow> relayer_metrics" where
  "inc_checkpoint_write_failure ck m = m\<lparr>rm_checkpoint_write_failures := family_inc ck (rm_checkpoint_write_failures m)\<rparr>"

definition inc_delivery_retries_exceeded :: "u64 \<Rightarrow> relayer_metrics \<Rightarrow> relayer_metrics" where
  "inc_delivery_retries_exceeded ck m = m\<lparr>rm_delivery_retries_exceeded := family_inc ck (rm_delivery_retries_exceeded m)\<rparr>"

definition inc_destination_failed_retries_exhausted :: "u64 \<Rightarrow> relayer_metrics \<Rightarrow> relayer_metrics" where
  "inc_destination_failed_retries_exhausted ck m =
     m\<lparr>rm_destination_failed_retries_exhausted := family_inc ck (rm_destination_failed_retries_exhausted m)\<rparr>"

section \<open>Gauges copied at scrape time\<close>

definition sync_worker_progress :: "u64 \<Rightarrow> health \<Rightarrow> relayer_metrics \<Rightarrow> relayer_metrics" where
  "sync_worker_progress now h m =
     (let report = status now h in
      fold (\<lambda>(worker, last_ms) m.
          m\<lparr>rm_worker_last_success := family_set worker (f64_div (f64_of_nat (unat last_ms)) (f64_of_nat 1000)) (rm_worker_last_success m),
            rm_worker_degraded := family_set worker (if worker \<in> set (hr_degraded report) then 1 else 0) (rm_worker_degraded m)\<rparr>)
        (snapshot h) m)"

definition sync_outcome_store :: "outcome_store \<Rightarrow> relayer_metrics \<Rightarrow> relayer_metrics" where
  "sync_outcome_store outcomes m =
     m\<lparr>rm_outcome_store_size := of_nat (outcome_len outcomes), rm_outcome_store_evictions := os_evictions outcomes\<rparr>"

text \<open>What \<^verbatim>\<open>sysinfo\<close> says: the process if it is found, its CPU usage, memory and tasks, and the number of CPUs.\<close>

record process_reading =
  pr_cpu_usage :: f64
  pr_memory :: u64
  pr_tasks :: "nat option"

record system_reading =
  sr_process :: "process_reading option"
  sr_cpus :: nat

definition update_gauges_from_system :: "system_reading \<Rightarrow> relayer_metrics \<Rightarrow> relayer_metrics" where
  "update_gauges_from_system sys m =
     (case sr_process sys of
        None \<Rightarrow> m
      | Some p \<Rightarrow>
          (let cpu_percent = (if 0 < sr_cpus sys then f64_div (pr_cpu_usage p) (f64_of_nat (sr_cpus sys)) else 0);
               m1 = m\<lparr>rm_cpu_usage_percent := cpu_percent, rm_memory_usage_bytes := f64_of_nat (unat (pr_memory p))\<rparr>
           in case pr_tasks p of Some n \<Rightarrow> m1\<lparr>rm_thread_count := of_nat n\<rparr> | None \<Rightarrow> m1))"

text \<open>Every tick publishes the reading of the refresh before it. \<open>True\<close>: the updater returned.\<close>

datatype hardware_event = HardwareCancelled | HardwareTick system_reading

fun hardware_loop :: "system_reading \<Rightarrow> hardware_event list \<Rightarrow> relayer_metrics \<Rightarrow> relayer_metrics \<times> bool" where
  "hardware_loop sys [] m = (m, False)"
| "hardware_loop sys (HardwareCancelled # es) m = (m, True)"
| "hardware_loop sys (HardwareTick refreshed # es) m = hardware_loop refreshed es (update_gauges_from_system sys m)"

definition run_hardware_updater :: "system_reading option \<Rightarrow> hardware_event list \<Rightarrow> relayer_metrics \<Rightarrow> relayer_metrics \<times> bool" where
  "run_hardware_updater warmed_up es m = (case warmed_up of None \<Rightarrow> (m, True) | Some sys \<Rightarrow> hardware_loop sys es m)"

section \<open>The HTTP surface\<close>

datatype body =
    PlainText string
  | JsonOutcome delivery_outcome
  | JsonOutcomes "(string, delivery_outcome) btree_map"
  | JsonVotes "vote_bundle"
  | OpenMetrics string

record response =
  rs_status :: nat
  rs_body :: body

definition plain :: "nat \<Rightarrow> string \<Rightarrow> response" where "plain code msg = \<lparr>rs_status = code, rs_body = PlainText msg\<rparr>"

definition json :: "body \<Rightarrow> response" where "json b = \<lparr>rs_status = 200, rs_body = b\<rparr>"

definition outcome_handler :: "(string \<Rightarrow> b256 option) \<Rightarrow> string \<Rightarrow> outcome_store \<Rightarrow> response" where
  "outcome_handler parse id_str outcomes =
     (case parse id_str of
        None \<Rightarrow> plain 400 ''message_id must be 0x-prefixed 32-byte hex''
      | Some message_id \<Rightarrow>
          (case outcome_get message_id outcomes of
             Some oc \<Rightarrow> json (JsonOutcome oc)
           | None \<Rightarrow> plain 404 ''no outcome recorded''))"

definition OUTCOMES_BATCH_MAX :: nat where "OUTCOMES_BATCH_MAX = 256"

text \<open>\<^verbatim>\<open>{:#x}\<close> of a message id.\<close>

definition lower_hex :: "b256 \<Rightarrow> string" where "lower_hex i = ''0x'' @ hex_encode (to_be_bytes 32 (unat i))"

fun parse_ids :: "(string \<Rightarrow> b256 option) \<Rightarrow> string list \<Rightarrow> string + b256 list" where
  "parse_ids parse [] = Inr []"
| "parse_ids parse (part # parts) =
     (case parse part of
        None \<Rightarrow> Inl part
      | Some i \<Rightarrow> (case parse_ids parse parts of Inl bad \<Rightarrow> Inl bad | Inr ids \<Rightarrow> Inr (i # ids)))"

definition id_parts :: "string \<Rightarrow> string list" where
  "id_parts ids = filter (\<lambda>s. s \<noteq> []) (map trim (split_on CHR '','' ids))"

definition outcomes_handler :: "(string \<Rightarrow> b256 option) \<Rightarrow> string \<Rightarrow> outcome_store \<Rightarrow> response" where
  "outcomes_handler parse ids_str outcomes =
     (case parse_ids parse (id_parts ids_str) of
        Inl part \<Rightarrow> plain 400 (''bad message id: '' @ part)
      | Inr ids \<Rightarrow>
          if OUTCOMES_BATCH_MAX < length ids
          then plain 400 (''at most '' @ decimal OUTCOMES_BATCH_MAX @ '' ids per request'')
          else json (JsonOutcomes (fold (\<lambda>(i, oc). bt_insert (lower_hex i) oc) (outcome_get_many ids outcomes) [])))"

definition prom_health_handler :: "u64 \<Rightarrow> health \<Rightarrow> health \<times> response" where
  "prom_health_handler now h =
     (let (h', report, _) = health_report now h;
          degraded = (if hr_degraded report = [] then [] else ''degraded workers: '' @ joined '', '' (hr_degraded report))
      in (h', if \<not> is_alive report
              then plain 503 (''stale workers: '' @ joined '', '' (hr_stale report)
                     @ (if degraded = [] then [] else ''; '' @ degraded))
              else if degraded = [] then plain 200 ''ok''
              else plain 200 degraded))"

text \<open>
  The query channel of the pool: it refuses the query when the pool is gone, and the reply is missing when
  the pool dropped it.
\<close>

definition votes_handler :: "(string \<Rightarrow> b256 option) \<Rightarrow> bool \<Rightarrow> (b256 \<Rightarrow> vote_bundle option option) \<Rightarrow> string \<Rightarrow> response" where
  "votes_handler parse accepted reply id_str =
     (case parse id_str of
        None \<Rightarrow> plain 400 ''message_id must be 0x-prefixed 32-byte hex''
      | Some message_id \<Rightarrow>
          if \<not> accepted then plain 503 ''vote pool unavailable''
          else (case reply message_id of
                  Some (Some bundle) \<Rightarrow> json (JsonVotes bundle)
                | Some None \<Rightarrow> plain 404 ''message not indexed''
                | None \<Rightarrow> plain 503 ''vote pool dropped query''))"

record http_state =
  hs_metrics :: relayer_metrics
  hs_health :: health
  hs_outcomes :: outcome_store

datatype request = GetHealth | GetOutcome string | GetOutcomes string | GetMetrics | GetVotes string

definition scrape :: "u64 \<Rightarrow> http_state \<Rightarrow> http_state" where
  "scrape now s = s\<lparr>hs_metrics := sync_outcome_store (hs_outcomes s) (sync_worker_progress now (hs_health s) (hs_metrics s))\<rparr>"

definition build_metrics_response :: "(relayer_metrics \<Rightarrow> string) \<Rightarrow> relayer_metrics \<Rightarrow> response" where
  "build_metrics_response encode m = \<lparr>rs_status = 200, rs_body = OpenMetrics (encode m)\<rparr>"

text \<open>The routes; the query reaches the pool that is given.\<close>

definition router ::
  "(relayer_metrics \<Rightarrow> string) \<Rightarrow> (string \<Rightarrow> b256 option) \<Rightarrow> u64 \<Rightarrow> bool \<Rightarrow> (b256 \<Rightarrow> vote_bundle option option) \<Rightarrow> request
    \<Rightarrow> http_state \<Rightarrow> http_state \<times> response" where
  "router encode parse now accepted reply req s =
     (case req of
        GetHealth \<Rightarrow> (let (h', r) = prom_health_handler now (hs_health s) in (s\<lparr>hs_health := h'\<rparr>, r))
      | GetOutcome id_str \<Rightarrow> (s, outcome_handler parse id_str (hs_outcomes s))
      | GetOutcomes ids_str \<Rightarrow> (s, outcomes_handler parse ids_str (hs_outcomes s))
      | GetMetrics \<Rightarrow> (let s' = scrape now s in (s', build_metrics_response encode (hs_metrics s')))
      | GetVotes id_str \<Rightarrow> (s, votes_handler parse accepted reply id_str))"

end
