(* ===== verification/Delivery_Count.thy ===== *)
theory Delivery_Count
  imports Delivery_Budget
begin

text \<open>
  How a job is counted: the \<^verbatim>\<open>relayer_deliver_tx\<close> increments of one job against the transactions it handed to the
  node. A job that reaches the send loop counts as submitted once and gets exactly one result; no other job sends
  a \<^verbatim>\<open>deliverMessage\<close>.
\<close>

fun counted_status :: "delivery_metric \<Rightarrow> (u64 \<times> delivery_status) option" where
  "counted_status (IncDeliverTx ck s) = Some (ck, s)"
| "counted_status _ = None"

definition statuses :: "delivery_state \<Rightarrow> (u64 \<times> delivery_status) list" where
  "statuses ds = List.map_filter counted_status (ds_metrics ds)"

definition deliveries :: "delivery_state \<Rightarrow> worker_tx list" where
  "deliveries ds = filter is_delivery (ds_txs ds)"

lemma map_filter_append: "List.map_filter f (xs @ ys) = List.map_filter f xs @ List.map_filter f ys"
  by (simp add: List.map_filter_def)

lemma statuses_add_metric [simp]:
  "statuses (add_metric m ds) = statuses ds @ (case counted_status m of Some s \<Rightarrow> [s] | None \<Rightarrow> [])"
  by (simp add: statuses_def add_metric_def map_filter_append map_filter_simps split: option.split)

lemma statuses_simps [simp]:
  "statuses (record_outcome mid oc ds) = statuses ds" "statuses (add_tx tx ds) = statuses ds"
  "statuses (forget_retries env mid ds) = statuses ds" "statuses (ds\<lparr>ds_ledger := L\<rparr>) = statuses ds"
  "statuses (ds\<lparr>ds_txs := ts\<rparr>) = statuses ds" "statuses (request_top_up mid n ds) = statuses ds"
  by (simp_all add: statuses_def record_outcome_def add_tx_def forget_retries_def request_top_up_def
      split: option.split prod.split sum.split)

section \<open>Reconciling counts nothing\<close>

lemma give_up_statuses: "give_up_failed_retries C route env mid st ds = (ds', kind) \<Longrightarrow> statuses ds' = statuses ds"
  by (auto simp: give_up_failed_retries_def Let_def split: if_splits)

lemma after_failed_retry_statuses:
  "after_failed_retry C route env mid spent hint ds = (ds', kind) \<Longrightarrow> statuses ds' = statuses ds"
  by (auto simp: after_failed_retry_def dest: give_up_statuses split: if_splits)

lemma start_statuses: "start_failed_retries C route env mid ds = (ds', kind) \<Longrightarrow> statuses ds' = statuses ds"
  by (auto simp: start_failed_retries_def Let_def dest: give_up_statuses split: if_splits prod.splits)

lemma count_attempt_statuses: "count_attempt C route env mid ds = (ds', spent) \<Longrightarrow> statuses ds' = statuses ds"
  by (auto simp: count_attempt_def split: prod.splits)

lemma settle_retry_receipt_statuses:
  "settle_retry_receipt A route env mid gas spent ds = (ds', result, again, failed) \<Longrightarrow> statuses ds' = statuses ds"
  by (auto simp: settle_retry_receipt_def Let_def split: rpc.splits if_splits receipt_class.splits option.splits)

lemma retry_execution_statuses:
  assumes "retry_execution C A route env mid pending ds = (ds', kind)"
  shows "statuses ds' = statuses ds"
  using assms
  by (cases rule: retry_execution_cases)
    (auto dest!: count_attempt_statuses settle_retry_receipt_statuses after_failed_retry_statuses start_statuses split: if_splits)

lemma reconcile_statuses:
  assumes "reconcile_execution C A route env mid ds = (ds', kind)"
  shows "statuses ds' = statuses ds"
  using assms
  by (cases rule: reconcile_cases) (auto dest!: retry_execution_statuses give_up_statuses)

lemma extends_deliveries: "extends (retry_allowed route env mid) n ds ds' \<Longrightarrow> deliveries ds' = deliveries ds"
  using retry_not_delivery by (fastforce simp: extends_def deliveries_def filter_empty_conv list_all_iff)

section \<open>The entries of one job\<close>

definition no_entry :: "u64 \<Rightarrow> delivery_state \<Rightarrow> delivery_state \<Rightarrow> bool" where
  "no_entry ck ds ds' \<longleftrightarrow> statuses ds' = statuses ds \<and> deliveries ds' = deliveries ds"

definition refused_entry :: "u64 \<Rightarrow> delivery_state \<Rightarrow> delivery_state \<Rightarrow> bool" where
  "refused_entry ck ds ds' \<longleftrightarrow>
     (\<exists>s. s \<noteq> StSubmitted \<and> statuses ds' = statuses ds @ [(ck, s)]) \<and> deliveries ds' = deliveries ds"

definition sent_entry :: "u64 \<Rightarrow> delivery_state \<Rightarrow> delivery_state \<Rightarrow> bool" where
  "sent_entry ck ds ds' \<longleftrightarrow> (\<exists>s. s \<noteq> StSubmitted \<and> statuses ds' = statuses ds @ [(ck, StSubmitted), (ck, s)])"

definition entered :: "u64 \<Rightarrow> delivery_state \<Rightarrow> delivery_state \<Rightarrow> bool" where
  "entered ck ds ds' \<longleftrightarrow> no_entry ck ds ds' \<or> refused_entry ck ds ds' \<or> sent_entry ck ds ds'"

lemma no_entryI: "statuses ds' = statuses ds \<Longrightarrow> ds_txs ds' = ds_txs ds \<Longrightarrow> entered ck ds ds'"
  by (simp add: entered_def no_entry_def deliveries_def)

lemma refused_entryI:
  "statuses ds' = statuses ds @ [(ck, s)] \<Longrightarrow> s \<noteq> StSubmitted \<Longrightarrow> ds_txs ds' = ds_txs ds \<Longrightarrow> entered ck ds ds'"
  by (auto simp: entered_def refused_entry_def deliveries_def)

lemma revert_status_not_submitted [simp]: "revert_status r \<noteq> StSubmitted"
  by (auto simp: revert_status_def split: option.split delivery_revert.split)

lemma duplicate_entry:
  assumes "settle_duplicate_revert C A route env mid ds = (ds', kind)"
  shows "statuses ds' = statuses ds" "deliveries ds' = deliveries ds"
proof -
  from assms obtain kind' where "reconcile_execution C A route env mid ds = (ds', kind')"
    by (auto simp: settle_duplicate_revert_def split: prod.splits delivery_result_kind.splits)
  from reconcile_statuses [OF this] extends_deliveries [OF reconcile_txs [OF this]]
  show "statuses ds' = statuses ds" "deliveries ds' = deliveries ds" by simp_all
qed

lemma pre_send_entry:
  assumes "pre_send_error C A route env mid err ds = (ds', st)"
  shows "entered (cr_chain_key route) ds ds'"
proof -
  have refused: "entered (cr_chain_key route) ds (fst (retry_delivery_revert route r ds))" for r
    by (rule refused_entryI [where s = "revert_status r"]) (simp_all add: retry_delivery_revert_def)
  have dup: "entered (cr_chain_key route) ds (fst (settle_duplicate_revert C A route env mid ds))"
    using duplicate_entry [of C A route env mid ds] by (simp add: entered_def no_entry_def prod_eq_iff)
  have same: "entered (cr_chain_key route) ds ds" by (rule no_entryI) simp_all
  have "ds' = fst (pre_send_error C A route env mid err ds)" using assms by simp
  with refused dup same show ?thesis
    by (simp add: pre_send_error_def settle_pre_send_revert_def Let_def split_def
        split: option.split delivery_revert.split)
qed

lemma refuse_over_cap_entry: "refuse_over_cap A route env job ds = (ds', st) \<Longrightarrow> entered (cr_chain_key route) ds ds'"
  by (auto simp: refuse_over_cap_def Let_def split: if_splits option.splits intro: no_entryI refused_entryI)

lemma simulate_stage_entry: "simulate_stage C A route cfg env job ds = (ds', st) \<Longrightarrow> entered (cr_chain_key route) ds ds'"
  by (auto simp: simulate_stage_def split: if_splits rpc.splits bool.splits intro: no_entryI pre_send_entry)

lemma funding_stage_entry: "funding_stage C A route env job funding ds = (ds', st) \<Longrightarrow> entered (cr_chain_key route) ds ds'"
  by (auto simp: funding_stage_def split: if_splits rpc.splits option.splits intro: no_entryI pre_send_entry)

lemma settle_outcome_status:
  assumes "settle_outcome C A route env job outcome ds = (ds', kind)"
  shows "\<exists>s. s \<noteq> StSubmitted \<and> statuses ds' = statuses ds @ [(cr_chain_key route, s)]"
proof (cases outcome)
  case (SoDestinationFailed d tx b)
  with assms show ?thesis by (auto simp: settle_outcome_def Let_def dest!: start_statuses)
next
  case SoAlreadyValidated
  with assms show ?thesis by (auto simp: settle_outcome_def Let_def dest!: duplicate_entry(1))
qed (use assms in \<open>auto simp: settle_outcome_def Let_def retry_delivery_revert_def\<close>)

lemma send_stage_entry:
  assumes "send_stage C A route cfg env job funding ds = (ds', kind)"
  shows "sent_entry (cr_chain_key route) ds ds'"
  using assms by (auto simp: send_stage_def sent_entry_def Let_def split: prod.splits dest!: settle_outcome_status)

lemma handle_job_entry:
  assumes run: "handle_job C A route cfg env job funding ds = (ds', kind)"
  shows "entered (cr_chain_key route) ds ds'"
proof (cases "dj_reconcile_only job")
  case True
  with run have "reconcile_execution C A route (je_exec env) (dj_message_id job) ds = (ds', kind)"
    by (simp add: handle_job_def)
  from reconcile_statuses [OF this] extends_deliveries [OF reconcile_txs [OF this]] show ?thesis
    by (simp add: entered_def no_entry_def)
next
  case False
  obtain ds1 st1 where r1: "refuse_over_cap A route env job ds = (ds1, st1)" by fastforce
  obtain ds2 st2 where r2: "simulate_stage C A route cfg env job ds1 = (ds2, st2)" by fastforce
  obtain ds3 st3 where r3: "funding_stage C A route env job funding ds2 = (ds3, st3)" by fastforce
  note d1 = refuse_over_cap_result(1) [OF r1] and d2 = simulate_stage_result(1) [OF r2] and d3 = funding_stage_result(1) [OF r3]
  note e1 = refuse_over_cap_entry [OF r1] and e2 = simulate_stage_entry [OF r2] and e3 = funding_stage_entry [OF r3]
  from run False r1 r2 r3
  have eq: "(ds', kind) = (case st1 of Done k \<Rightarrow> (ds1, k) | ProceedStage \<Rightarrow>
      (case st2 of Done k \<Rightarrow> (ds2, k) | ProceedStage \<Rightarrow>
        (case st3 of Done k \<Rightarrow> (ds3, k) | ProceedStage \<Rightarrow> send_stage C A route cfg env job funding ds3)))"
    by (simp add: handle_job_def then_stage_def split: stage.splits)
  then show ?thesis
    using d1 d2 d3 e1 e2 e3 send_stage_entry [of C A route cfg env job funding ds3 ds' kind]
    by (auto simp: entered_def split: stage.splits)
qed

lemma worker_entry:
  assumes "worker_step C A route cfg env answer job ds = (ds', res)"
  shows "entered (cr_chain_key route) ds ds'"
  using assms handle_job_entry [of C A route cfg env job "job_funding route job answer" ds]
  by (auto simp: worker_step_def split: prod.splits)

text \<open>The three cases as one list of statuses.\<close>

lemma entered_counted:
  assumes "entered ck ds ds'"
  obtains counted where "statuses ds' = statuses ds @ map (Pair ck) counted"
    "counted = [] \<and> deliveries ds' = deliveries ds
     \<or> (\<exists>s. s \<noteq> StSubmitted \<and> counted = [s]) \<and> deliveries ds' = deliveries ds
     \<or> (\<exists>s. s \<noteq> StSubmitted \<and> counted = [StSubmitted, s])"
proof -
  from assms consider (none) "no_entry ck ds ds'" | (refused) "refused_entry ck ds ds'" | (sent) "sent_entry ck ds ds'"
    unfolding entered_def by blast
  then show thesis
  proof cases
    case none
    with that [of "[]"] show thesis by (simp add: no_entry_def)
  next
    case refused
    then obtain s where "s \<noteq> StSubmitted" "statuses ds' = statuses ds @ [(ck, s)]" "deliveries ds' = deliveries ds"
      unfolding refused_entry_def by blast
    with that [of "[s]"] show thesis by simp
  next
    case sent
    then obtain s where "s \<noteq> StSubmitted" "statuses ds' = statuses ds @ [(ck, StSubmitted), (ck, s)]"
      unfolding sent_entry_def by blast
    with that [of "[StSubmitted, s]"] show thesis by simp
  qed
qed

lemma count_list_labels: "count_list (map (Pair k) ss) (ck, s) = (if ck = k then count_list ss s else 0)"
  by (induction ss) auto

text \<open>A message that is given up as under-funded moves no counter at all, although nothing else will report its loss.\<close>

lemma underfunded_uncounted:
  assumes "mf_gas funding = Some gas" "je_estimate env = RpcOk est" "gas < est" "top_up_foreclosed funding (je_now_top_up env) = Some why"
    and "funding_stage C A route env job funding ds = (ds', st)"
  shows "st = Done Terminal" "ds_metrics ds' = ds_metrics ds"
  using assms by (auto simp: funding_stage_def record_outcome_def)

end
