(* ===== verification/Prom_Correct.thy ===== *)
theory Prom_Correct
  imports Prom Delivery_Count
begin

text \<open>
  What the metrics and the handlers say: counters count calls, a batch of outcomes is the single lookups together,
  and a scrape copies the health registry without losing a millisecond.
\<close>

section \<open>Counters\<close>

lemma counter_value_inc [simp]: "counter_value (family_inc l fam) k = counter_value fam k + (if k = l then 1 else 0)"
  by (simp add: counter_value_def family_inc_def update_conv')

text \<open>The calls a job makes; one duration is observed per job at most.\<close>

fun note_delivery_metric :: "duration \<Rightarrow> delivery_metric \<Rightarrow> relayer_metrics \<Rightarrow> relayer_metrics" where
  "note_delivery_metric elapsed (IncDeliverTx ck s) m = inc_deliver_tx ck s m"
| "note_delivery_metric elapsed ObserveTimeToDeliver m = observe_time_to_deliver elapsed m"
| "note_delivery_metric elapsed (IncDestinationFailedRetriesExhausted ck) m = inc_destination_failed_retries_exhausted ck m"

definition exported :: "duration \<Rightarrow> relayer_metrics \<Rightarrow> delivery_state \<Rightarrow> relayer_metrics" where
  "exported elapsed m ds = fold (note_delivery_metric elapsed) (ds_metrics ds) m"

lemma exported_deliver_tx:
  "counter_value (rm_deliver_tx (exported elapsed m ds)) l = counter_value (rm_deliver_tx m) l + of_nat (count_list (statuses ds) l)"
proof -
  have "counter_value (rm_deliver_tx (fold (note_delivery_metric elapsed) ms m)) l =
      counter_value (rm_deliver_tx m) l + of_nat (count_list (List.map_filter counted_status ms) l)" for ms
  proof (induction ms arbitrary: m)
    case Nil
    then show ?case by (simp add: map_filter_simps)
  next
    case (Cons x xs)
    then show ?case
      by (cases x) (auto simp: map_filter_simps inc_deliver_tx_def observe_time_to_deliver_def
          inc_destination_failed_retries_exhausted_def)
  qed
  then show ?thesis by (simp add: exported_def statuses_def)
qed

section \<open>Batches of outcomes\<close>

lemma lower_hex_inj [simp]: "lower_hex i = lower_hex j \<longleftrightarrow> i = j"
proof
  assume "lower_hex i = lower_hex j"
  then have "hex_decode (hex_encode (to_be_bytes 32 (unat i))) = hex_decode (hex_encode (to_be_bytes 32 (unat j)))"
    by (simp add: lower_hex_def)
  then have "be_nat (to_be_bytes 32 (unat i)) = be_nat (to_be_bytes 32 (unat j))" by simp
  moreover have "unat k < 256 ^ 32" for k :: b256 using unsigned_less [of k] by simp
  ultimately have "unat i = unat j" by (simp add: be_nat_to_be_bytes)
  then show "i = j" by (simp only: word_unat_eq_iff)
qed simp

lemma parse_ids_cases:
  "parse_ids parse parts =
     (case find (\<lambda>p. parse p = None) parts of Some p \<Rightarrow> Inl p | None \<Rightarrow> Inr (map (the \<circ> parse) parts))"
  by (induction parts) (auto split: option.split)

lemma bt_collect:
  assumes "bt_ok m" and "\<And>a b. f a = f b \<Longrightarrow> a = b" and "\<And>k v w. (k, v) \<in> set xs \<Longrightarrow> (k, w) \<in> set xs \<Longrightarrow> v = w"
  shows "bt_ok (fold (\<lambda>(k, v). bt_insert (f k) v) xs m)"
    "map_of (fold (\<lambda>(k, v). bt_insert (f k) v) xs m) key = Some v \<longleftrightarrow>
       (\<exists>k. (k, v) \<in> set xs \<and> key = f k) \<or> (\<forall>k. key = f k \<longrightarrow> k \<notin> fst ` set xs) \<and> map_of m key = Some v"
proof -
  show "bt_ok (fold (\<lambda>(k, v). bt_insert (f k) v) xs m)"
    using assms(1) by (induction xs arbitrary: m) auto
  show "map_of (fold (\<lambda>(k, v). bt_insert (f k) v) xs m) key = Some v \<longleftrightarrow>
       (\<exists>k. (k, v) \<in> set xs \<and> key = f k) \<or> (\<forall>k. key = f k \<longrightarrow> k \<notin> fst ` set xs) \<and> map_of m key = Some v"
    using assms(1,3)
  proof (induction xs arbitrary: m)
    case Nil
    then show ?case by auto
  next
    case (Cons x xs)
    obtain a b where x: "x = (a, b)" by force
    have ih: "map_of (fold (\<lambda>(k, v). bt_insert (f k) v) xs (bt_insert (f a) b m)) key = Some v \<longleftrightarrow>
       (\<exists>k. (k, v) \<in> set xs \<and> key = f k) \<or> (\<forall>k. key = f k \<longrightarrow> k \<notin> fst ` set xs) \<and> map_of (bt_insert (f a) b m) key = Some v"
      by (rule Cons.IH) (use Cons.prems in \<open>auto intro: Cons.prems(2)\<close>)
    have same: "(a, v) \<in> set xs \<Longrightarrow> v = b" for v using Cons.prems(2) [of a v b] x by simp
    have inj: "f k = f l \<longleftrightarrow> k = l" for k l using assms(2) by blast
    show ?case
      using ih same Cons.prems(1) by (auto simp: x bt_lookup_insert image_iff inj split: if_splits)
  qed
qed

lemma get_many_set: "(i, oc) \<in> set (outcome_get_many ids s) \<longleftrightarrow> i \<in> set ids \<and> outcome_get i s = Some oc"
  by (force simp: outcome_get_many_def outcome_get_def List.map_filter_def)

lemma batch_map:
  "bt_ok (fold (\<lambda>(i, oc). bt_insert (lower_hex i) oc) (outcome_get_many ids s) [])"
  "map_of (fold (\<lambda>(i, oc). bt_insert (lower_hex i) oc) (outcome_get_many ids s) []) key = Some oc \<longleftrightarrow>
     (\<exists>i \<in> set ids. key = lower_hex i \<and> outcome_get i s = Some oc)"
  using bt_collect [of "[]" lower_hex "outcome_get_many ids s"] by (auto simp: get_many_set)

section \<open>Scrapes\<close>

lemma hm_get_family_set [simp]: "hm_get (family_set l v fam) k = (if k = l then Some v else hm_get fam k)"
  by (simp add: family_set_def update_conv')

lemma fold_both:
  assumes "\<And>x m. F (h x m) = f x (F m)"
  shows "F (fold h xs m) = fold f xs (F m)"
  by (induction xs arbitrary: m) (simp_all add: assms)

lemma synced_families:
  "rm_worker_last_success (sync_worker_progress now h m) =
     fold (\<lambda>(w, t). family_set w (f64_div (f64_of_nat (unat t)) (f64_of_nat 1000))) (snapshot h) (rm_worker_last_success m)"
  "rm_worker_degraded (sync_worker_progress now h m) =
     fold (\<lambda>(w, t). family_set w (if w \<in> set (hr_degraded (status now h)) then 1 else 0)) (snapshot h) (rm_worker_degraded m)"
  unfolding sync_worker_progress_def Let_def by (rule fold_both; clarsimp)+

lemma fold_family_get:
  assumes "distinct (map fst xs)" "(w, t) \<in> set xs"
  shows "hm_get (fold (\<lambda>(w, t). family_set w (f w t)) xs fam) w = Some (f w t)"
  using assms
proof (induction xs arbitrary: fam)
  case Nil
  then show ?case by simp
next
  case (Cons x xs)
  have keep: "hm_get (fold (\<lambda>(w, t). family_set w (f w t)) ys fam) w = hm_get fam w" if "w \<notin> fst ` set ys" for ys fam w
    using that by (induction ys arbitrary: fam) (auto split: prod.splits)
  show ?case
  proof (cases "x = (w, t)")
    case True
    with Cons.prems have "w \<notin> fst ` set xs" by auto
    with True show ?thesis by (simp add: keep)
  next
    case False
    with Cons show ?thesis by auto
  qed
qed

lemma snapshot_mem:
  assumes "hm_ok (hl_components h)"
  shows "distinct (map fst (snapshot h))" "hm_get (hl_components h) w = Some c \<Longrightarrow> (w, hc_last_ok c) \<in> set (snapshot h)"
proof -
  have "map fst (map (\<lambda>(n, c). (n, hc_last_ok c)) (hl_components h)) = map fst (hl_components h)" by (induction "hl_components h") auto
  moreover have "mset (map fst (snapshot h)) = mset (map fst (map (\<lambda>(n, c). (n, hc_last_ok c)) (hl_components h)))"
    by (simp only: snapshot_def mset_map mset_sort)
  ultimately show "distinct (map fst (snapshot h))" using assms by (metis hm_ok_def mset_eq_imp_distinct_iff)
  assume "hm_get (hl_components h) w = Some c"
  then have "(w, c) \<in> set (hl_components h)" by (rule map_of_SomeD)
  then show "(w, hc_last_ok c) \<in> set (snapshot h)" by (force simp: snapshot_def)
qed

lemma scraped_worker:
  assumes "hm_ok (hl_components (hs_health s))" and "hm_get (hl_components (hs_health s)) w = Some c"
  shows "hm_get (rm_worker_last_success (hs_metrics (scrape now s))) w = Some (f64_div (f64_of_nat (unat (hc_last_ok c))) (f64_of_nat 1000))"
    "hm_get (rm_worker_degraded (hs_metrics (scrape now s))) w
       = Some (if w \<in> set (hr_degraded (status now (hs_health s))) then 1 else 0)"
  using fold_family_get [OF snapshot_mem(1) [OF assms(1)] snapshot_mem(2) [OF assms],
      of "\<lambda>_ t. f64_div (f64_of_nat (unat t)) (f64_of_nat 1000)"]
    fold_family_get [OF snapshot_mem(1) [OF assms(1)] snapshot_mem(2) [OF assms],
      of "\<lambda>w _. if w \<in> set (hr_degraded (status now (hs_health s))) then 1 else 0"]
  by (simp_all add: scrape_def sync_outcome_store_def synced_families split del: if_split)

text \<open>Milliseconds survive the division: up to \<open>2 ^ 52\<close> they come back by rounding.\<close>

lemma millis_roundtrip:
  assumes "n < 2 ^ 52"
  shows "\<lfloor>f64_val (f64_div (f64_of_nat n) (f64_of_nat 1000)) * 1000 + 1 / 2\<rfloor> = int n"
proof (cases "n = 0")
  case True
  then show ?thesis by (simp add: f64_div_def f64_of_nat_def f64_round_def floor_unique)
next
  case False
  let ?x = "of_nat n / 1000 :: rat"
  have val: "f64_val (f64_of_nat n) = of_nat n" "f64_val (f64_of_nat 1000) = 1000"
    using f64_of_nat_exact [of n] f64_of_nat_exact [of 1000] assms by simp_all
  have x: "0 < ?x" using False by simp
  have "(of_nat n :: rat) < of_nat (2 ^ 52)" using assms by (simp only: of_nat_less_iff)
  then have small: "?x < 2 powi 43" by simp
  have "(2 :: rat) powi 43 < 2 powi 1023" by (rule power_int_strict_increasing) simp_all
  with small have "?x < 2 powi 1023" by linarith
  from f64_round_error [OF x this]
  have err: "\<bar>f64_val (f64_div (f64_of_nat n) (f64_of_nat 1000)) - ?x\<bar> \<le> 2 powi (ulp_exponent ?x - 1)"
    by (simp only: f64_div_def val)
  have "ulp_exponent ?x - 1 \<le> - 11" using log2_floor_less [OF x small] by (simp add: ulp_exponent_def)
  then have "(2 :: rat) powi (ulp_exponent ?x - 1) \<le> 2 powi (- 11)" by (rule power_int_increasing) simp_all
  then have "(2 :: rat) powi (ulp_exponent ?x - 1) \<le> 1 / 2048" by (simp add: power_int_minus)
  with err have "\<bar>f64_val (f64_div (f64_of_nat n) (f64_of_nat 1000)) - ?x\<bar> \<le> 1 / 2048" by linarith
  then have "f64_val (f64_div (f64_of_nat n) (f64_of_nat 1000)) \<le> ?x + 1 / 2048"
    "?x - 1 / 2048 \<le> f64_val (f64_div (f64_of_nat n) (f64_of_nat 1000))" by linarith+
  then have "of_nat n - 1 / 2 < f64_val (f64_div (f64_of_nat n) (f64_of_nat 1000)) * 1000"
    "f64_val (f64_div (f64_of_nat n) (f64_of_nat 1000)) * 1000 < of_nat n + 1 / 2" by linarith+
  then show ?thesis by (intro floor_unique) simp_all
qed

end
