(* ===== verification/Prom_Theorems.thy ===== *)
theory Prom_Theorems
  imports Prom_Correct Delivery_Theorems Pool_Theorems
begin

text \<open>
  The properties of the metrics and of the HTTP surface: what the delivery counters mean, what the outcome and
  vote endpoints serve, and that a scrape says what the health registry says.
\<close>

definition idle_metrics :: relayer_metrics where
  "idle_metrics = the (metrics_new (Some 0) [7])"

text \<open>An id parser that reads two ids; the real one is the library's.\<close>

definition demo_parse :: "string \<Rightarrow> b256 option" where
  "demo_parse s = (if s = ''a'' then Some 11 else if s = ''b'' then Some 12 else None)"

section \<open>Delivery counters\<close>

text \<open>C19. The delivery counters balance. Whatever a job does, its effect on \<^verbatim>\<open>relayer_deliver_tx\<close> is one of three:
  nothing, one status other than Submitted, or Submitted and exactly one other status. Only in the last case did it
  hand a \<^verbatim>\<open>deliverMessage\<close> transaction to the node, and no other route's counter moves.\<close>

theorem deliver_tx_balanced:
  assumes "worker_step C A route cfg env answer job ds = (ds', res)"
  shows "\<exists>counted.
    (\<forall>ck s. counter_value (rm_deliver_tx (exported elapsed m ds')) (ck, s) =
       counter_value (rm_deliver_tx (exported elapsed m ds)) (ck, s) + (if ck = cr_chain_key route then of_nat (count_list counted s) else 0))
    \<and> (counted = [] \<and> deliveries ds' = deliveries ds
       \<or> (\<exists>s. s \<noteq> StSubmitted \<and> counted = [s]) \<and> deliveries ds' = deliveries ds
       \<or> (\<exists>s. s \<noteq> StSubmitted \<and> counted = [StSubmitted, s]))"
proof -
  obtain counted where st: "statuses ds' = statuses ds @ map (Pair (cr_chain_key route)) counted"
    and c: "counted = [] \<and> deliveries ds' = deliveries ds
       \<or> (\<exists>s. s \<noteq> StSubmitted \<and> counted = [s]) \<and> deliveries ds' = deliveries ds
       \<or> (\<exists>s. s \<noteq> StSubmitted \<and> counted = [StSubmitted, s])"
    by (rule entered_counted [OF worker_entry [OF assms]])
  have "\<forall>ck s. counter_value (rm_deliver_tx (exported elapsed m ds')) (ck, s) =
       counter_value (rm_deliver_tx (exported elapsed m ds)) (ck, s) + (if ck = cr_chain_key route then of_nat (count_list counted s) else 0)"
    by (simp add: exported_deliver_tx st count_list_labels)
  with c show ?thesis by blast
qed

theorem deliver_tx_balanced_witness:
  "counter_value (rm_deliver_tx (exported 0 idle_metrics demo_delivered)) (7, StSubmitted) = 1"
proof -
  have "cr_chain_key demo_chain_route = 7" by simp
  have none: "counter_value (rm_deliver_tx (exported 0 idle_metrics demo_worker)) l = 0" for l
    by (simp add: exported_def demo_worker_def idle_metrics_def metrics_new_def counter_value_def)
  have sent: "deliveries demo_delivered \<noteq> deliveries demo_worker"
    by (simp add: deliveries_def demo_delivered_txs is_delivery_def demo_worker_def)
  from deliver_tx_balanced [OF demo_delivered_step, of 0 idle_metrics] sent none show ?thesis by auto
qed

section \<open>Outcomes\<close>

text \<open>The batch endpoint is the single endpoint, asked many times. A request with a part that is no message id, or
  with more than 256 ids, gets status 400. Any other gets a map in ascending order of its keys, whose entries are
  exactly the verdicts \<^verbatim>\<open>/outcomes/{id}\<close> serves for the parts, each under the hexadecimal form of its id.\<close>

theorem outcome_batch_agrees:
  shows "((\<exists>p \<in> set (id_parts q). parse p = None) \<or> 256 < length (id_parts q) \<longrightarrow> rs_status (outcomes_handler parse q st) = 400)
    \<and> ((\<forall>p \<in> set (id_parts q). parse p \<noteq> None) \<and> length (id_parts q) \<le> 256 \<longrightarrow>
        (\<exists>found. outcomes_handler parse q st = json (JsonOutcomes found) \<and> bt_ok found
          \<and> (\<forall>key oc. map_of found key = Some oc \<longleftrightarrow>
                (\<exists>p \<in> set (id_parts q). \<exists>i. parse p = Some i \<and> key = lower_hex i
                   \<and> outcome_handler parse p st = json (JsonOutcome oc)))))"
proof (cases "find (\<lambda>p. parse p = None) (id_parts q)")
  case (Some bad)
  then have "\<exists>p \<in> set (id_parts q). parse p = None" 
    unfolding find_Some_iff using nth_mem by blast
  with Some show ?thesis by (auto simp: outcomes_handler_def parse_ids_cases plain_def)
next
  case None
  then have ok: "\<forall>p \<in> set (id_parts q). parse p \<noteq> None" by (simp add: find_None_iff)
  have single: "outcome_handler parse p st = json (JsonOutcome oc) \<longleftrightarrow> outcome_get i st = Some oc" if "parse p = Some i" for p i oc
    using that by (auto simp: outcome_handler_def json_def plain_def split: option.split)
  let ?ids = "map (the \<circ> parse) (id_parts q)"
  let ?found = "fold (\<lambda>(i, oc). bt_insert (lower_hex i) oc) (outcome_get_many ?ids st) []"
  have run: "outcomes_handler parse q st =
      (if 256 < length (id_parts q) then plain 400 (''at most '' @ decimal 256 @ '' ids per request'') else json (JsonOutcomes ?found))"
    by (simp only: outcomes_handler_def parse_ids_cases None option.case sum.case length_map OUTCOMES_BATCH_MAX_def)
  have found: "\<forall>key oc. map_of ?found key = Some oc \<longleftrightarrow> (\<exists>p \<in> set (id_parts q). \<exists>i. parse p = Some i \<and> key = lower_hex i
      \<and> outcome_handler parse p st = json (JsonOutcome oc))"
  proof (intro allI iffI)
    fix key oc
    assume "map_of ?found key = Some oc"
    then obtain p where p: "p \<in> set (id_parts q)" "key = lower_hex (the (parse p))" "outcome_get (the (parse p)) st = Some oc"
      unfolding batch_map(2) by auto
    with ok obtain i where "parse p = Some i" by blast
    with p single show "\<exists>p \<in> set (id_parts q). \<exists>i. parse p = Some i \<and> key = lower_hex i
      \<and> outcome_handler parse p st = json (JsonOutcome oc)" by (intro bexI [OF _ p(1)] exI [of _ i]) simp
  next
    fix key oc
    assume "\<exists>p \<in> set (id_parts q). \<exists>i. parse p = Some i \<and> key = lower_hex i \<and> outcome_handler parse p st = json (JsonOutcome oc)"
    then obtain p i where p: "p \<in> set (id_parts q)" "parse p = Some i" "key = lower_hex i" "outcome_get i st = Some oc"
      using single by blast
    then have "i \<in> set ?ids" by (metis comp_apply image_eqI list.set_map option.sel)
    with p(3,4) show "map_of ?found key = Some oc" unfolding batch_map(2) by blast
  qed
  show ?thesis
  proof (cases "256 < length (id_parts q)")
    case True
    with run have "rs_status (outcomes_handler parse q st) = 400" by (simp add: plain_def)
    with True show ?thesis by simp
  next
    case False
    with run have "outcomes_handler parse q st = json (JsonOutcomes ?found)" by (simp only: if_False)
    with found batch_map(1) [of ?ids st] False ok show ?thesis by blast
  qed
qed

theorem outcome_batch_agrees_witness:
  "rs_status (outcomes_handler demo_parse ''a,x'' (ds_outcomes demo_delivered)) = 400
   \<and> (\<exists>found. outcomes_handler demo_parse ''a,b'' (ds_outcomes demo_delivered) = json (JsonOutcomes found) \<and> map_of found (lower_hex 12) = None)"
proof -
  have parts: "id_parts ''a,x'' = [''a'', ''x'']" "id_parts ''a,b'' = [''a'', ''b'']"
    by (simp_all add: id_parts_def trim_def is_space_def code_of_def)
  have "ds_outcomes demo_delivered = outcome_record 11 (with_tx 77 (outcome_new OkDelivered 7 (xe_recorded_at (je_exec demo_job_env))))
      (ds_outcomes demo_worker)"
    by (simp add: demo_delivered_def worker_step_def demo_no_funding demo_deliver_job settle_outcome_def Let_def)
  then have none: "outcome_get 12 (ds_outcomes demo_delivered) = None"
    by (simp add: demo_worker_def outcome_record_cases outcome_get_def) (simp add: outcome_store_new_def)
  have bad: "\<exists>p \<in> set (id_parts ''a,x''). demo_parse p = None" unfolding parts by (simp add: demo_parse_def)
  have good: "\<forall>p \<in> set (id_parts ''a,b''). demo_parse p \<noteq> None" "length (id_parts ''a,b'') \<le> 256"
    unfolding parts by (simp_all add: demo_parse_def)
  obtain found where found: "outcomes_handler demo_parse ''a,b'' (ds_outcomes demo_delivered) = json (JsonOutcomes found)"
      "\<And>key oc. map_of found key = Some oc \<longleftrightarrow> (\<exists>p \<in> set (id_parts ''a,b''). \<exists>i. demo_parse p = Some i \<and> key = lower_hex i
         \<and> outcome_handler demo_parse p (ds_outcomes demo_delivered) = json (JsonOutcome oc))"
    using outcome_batch_agrees [THEN conjunct2, rule_format, OF conjI [OF good], of "ds_outcomes demo_delivered"] by blast
  have "map_of found (lower_hex 12) \<noteq> Some oc" for oc
    unfolding found(2) parts using none by (simp add: demo_parse_def outcome_handler_def plain_def json_def)
  then have "map_of found (lower_hex 12) = None" by (metis not_Some_eq)
  with found(1) outcome_batch_agrees [THEN conjunct1, rule_format, OF disjI1 [OF bad], of "ds_outcomes demo_delivered"]
  show ?thesis by blast
qed

text \<open>A delivered message is served as delivered. When a job reports Delivered, a request for its message id on
  the HTTP surface of that process, in any spelling the parser reads, is answered with status 200 and a verdict of
  kind Delivered.\<close>

theorem delivered_is_served:
  assumes "worker_step C A route cfg env answer job ds = (ds', res)" and "dr_outcome res = Delivered"
    and "outcome_ok (ds_outcomes ds)" and "hs_outcomes s = ds_outcomes ds'" and "parse id_str = Some (dj_message_id job)"
  shows "\<exists>oc. router encode parse now accepted reply (GetOutcome id_str) s = (s, \<lparr>rs_status = 200, rs_body = JsonOutcome oc\<rparr>)
    \<and> do_kind oc = OkDelivered"
proof -
  from worker_settled [OF assms(1)] assms(2) have "recorded (dj_message_id job) OkDelivered ds ds'" by (simp add: settled_def)
  with assms(3) obtain oc where "outcome_get (dj_message_id job) (ds_outcomes ds') = Some oc" "do_kind oc = OkDelivered"
    unfolding recorded_def by blast
  with assms(4,5) show ?thesis by (simp add: router_def outcome_handler_def json_def)
qed

definition demo_http :: http_state where
  "demo_http = \<lparr>hs_metrics = idle_metrics, hs_health = health_new PROGRESS_DEADLINE, hs_outcomes = ds_outcomes demo_delivered\<rparr>"

theorem delivered_is_served_witness:
  "rs_status (snd (router (\<lambda>_. []) demo_parse 0 False (\<lambda>_. None) (GetOutcome ''a'') demo_http)) = 200"
proof -
  have "outcome_ok (ds_outcomes demo_worker)" by (simp add: demo_worker_def)
  from delivered_is_served [OF demo_delivered_step _ this, of demo_http demo_parse "''a''" "\<lambda>_. []" 0 False "\<lambda>_. None"] show ?thesis
    by (auto simp: demo_http_def demo_parse_def)
qed

section \<open>Votes\<close>

lemma query_routes_Some:
  "query_routes mid rs = Some b \<Longrightarrow> \<exists>ck r slot. (ck, r) \<in> set rs \<and> hm_get (rt_by_message r) mid = Some slot
     \<and> b = \<lparr>vb_chain_key = ck, vb_message_id = im_message_id (ms_indexed slot), vb_threshold = rt_threshold r,
          vb_signer_count = length (ms_signers slot), vb_delivered = ms_delivered slot, vb_signers = map fst (ms_signers slot)\<rparr>"
  by (induction mid rs rule: query_routes.induct) (fastforce split: option.splits)+

lemma query_routes_None:
  "query_routes mid rs = None \<longleftrightarrow> (\<forall>(ck, r) \<in> set rs. hm_get (rt_by_message r) mid = None)"
  by (induction mid rs rule: query_routes.induct) (auto split: option.splits)

text \<open>What a bundle stands for: a slot of the pool and the attestors whose signatures it holds.\<close>

definition bundle_backed :: "primitives \<Rightarrow> pool_state \<Rightarrow> b256 \<Rightarrow> vote_bundle \<Rightarrow> bool" where
  "bundle_backed P st mid b \<longleftrightarrow> (\<exists>route slot.
     hm_get (st_by_route st) (vb_chain_key b) = Some route \<and> hm_get (rt_by_message route) mid = Some slot
     \<and> vb_message_id b = mid \<and> im_chain_key (ms_indexed slot) = vb_chain_key b
     \<and> vb_threshold b = rt_threshold route \<and> vb_delivered b = ms_delivered slot
     \<and> distinct (vb_signers b) \<and> vb_signer_count b = length (vb_signers b)
     \<and> (\<forall>a \<in> set (vb_signers b). (\<exists>sig. recover_signer P mid sig = Inr a) \<and> (resolved slot \<or> a \<in> set (rt_attestors route))))"

lemma query_bundle_backed:
  assumes "pool_ok P st" and "query_bundle mid st = Some b"
  shows "bundle_backed P st mid b"
proof -
  from assms(2) obtain ck r slot where r: "(ck, r) \<in> set (st_by_route st)" and slot: "hm_get (rt_by_message r) mid = Some slot"
    and b: "b = \<lparr>vb_chain_key = ck, vb_message_id = im_message_id (ms_indexed slot), vb_threshold = rt_threshold r,
          vb_signer_count = length (ms_signers slot), vb_delivered = ms_delivered slot, vb_signers = map fst (ms_signers slot)\<rparr>"
    unfolding query_bundle_def by (blast dest: query_routes_Some)
  from r assms(1) have get: "hm_get (st_by_route st) ck = Some r" by (simp add: pool_ok_def hm_get_iff)
  from pool_ok_routeD [OF assms(1)] get have "route_ok P ck r" by simp
  from route_ok_slotD [OF this] slot have ok: "slot_ok P ck (rt_attestors r) mid slot" by simp
  then have signers: "\<forall>a \<in> set (map fst (ms_signers slot)).
      (\<exists>sig. recover_signer P mid sig = Inr a) \<and> (resolved slot \<or> a \<in> set (rt_attestors r))"
    by (fastforce simp: slot_ok_def votes_ok_def list_all_set)
  have "distinct (map fst (ms_signers slot))" using ok by (simp add: slot_ok_def votes_ok_def bt_distinct)
  with ok signers get slot show ?thesis unfolding b bundle_backed_def
    by (intro exI [of _ r] exI [of _ slot]) (simp add: slot_ok_def)
qed

text \<open>C39. \<^verbatim>\<open>GET /votes/{id}\<close> serves what the pool can prove. In any reachable state of the pool task, answering a query
  changes nothing and sends nothing, and the answer is 404 exactly if no route tracks the message, else 200 with a
  bundle of this very message: the threshold, route and delivered flag of its slot, and distinct signers, as many as
  the bundle counts, each recovered in canonical form from a signature over the message id; unless the message is
  resolved every signer is in the route's current attestor set.\<close>

theorem votes_served_certified:
  assumes "reach pool_starts (pool_trans P C) (s, owed)"
    and "admit_deferred P env0 s = (s1, out1)"
    and "select_arm P C env (Query (Some mid)) s1 = (t, out2, next)"
    and "parse id_str = Some mid"
  shows "t = s1 \<and> next = Continue_Loop \<and> lo_sent out2 = []
    \<and> (if \<forall>(ck, route) \<in> set (st_by_route (lp_state s1)). hm_get (rt_by_message route) mid = None
       then votes_handler parse True (\<lambda>_. lo_reply out2) id_str = plain 404 ''message not indexed''
       else \<exists>b. votes_handler parse True (\<lambda>_. lo_reply out2) id_str = json (JsonVotes b) \<and> bundle_backed P (lp_state s1) mid b)"
proof -
  have "pool_ok P (lp_state s)" using pool_loop.reach_inv [OF assms(1)] by (simp add: pool_inv_def)
  from admit_deferred_ok [OF this assms(2)] have ok: "pool_ok P (lp_state s1)" by blast
  have out: "t = s1" "next = Continue_Loop" "lo_sent out2 = []" "lo_reply out2 = Some (query_bundle mid (lp_state s1))"
    using assms(3) by (auto simp: select_arm_def no_output_def)
  show ?thesis
  proof (cases "query_bundle mid (lp_state s1)")
    case None
    then have "\<forall>(ck, route) \<in> set (st_by_route (lp_state s1)). hm_get (rt_by_message route) mid = None"
      by (simp only: query_bundle_def query_routes_None)
    with None out assms(4) show ?thesis by (simp add: votes_handler_def)
  next
    case (Some b)
    then have "\<not> (\<forall>(ck, route) \<in> set (st_by_route (lp_state s1)). hm_get (rt_by_message route) mid = None)"
      by (simp only: query_bundle_def flip: query_routes_None) simp
    moreover have "votes_handler parse True (\<lambda>_. lo_reply out2) id_str = json (JsonVotes b)"
      using Some out(4) assms(4) by (simp add: votes_handler_def)
    ultimately show ?thesis using out(1-3) query_bundle_backed [OF ok Some] by (simp only: if_False) blast
  qed
qed

text \<open>The vote of the concrete run, then its message; a request for it.\<close>

lemma demo_tracked:
  obtains t owed slot where "reach pool_starts (pool_trans demo_prims demo_codec) (t, owed)" "lp_deferred t = None"
    "st_by_route (lp_state t) = [(7, slot)]" "hm_get (rt_by_message slot) 11 \<noteq> None"
proof -
  obtain t lo nxt where it: "loop_iter demo_prims demo_codec demo_env demo_env (Indexed (Some demo_message)) demo_voted = (t, lo, nxt)"
    by (cases "loop_iter demo_prims demo_codec demo_env demo_env (Indexed (Some demo_message)) demo_voted") auto
  with demo_indexed_eq have it': "loop_iter demo_prims demo_codec demo_env demo_env (Indexed (Some demo_message)) demo_voted = (t, lo, Continue_Loop)"
    by blast
  have head: "admit_deferred demo_prims demo_env demo_voted = (demo_voted, no_output)"
    by (simp add: admit_deferred_def demo_voted_fields)
  from pool_iteration [OF head _ _ it', of "{}"]
  have "pool_trans demo_prims demo_codec (demo_voted, {}) (demo_env, demo_env, Indexed (Some demo_message)) (t, job_key ` set (lo_sent lo))"
    by (simp add: enabled_def demo_voted_fields result_key_def)
  from reach_step [OF demo_reach this] have "reach pool_starts (pool_trans demo_prims demo_codec) (t, job_key ` set (lo_sent lo))" .
  moreover have "lp_deferred t = None \<and> (\<exists>r. st_by_route (lp_state t) = [(7, r)] \<and> hm_get (rt_by_message r) 11 \<noteq> None)"
    using it' by (simp add: demo_voted_def demo_voted_eq)
      (auto simp add: demo_eval note_indexed_def make_room.simps can_index_def insert_slot_def adopt_early_def dispatch_if_ready_def
       has_quorum_def new_slot_def dispatch_delivery_job_def make_job_def)
  ultimately show ?thesis using that by blast
qed

theorem votes_served_certified_witness:
  "\<exists>t b out2. select_arm demo_prims demo_codec demo_env (Query (Some 11)) t = (t, out2, Continue_Loop)
     \<and> votes_handler demo_parse True (\<lambda>_. lo_reply out2) ''a'' = json (JsonVotes b) \<and> bundle_backed demo_prims (lp_state t) 11 b"
proof (rule demo_tracked)
  fix t owed slot
  assume t: "reach pool_starts (pool_trans demo_prims demo_codec) (t, owed)" "lp_deferred t = None"
    "st_by_route (lp_state t) = [(7, slot)]" "hm_get (rt_by_message slot) 11 \<noteq> None"
  obtain t' out2 nxt where arm: "select_arm demo_prims demo_codec demo_env (Query (Some 11)) t = (t', out2, nxt)"
    by (cases "select_arm demo_prims demo_codec demo_env (Query (Some 11)) t") auto
  have head: "admit_deferred demo_prims demo_env t = (t, no_output)" by (simp add: admit_deferred_def t(2))
  have parse: "demo_parse ''a'' = Some 11" by (simp add: demo_parse_def)
  have some: "\<not> (\<forall>(ck, route) \<in> set (st_by_route (lp_state t)). hm_get (rt_by_message route) 11 = None)" using t(3,4) by auto
  from votes_served_certified [OF t(1) head arm, of demo_parse "''a''", OF parse] arm some show ?thesis
    by (simp only: if_False) blast
qed

section \<open>Scrapes\<close>

text \<open>C35. A scrape tells what the health registry knows. After \<^verbatim>\<open>GET /metrics\<close> every registered worker has both of its
  gauges: the timestamp, although a floating-point number of seconds, rounds back to the very millisecond of its last
  success (until the year 144,000), and the degraded gauge is 1 exactly if \<^verbatim>\<open>/health\<close> would name the worker as degraded.\<close>

theorem scrape_faithful:
  assumes "router encode parse now accepted reply GetMetrics s = (s', r)" and "hm_ok (hl_components (hs_health s))"
    and "hm_get (hl_components (hs_health s)) w = Some c" and "unat (hc_last_ok c) < 2 ^ 52"
  shows "\<exists>t d. hm_get (rm_worker_last_success (hs_metrics s')) w = Some t \<and> \<lfloor>f64_val t * 1000 + 1 / 2\<rfloor> = uint (hc_last_ok c)
    \<and> hm_get (rm_worker_degraded (hs_metrics s')) w = Some d
    \<and> d = (if w \<in> set (hr_degraded (fst (snd (health_report now (hs_health s))))) then 1 else 0)"
proof -
  have s': "s' = scrape now s" using assms(1) by (auto simp: router_def Let_def)
  have "fst (snd (health_report now (hs_health s))) = status now (hs_health s)" by (simp add: health_report_def Let_def)
  with scraped_worker [OF assms(2,3), of now] millis_roundtrip [OF assms(4)] show ?thesis
    unfolding s' uint_nat by (intro exI conjI) simp_all
qed

theorem scrape_faithful_witness:
  "\<exists>t. hm_get (rm_worker_last_success (hs_metrics (fst (router (\<lambda>_. []) demo_parse 400000 False (\<lambda>_. None) GetMetrics
      (demo_http\<lparr>hs_health := heartbeat 123456 ''pool'' (health_new PROGRESS_DEADLINE)\<rparr>))))) ''pool'' = Some t
    \<and> \<lfloor>f64_val t * 1000 + 1 / 2\<rfloor> = 123456"
proof -
  let ?s = "demo_http\<lparr>hs_health := heartbeat 123456 ''pool'' (health_new PROGRESS_DEADLINE)\<rparr>"
  have comp: "hl_components (hs_health ?s) = [(''pool'', \<lparr>hc_last_ok = 123456, hc_last_err = 0\<rparr>)]"
    by (simp add: heartbeat_def component_of_def default_component_def health_new_def)
  obtain s' r where run: "router (\<lambda>_. []) demo_parse 400000 False (\<lambda>_. None) GetMetrics ?s = (s', r)" by fastforce
  have ok: "hm_ok (hl_components (hs_health ?s))"
    and reg: "hm_get (hl_components (hs_health ?s)) ''pool'' = Some \<lparr>hc_last_ok = 123456, hc_last_err = 0\<rparr>"
    unfolding comp by (simp_all add: hm_ok_def)
  have "unat (hc_last_ok \<lparr>hc_last_ok = 123456, hc_last_err = 0\<rparr>) < 2 ^ 52" by simp
  from scrape_faithful [OF run ok reg this] run show ?thesis by auto
qed

end
