(* ===== verification/Receipt.thy ===== *)
theory Receipt
  imports Prelude
begin

text \<open>
  Waiting for a transaction receipt by polling (\<^verbatim>\<open>message-relayer/src/receipt.rs\<close>), and the time limit every caller
  puts around it. The answers of the node and the time each request takes are inputs. The loop alone may never
  end; under a limit it does, with the same result whenever that arrives in time.
\<close>

definition RECEIPT_POLL_INTERVAL :: duration where "RECEIPT_POLL_INTERVAL = secs 2"

text \<open>An answer: an error, no receipt yet, or the receipt.\<close>

type_synonym ('e, 'r) receipt_answer = "'e + 'r option"

fun settled_answer :: "('e, 'r) receipt_answer \<Rightarrow> ('e + 'r) option" where
  "settled_answer (Inl e) = Some (Inl e)"
| "settled_answer (Inr (Some r)) = Some (Inr r)"
| "settled_answer (Inr None) = None"

partial_function (option) await_receipt :: "(nat \<Rightarrow> ('e, 'r) receipt_answer) \<Rightarrow> nat \<Rightarrow> ('e + 'r) option" where
  "await_receipt answers n =
     (case answers n of
        Inl e \<Rightarrow> Some (Inl e)
      | Inr (Some r) \<Rightarrow> Some (Inr r)
      | Inr None \<Rightarrow> await_receipt answers (Suc n))"

text \<open>\<^verbatim>\<open>timeout(limit, await_receipt(..))\<close>, from poll \<open>n\<close> at time \<open>t\<close>: the wait ends when the limit passes during a request or a sleep.\<close>

datatype ('e, 'r) waited = Elapsed | Answered "'e + 'r"

function wait_receipt ::
  "duration \<Rightarrow> (nat \<Rightarrow> duration) \<Rightarrow> (nat \<Rightarrow> ('e, 'r) receipt_answer) \<Rightarrow> nat \<Rightarrow> duration \<Rightarrow> ('e, 'r) waited" where
  "wait_receipt limit latency answers n t =
     (if limit < t + latency n then Elapsed
      else case settled_answer (answers n) of
             Some x \<Rightarrow> Answered x
           | None \<Rightarrow> wait_receipt limit latency answers (Suc n) (t + latency n + RECEIPT_POLL_INTERVAL))"
  by pat_completeness auto
termination
  by (relation "measure (\<lambda>(limit, _, _, _, t). Suc limit - t)") (auto simp: RECEIPT_POLL_INTERVAL_def secs_def)

declare wait_receipt.simps [simp del]

section \<open>When it answers\<close>

text \<open>The first poll at or after \<open>n\<close> with an answer, and the time that answer is there.\<close>

definition answers_at :: "(nat \<Rightarrow> ('e, 'r) receipt_answer) \<Rightarrow> nat \<Rightarrow> nat \<Rightarrow> 'e + 'r \<Rightarrow> bool" where
  "answers_at answers n k x \<longleftrightarrow> n \<le> k \<and> (\<forall>i. n \<le> i \<and> i < k \<longrightarrow> settled_answer (answers i) = None) \<and> settled_answer (answers k) = Some x"

definition answer_time :: "(nat \<Rightarrow> duration) \<Rightarrow> nat \<Rightarrow> nat \<Rightarrow> duration" where
  "answer_time latency n k = (\<Sum>i = n..<k. latency i + RECEIPT_POLL_INTERVAL) + latency k"

lemma answers_at_here: "settled_answer (answers n) = Some x \<Longrightarrow> answers_at answers n k y \<longleftrightarrow> k = n \<and> y = x"
  by (cases "n < k") (auto simp: answers_at_def)

lemma answers_at_later:
  assumes "settled_answer (answers n) = None"
  shows "answers_at answers n k x \<longleftrightarrow> answers_at answers (Suc n) k x"
proof
  assume at: "answers_at answers n k x"
  with assms have "n \<noteq> k" by (auto simp: answers_at_def)
  with at show "answers_at answers (Suc n) k x" by (auto simp: answers_at_def)
next
  assume "answers_at answers (Suc n) k x"
  with assms show "answers_at answers n k x" by (auto simp: answers_at_def) (metis Suc_leI le_neq_implies_less)
qed

lemma answer_time_later: "Suc n \<le> k \<Longrightarrow> answer_time latency n k = latency n + RECEIPT_POLL_INTERVAL + answer_time latency (Suc n) k"
  by (simp add: answer_time_def sum.atLeast_Suc_lessThan)

lemma await_receipt_answers: "answers_at answers n k x \<Longrightarrow> await_receipt answers n = Some x"
proof (induction "k - n" arbitrary: n)
  case 0
  then have "k = n" by (simp add: answers_at_def)
  with 0 show ?case
    by (subst await_receipt.simps) (auto simp: answers_at_def elim!: settled_answer.elims split: sum.split option.split)
next
  case (Suc d)
  then have later: "settled_answer (answers n) = None" by (auto simp: answers_at_def)
  with Suc.prems have "answers_at answers (Suc n) k x" by (simp add: answers_at_later)
  with Suc.hyps have "await_receipt answers (Suc n) = Some x" by simp
  moreover have "answers n = Inr None" using later by (cases "answers n" rule: settled_answer.cases) auto
  ultimately show ?case by (subst await_receipt.simps) simp
qed

lemma wait_receipt_answered:
  "wait_receipt limit latency answers n t = Answered x \<longleftrightarrow> (\<exists>k. answers_at answers n k x \<and> t + answer_time latency n k \<le> limit)"
proof (induction limit latency answers n t rule: wait_receipt.induct)
  case (1 limit latency answers n t)
  have first: "t + latency n \<le> t + answer_time latency n k" if "n \<le> k" for k
  proof (cases "n = k")
    case True
    then show ?thesis by (simp add: answer_time_def)
  next
    case False
    with that show ?thesis by (simp add: answer_time_later)
  qed
  show ?case
  proof (cases "limit < t + latency n")
    case True
    then have "wait_receipt limit latency answers n t = Elapsed" by (simp add: wait_receipt.simps)
    moreover have "\<not> t + answer_time latency n k \<le> limit" if "answers_at answers n k x" for k
      using first [of k] that True by (simp add: answers_at_def)
    ultimately show ?thesis by auto
  next
    case False
    show ?thesis
    proof (cases "settled_answer (answers n)")
      case None
      have "wait_receipt limit latency answers n t = wait_receipt limit latency answers (Suc n) (t + latency n + RECEIPT_POLL_INTERVAL)"
        using False None by (subst wait_receipt.simps) simp
      also have "(\<dots> = Answered x) = (\<exists>k. answers_at answers (Suc n) k x \<and> t + latency n + RECEIPT_POLL_INTERVAL + answer_time latency (Suc n) k \<le> limit)"
        by (rule 1 [OF False None])
      also have "\<dots> = (\<exists>k. answers_at answers n k x \<and> t + answer_time latency n k \<le> limit)"
      proof (intro iff_exI conj_cong)
        fix k
        show "answers_at answers (Suc n) k x = answers_at answers n k x"
          using answers_at_later [where answers = answers and n = n] None by simp
        assume "answers_at answers n k x"
        with None have "n < k" using answers_at_here [of answers n] by (cases "n = k") (auto simp: answers_at_def)
        then show "(t + latency n + RECEIPT_POLL_INTERVAL + answer_time latency (Suc n) k \<le> limit) = (t + answer_time latency n k \<le> limit)"
          by (simp add: answer_time_later add.assoc)
      qed
      finally show ?thesis .
    next
      case (Some y)
      with False have "wait_receipt limit latency answers n t = Answered y" by (subst wait_receipt.simps) simp
      with False show ?thesis by (auto simp: answers_at_here [where answers = answers, OF Some] answer_time_def)
    qed
  qed
qed

text \<open>Polls are at least two seconds apart, which bounds how many fit into the limit.\<close>

lemma answer_time_polls: "(k - n) * RECEIPT_POLL_INTERVAL \<le> answer_time latency n k"
proof -
  have "(k - n) * RECEIPT_POLL_INTERVAL = (\<Sum>i = n..<k. RECEIPT_POLL_INTERVAL)" by simp
  also have "\<dots> \<le> (\<Sum>i = n..<k. latency i + RECEIPT_POLL_INTERVAL)" by (rule sum_mono) simp
  finally show ?thesis by (simp add: answer_time_def)
qed

end
