(* ===== verification/Work_Dir.thy ===== *)
theory Work_Dir
  imports Prelude "HOL-Library.Sublist"
begin

text \<open>
  Creating the directory of a route durably (\<^verbatim>\<open>create_dir_durable\<close> and \<^verbatim>\<open>sync_directory\<close> of
  \<^verbatim>\<open>message-relayer/src/work.rs\<close>). A new directory survives a crash only once the directory that lists it was
  synced. The state is what exists and what of it is on disk for good; every call to the file system may fail,
  and a crash may drop what is not durable. Paths are relative, as lists of components.
\<close>

type_synonym path = "string list"

record dir_state =
  dd_dirs :: "path list"
  dd_durable :: "path list"

datatype mkdir_answer = MkdirCreated | MkdirExists | MkdirFailed

text \<open>\<open>MkdirExists\<close>: someone else created it in between; anything else that exists there is a failure.\<close>

record dir_faults =
  df_sync :: "path \<Rightarrow> bool"
  df_mkdir :: "path \<Rightarrow> mkdir_answer"

definition sync_directory :: "dir_faults \<Rightarrow> path \<Rightarrow> dir_state \<Rightarrow> dir_state \<times> bool" where
  "sync_directory F p s =
     (if (p = [] \<or> p \<in> set (dd_dirs s)) \<and> df_sync F p
      then (s\<lparr>dd_durable := dd_durable s @ filter (\<lambda>d. d \<noteq> [] \<and> butlast d = p) (dd_dirs s)\<rparr>, True)
      else (s, False))"

definition make_directory :: "dir_faults \<Rightarrow> path \<Rightarrow> dir_state \<Rightarrow> dir_state \<times> bool" where
  "make_directory F p s =
     (case df_mkdir F p of
        MkdirFailed \<Rightarrow> (s, False)
      | _ \<Rightarrow> (s\<lparr>dd_dirs := p # dd_dirs s\<rparr>, True))"

text \<open>The parent of a single component is the empty path, which stands for the current directory.\<close>

function create_dir_durable :: "dir_faults \<Rightarrow> path \<Rightarrow> dir_state \<Rightarrow> dir_state \<times> bool" where
  "create_dir_durable F p s =
     (if p = [] then (s, True)
      else if p \<in> set (dd_dirs s) then sync_directory F (butlast p) s
      else case create_dir_durable F (butlast p) s of
             (s1, False) \<Rightarrow> (s1, False)
           | (s1, True) \<Rightarrow>
               (case make_directory F p s1 of
                  (s2, False) \<Rightarrow> (s2, False)
                | (s2, True) \<Rightarrow> sync_directory F (butlast p) s2))"
  by pat_completeness auto
termination
  by (relation "measure (\<lambda>(_, p, _). length p)") auto

declare create_dir_durable.simps [simp del]

text \<open>Every directory that exists sits in one that is durable; only the last entry of a path may be lost.\<close>

definition dirs_ok :: "dir_state \<Rightarrow> bool" where
  "dirs_ok s \<longleftrightarrow> set (dd_durable s) \<subseteq> set (dd_dirs s) \<and> [] \<notin> set (dd_dirs s) \<and>
     (\<forall>d \<in> set (dd_dirs s). butlast d = [] \<or> butlast d \<in> set (dd_durable s))"

text \<open>What a crash leaves: all that is durable and some of the rest.\<close>

definition crashed :: "dir_state \<Rightarrow> dir_state \<Rightarrow> bool" where
  "crashed s t \<longleftrightarrow> set (dd_durable s) \<subseteq> set (dd_durable t) \<and> set (dd_durable t) \<subseteq> set (dd_dirs t) \<and> set (dd_dirs t) \<subseteq> set (dd_dirs s)"

lemma crashed_ok: "dirs_ok s \<Longrightarrow> crashed s t \<Longrightarrow> dirs_ok t"
  by (auto simp: dirs_ok_def crashed_def)

lemma sync_directory_ok:
  assumes "dirs_ok s" "sync_directory F p s = (t, b)"
  shows "dirs_ok t" "set (dd_dirs t) = set (dd_dirs s)" "set (dd_durable s) \<subseteq> set (dd_durable t)"
    "b \<Longrightarrow> d \<in> set (dd_dirs s) \<Longrightarrow> butlast d = p \<Longrightarrow> d \<in> set (dd_durable t)"
  using assms by (auto simp: sync_directory_def dirs_ok_def split: if_splits)

lemma durable_prefixes:
  assumes "dirs_ok s" "d \<in> set (dd_durable s)" "prefix p d" "p \<noteq> []"
  shows "p \<in> set (dd_durable s)"
  using assms(2-)
proof (induction d rule: rev_induct)
  case Nil
  then show ?case by simp
next
  case (snoc c d)
  show ?case
  proof (cases "p = d @ [c]")
    case True
    with snoc.prems show ?thesis by simp
  next
    case False
    with snoc.prems have p: "prefix p d" by (simp add: prefix_snoc)
    with snoc.prems(3) have "d \<noteq> []" by auto
    moreover have "d @ [c] \<in> set (dd_dirs s)" using assms(1) snoc.prems(1) by (auto simp: dirs_ok_def)
    ultimately have "d \<in> set (dd_durable s)" using assms(1) by (force simp: dirs_ok_def)
    from snoc.IH [OF this p snoc.prems(3)] show ?thesis .
  qed
qed

lemma create_dir_durable_ok:
  assumes "create_dir_durable F p s = (t, b)" "dirs_ok s"
  shows "dirs_ok t \<and> set (dd_dirs s) \<subseteq> set (dd_dirs t) \<and> set (dd_durable s) \<subseteq> set (dd_durable t) \<and> (b \<and> p \<noteq> [] \<longrightarrow> p \<in> set (dd_durable t))"
  using assms
proof (induction F p s arbitrary: t b rule: create_dir_durable.induct)
  case (1 F p s)
  consider (empty) "p = []" | (there) "p \<noteq> []" "p \<in> set (dd_dirs s)" | (new) "p \<noteq> []" "p \<notin> set (dd_dirs s)" by blast
  then show ?case
  proof cases
    case empty
    with 1 show ?thesis by (subst (asm) (2) create_dir_durable.simps) simp
  next
    case there
    with 1 have "sync_directory F (butlast p) s = (t, b)" by (subst (asm) (2) create_dir_durable.simps) simp
    from sync_directory_ok [OF 1(3) this] there show ?thesis by auto
  next
    case new
    obtain s1 b1 where rec: "create_dir_durable F (butlast p) s = (s1, b1)" by fastforce
    from 1(1) [OF new rec 1(3)] have ih: "dirs_ok s1" "set (dd_dirs s) \<subseteq> set (dd_dirs s1)" "set (dd_durable s) \<subseteq> set (dd_durable s1)"
      "b1 \<Longrightarrow> butlast p \<noteq> [] \<Longrightarrow> butlast p \<in> set (dd_durable s1)" by auto
    show ?thesis
    proof (cases b1)
      case False
      with 1(2) new rec ih show ?thesis by (subst (asm) create_dir_durable.simps) auto
    next
      case True
      obtain s2 b2 where mk: "make_directory F p s1 = (s2, b2)" by fastforce
      have par: "butlast p = [] \<or> butlast p \<in> set (dd_durable s1)" using ih(4) True by blast
      have s2: "dirs_ok s2" "set (dd_dirs s1) \<subseteq> set (dd_dirs s2)" "dd_durable s2 = dd_durable s1" "b2 \<Longrightarrow> p \<in> set (dd_dirs s2)"
        using mk ih(1) par new(1) by (auto simp: make_directory_def dirs_ok_def split: mkdir_answer.splits)
      show ?thesis
      proof (cases b2)
        case False
        with 1(2) new rec True mk ih s2 show ?thesis by (subst (asm) create_dir_durable.simps) auto
      next
        case b2: True
        with 1(2) new rec True mk have "sync_directory F (butlast p) s2 = (t, b)" by (subst (asm) create_dir_durable.simps) simp
        from sync_directory_ok [OF s2(1) this] s2 b2 ih show ?thesis by auto
      qed
    qed
  qed
qed

end
