(* ===== verification/Observer_Node.thy ===== *)
theory Observer_Node
  imports Observer Prom Supervisor
begin

text \<open>
  The observer process around its tasks: the metric registry (\<^verbatim>\<open>observer-node/src/metrics.rs\<close>), the fan-out hub
  (\<^verbatim>\<open>observer-node/src/hub.rs\<close>) and \<^verbatim>\<open>Server::run\<close> (\<^verbatim>\<open>observer-node/src/lib.rs\<close>). The broadcast channel behind
  the hub is a library and a parameter, as is the text encoding of the registry.
\<close>

section \<open>Metrics\<close>

record observer_metrics =
  nm_registry :: "(string \<times> registered) list"
  nm_events :: "(event_kind \<times> event_outcome, u64) hash_map"
  nm_ws_clients :: i64
  nm_ws_client_lag_drops :: u64
  nm_subscribed_peers :: "(u64, i64) hash_map"
  nm_reobservations_published :: u64

definition observer_metrics_new :: observer_metrics where
  "observer_metrics_new =
     \<lparr>nm_registry =
        [(''observer_events'', CounterFamily), (''observer_ws_clients'', GaugeMetric),
         (''observer_ws_client_lag_drops'', CounterMetric), (''observer_subscribed_peers'', GaugeFamily),
         (''observer_reobservations_published'', CounterMetric)],
      nm_events = [], nm_ws_clients = 0, nm_ws_client_lag_drops = 0, nm_subscribed_peers = [], nm_reobservations_published = 0\<rparr>"

definition inc_event :: "event_kind \<Rightarrow> event_outcome \<Rightarrow> observer_metrics \<Rightarrow> observer_metrics" where
  "inc_event kind oc m = m\<lparr>nm_events := family_inc (kind, oc) (nm_events m)\<rparr>"

definition set_ws_clients :: "i64 \<Rightarrow> observer_metrics \<Rightarrow> observer_metrics" where
  "set_ws_clients n m = m\<lparr>nm_ws_clients := n\<rparr>"

definition inc_lag_drop :: "observer_metrics \<Rightarrow> observer_metrics" where
  "inc_lag_drop m = m\<lparr>nm_ws_client_lag_drops := nm_ws_client_lag_drops m + 1\<rparr>"

definition set_subscribed_peers :: "u64 \<Rightarrow> i64 \<Rightarrow> observer_metrics \<Rightarrow> observer_metrics" where
  "set_subscribed_peers ck n m = m\<lparr>nm_subscribed_peers := family_set ck n (nm_subscribed_peers m)\<rparr>"

definition inc_reobservation_published :: "observer_metrics \<Rightarrow> observer_metrics" where
  "inc_reobservation_published m = m\<lparr>nm_reobservations_published := nm_reobservations_published m + 1\<rparr>"

text \<open>\<^verbatim>\<open>i64::try_from(n).unwrap_or(i64::MAX)\<close>, and what the calls recorded by the tasks do to the registry.\<close>

definition i64_or_max :: "nat \<Rightarrow> i64" where
  "i64_or_max n = (if n < 2 ^ 63 then of_nat n else 0x7FFFFFFFFFFFFFFF)"

fun note_observer_metric :: "observer_metric \<Rightarrow> observer_metrics \<Rightarrow> observer_metrics" where
  "note_observer_metric (IncEvent kind oc) m = inc_event kind oc m"
| "note_observer_metric (SubscribedPeers ck n) m = set_subscribed_peers ck (i64_or_max n) m"
| "note_observer_metric IncReobservationPublished m = inc_reobservation_published m"
| "note_observer_metric IncLagDrop m = inc_lag_drop m"
| "note_observer_metric (WsClients n) m = set_ws_clients (i64_or_max n) m"

section \<open>The hub\<close>

definition HUB_CAPACITY :: nat where "HUB_CAPACITY = 8192"

record ('tx, 'rx) broadcast_lib =
  bl_channel :: "nat \<Rightarrow> 'tx \<times> 'rx"
  bl_send :: "observer_event \<Rightarrow> 'tx \<Rightarrow> 'tx \<times> bool"
  bl_subscribe :: "'tx \<Rightarrow> 'tx \<times> 'rx"
  bl_receiver_count :: "'tx \<Rightarrow> nat"

definition hub_new :: "('tx, 'rx) broadcast_lib \<Rightarrow> 'tx" where
  "hub_new B = fst (bl_channel B HUB_CAPACITY)"

text \<open>A send without subscribers is no error.\<close>

definition hub_publish :: "('tx, 'rx) broadcast_lib \<Rightarrow> observer_event \<Rightarrow> 'tx \<Rightarrow> 'tx" where
  "hub_publish B ev tx = fst (bl_send B ev tx)"

definition hub_subscribe :: "('tx, 'rx) broadcast_lib \<Rightarrow> 'tx \<Rightarrow> 'tx \<times> 'rx" where
  "hub_subscribe B tx = bl_subscribe B tx"

definition subscriber_count :: "('tx, 'rx) broadcast_lib \<Rightarrow> 'tx \<Rightarrow> nat" where
  "subscriber_count B tx = bl_receiver_count B tx"

section \<open>The process\<close>

definition PUBLISH_CHANNEL_CAP :: nat where "PUBLISH_CHANNEL_CAP = 64"

datatype observer_worker = ObserverSwarm | ObserverHttp

definition observer_run ::
  "bool \<Rightarrow> bool \<Rightarrow> observer_config \<Rightarrow> (reobservation_request \<Rightarrow> try_send)
    \<Rightarrow> observer_server_error + (ws_state \<times> observer_worker server)" where
  "observer_run host_parses binds c send =
     (case observer_serve host_parses binds c send of
        Inl e \<Rightarrow> Inl e
      | Inr st \<Rightarrow> Inr (st, supervise [ObserverSwarm, ObserverHttp]))"

text \<open>The observer is down after at most four steps of its supervisor.\<close>

lemma observer_winds_down:
  assumes "observer_run host_parses binds c send = Inr (st, s0)" and "server_run s0 es s"
  shows "length es \<le> 4" "\<not> sv_returned s \<Longrightarrow> \<exists>e t. server_step s e t"
proof -
  have "s0 = supervise [ObserverSwarm, ObserverHttp]" using assms(1) by (auto simp: observer_run_def split: sum.splits)
  with assms(2) supervised_run(1,4) [of "[ObserverSwarm, ObserverHttp]" es s]
  show "length es \<le> 4" "\<not> sv_returned s \<Longrightarrow> \<exists>e t. server_step s e t" by simp_all
qed

text \<open>The registry shows the count that was published last.\<close>

lemma exported_peers:
  "hm_get (nm_subscribed_peers (fold note_observer_metric (ms @ [SubscribedPeers ck n]) m)) ck = Some (i64_or_max n)"
  by (simp add: set_subscribed_peers_def family_set_def update_conv')

end
