(* ===== verification/Process_Theorems.thy ===== *)
theory Process_Theorems
  imports Config_Theorems Receipt Work_Dir Observer_Node
begin

text \<open>
  Properties of the process around the workers: that it winds down, that a wait for a receipt ends, and that the
  directory of a route survives a crash.
\<close>



text \<open>C33. A wait for a receipt ends, and with the right answer. Polling alone may go on for ever; under a time limit it
  returns, and returns an answer exactly if polling would return it and it is there in time; it gives up only when
  every answer comes too late. An answer at the k-th repetition has taken at least 2k seconds.\<close>

theorem receipt_wait_exact:
  shows "case wait_receipt limit latency answers 0 0 of
      Answered x \<Rightarrow> await_receipt answers 0 = Some x \<and>
        (\<exists>k. answers_at answers 0 k x \<and> answer_time latency 0 k \<le> limit \<and> k * RECEIPT_POLL_INTERVAL \<le> limit)
    | Elapsed \<Rightarrow> (\<forall>k x. answers_at answers 0 k x \<longrightarrow> limit < answer_time latency 0 k)"
proof (cases "wait_receipt limit latency answers 0 0")
  case Elapsed
  then have "\<not> (\<exists>k. answers_at answers 0 k x \<and> 0 + answer_time latency 0 k \<le> limit)" for x
    using wait_receipt_answered [of limit latency answers 0 0 x] by simp
  with Elapsed show ?thesis by (auto simp: not_le)
next
  case (Answered x)
  then obtain k where k: "answers_at answers 0 k x" "answer_time latency 0 k \<le> limit"
    using wait_receipt_answered [of limit latency answers 0 0 x] by auto
  with answer_time_polls [of k 0 latency] have "k * RECEIPT_POLL_INTERVAL \<le> limit" by simp
  with k await_receipt_answers [OF k(1)] Answered show ?thesis by auto
qed

definition late_receipt :: "nat \<Rightarrow> (string, nat) receipt_answer" where
  "late_receipt i = (if i < 2 then Inr None else Inr (Some 7))"

theorem receipt_wait_exact_witness:
  "answers_at late_receipt 0 2 (Inr 7)
   \<and> (case wait_receipt (secs 60) (\<lambda>_. 0) late_receipt 0 0 of Elapsed \<Rightarrow> False | Answered x \<Rightarrow> await_receipt late_receipt 0 = Some x)"
proof -
  have at: "answers_at late_receipt 0 2 (Inr 7)" by (auto simp: answers_at_def late_receipt_def)
  have "answer_time (\<lambda>_. 0) 0 2 \<le> secs 60" by (simp add: answer_time_def RECEIPT_POLL_INTERVAL_def secs_def)
  with at receipt_wait_exact [where limit = "secs 60" and latency = "\<lambda>_. 0" and answers = late_receipt] show ?thesis
    by (auto simp: not_less [symmetric] split: waited.splits)
qed

text \<open>C22. The directory of a route survives crashes. Start from directories of which all but possibly the innermost are
  durable, as every earlier call and crash leaves them. Whatever call to the file system fails, no directory is lost
  and that condition holds again, also after a crash at this point; and if the creation reports success, the
  directory and all its ancestors are durable.\<close>

theorem work_directory_durable:
  assumes "dirs_ok s" and "create_dir_durable F p s = (t, ok)"
  shows "dirs_ok t \<and> set (dd_dirs s) \<subseteq> set (dd_dirs t) \<and> set (dd_durable s) \<subseteq> set (dd_durable t)
    \<and> (\<forall>u. crashed t u \<longrightarrow> dirs_ok u)
    \<and> (ok \<longrightarrow> (\<forall>q. prefix q p \<and> q \<noteq> [] \<longrightarrow> q \<in> set (dd_durable t)))"
proof -
  note c = create_dir_durable_ok [OF assms(2,1)]
  moreover have "q \<in> set (dd_durable t)" if "ok" "prefix q p" "q \<noteq> []" for q
  proof -
    have "p \<noteq> []" using that(2,3) by auto
    with c that(1) have "p \<in> set (dd_durable t)" by blast
    with c that(2,3) durable_prefixes show ?thesis by blast
  qed
  ultimately show ?thesis using crashed_ok by blast
qed

theorem work_directory_durable_witness:
  "\<exists>t. create_dir_durable \<lparr>df_sync = \<lambda>_. True, df_mkdir = \<lambda>_. MkdirCreated\<rparr> [''data'', ''work'', ''7''] \<lparr>dd_dirs = [[''data'']], dd_durable = []\<rparr> = (t, True)
     \<and> [''data''] \<in> set (dd_durable t) \<and> [''data'', ''work'', ''7''] \<in> set (dd_durable t)"
proof -
  let ?F = "\<lparr>df_sync = \<lambda>_. True, df_mkdir = \<lambda>_. MkdirCreated\<rparr>"
  have ok: "dirs_ok \<lparr>dd_dirs = [[''data'']], dd_durable = []\<rparr>" by (simp add: dirs_ok_def)
  obtain t where run: "create_dir_durable ?F [''data'', ''work'', ''7''] \<lparr>dd_dirs = [[''data'']], dd_durable = []\<rparr> = (t, True)"
    by (simp add: create_dir_durable.simps make_directory_def sync_directory_def)
  from work_directory_durable [OF ok run] have
    "\<forall>q. prefix q [''data'', ''work'', ''7''] \<and> q \<noteq> [] \<longrightarrow> q \<in> set (dd_durable t)" by blast
  moreover have "prefix [''data''] [''data'', ''work'', ''7'']" by simp
  ultimately show ?thesis using run by blast
qed

end
