(* ===== verification/Spec2Isabelle.thy ===== *)
theory Spec2Isabelle
  imports Pool_Theorems Delivery_Theorems Work_Theorems Component_Theorems Scanner_Theorems Claim_Theorems Ack_Theorems
    Set_Update_Theorems Config_Theorems Health_Theorems Broadcast_Theorems Observer_Theorems System_Theorems
    Prom_Theorems Process_Theorems
begin

text \<open>
  A verification development for the message relayer: the crate \<^verbatim>\<open>message-relayer\<close>, the protocol crate
  \<^verbatim>\<open>write-ability\<close> as far as the relayer uses it, and the sibling \<^verbatim>\<open>observer-node\<close>.

  \<^bold>\<open>The program.\<close> Attestors watch the Outbox contracts of a source chain and gossip signed votes for
  every message published there. For each configured route the relayer discovers the messages itself, collects votes
  until a quorum of the route's attestor set has signed, delivers message and signatures to the Inbox of the
  destination, and afterwards settles: it acknowledges deliveries on the source chain and claims
  locked funds with proofs. Messages that are discovered but not settled are kept on disk. The workers are tasks that share
  channels, a health registry, a work directory, a checkpoint file and per-signer broadcast slots.

  \<^bold>\<open>How the code is translated.\<close> Structs are records, enums datatypes, machine integers words of their width with
  Rust's saturating operations, maps association lists with distinct (hash map) or ascending (ordered map) keys
  (\<open>Prelude\<close>). A result is a sum whose left side is an error datatype; a panic is \<open>None\<close> or an error of its own. A
  task is a function for one turn of its select loop, from a state and an input to a state and
  what it sends, writes or counts. What a node, a disk, a clock, a channel or another process answers is an input
  of the step that asks, so that a theorem covers every fault and interleaving; where the history matters, the
  steps form an inductive relation with crashes and restarts, and invariants hold in its reachable states. Keccak, ABI,
  JSON, YAML and SCALE codecs, key derivation and ecrecover are parameters in records such as \<open>primitives\<close>, \<open>work_codec\<close>,
  \<open>claim_abi\<close> or \<open>envelope_codec\<close>; the few laws a theorem needs of them are named predicates such as
  \<open>message_codec_ok\<close> or \<open>json_law\<close>, and a concrete codec satisfies each of them in a witness.
  Log lines are left out, metrics and events appear where their value matters.

  \<^bold>\<open>Theories and sources\<close> (under \<^verbatim>\<open>src/message-relayer/src\<close> unless said otherwise).

  \<^item> \<open>Prelude\<close>, \<open>Text\<close>, \<open>Messages\<close>: words, time, maps, strings and hexadecimal texts; the data on the channels with the
    envelopes of \<^verbatim>\<open>write-ability/src/envelope.rs\<close>. The interfaces \<open>map_impl\<close>, \<open>backoff\<close> and
    \<open>invariant_system\<close> are interpreted by the maps, the five retry schedules and the transition systems.
  \<^item> \<open>Checkpoint\<close> (\<^verbatim>\<open>checkpoint.rs\<close>) and \<open>Work\<close> (\<^verbatim>\<open>work.rs\<close>): the two durable stores with a fault at each file operation.
    \<open>Work_Correct\<close> proves the bounded directory pass equal to sorting and taking a window, and the store an
    instance of \<open>durable_backlog\<close>; \<open>Work_Theorems\<close> shows it to its users. \<open>Work_Dir\<close> is the durable creation of a route's directory.
  \<^item> \<open>Pool\<close>, \<open>Pool_Run\<close> (\<^verbatim>\<open>pool/mod.rs\<close>): the vote pool, one function per method of its state, and the task with its biased select,
    refill and dispatch. \<open>Pool_Invariant\<close> is the representation invariant, \<open>Pool_Dispatch\<close> the quorum
    certificate and the launches, \<open>Pool_Backlog\<close> that nothing unfinished is dropped, \<open>Pool_Loop\<close> the transition system.
  \<^item> \<open>Classify\<close>, \<open>Failed_Retry\<close>, \<open>Delivery\<close> (\<^verbatim>\<open>delivery/mod.rs\<close>, \<^verbatim>\<open>delivery/failed_retry.rs\<close>, \<^verbatim>\<open>delivery/encode.rs\<close>): reading receipts and
    reverts, the ledger of execution retries with its sidecar, and a job from receipt to result.
    \<open>Delivery_Correct\<close> bounds and checks its transactions and justifies its verdicts, \<open>Delivery_Budget\<close>
    carries the retry budget over jobs and restarts, through the locales \<open>retry_sidecar\<close> and \<open>attempt_budget\<close>.
  \<^item> \<open>Scanner\<close>, \<open>Finality\<close>, \<open>Rpc\<close> (\<^verbatim>\<open>events/mod.rs\<close>, \<^verbatim>\<open>events/authority.rs\<close>, \<^verbatim>\<open>events/finality.rs\<close>, \<^verbatim>\<open>rpc.rs\<close>): discovery of
    source messages. \<open>Scanner_Correct\<close> proves caches transparent and ranges exact, \<open>Scanner_System\<close> puts watcher,
    checkpoint and work store into one system with crashes.
  \<^item> \<open>Pending\<close>, \<open>Bounded\<close>, \<open>Pacing\<close>, \<open>Revert\<close>, \<open>Proofgen\<close>, \<open>Settlement\<close> (\<^verbatim>\<open>pending.rs\<close>, \<^verbatim>\<open>outcome.rs\<close>, \<^verbatim>\<open>pacing.rs\<close>, \<^verbatim>\<open>revert.rs\<close>,
    \<^verbatim>\<open>proofgen.rs\<close>): what the submitters share; \<open>Outcome\<close> is the store of verdicts. Both bounded memories
    interpret \<open>bounded_fifo\<close>, and both submitters interpret \<open>settlement_worker\<close>.
  \<^item> \<open>Claim\<close> (\<^verbatim>\<open>claim/mod.rs\<close>), \<open>Ack\<close> and \<open>Ack_Routes\<close> (\<^verbatim>\<open>ack/mod.rs\<close>, \<^verbatim>\<open>ack/routes.rs\<close>): the submitters of claims and acknowledgments,
    and the recorded history of Outboxes; their \<open>_Correct\<close> theories show that no event is lost and why one leaves.
  \<^item> \<open>Attestor_Set\<close>, \<open>Set_Update\<close> (\<^verbatim>\<open>attestor_set.rs\<close>, \<^verbatim>\<open>set_update/mod.rs\<close>, \<^verbatim>\<open>write-ability/src/hash.rs\<close>): following the set on chain and
    aggregating votes for its updates; \<open>Set_Update_Correct\<close> is the aggregator with its history.
  \<^item> \<open>Health\<close>, \<open>Balance\<close>, \<open>Broadcast\<close> (\<^verbatim>\<open>health.rs\<close>, \<^verbatim>\<open>balance.rs\<close>, \<^verbatim>\<open>broadcast.rs\<close>): the registry and its verdict, the balance sweep,
    and the FIFO slots of signers with concurrent senders.
  \<^item> \<open>Config\<close>, \<open>Config_Load\<close>, \<open>Wiring\<close> (\<^verbatim>\<open>config.rs\<close>, \<^verbatim>\<open>bin/relayer.rs\<close>, \<^verbatim>\<open>lib.rs\<close>): the document with its defaults, its
    conversion, and the workers and channels started for it; \<open>Config_Correct\<close> is what loading promises.
  \<^item> \<open>Supervisor\<close> (\<^verbatim>\<open>lib.rs\<close>, \<^verbatim>\<open>src/observer-node/src/lib.rs\<close>), \<open>Receipt\<close> (\<^verbatim>\<open>receipt.rs\<close>): the join set both binaries drain, and the
    polling wait for a receipt under its time limit.
  \<^item> \<open>Prom\<close> (\<^verbatim>\<open>prom/mod.rs\<close>): the registry, every metric's operation, the gauges of a scrape and the HTTP handlers, over the
    double-precision arithmetic of \<open>F64\<close>. \<open>Delivery_Count\<close> relates the delivery counters to transactions.
  \<^item> \<open>Relayer_System\<close>: watcher, pool and delivery worker of a route in one transition system, with the channels between them,
    the work store they share, and the death and restart of the process at any point. \<open>System_Theorems\<close> has its
    property and a complete run, from the event on the source chain to the record taken off the disk.
  \<^item> \<open>Dest_Revert\<close> (\<^verbatim>\<open>dest_revert.rs\<close>): explaining a reverted destination call by code lookup and two replays.
  \<^item> \<open>Gossip\<close> (\<^verbatim>\<open>p2p/mod.rs\<close>, topics of \<^verbatim>\<open>write-ability/src/protocol.rs\<close>), \<open>Observer\<close> and \<open>Observer_Node\<close> (\<^verbatim>\<open>src/observer-node/src\<close>), \<open>Observer_Client\<close>
    (\<^verbatim>\<open>observer_client.rs\<close>): the two ways votes reach the pool, the relayer's own swarm and an observer node over a WebSocket.

  \<^bold>\<open>What is shown.\<close> The \<open>_Theorems\<close> theories hold the properties, each with a concrete instance.

  \<^item> Safety of delivery: a job carries a quorum of canonical signatures of distinct current attestors, a message has at most one
    delivery outstanding, transactions stay within the caps and were preflighted, a verdict has its
    evidence, the budget of execution retries holds within a process and, with a writable sidecar, across restarts.
  \<^item> Nothing is lost: messages between memory and disk in the pool, events between cursor and backlog in
    the scanner, messages across the composed route, locks and deliveries in the submitters, Outboxes in the recorded history,
    directories on the disk, through faults, crashes and restarts.
  \<^item> Progress: ready messages are dispatched, dense block ranges shrink until they can be read, the history reaches block
    zero, a gas bump grows, a bounded wait ends, the process winds down, the health verdict names the silent and the erring workers.
  \<^item> Agreement with a reference: caches change no decision, the outcome store is a bounded log, the watcher sends the reads without
    repetitions, the observer path hands over what the swarm path does, its gauge counts distinct peers, delivery counters
    balance with the transactions sent, a batch of outcomes is the single lookups, a scrape repeats the health registry.
  \<^item> The edges: which responses, documents and configurations are accepted, and that everything configured is wired.

  \<^bold>\<open>Bounds and recursion.\<close> Every loop but one is total with a measure of its own: the shrinking fetch on the span of
    the range, the history scans on the blocks left, eviction on the length of the queue, the send loop
    on the attempts left, the directory walk on the records not yet visited. No fuel is used. The exception is polling
  for a receipt, which may go on for ever and is a partial function; its callers' time limit makes it total. Numbers
    that the code bounds (attempts, capacities, intervals) are the constants of the sources.

  \<^bold>\<open>Not modelled.\<close> Swarm construction and \<^verbatim>\<open>p2p/behavior.rs\<close> (libp2p assembled from constants), the text encoding of metrics and
  their help texts, generated contract bindings (\<^verbatim>\<open>write-ability/src/abi.rs\<close>), the broadcast channel behind the observer's hub,
  argument parsing, and tests. The order of a hash map's iteration is that of the list, one of those the code may
  see. Tokio's scheduling is the choice of the next input; time is given with every input.

  \<^bold>\<open>What modelling showed.\<close> The places where the code departs from its intent or its comments are recorded beside the lemmas that
  exhibit them: error texts whose block numbers read as a rate limit (\<open>Claim_Theorems\<close>), a peer gauge that counts reconnects (\<open>Gossip\<close>), a
  read-only observer whose loop never waits (\<open>Observer\<close>), waits that a working session does not reset (\<open>Observer_Client\<close>), a missing section
  that changes the listen port (\<open>Config_Correct\<close>), repeated addresses in a static set (\<open>Wiring\<close>), and messages given up as under-funded that
  no counter shows (\<open>Delivery_Count\<close>).
\<close>

end
